(* ===== verification/Prelude.thy ===== *)
theory Prelude
  imports Main "HOL-Library.Word" "HOL-Library.Sublist" "HOL-Library.Multiset"
begin

text \<open>
  Shared vocabulary of the development: the machine-integer types of the Rust
  sources and their \<open>as\<close> / \<open>try_from\<close> conversions, Rust's \<open>Result<T, i64>\<close>, the
  little-endian byte codecs (\<open>to_le_bytes\<close> / \<open>from_le_bytes\<close>), slice updates,
  and the generic list lemmas the components use.  A host \<open>usize\<close> is a \<^typ>\<open>nat\<close>
  below \<open>2 ^ 64\<close>; an \<open>i64\<close> syscall argument or result is an \<^typ>\<open>int\<close>.
\<close>

unbundle bit_operations_syntax

named_theorems le_codec \<open>length and round-trip facts of the little-endian codecs\<close>
named_theorems slice_simps \<open>reading and writing byte ranges\<close>

type_synonym u8 = "8 word"
type_synonym u16 = "16 word"
type_synonym u32 = "32 word"
type_synonym u64 = "64 word"
type_synonym bytes = "u8 list"

text \<open>Rust's \<open>Result<T, i64>\<close>: \<open>Inl\<close> is \<open>Err(-errno)\<close>.\<close>

type_synonym 'a res = "int + 'a"

section \<open>Integer conversions\<close>

text \<open>\<open>x as i32\<close>, \<open>x as u32\<close>, \<open>x as u64\<close> on an \<open>i64\<close>: truncation to the width.\<close>

definition as_i32 :: "int \<Rightarrow> int" where
  "as_i32 x = signed_take_bit 31 x"

definition as_u32 :: "int \<Rightarrow> u32" where
  "as_u32 x = word_of_int x"

definition as_u64 :: "int \<Rightarrow> u64" where
  "as_u64 x = word_of_int x"

text \<open>\<open>u32::try_from(i64)\<close> and \<open>usize::try_from(i64)\<close>.\<close>

definition u32_try_from :: "int \<Rightarrow> u32 option" where
  "u32_try_from x = (if 0 \<le> x \<and> x < 2 ^ 32 then Some (word_of_int x) else None)"

definition usize_try_from :: "int \<Rightarrow> nat option" where
  "usize_try_from x = (if 0 \<le> x then Some (nat x) else None)"

text \<open>\<open>u32::checked_add\<close> and \<open>usize::checked_add\<close>.\<close>

definition u32_checked_add :: "u32 \<Rightarrow> u32 \<Rightarrow> u32 option" where
  "u32_checked_add a b = (if unat a + unat b < 2 ^ 32 then Some (a + b) else None)"

definition u32_checked_sub :: "u32 \<Rightarrow> u32 \<Rightarrow> u32 option" where
  "u32_checked_sub a b = (if b \<le> a then Some (a - b) else None)"

definition usize_checked_add :: "nat \<Rightarrow> nat \<Rightarrow> nat option" where
  "usize_checked_add a b = (if a + b < 2 ^ 64 then Some (a + b) else None)"

text \<open>\<open>u64::saturating_mul\<close>.\<close>

definition u64_saturating_mul :: "u64 \<Rightarrow> u64 \<Rightarrow> u64" where
  "u64_saturating_mul a b = (if unat a * unat b < 2 ^ 64 then a * b else - 1)"

text \<open>\<open>i64\<close> arithmetic and \<open>usize as i64\<close> wrap; \<open>i64::saturating_mul\<close>.\<close>

definition wrap_i64 :: "int \<Rightarrow> int" where
  "wrap_i64 x = signed_take_bit 63 x"

definition i64_saturating_mul :: "int \<Rightarrow> int \<Rightarrow> int" where
  "i64_saturating_mul a b = max (- (2 ^ 63)) (min (2 ^ 63 - 1) (a * b))"

lemma u32_try_from_Some:
  "u32_try_from x = Some w \<longleftrightarrow> 0 \<le> x \<and> x < 2 ^ 32 \<and> w = word_of_int x"
  by (auto simp: u32_try_from_def)

lemma u32_try_from_uint [simp]: "u32_try_from (uint (w :: u32)) = Some w"
  using uint_lt2p [of w] by (simp add: u32_try_from_def)

lemma u32_try_from_uint_inv: "u32_try_from x = Some w \<Longrightarrow> uint w = x"
  by (auto simp: u32_try_from_def uint_word_of_int split: if_splits)

lemma usize_try_from_Some:
  "usize_try_from x = Some n \<longleftrightarrow> 0 \<le> x \<and> n = nat x"
  by (auto simp: usize_try_from_def)

lemma u32_checked_add_Some:
  "u32_checked_add a b = Some c \<Longrightarrow> unat c = unat a + unat b"
  by (auto simp: u32_checked_add_def unat_word_ariths split: if_splits)

lemma u32_checked_sub_Some:
  "u32_checked_sub a b = Some c \<longleftrightarrow> unat b \<le> unat a \<and> c = a - b"
  by (auto simp: u32_checked_sub_def word_le_nat_alt)

lemma u32_checked_sub_unat:
  "u32_checked_sub a b = Some c \<Longrightarrow> unat c = unat a - unat b"
  by (auto simp: u32_checked_sub_Some unat_sub_if')

lemma unat32_less: "unat (w :: u32) < 2 ^ 32"
  using unsigned_less [of w] by simp

lemma unat_max32: "unat (- 1 :: u32) = 4294967295"
  by (simp add: unsigned_minus_1_eq_mask mask_eq_exp_minus_1)

lemma unat_succ32:
  assumes "(w :: u32) \<noteq> - 1"
  shows "unat (w + 1) = Suc (unat w)"
proof -
  from assms have "unat w \<noteq> unat (- 1 :: u32)"
    by (simp only: word_unat_eq_iff not_False_eq_True)
  with unat32_less [of w] have "unat w + 1 < 2 ^ 32" by (simp add: unat_max32)
  then show ?thesis by (simp add: unat_word_ariths)
qed

lemma le_succ32: "(w :: u32) \<noteq> - 1 \<Longrightarrow> w \<le> j \<longleftrightarrow> j = w \<or> w + 1 \<le> j"
  by (auto simp: word_le_nat_alt word_unat_eq_iff unat_succ32)

lemma less_succ32: "(w :: u32) \<noteq> - 1 \<Longrightarrow> j < w + 1 \<longleftrightarrow> j \<le> w"
  by (simp add: word_le_nat_alt word_less_nat_alt unat_succ32 less_Suc_eq_le)

lemma le_max32: "(- 1 :: u32) \<le> j \<longleftrightarrow> j = - 1"
proof
  assume "- 1 \<le> j"
  then have "unat (- 1 :: u32) \<le> unat j" by (simp only: word_le_nat_alt)
  with unat32_less [of j] have "unat j = unat (- 1 :: u32)" by (simp add: unat_max32)
  then show "j = - 1" by (simp only: word_unat_eq_iff)
qed simp

lemma unat_add_small:
  "unat (a :: u32) + unat b < 2 ^ 32 \<Longrightarrow> unat (a + b) = unat a + unat b"
  by (simp add: unat_word_ariths)

lemma unat_add_of_nat:
  assumes "unat (a :: u32) + n < 2 ^ 32"
  shows "unat (a + of_nat n) = unat a + n"
proof -
  have "unat (of_nat n :: u32) = n"
    using assms by (simp add: unat_of_nat)
  then show ?thesis using assms by (simp add: unat_word_ariths)
qed

section \<open>Little-endian codecs\<close>

fun le_bytes :: "nat \<Rightarrow> int \<Rightarrow> bytes" where
  "le_bytes 0 x = []"
| "le_bytes (Suc n) x = word_of_int x # le_bytes n (x div 256)"

fun le_uint :: "bytes \<Rightarrow> int" where
  "le_uint [] = 0"
| "le_uint (b # bs) = uint b + 256 * le_uint bs"

text \<open>The signed reading of a little-endian field (\<open>i64::from_le_bytes\<close>).\<close>

definition le_sint64 :: "bytes \<Rightarrow> int" where
  "le_sint64 bs = signed_take_bit 63 (le_uint bs)"

lemma length_le_bytes [simp, le_codec]: "length (le_bytes n x) = n"
  by (induction n arbitrary: x) auto

lemma uint_word_of_int_8: "uint (word_of_int x :: u8) = x mod 256"
  by (simp add: uint_word_of_int)

lemma le_uint_le_bytes [simp, le_codec]: "le_uint (le_bytes n x) = x mod 256 ^ n"
proof (induction n arbitrary: x)
  case (Suc n)
  have "x mod 256 + 256 * (x div 256 mod 256 ^ n) = x mod (256 * 256 ^ n)"
    by (simp add: zmod_zmult2_eq)
  with Suc show ?case by (simp add: uint_word_of_int_8)
qed simp

lemma uint8_less: "uint (b :: u8) < 256"
  using uint_lt2p [of b] by simp

lemma le_uint_nonneg [simp, le_codec]: "0 \<le> le_uint bs"
  by (induction bs) auto

lemma le_uint_less [le_codec]: "le_uint bs < 256 ^ length bs"
proof (induction bs)
  case (Cons b bs)
  then show ?case using uint8_less [of b] by simp
qed simp

lemma le_bytes_le_uint [le_codec]: "le_bytes (length bs) (le_uint bs) = bs"
proof (induction bs)
  case (Cons b bs)
  have "(256 :: u8) = 0" by simp
  then have "word_of_int (uint b + 256 * le_uint bs) = (word_of_int (uint b) :: u8)"
    by (simp only: wi_hom_add [symmetric] wi_hom_mult [symmetric] word_of_int_numeral) simp
  moreover have "(uint b + 256 * le_uint bs) div 256 = le_uint bs"
    using uint8_less [of b] by simp
  ultimately show ?case using Cons by simp
qed simp

lemma le_uint_append: "le_uint (xs @ ys) = le_uint xs + 256 ^ length xs * le_uint ys"
  by (induction xs) (auto simp: algebra_simps)

lemma le_u32_roundtrip [le_codec]: "word_of_int (le_uint (le_bytes 4 (uint (w :: u32)))) = w"
  using uint_lt2p [of w] by (simp add: mod_pos_pos_trivial)

lemma le_u64_roundtrip [le_codec]: "word_of_int (le_uint (le_bytes 8 (uint (w :: u64)))) = w"
  using uint_lt2p [of w] by (simp add: mod_pos_pos_trivial)

section \<open>Byte ranges\<close>

text \<open>\<open>base.get(p..e)\<close> and \<open>base[p..p + n].copy_from_slice(ys)\<close>.\<close>

definition slice :: "nat \<Rightarrow> nat \<Rightarrow> 'a list \<Rightarrow> 'a list" where
  "slice p n xs = take n (drop p xs)"

definition splice :: "nat \<Rightarrow> 'a list \<Rightarrow> 'a list \<Rightarrow> 'a list" where
  "splice p ys xs = take p xs @ ys @ drop (p + length ys) xs"

lemma length_slice [simp, slice_simps]: "p + n \<le> length xs \<Longrightarrow> length (slice p n xs) = n"
  by (simp add: slice_def)

lemma length_splice [simp, slice_simps]:
  "p + length ys \<le> length xs \<Longrightarrow> length (splice p ys xs) = length xs"
  by (simp add: splice_def)

lemma slice_splice_same [simp, slice_simps]:
  "p + length ys \<le> length xs \<Longrightarrow> n = length ys \<Longrightarrow> slice p n (splice p ys xs) = ys"
  by (simp add: slice_def splice_def)

lemma nth_splice:
  assumes "p + length ys \<le> length xs" "i < length xs"
  shows "splice p ys xs ! i = (if p \<le> i \<and> i < p + length ys then ys ! (i - p) else xs ! i)"
  using assms by (auto simp: splice_def nth_append min_def)

lemma nth_splice_outside [slice_simps]:
  "p + length ys \<le> length xs \<Longrightarrow> i < length xs \<Longrightarrow> i < p \<or> p + length ys \<le> i \<Longrightarrow>
    splice p ys xs ! i = xs ! i"
  by (auto simp: nth_splice)

lemma slice_nth [slice_simps]: "i < n \<Longrightarrow> p + n \<le> length xs \<Longrightarrow> slice p n xs ! i = xs ! (p + i)"
  by (simp add: slice_def)

lemma slice_splice_other [slice_simps]:
  assumes "p + length ys \<le> length xs" "q + n \<le> length xs" "q + n \<le> p \<or> p + length ys \<le> q"
  shows "slice q n (splice p ys xs) = slice q n xs"
  using assms by (intro nth_equalityI) (auto simp: slice_nth nth_splice)

section \<open>Option and sum plumbing\<close>

text \<open>The \<open>?\<close> operator on \<open>Result\<close>.\<close>

definition res_bind :: "'a res \<Rightarrow> ('a \<Rightarrow> 'b res) \<Rightarrow> 'b res" where
  "res_bind r f = (case r of Inl e \<Rightarrow> Inl e | Inr x \<Rightarrow> f x)"

lemma res_bind_simps [simp]: "res_bind (Inl e) f = Inl e" "res_bind (Inr x) f = f x"
  by (simp_all add: res_bind_def)

lemma res_bind_Inr: "res_bind r f = Inr y \<longleftrightarrow> (\<exists>x. r = Inr x \<and> f x = Inr y)"
  by (cases r) auto

text \<open>\<open>Option::ok_or\<close>.\<close>

definition ok_or :: "'a option \<Rightarrow> int \<Rightarrow> 'a res" where
  "ok_or x e = (case x of None \<Rightarrow> Inl e | Some v \<Rightarrow> Inr v)"

lemma ok_or_simps [simp]: "ok_or None e = Inl e" "ok_or (Some v) e = Inr v"
  by (simp_all add: ok_or_def)

end
