(* ===== verification/Errno.thy ===== *)
theory Errno
  imports Prelude
begin

text \<open>
  The Linux errno constants of \<^verbatim>\<open>src/src/errno.rs\<close> that the modelled handlers
  return.  A failing handler returns the negated constant.
\<close>

definition EPERM :: int where "EPERM = 1"
definition ENOENT :: int where "ENOENT = 2"
definition ESRCH :: int where "ESRCH = 3"
definition EINTR :: int where "EINTR = 4"
definition EIO :: int where "EIO = 5"
definition EBADF :: int where "EBADF = 9"
definition ECHILD :: int where "ECHILD = 10"
definition EAGAIN :: int where "EAGAIN = 11"
definition ENOMEM :: int where "ENOMEM = 12"
definition EACCES :: int where "EACCES = 13"
definition EFAULT :: int where "EFAULT = 14"
definition EEXIST :: int where "EEXIST = 17"
definition ENOTDIR :: int where "ENOTDIR = 20"
definition EISDIR :: int where "EISDIR = 21"
definition EINVAL :: int where "EINVAL = 22"
definition ENOTTY :: int where "ENOTTY = 25"
definition ESPIPE :: int where "ESPIPE = 29"
definition EPIPE :: int where "EPIPE = 32"
definition ERANGE :: int where "ERANGE = 34"
definition ENAMETOOLONG :: int where "ENAMETOOLONG = 36"
definition ENOSYS :: int where "ENOSYS = 38"
definition ENOTEMPTY :: int where "ENOTEMPTY = 39"
definition ELOOP :: int where "ELOOP = 40"
definition EDESTADDRREQ :: int where "EDESTADDRREQ = 89"
definition EPROTONOSUPPORT :: int where "EPROTONOSUPPORT = 93"
definition EOPNOTSUPP :: int where "EOPNOTSUPP = 95"
definition EAFNOSUPPORT :: int where "EAFNOSUPPORT = 97"
definition EADDRINUSE :: int where "EADDRINUSE = 98"
definition EADDRNOTAVAIL :: int where "EADDRNOTAVAIL = 99"
definition EISCONN :: int where "EISCONN = 106"
definition ENOTCONN :: int where "ENOTCONN = 107"
definition ETIMEDOUT :: int where "ETIMEDOUT = 110"
definition ECONNREFUSED :: int where "ECONNREFUSED = 111"

lemmas errno_defs =
  EPERM_def ENOENT_def ESRCH_def EINTR_def EIO_def EBADF_def ECHILD_def EAGAIN_def ENOMEM_def
  EACCES_def EFAULT_def EEXIST_def ENOTDIR_def EISDIR_def EINVAL_def ENOTTY_def ESPIPE_def
  ERANGE_def ENAMETOOLONG_def ENOSYS_def ENOTEMPTY_def ELOOP_def EOPNOTSUPP_def ETIMEDOUT_def
  EPIPE_def EDESTADDRREQ_def EPROTONOSUPPORT_def EAFNOSUPPORT_def EADDRINUSE_def EADDRNOTAVAIL_def EISCONN_def
  ENOTCONN_def ECONNREFUSED_def

text \<open>\<open>to_ret\<close>: the negative errno the guest sees.\<close>

definition to_ret :: "int \<Rightarrow> int" where
  "to_ret e = - e"

lemma errno_pos:
  "0 < EPERM" "0 < ENOENT" "0 < ESRCH" "0 < EINTR" "0 < EIO" "0 < EBADF" "0 < ECHILD"
  "0 < EAGAIN" "0 < ENOMEM" "0 < EACCES" "0 < EFAULT" "0 < EEXIST" "0 < ENOTDIR" "0 < EISDIR"
  "0 < EINVAL" "0 < ENOTTY" "0 < ESPIPE" "0 < ERANGE" "0 < ENAMETOOLONG" "0 < ENOSYS"
  "0 < ENOTEMPTY" "0 < ELOOP" "0 < EOPNOTSUPP" "0 < ETIMEDOUT"
  "0 < EPIPE" "0 < EDESTADDRREQ" "0 < EPROTONOSUPPORT" "0 < EAFNOSUPPORT" "0 < EADDRINUSE" "0 < EADDRNOTAVAIL"
  "0 < EISCONN" "0 < ENOTCONN" "0 < ECONNREFUSED"
  by (simp_all add: errno_defs)

end
