(* ===== verification/Fd_Table.thy ===== *)
theory Fd_Table
  imports Errno
begin

text \<open>
  The file-descriptor table of \<^verbatim>\<open>src/src/fd.rs\<close> (\<open>FdTable\<close>), over any resource type.
  File descriptors are \<open>u32\<close>, \<open>next_fd + 1\<close> wraps as in the release build, and the
  search loop of \<open>insert_at_least\<close> is \<open>None\<close> where the source never leaves it.  The
  interface \<open>handle_table\<close> states what clients rely on.
\<close>

section \<open>State and operations\<close>

record 'r fd_table =
  table :: "u32 \<rightharpoonup> 'r"
  next_fd :: u32
  cloexec :: "u32 set"

definition fd_empty :: "'r fd_table" where
  "fd_empty = \<lparr>table = Map.empty, next_fd = 3, cloexec = {}\<rparr>"

definition fd_insert :: "'r fd_table \<Rightarrow> 'r \<Rightarrow> u32 \<times> 'r fd_table" where
  "fd_insert t r =
     (let fd = next_fd t
      in (fd, t\<lparr>next_fd := next_fd t + 1, table := (table t)(fd \<mapsto> r)\<rparr>))"

definition fd_insert_at :: "'r fd_table \<Rightarrow> u32 \<Rightarrow> 'r \<Rightarrow> u32 res \<times> 'r fd_table" where
  "fd_insert_at t fd r =
     (if table t fd \<noteq> None then (Inl (- EBADF), t)
      else (Inr fd,
            t\<lparr>next_fd := (if fd \<ge> next_fd t then fd + 1 else next_fd t),
              table := (table t)(fd \<mapsto> r)\<rparr>))"

text \<open>
  \<open>while table.contains_key(&fd) { fd = fd.saturating_add(1) }\<close>: \<open>None\<close> when the
  loop sticks at an occupied \<open>u32::MAX\<close>.
\<close>

function find_free :: "(u32 \<rightharpoonup> 'r) \<Rightarrow> u32 \<Rightarrow> u32 option" where
  "find_free t fd =
     (if t fd = None then Some fd
      else if fd = - 1 then None
      else find_free t (fd + 1))"
  by pat_completeness auto
termination
proof (relation "measure (\<lambda>(t, fd :: u32). 2 ^ 32 - unat fd)")
  fix t :: "u32 \<rightharpoonup> 'r" and fd :: u32
  assume "fd \<noteq> - 1"
  then have "unat (fd + 1) = Suc (unat fd)" by (rule unat_succ32)
  moreover have "unat fd < 2 ^ 32" by (rule unat32_less)
  ultimately show "((t, fd + 1), t, fd) \<in> measure (\<lambda>(t, fd). 2 ^ 32 - unat fd)" by simp
qed simp

declare find_free.simps [simp del]

definition fd_insert_at_least :: "'r fd_table \<Rightarrow> u32 \<Rightarrow> 'r \<Rightarrow> (u32 \<times> 'r fd_table) option" where
  "fd_insert_at_least t mn r =
     map_option (\<lambda>fd.
       (fd, t\<lparr>next_fd := (if fd \<ge> next_fd t then fd + 1 else next_fd t),
              table := (table t)(fd \<mapsto> r)\<rparr>))
       (find_free (table t) mn)"

definition fd_set_cloexec :: "'r fd_table \<Rightarrow> u32 \<Rightarrow> bool \<Rightarrow> 'r fd_table" where
  "fd_set_cloexec t fd on =
     (if on then t\<lparr>cloexec := insert fd (cloexec t)\<rparr> else t\<lparr>cloexec := cloexec t - {fd}\<rparr>)"

definition fd_get_cloexec :: "'r fd_table \<Rightarrow> u32 \<Rightarrow> bool" where
  "fd_get_cloexec t fd = (fd \<in> cloexec t)"

definition fd_get :: "'r fd_table \<Rightarrow> u32 \<Rightarrow> 'r res" where
  "fd_get t fd = ok_or (table t fd) (- EBADF)"

text \<open>Writing back through \<open>get_mut\<close>.\<close>

definition fd_put :: "'r fd_table \<Rightarrow> u32 \<Rightarrow> 'r \<Rightarrow> 'r fd_table" where
  "fd_put t fd r = t\<lparr>table := (table t)(fd \<mapsto> r)\<rparr>"

definition fd_close :: "'r fd_table \<Rightarrow> u32 \<Rightarrow> unit res \<times> 'r fd_table" where
  "fd_close t fd =
     (if table t fd \<noteq> None
      then (Inr (), t\<lparr>table := (table t)(fd := None), cloexec := cloexec t - {fd}\<rparr>)
      else (Inl (- EBADF), t))"

definition fd_contains :: "'r fd_table \<Rightarrow> u32 \<Rightarrow> bool" where
  "fd_contains t fd = (table t fd \<noteq> None)"

section \<open>The search for a free descriptor\<close>

lemma find_free_Some:
  "find_free t fd = Some k \<Longrightarrow> t k = None \<and> fd \<le> k \<and> (\<forall>j. fd \<le> j \<and> j < k \<longrightarrow> t j \<noteq> None)"
proof (induction t fd rule: find_free.induct)
  case (1 t fd)
  show ?case
  proof (cases "t fd = None")
    case True
    with "1.prems" have "k = fd" by (simp add: find_free.simps [of t fd])
    with True show ?thesis by auto
  next
    case False
    with "1.prems" have nm: "fd \<noteq> - 1" and rec: "find_free t (fd + 1) = Some k"
      by (auto simp: find_free.simps [of t fd] split: if_splits)
    have ih: "t k = None \<and> fd + 1 \<le> k \<and> (\<forall>j. fd + 1 \<le> j \<and> j < k \<longrightarrow> t j \<noteq> None)"
      by (rule "1.IH" [OF False nm rec])
    have "fd \<le> k" using ih le_succ32 [OF nm, of k] by blast
    moreover have "t j \<noteq> None" if "fd \<le> j" "j < k" for j
      using that ih le_succ32 [OF nm, of j] False by blast
    ultimately show ?thesis using ih by blast
  qed
qed

lemma find_free_None: "find_free t fd = None \<longleftrightarrow> (\<forall>j \<ge> fd. t j \<noteq> None)"
proof (induction t fd rule: find_free.induct)
  case (1 t fd)
  show ?case
  proof (cases "t fd = None")
    case True
    then show ?thesis by (auto simp: find_free.simps [of t fd])
  next
    case occ: False
    show ?thesis
    proof (cases "fd = - 1")
      case True
      with occ show ?thesis by (auto simp: find_free.simps [of t "- 1"] le_max32)
    next
      case False
      then have "find_free t fd = find_free t (fd + 1)" using occ by (subst find_free.simps) auto
      with "1.IH" [OF occ False] le_succ32 [OF False] occ show ?thesis by auto
    qed
  qed
qed

section \<open>The handle-table interface\<close>

locale handle_table =
  fixes inv :: "'t \<Rightarrow> bool"
    and room :: "'t \<Rightarrow> bool"
    and lookup :: "'t \<Rightarrow> 'k \<Rightarrow> 'r option"
    and ins :: "'t \<Rightarrow> 'r \<Rightarrow> 'k \<times> 't"
    and del :: "'t \<Rightarrow> 'k \<Rightarrow> 't option"
  assumes ins_fresh: "inv t \<Longrightarrow> room t \<Longrightarrow> ins t r = (k, t') \<Longrightarrow> lookup t k = None"
    and ins_lookup: "inv t \<Longrightarrow> room t \<Longrightarrow> ins t r = (k, t') \<Longrightarrow> lookup t' = (lookup t)(k \<mapsto> r)"
    and ins_inv: "inv t \<Longrightarrow> room t \<Longrightarrow> ins t r = (k, t') \<Longrightarrow> inv t'"
    and del_some: "inv t \<Longrightarrow> del t k = Some t' \<Longrightarrow> lookup t' = (lookup t)(k := None)"
    and del_inv: "inv t \<Longrightarrow> del t k = Some t' \<Longrightarrow> inv t'"
    and del_none: "inv t \<Longrightarrow> del t k = None \<longleftrightarrow> lookup t k = None"
begin

lemma ins_frame:
  assumes "inv t" "room t" "ins t r = (k, t')" "lookup t j = Some s"
  shows "lookup t' j = Some s"
  using ins_fresh [OF assms(1-3)] ins_lookup [OF assms(1-3)] assms(4) by (cases "j = k") auto

lemma ins_del:
  assumes "inv t" "room t" "ins t r = (k, t')"
  shows "\<exists>t''. del t' k = Some t'' \<and> lookup t'' = lookup t \<and> inv t''"
proof -
  note l = ins_lookup [OF assms] and i = ins_inv [OF assms]
  have "del t' k \<noteq> None" using del_none [OF i] by (simp add: l)
  then obtain t'' where t'': "del t' k = Some t''" by blast
  have "lookup t'' = (lookup t')(k := None)" by (rule del_some [OF i t''])
  also have "\<dots> = lookup t" using ins_fresh [OF assms] by (simp add: l fun_eq_iff)
  finally show ?thesis using t'' del_inv [OF i t''] by blast
qed

lemma two_ins_distinct:
  assumes "inv t" "room t" "ins t r = (k, t')" "room t'" "ins t' r' = (k', t'')"
  shows "k \<noteq> k'"
  using ins_fresh [OF ins_inv [OF assms(1-3)] assms(4,5)] ins_lookup [OF assms(1-3)] by auto

end

text \<open>Every descriptor in use is below \<open>next_fd\<close>, which has not wrapped.\<close>

definition fdt_ok :: "'r fd_table \<Rightarrow> bool" where
  "fdt_ok t \<longleftrightarrow> (\<forall>fd. table t fd \<noteq> None \<longrightarrow> fd < next_fd t)"

definition fdt_room :: "'r fd_table \<Rightarrow> bool" where
  "fdt_room t \<longleftrightarrow> next_fd t \<noteq> - 1"

definition fd_delete :: "'r fd_table \<Rightarrow> u32 \<Rightarrow> 'r fd_table option" where
  "fd_delete t fd = (case fd_close t fd of (Inr _, t') \<Rightarrow> Some t' | (Inl _, _) \<Rightarrow> None)"

interpretation fdt: handle_table fdt_ok fdt_room table fd_insert fd_delete
proof unfold_locales
  fix t :: "'r fd_table" and r k t'
  assume ok: "fdt_ok t" and room: "fdt_room t" and ins: "fd_insert t r = (k, t')"
  have k: "k = next_fd t" and t': "t' = t\<lparr>next_fd := next_fd t + 1, table := (table t)(k \<mapsto> r)\<rparr>"
    using ins by (auto simp: fd_insert_def Let_def)
  show "table t k = None" using ok by (auto simp: fdt_ok_def k)
  show "table t' = (table t)(k \<mapsto> r)" by (simp add: t')
  show "fdt_ok t'" using ok room by (auto simp: fdt_ok_def fdt_room_def t' k less_succ32 dest: order_less_imp_le)
next
  fix t :: "'r fd_table" and k t'
  assume ok: "fdt_ok t" and del: "fd_delete t k = Some t'"
  then show "table t' = (table t)(k := None)" "fdt_ok t'"
    by (auto simp: fd_delete_def fd_close_def fdt_ok_def split: if_splits)
qed (auto simp: fd_delete_def fd_close_def)

lemma fdt_ok_place:
  assumes "fdt_ok t" "fd \<noteq> - 1"
  shows "fdt_ok (t\<lparr>next_fd := (if fd \<ge> next_fd t then fd + 1 else next_fd t),
                   table := (table t)(fd \<mapsto> r)\<rparr>)"
proof (cases "next_fd t \<le> fd")
  case True
  with assms show ?thesis
    by (auto simp: fdt_ok_def less_succ32 intro: order_less_imp_le order_less_le_trans)
next
  case False
  with assms(1) show ?thesis by (auto simp: fdt_ok_def)
qed

lemma fd_insert_at_ok: "fdt_ok t \<Longrightarrow> fd \<noteq> - 1 \<Longrightarrow> fdt_ok (snd (fd_insert_at t fd r))"
  using fdt_ok_place [of t fd r] by (simp add: fd_insert_at_def)

lemma fd_insert_at_least_ok:
  assumes "fdt_ok t" "fd_insert_at_least t mn r = Some (fd, t')" "fd \<noteq> - 1"
  shows "fdt_ok t'"
  using fdt_ok_place [OF assms(1,3), of r] assms(2)
  by (auto simp: fd_insert_at_least_def)

lemma fd_set_cloexec_table [simp]: "table (fd_set_cloexec t fd on) = table t"
  by (simp add: fd_set_cloexec_def)

lemma fd_set_cloexec_next [simp]: "next_fd (fd_set_cloexec t fd on) = next_fd t"
  by (simp add: fd_set_cloexec_def)

lemma fd_set_cloexec_ok [simp]: "fdt_ok (fd_set_cloexec t fd on) = fdt_ok t"
  by (simp add: fdt_ok_def)

section \<open>Properties\<close>

text \<open>
  While \<open>next_fd\<close> has not reached \<open>u32::MAX\<close>, \<open>insert\<close> returns a descriptor that
  was free, stores the resource there, leaves every other descriptor alone, and a
  following \<open>close\<close> of it restores the table.
\<close>

lemma fd_insert_close_roundtrip:
  assumes "fdt_ok t" "next_fd t \<noteq> - 1" "fd_insert t r = (fd, t')"
  shows "table t fd = None \<and> table t' = (table t)(fd \<mapsto> r) \<and> fdt_ok t' \<and>
    fst (fd_close t' fd) = Inr () \<and> table (snd (fd_close t' fd)) = table t"
proof -
  have room: "fdt_room t" using assms(2) by (simp add: fdt_room_def)
  note i = fdt.ins_fresh [OF assms(1) room assms(3)] fdt.ins_lookup [OF assms(1) room assms(3)]
    fdt.ins_inv [OF assms(1) room assms(3)]
  from i show ?thesis by (auto simp: fd_close_def fun_eq_iff)
qed

text \<open>
  C25: \<open>insert_at_least\<close> returns the lowest free descriptor that is at least the
  minimum; it fails to return exactly when every descriptor from the minimum up to
  \<open>u32::MAX\<close> is in use.
\<close>

theorem fd_insert_at_least_lowest:
  "case fd_insert_at_least t mn r of
     Some (fd, t') \<Rightarrow>
       mn \<le> fd \<and> table t fd = None \<and> {j. mn \<le> j \<and> j < fd} \<subseteq> dom (table t) \<and>
       table t' = (table t)(fd \<mapsto> r)
   | None \<Rightarrow> {j. mn \<le> j} \<subseteq> dom (table t)"
  using find_free_Some [of "table t" mn] find_free_None [of "table t" mn]
  by (auto simp: fd_insert_at_least_def dom_def split: option.splits)

end
