(* ===== verification/Block_Alloc.thy ===== *)
theory Block_Alloc
  imports Errno
begin

text \<open>
  The contract between the linear-memory allocator and its clients: address
  blocks, how often a list of blocks covers an address, and the interface
  \<open>block_allocator\<close> (allocation hands out a block no live block overlaps, freeing
  a live block keeps the invariant).  A run of allocations and frees of live
  blocks then never has two live blocks on one address.  The arena
  (\<^verbatim>\<open>mm/arena.rs\<close>) and the whole allocator (\<^verbatim>\<open>mm/mod.rs\<close>) are interpretations.
\<close>

named_theorems occ_simps \<open>how often a list of blocks covers an address\<close>

type_synonym block = "nat \<times> nat"

fun in_block :: "block \<Rightarrow> nat \<Rightarrow> bool" where
  "in_block (o1, l) x \<longleftrightarrow> o1 \<le> x \<and> x < o1 + l"

text \<open>\<open>occ bs x\<close>: the number of blocks of \<open>bs\<close> that cover the address \<open>x\<close>.\<close>

fun occ :: "block list \<Rightarrow> nat \<Rightarrow> nat" where
  "occ [] x = 0"
| "occ (b # bs) x = (if in_block b x then 1 else 0) + occ bs x"

lemma occ_append [simp, occ_simps]: "occ (xs @ ys) x = occ xs x + occ ys x"
  by (induction xs) auto

lemma occ_sum_mset: "occ bs x = sum_mset (image_mset (\<lambda>b. if in_block b x then 1 else 0) (mset bs))"
  by (induction bs) auto

lemma occ_mset_cong: "mset xs = mset ys \<Longrightarrow> occ xs x = occ ys x"
  by (simp add: occ_sum_mset)

lemma occ_sort_key [simp, occ_simps]: "occ (sort_key f xs) x = occ xs x"
  by (rule occ_mset_cong) simp

lemma occ_update [occ_simps]:
  "i < length xs \<Longrightarrow> occ (xs[i := y]) x + occ [xs ! i] x = occ xs x + occ [y] x"
proof (induction xs arbitrary: i)
  case (Cons z xs)
  then show ?case
  proof (cases i)
    case (Suc i')
    with Cons.IH [of i'] Cons.prems show ?thesis by simp
  qed simp
qed simp

lemma occ_member: "b \<in> set bs \<Longrightarrow> in_block b x \<Longrightarrow> 0 < occ bs x"
  by (induction bs) auto

lemma occ_zero_iff: "occ bs x = 0 \<longleftrightarrow> (\<forall>b \<in> set bs. \<not> in_block b x)"
  by (induction bs) auto

lemma occ_remove1 [occ_simps]:
  "b \<in> set bs \<Longrightarrow> occ (remove1 b bs) x + occ [b] x = occ bs x"
  by (induction bs) auto

lemma occ_two:
  "i < j \<Longrightarrow> j < length bs \<Longrightarrow> in_block (bs ! i) x \<Longrightarrow> in_block (bs ! j) x \<Longrightarrow> 2 \<le> occ bs x"
proof (induction bs arbitrary: i j)
  case (Cons b bs)
  show ?case
  proof (cases i)
    case 0
    with Cons.prems have "bs ! (j - 1) \<in> set bs" and "in_block (bs ! (j - 1)) x"
      by (auto simp: nth_Cons')
    then have "0 < occ bs x" by (rule occ_member)
    with 0 Cons.prems show ?thesis by auto
  next
    case (Suc i')
    with Cons.prems have "2 \<le> occ bs x"
      by (intro Cons.IH [of i' "j - 1"]) (auto simp: nth_Cons')
    then show ?thesis by simp
  qed
qed simp

text \<open>Pairwise disjointness, as a reader states it: no two entries share an address.\<close>

definition blocks_disjoint :: "block list \<Rightarrow> bool" where
  "blocks_disjoint bs \<longleftrightarrow>
     (\<forall>i < length bs. \<forall>j < length bs. i \<noteq> j \<longrightarrow>
        (\<forall>x. \<not> (in_block (bs ! i) x \<and> in_block (bs ! j) x)))"

lemma blocks_disjointI:
  assumes "\<And>x. occ bs x \<le> 1"
  shows "blocks_disjoint bs"
  unfolding blocks_disjoint_def
proof (intro allI impI notI)
  fix i j x
  assume "i < length bs" "j < length bs" "i \<noteq> j" "in_block (bs ! i) x \<and> in_block (bs ! j) x"
  then have "2 \<le> occ bs x"
    using occ_two [of i j bs x] occ_two [of j i bs x] by (cases "i < j") auto
  with assms [of x] show False by simp
qed

section \<open>The allocator interface\<close>

text \<open>A client run: allocate a length, or free the \<open>i\<close>-th live block.\<close>

datatype alloc_op = Alloc nat | Free nat

fun alloc_run ::
  "(nat \<Rightarrow> 's \<Rightarrow> nat option \<times> 's) \<Rightarrow> (block \<Rightarrow> 's \<Rightarrow> 's) \<Rightarrow> 's \<Rightarrow> block list \<Rightarrow>
    alloc_op list \<Rightarrow> 's \<times> block list"
where
  "alloc_run al fr s live [] = (s, live)"
| "alloc_run al fr s live (Alloc n # ops) =
     (if n = 0 then alloc_run al fr s live ops
      else (case al n s of
        (None, s') \<Rightarrow> alloc_run al fr s' live ops
      | (Some p, s') \<Rightarrow> alloc_run al fr s' ((p, n) # live) ops))"
| "alloc_run al fr s live (Free i # ops) =
     (if i < length live
      then alloc_run al fr (fr (live ! i) s) (remove1 (live ! i) live) ops
      else alloc_run al fr s live ops)"

locale block_allocator =
  fixes inv :: "'s \<Rightarrow> block list \<Rightarrow> bool"
    and alloc :: "nat \<Rightarrow> 's \<Rightarrow> nat option \<times> 's"
    and free :: "block \<Rightarrow> 's \<Rightarrow> 's"
  assumes alloc_some: "inv s live \<Longrightarrow> 0 < n \<Longrightarrow> alloc n s = (Some p, s') \<Longrightarrow> inv s' ((p, n) # live)"
    and alloc_none: "inv s live \<Longrightarrow> 0 < n \<Longrightarrow> alloc n s = (None, s') \<Longrightarrow> inv s' live"
    and free_live: "inv s live \<Longrightarrow> b \<in> set live \<Longrightarrow> inv (free b s) (remove1 b live)"
    and inv_occ: "inv s live \<Longrightarrow> occ live x \<le> 1"
begin

lemma run_inv:
  "inv s live \<Longrightarrow> alloc_run alloc free s live ops = (s', live') \<Longrightarrow> inv s' live'"
proof (induction ops arbitrary: s live)
  case (Cons op ops)
  show ?case
  proof (cases op)
    case (Alloc n)
    with Cons show ?thesis
      by (auto split: if_splits prod.splits option.splits
          dest: alloc_some alloc_none)
  next
    case (Free i)
    show ?thesis
    proof (cases "i < length live")
      case True
      with Cons.prems(1) have "inv (free (live ! i) s) (remove1 (live ! i) live)"
        by (simp add: free_live)
      with Cons Free True show ?thesis by simp
    qed (use Cons Free in simp)
  qed
qed simp

lemma run_disjoint:
  assumes "inv s live" "alloc_run alloc free s live ops = (s', live')"
  shows "blocks_disjoint live'"
  using run_inv [OF assms] by (intro blocks_disjointI inv_occ)

lemma fresh_block:
  assumes "inv s live" "0 < n" "alloc n s = (Some p, s')" "b \<in> set live" "in_block b x"
  shows "\<not> in_block (p, n) x"
proof
  assume "in_block (p, n) x"
  moreover have "0 < occ live x" using assms(4,5) by (rule occ_member)
  ultimately have "2 \<le> occ ((p, n) # live) x" by simp
  moreover have "occ ((p, n) # live) x \<le> 1"
    using alloc_some [OF assms(1-3)] by (rule inv_occ)
  ultimately show False by simp
qed

end

end
