(* ===== verification/Arena.thy ===== *)
theory Arena
  imports Block_Alloc
begin

text \<open>
  \<^verbatim>\<open>src/src/mm/arena.rs\<close>: a 256 KiB arena with a bump pointer and a best-fit free
  list.  Offsets and lengths are host \<open>usize\<close> values (\<^typ>\<open>nat\<close>), the arena base and
  the addresses handed out are \<open>u32\<close>.  The invariant \<open>arena_ok\<close> relates an arena to
  the (ghost) list of live blocks.
\<close>

section \<open>State and operations\<close>

definition ARENA_SIZE :: nat where
  "ARENA_SIZE = 256 * 1024"

record arena =
  a_base :: u32
  a_used :: nat
  free_list :: "(nat \<times> nat) list"

definition arena_new :: "u32 \<Rightarrow> arena" where
  "arena_new b = \<lparr>a_base = b, a_used = 0, free_list = []\<rparr>"

text \<open>\<open>(off + align_mask) & !align_mask\<close> on \<open>usize\<close>, with \<open>align_mask = align - 1\<close>.\<close>

definition align_up :: "nat \<Rightarrow> nat \<Rightarrow> nat" where
  "align_up off align =
     (let align_mask = (of_nat align - 1 :: u64)
      in unat ((of_nat off + align_mask) AND NOT align_mask))"

text \<open>The best-fit scan: index of the hole, aligned offset, wasted bytes.\<close>

fun best_fit ::
  "nat \<Rightarrow> nat \<Rightarrow> nat \<Rightarrow> (nat \<times> nat) list \<Rightarrow> (nat \<times> nat \<times> nat) option \<Rightarrow> (nat \<times> nat \<times> nat) option"
where
  "best_fit len align i [] best = best"
| "best_fit len align i ((off, hlen) # holes) best =
     (let aligned_off = align_up off align; slack = aligned_off - off
      in if slack + len > hlen then best_fit len align (Suc i) holes best
         else let waste = hlen - len - slack
              in best_fit len align (Suc i) holes
                   (case best of
                      None \<Rightarrow> Some (i, aligned_off, waste)
                    | Some (_, _, bw) \<Rightarrow>
                        if waste < bw then Some (i, aligned_off, waste) else best))"

text \<open>\<open>Vec::swap_remove\<close>: the last entry takes the removed one's place.\<close>

definition swap_remove :: "nat \<Rightarrow> 'a list \<Rightarrow> 'a list" where
  "swap_remove i xs = (butlast xs)[i := last xs]"

text \<open>The free-list update of \<open>alloc\<close>, once the hole \<open>i\<close> is chosen.\<close>

definition carve :: "nat \<Rightarrow> nat \<Rightarrow> nat \<Rightarrow> (nat \<times> nat) list \<Rightarrow> (nat \<times> nat) list" where
  "carve i alloc_off len fl =
     (let (hole_off, hole_len) = fl ! i;
          alloc_end = alloc_off + len;
          hole_end = hole_off + hole_len
      in if alloc_off = hole_off \<and> alloc_end = hole_end then swap_remove i fl
         else if alloc_off = hole_off then fl[i := (alloc_end, hole_end - alloc_end)]
         else if alloc_end = hole_end then fl[i := (hole_off, alloc_off - hole_off)]
         else fl[i := (hole_off, alloc_off - hole_off)] @ [(alloc_end, hole_end - alloc_end)])"

definition arena_alloc :: "arena \<Rightarrow> nat \<Rightarrow> nat \<Rightarrow> u32 option \<times> arena" where
  "arena_alloc a len align =
     (case best_fit len align 0 (free_list a) None of
        Some (i, alloc_off, _) \<Rightarrow>
          (Some (a_base a + of_nat alloc_off),
           a\<lparr>free_list := carve i alloc_off len (free_list a)\<rparr>)
      | None \<Rightarrow>
          let bump_aligned = align_up (a_used a) align; new_used = bump_aligned + len
          in if new_used > ARENA_SIZE then (None, a)
             else (Some (a_base a + of_nat bump_aligned), a\<lparr>a_used := new_used\<rparr>))"

text \<open>The merge loop of \<open>free\<close> over the offset-sorted list.\<close>

fun coalesce :: "(nat \<times> nat) list \<Rightarrow> (nat \<times> nat) list" where
  "coalesce ((a_off, a_len) # (b_off, b_len) # rest) =
     (if a_off + a_len = b_off then coalesce ((a_off, a_len + b_len) # rest)
      else (a_off, a_len) # coalesce ((b_off, b_len) # rest))"
| "coalesce fl = fl"

definition arena_free :: "arena \<Rightarrow> u32 \<Rightarrow> nat \<Rightarrow> bool \<times> arena" where
  "arena_free a off len =
     (if len = 0 then (False, a)
      else case u32_checked_sub off (a_base a) of
        None \<Rightarrow> (False, a)
      | Some v \<Rightarrow>
          (case usize_checked_add (unat v) len of
             None \<Rightarrow> (False, a)
           | Some e \<Rightarrow>
               if e > ARENA_SIZE then (False, a)
               else (True, a\<lparr>free_list :=
                       coalesce (sort_key fst (free_list a @ [(unat v, len)]))\<rparr>)))"

definition arena_contains :: "arena \<Rightarrow> u32 \<Rightarrow> nat \<Rightarrow> bool" where
  "arena_contains a off len =
     (case u32_checked_add off (of_nat len) of
        None \<Rightarrow> False
      | Some e \<Rightarrow> a_base a \<le> off \<and> e \<le> a_base a + of_nat ARENA_SIZE)"

definition arena_available :: "arena \<Rightarrow> nat" where
  "arena_available a = ARENA_SIZE - a_used a + sum_list (map snd (free_list a))"

section \<open>Alignment\<close>

text \<open>The mask trick rounds up to the next multiple of a power of two.\<close>

lemma unat_and_not_mask: "unat ((w :: u64) AND NOT (mask k)) = unat w - unat w mod 2 ^ k"
proof -
  have t: "unat (take_bit k w) = unat w mod 2 ^ k"
    by (metis unsigned_take_bit_eq take_bit_eq_mod)
  moreover have "take_bit k w \<le> w"
    by (simp add: word_le_nat_alt t del: take_bit_eq_mod)
  moreover have "w AND NOT (mask k) = w - take_bit k w"
  proof -
    have "w AND NOT (mask k) = push_bit k (drop_bit k w)"
      by (rule bit_word_eqI) (auto simp: bit_simps)
    with bits_ident [of k w] show ?thesis by (simp add: eq_diff_eq)
  qed
  ultimately show ?thesis by (simp only: unat_sub)
qed

lemma align_up_pow2:
  assumes "off + 2 ^ k \<le> 2 ^ 64" "k < 64"
  shows "align_up off (2 ^ k) = (off + 2 ^ k - 1) div 2 ^ k * 2 ^ k"
proof -
  have m: "(of_nat (2 ^ k) - 1 :: u64) = mask k"
    by (simp add: mask_eq_exp_minus_1)
  have "(2 :: nat) ^ k < 2 ^ 64"
    using assms(2) by (intro power_strict_increasing) auto
  moreover have "(mask k :: u64) = of_nat (2 ^ k - 1)"
    by (simp add: mask_eq_exp_minus_1)
  ultimately have "unat (mask k :: u64) = 2 ^ k - 1"
    by (simp only: unat_of_nat) simp
  moreover have "unat (of_nat off :: u64) = off"
    using assms(1) by (simp add: unat_of_nat mod_less less_le_trans [of off "off + 2 ^ k"])
  ultimately have u: "unat (of_nat off + mask k :: u64) = off + 2 ^ k - 1"
    using assms(1) by (simp add: unat_word_ariths)
  show ?thesis
    unfolding align_up_def Let_def m unat_and_not_mask u by (rule minus_mod_eq_div_mult)
qed

lemma align_up_8:
  "off \<le> ARENA_SIZE \<Longrightarrow> align_up off 8 = (off + 7) div 8 * 8"
  using align_up_pow2 [of off 3] by (simp add: ARENA_SIZE_def)

lemma align_up_8_props:
  assumes "off \<le> ARENA_SIZE"
  shows "off \<le> align_up off 8" "align_up off 8 < off + 8" "8 dvd align_up off 8"
  unfolding align_up_8 [OF assms] by (presburger, presburger, simp)

section \<open>The best-fit scan\<close>

definition hole_fits :: "nat \<Rightarrow> nat \<Rightarrow> nat \<times> nat \<Rightarrow> bool" where
  "hole_fits len align h \<longleftrightarrow> align_up (fst h) align - fst h + len \<le> snd h"

definition hole_waste :: "nat \<Rightarrow> nat \<Rightarrow> nat \<times> nat \<Rightarrow> nat" where
  "hole_waste len align h = snd h - len - (align_up (fst h) align - fst h)"

text \<open>What the running best means after the first \<open>n\<close> holes.\<close>

definition best_ok ::
  "nat \<Rightarrow> nat \<Rightarrow> (nat \<times> nat) list \<Rightarrow> nat \<Rightarrow> (nat \<times> nat \<times> nat) option \<Rightarrow> bool"
where
  "best_ok len align fl n best =
     (case best of
        None \<Rightarrow> \<forall>j < n. \<not> hole_fits len align (fl ! j)
      | Some (j, off, w) \<Rightarrow>
          j < n \<and> hole_fits len align (fl ! j) \<and> off = align_up (fst (fl ! j)) align \<and>
          w = hole_waste len align (fl ! j) \<and>
          (\<forall>m < n. hole_fits len align (fl ! m) \<longrightarrow> w \<le> hole_waste len align (fl ! m)))"

lemma best_ok_skip:
  "best_ok len align fl n best \<Longrightarrow> \<not> hole_fits len align (fl ! n) \<Longrightarrow> best_ok len align fl (Suc n) best"
  by (auto simp: best_ok_def less_Suc_eq split: option.splits prod.splits)

lemma best_ok_take:
  assumes "best_ok len align fl n best" "hole_fits len align (fl ! n)"
  shows "best_ok len align fl (Suc n)
    (case best of
       None \<Rightarrow> Some (n, align_up (fst (fl ! n)) align, hole_waste len align (fl ! n))
     | Some (_, _, bw) \<Rightarrow>
         if hole_waste len align (fl ! n) < bw
         then Some (n, align_up (fst (fl ! n)) align, hole_waste len align (fl ! n)) else best)"
  using assms by (fastforce simp: best_ok_def less_Suc_eq split: option.splits prod.splits)

lemma best_fit_ok_gen:
  "holes = drop i fl \<Longrightarrow> i \<le> length fl \<Longrightarrow> best_ok len align fl i best \<Longrightarrow>
    best_ok len align fl (length fl) (best_fit len align i holes best)"
proof (induction holes arbitrary: i best)
  case Nil
  then show ?case by simp
next
  case (Cons h holes)
  obtain off hlen where h: "h = (off, hlen)" by fastforce
  from Cons.prems have i: "i < length fl" by (metis drop_eq_Nil linorder_not_less list.discI)
  with Cons.prems(1) have nth: "fl ! i = (off, hlen)" and rest: "holes = drop (Suc i) fl"
    by (metis h Cons_nth_drop_Suc list.inject)+
  show ?case
  proof (cases "hole_fits len align (fl ! i)")
    case True
    have "best_ok len align fl (length fl) (best_fit len align (Suc i) holes
        (case best of
           None \<Rightarrow> Some (i, align_up off align, hlen - len - (align_up off align - off))
         | Some (_, _, bw) \<Rightarrow>
             if hlen - len - (align_up off align - off) < bw
             then Some (i, align_up off align, hlen - len - (align_up off align - off)) else best))"
      using Cons.IH [OF rest _ best_ok_take [OF Cons.prems(3) True]] i
      unfolding nth hole_waste_def fst_conv snd_conv by simp
    with True show ?thesis
      by (simp add: h nth Let_def hole_fits_def del: diff_diff_left)
  next
    case False
    with Cons.IH [OF rest _ best_ok_skip [OF Cons.prems(3) False]] i show ?thesis
      by (simp add: h nth Let_def hole_fits_def)
  qed
qed

lemma best_fit_ok: "best_ok len align fl (length fl) (best_fit len align 0 fl None)"
  by (rule best_fit_ok_gen) (auto simp: best_ok_def)

section \<open>Conservation of free space\<close>

lemma occ_swap_remove [occ_simps]:
  assumes "i < length xs"
  shows "occ (swap_remove i xs) x + occ [xs ! i] x = occ xs x"
proof -
  obtain ys y where xs: "xs = ys @ [y]" using assms by (metis gr_implies_not0 list.size(3) rev_exhaust)
  show ?thesis
  proof (cases "i < length ys")
    case True
    then show ?thesis using occ_update [of i ys y x]
      by (simp add: xs swap_remove_def nth_append)
  next
    case False
    with assms xs have "i = length ys" by simp
    then show ?thesis by (simp add: xs swap_remove_def list_update_beyond)
  qed
qed

text \<open>Carving takes exactly the allocated block out of the free list.\<close>

lemma occ_carve:
  assumes "i < length fl" "fl ! i = (h, l)" "h \<le> off" "off + len \<le> h + l"
  shows "occ (carve i off len fl) x + occ [(off, len)] x = occ fl x"
proof -
  have up: "occ (fl[i := y]) x + occ [(h, l)] x = occ fl x + occ [y] x" for y
    using occ_update [OF assms(1)] assms(2) by simp
  have sw: "occ (swap_remove i fl) x + occ [(h, l)] x = occ fl x"
    using occ_swap_remove [OF assms(1)] assms(2) by simp
  consider "off = h" "off + len = h + l" | "off = h" "off + len \<noteq> h + l"
    | "off \<noteq> h" "off + len = h + l" | "off \<noteq> h" "off + len \<noteq> h + l" by blast
  then show ?thesis
  proof cases
    case 1
    with sw show ?thesis by (simp add: carve_def assms(2) Let_def)
  next
    case 2
    with up [of "(off + len, h + l - (off + len))"] assms(4) show ?thesis
      by (auto simp: carve_def assms(2) Let_def split: if_splits)
  next
    case 3
    with up [of "(h, off - h)"] assms(3) show ?thesis
      by (auto simp: carve_def assms(2) Let_def split: if_splits)
  next
    case 4
    with up [of "(h, off - h)"] assms(3,4) show ?thesis
      by (auto simp: carve_def assms(2) Let_def split: if_splits)
  qed
qed

lemma set_swap_remove: "i < length xs \<Longrightarrow> set (swap_remove i xs) \<subseteq> set xs"
  by (cases xs rule: rev_cases) (auto simp: swap_remove_def dest!: set_update_subset_insert [THEN subsetD])

lemma carve_nonempty:
  assumes "\<forall>h \<in> set fl. 0 < snd h" "i < length fl" "fl ! i = (h, l)" "h \<le> off" "off + len \<le> h + l"
  shows "\<forall>h \<in> set (carve i off len fl). 0 < snd h"
proof -
  have up: "\<forall>h \<in> set (fl[i := y]). 0 < snd h" if "0 < snd y" for y
    using assms(1) that set_update_subset_insert [of fl i y] by blast
  have sw: "\<forall>h \<in> set (swap_remove i fl). 0 < snd h"
    using assms(1) set_swap_remove [OF assms(2)] by blast
  show ?thesis
    using assms(4,5) unfolding carve_def assms(3) Let_def prod.case
    by (simp add: sw up) (intro conjI impI up; simp)
qed

lemma occ_coalesce [simp, occ_simps]: "occ (coalesce fl) x = occ fl x"
  by (induction fl rule: coalesce.induct) auto

lemma coalesce_nonempty: "\<forall>h \<in> set fl. 0 < snd h \<Longrightarrow> \<forall>h \<in> set (coalesce fl). 0 < snd h"
  by (induction fl rule: coalesce.induct) auto

section \<open>The arena invariant\<close>

text \<open>
  \<open>live\<close> is the list of live blocks at absolute addresses (of this and other
  arenas).  Inside the arena's range, live blocks and holes never overlap and lie
  below the bump pointer.
\<close>

definition arena_ok :: "block list \<Rightarrow> arena \<Rightarrow> bool" where
  "arena_ok live a \<longleftrightarrow>
     a_used a \<le> ARENA_SIZE \<and> unat (a_base a) + ARENA_SIZE \<le> 2 ^ 32 \<and>
     (\<forall>h \<in> set (free_list a). 0 < snd h) \<and>
     (\<forall>x. (if x < ARENA_SIZE then occ live (unat (a_base a) + x) else 0) + occ (free_list a) x
            \<le> (if x < a_used a then 1 else 0))"

lemma arena_okD:
  assumes "arena_ok live a"
  shows "a_used a \<le> ARENA_SIZE" "unat (a_base a) + ARENA_SIZE \<le> 2 ^ 32"
    "\<forall>h \<in> set (free_list a). 0 < snd h"
    "x < ARENA_SIZE \<Longrightarrow> occ live (unat (a_base a) + x) + occ (free_list a) x \<le> (if x < a_used a then 1 else 0)"
    "occ (free_list a) x \<le> (if x < a_used a then 1 else 0)"
proof -
  from assms have occ: "(if x < ARENA_SIZE then occ live (unat (a_base a) + x) else 0) + occ (free_list a) x
      \<le> (if x < a_used a then 1 else 0)"
    unfolding arena_ok_def by blast
  from assms show "a_used a \<le> ARENA_SIZE" "unat (a_base a) + ARENA_SIZE \<le> 2 ^ 32"
    "\<forall>h \<in> set (free_list a). 0 < snd h" by (simp_all add: arena_ok_def)
  from occ show "occ (free_list a) x \<le> (if x < a_used a then 1 else 0)" by linarith
  show "x < ARENA_SIZE \<Longrightarrow> occ live (unat (a_base a) + x) + occ (free_list a) x \<le> (if x < a_used a then 1 else 0)"
    using occ by simp
qed

lemma arena_okI:
  assumes "a_used a \<le> ARENA_SIZE" "unat (a_base a) + ARENA_SIZE \<le> 2 ^ 32"
    "\<forall>h \<in> set (free_list a). 0 < snd h"
    "\<And>x. x < ARENA_SIZE \<Longrightarrow>
      occ live (unat (a_base a) + x) + occ (free_list a) x \<le> (if x < a_used a then 1 else 0)"
    "\<And>x. ARENA_SIZE \<le> x \<Longrightarrow> occ (free_list a) x = 0"
  shows "arena_ok live a"
  unfolding arena_ok_def
proof (intro conjI allI)
  fix x
  show "(if x < ARENA_SIZE then occ live (unat (a_base a) + x) else 0) + occ (free_list a) x
      \<le> (if x < a_used a then 1 else 0)"
    using assms(4,5) [of x] by (cases "x < ARENA_SIZE") auto
qed (use assms(1-3) in auto)

lemma arena_new_ok:
  assumes "unat b + ARENA_SIZE \<le> 2 ^ 32" "\<And>x. x < ARENA_SIZE \<Longrightarrow> occ live (unat b + x) = 0"
  shows "arena_ok live (arena_new b)"
  by (rule arena_okI) (use assms in \<open>auto simp: arena_new_def\<close>)

lemma hole_bound:
  assumes "arena_ok live a" "h \<in> set (free_list a)"
  shows "fst h + snd h \<le> a_used a"
proof -
  let ?x = "fst h + snd h - 1"
  have pos: "0 < snd h" using arena_okD(3) [OF assms(1)] assms(2) by blast
  then have "in_block h ?x" by (cases h) auto
  with assms(2) have "0 < occ (free_list a) ?x" by (rule occ_member)
  with arena_okD(5) [OF assms(1), of ?x] have "?x < a_used a" by (simp split: if_splits)
  with pos show ?thesis by linarith
qed

lemma occ_shift_one:
  "unat p = unat b + off \<Longrightarrow> occ [(unat p, len)] (unat b + x) = occ [(off, len)] x"
  by auto

text \<open>An allocation is aligned, inside the arena, off every live block, and now live.\<close>

lemma arena_take_hole_ok:
  assumes ok: "arena_ok live a" and i: "i < length (free_list a)" and nth: "free_list a ! i = (h, l)"
    and fit: "h \<le> off" "off + len \<le> h + l"
  shows "arena_ok ((unat (a_base a) + off, len) # live) (a\<lparr>free_list := carve i off len (free_list a)\<rparr>)" (is "arena_ok ?live ?a")
proof (rule arena_okI)
  note okD = arena_okD [OF ok]
  fix x assume x: "x < ARENA_SIZE"
  show "occ ?live (unat (a_base ?a) + x) + occ (free_list ?a) x \<le> (if x < a_used ?a then 1 else 0)"
    using okD(4) [OF x] occ_carve [OF i nth fit, of x] by auto
next
  note okD = arena_okD [OF ok]
  fix x assume "ARENA_SIZE \<le> x"
  then show "occ (free_list ?a) x = 0"
    using okD(1) okD(5) [of x] occ_carve [OF i nth fit, of x] by auto
qed (use arena_okD [OF ok] carve_nonempty [OF arena_okD(3) [OF ok] i nth fit] in simp_all)

lemma arena_bump_ok:
  assumes ok: "arena_ok live a" and off: "a_used a \<le> off" "off + len \<le> ARENA_SIZE"
  shows "arena_ok ((unat (a_base a) + off, len) # live) (a\<lparr>a_used := off + len\<rparr>)" (is "arena_ok ?live ?a")
proof (rule arena_okI)
  fix x assume x: "x < ARENA_SIZE"
  show "occ ?live (unat (a_base ?a) + x) + occ (free_list ?a) x \<le> (if x < a_used ?a then 1 else 0)"
    using arena_okD(4) [OF ok x] off by (auto split: if_splits)
next
  fix x assume "ARENA_SIZE \<le> x"
  then show "occ (free_list ?a) x = 0" using arena_okD(1) [OF ok] arena_okD(5) [OF ok, of x] by auto
qed (use arena_okD [OF ok] off in simp_all)

lemma arena_alloc_ok:
  assumes ok: "arena_ok live a" and len: "0 < len" and al: "arena_alloc a len 8 = (Some p, a')"
  shows "\<exists>off. unat p = unat (a_base a) + off \<and> off + len \<le> ARENA_SIZE \<and> 8 dvd off \<and>
           arena_ok ((unat p, len) # live) a' \<and> a_base a' = a_base a"
proof -
  note okD = arena_okD [OF ok]
  have addr: "unat (a_base a + of_nat off) = unat (a_base a) + off" if "off + len \<le> ARENA_SIZE" for off
    using that len okD(2) by (intro unat_add_of_nat) simp
  show ?thesis
  proof (cases "best_fit len 8 0 (free_list a) None")
    case (Some r)
    obtain i off w where r: "r = (i, off, w)" by (cases r)
    obtain h l where nth: "free_list a ! i = (h, l)" by fastforce
    from best_fit_ok [of len 8 "free_list a"] Some r
    have i: "i < length (free_list a)" and off: "off = align_up h 8" and fits: "off - h + len \<le> l"
      by (auto simp: best_ok_def hole_fits_def nth)
    from i have "(h, l) \<in> set (free_list a)" by (metis nth nth_mem)
    from hole_bound [OF ok this] okD(1) have hl: "h + l \<le> ARENA_SIZE" by simp
    note al8 = align_up_8_props [of h, folded off]
    have fit: "h \<le> off" "off + len \<le> h + l" using al8 hl fits by auto
    have "p = a_base a + of_nat off" "a' = a\<lparr>free_list := carve i off len (free_list a)\<rparr>"
      using al Some r by (auto simp: arena_alloc_def)
    with arena_take_hole_ok [OF ok i nth fit] addr fit hl al8 show ?thesis by auto
  next
    case None
    define off where "off = align_up (a_used a) 8"
    have fit: "off + len \<le> ARENA_SIZE" and pa: "p = a_base a + of_nat off" "a' = a\<lparr>a_used := off + len\<rparr>"
      using al None by (auto simp: arena_alloc_def Let_def off_def split: if_splits)
    note al8 = align_up_8_props [OF okD(1), folded off_def]
    with arena_bump_ok [OF ok _ fit] addr fit pa show ?thesis by auto
  qed
qed

lemma arena_alloc_none: "arena_alloc a len align = (None, a') \<Longrightarrow> a' = a"
  by (auto simp: arena_alloc_def Let_def split: option.splits if_splits)

text \<open>Freeing a live block of the arena succeeds and turns the block into free space.\<close>

lemma arena_free_ok:
  assumes ok: "arena_ok live a" and live: "(unat p, len) \<in> set live" "0 < len"
    and rng: "unat (a_base a) \<le> unat p" "unat p + len \<le> unat (a_base a) + ARENA_SIZE"
  shows "\<exists>a'. arena_free a p len = (True, a') \<and> arena_ok (remove1 (unat p, len) live) a' \<and>
           a_base a' = a_base a"
proof -
  note okD = arena_okD [OF ok]
  define off where "off = unat p - unat (a_base a)"
  define a' where "a' = a\<lparr>free_list := coalesce (sort_key fst (free_list a @ [(off, len)]))\<rparr>"
  have sub: "u32_checked_sub p (a_base a) = Some (p - a_base a)"
    using rng(1) by (simp add: u32_checked_sub_Some)
  have o: "unat (p - a_base a) = off"
    using u32_checked_sub_unat [OF sub] by (simp add: off_def)
  have fits: "off + len \<le> ARENA_SIZE" using rng by (simp add: off_def)
  then have "arena_free a p len = (True, a')"
    using live(2) by (simp add: arena_free_def sub o usize_checked_add_def a'_def ARENA_SIZE_def)
  moreover have "arena_ok (remove1 (unat p, len) live) a'"
  proof (rule arena_okI)
    have occ': "occ (free_list a') x = occ (free_list a) x + occ [(off, len)] x" for x
      by (simp add: a'_def)
    fix x
    { assume x: "x < ARENA_SIZE"
      have "occ [(unat p, len)] (unat (a_base a) + x) = occ [(off, len)] x"
        using rng(1) by (auto simp: off_def)
      then show "occ (remove1 (unat p, len) live) (unat (a_base a') + x) + occ (free_list a') x
          \<le> (if x < a_used a' then 1 else 0)"
        using okD(4) [OF x] occ_remove1 [OF live(1), of "unat (a_base a) + x"]
        by (simp add: occ' a'_def) }
    show "ARENA_SIZE \<le> x \<Longrightarrow> occ (free_list a') x = 0"
      using okD(1) okD(5) [of x] fits by (auto simp: occ')
  next
    show "\<forall>h \<in> set (free_list a'). 0 < snd h"
      using okD(3) live(2) coalesce_nonempty [of "sort_key fst (free_list a @ [(off, len)])"]
      by (simp add: a'_def ball_Un)
  qed (use okD in \<open>simp_all add: a'_def\<close>)
  ultimately show ?thesis by (auto simp: a'_def)
qed

text \<open>Blocks outside the arena's range do not matter to it.\<close>

lemma arena_ok_frame_add:
  assumes "arena_ok live a" "p + n \<le> unat (a_base a) \<or> unat (a_base a) + ARENA_SIZE \<le> p"
  shows "arena_ok ((p, n) # live) a"
  using assms by (auto simp: arena_ok_def split: if_splits)

lemma arena_ok_frame_remove:
  assumes "arena_ok live a"
  shows "arena_ok (remove1 b live) a"
proof (cases "b \<in> set live")
  case True
  note okD = arena_okD [OF assms]
  show ?thesis
  proof (rule arena_okI)
    fix x assume "x < ARENA_SIZE"
    then show "occ (remove1 b live) (unat (a_base a) + x) + occ (free_list a) x
        \<le> (if x < a_used a then 1 else 0)"
      using okD(4) [of x] occ_remove1 [OF True, of "unat (a_base a) + x"] by linarith
  next
    fix x assume "ARENA_SIZE \<le> x"
    then show "occ (free_list a) x = 0" using okD(1) okD(5) [of x] by auto
  qed (use okD in auto)
qed (use assms in \<open>simp add: remove1_idem\<close>)

section \<open>The free list after a free\<close>

lemma coalesce_fst_hd: "fl \<noteq> [] \<Longrightarrow> coalesce fl \<noteq> [] \<and> fst (hd (coalesce fl)) = fst (hd fl)"
  by (induction fl rule: coalesce.induct) auto

definition apart :: "nat \<times> nat \<Rightarrow> nat \<times> nat \<Rightarrow> bool" where
  "apart h k \<longleftrightarrow> fst h + snd h < fst k"

lemma coalesce_apart:
  "sorted_wrt (\<lambda>h k. fst h + snd h \<le> fst k) fl \<Longrightarrow> sorted_wrt apart (coalesce fl)"
proof (induction fl rule: coalesce.induct)
  case (1 a al b bl rest)
  show ?case
  proof (cases "a + al = b")
    case True
    have "sorted_wrt (\<lambda>h k. fst h + snd h \<le> fst k) ((a, al + bl) # rest)"
      using "1.prems" True by (auto simp: add.assoc)
    with 1(1) True show ?thesis by simp
  next
    case False
    let ?r = "coalesce ((b, bl) # rest)"
    have IH: "sorted_wrt apart ?r" using 1(2) "1.prems" False by auto
    have hd: "?r \<noteq> []" "fst (hd ?r) = b" using coalesce_fst_hd [of "(b, bl) # rest"] by simp_all
    have "a + al < b" using "1.prems" False by simp
    moreover have "b \<le> fst k" if "k \<in> set ?r" for k
      using IH hd that by (cases ?r) (auto simp: apart_def)
    ultimately have "\<forall>k \<in> set ?r. apart (a, al) k"
      by (fastforce simp: apart_def)
    with IH False show ?thesis by simp
  qed
qed auto

lemma sorted_disjoint_le:
  assumes "sorted (map fst fl)" "\<forall>h \<in> set fl. 0 < snd h" "\<And>x. occ fl x \<le> 1"
  shows "sorted_wrt (\<lambda>h k. fst h + snd h \<le> fst k) fl"
  using assms
proof (induction fl)
  case (Cons h fl)
  have "fst h + snd h \<le> fst k" if k: "k \<in> set fl" for k
  proof (rule ccontr)
    assume "\<not> fst h + snd h \<le> fst k"
    moreover have "fst h \<le> fst k" using Cons.prems(1) k by auto
    ultimately have "in_block h (fst k)" by (cases h) auto
    moreover have "in_block k (fst k)" using Cons.prems(2) k by (cases k) auto
    then have "0 < occ fl (fst k)" using k by (intro occ_member)
    ultimately show False using Cons.prems(3) [of "fst k"] by simp
  qed
  moreover have "occ fl x \<le> 1" for x using Cons.prems(3) [of x] by (simp split: if_splits)
  ultimately show ?case using Cons by simp
qed simp

lemma arena_free_apart:
  assumes ok: "arena_ok live a" and fr: "arena_free a p len = (True, a')" and ok': "arena_ok live' a'"
  shows "sorted_wrt apart (free_list a')"
proof -
  obtain fl where fl: "free_list a' = coalesce (sort_key fst fl)"
    and set: "\<forall>h \<in> set fl. h \<in> set (free_list a) \<or> snd h = len" "len \<noteq> 0"
    using fr by (auto simp: arena_free_def split: if_splits option.splits)
  have "\<forall>h \<in> set (sort_key fst fl). 0 < snd h" using set arena_okD(3) [OF ok] by auto
  moreover have "occ (sort_key fst fl) x \<le> 1" for x
    using arena_okD(5) [OF ok', of x] by (simp add: fl split: if_splits)
  ultimately show ?thesis
    unfolding fl by (intro coalesce_apart sorted_disjoint_le) auto
qed

section \<open>The arena as a block allocator\<close>

text \<open>The client's view of one arena: 8-aligned allocation, frees of live blocks.\<close>

definition arena_blocks_ok :: "arena \<Rightarrow> block list \<Rightarrow> bool" where
  "arena_blocks_ok a live \<longleftrightarrow> arena_ok live a \<and>
     (\<forall>(p, n) \<in> set live. 0 < n \<and> unat (a_base a) \<le> p \<and> p + n \<le> unat (a_base a) + ARENA_SIZE)"

definition arena_get :: "nat \<Rightarrow> arena \<Rightarrow> nat option \<times> arena" where
  "arena_get n a = (case arena_alloc a n 8 of (r, a') \<Rightarrow> (map_option unat r, a'))"

definition arena_put :: "block \<Rightarrow> arena \<Rightarrow> arena" where
  "arena_put b a = snd (arena_free a (of_nat (fst b)) (snd b))"

lemma arena_blocks_occ:
  assumes "arena_blocks_ok a live"
  shows "occ live x \<le> 1"
proof (cases "unat (a_base a) \<le> x \<and> x < unat (a_base a) + ARENA_SIZE")
  case True
  then have "x - unat (a_base a) < ARENA_SIZE" "unat (a_base a) + (x - unat (a_base a)) = x" by auto
  with assms arena_okD(4) [of live a "x - unat (a_base a)"] show ?thesis
    by (simp add: arena_blocks_ok_def split: if_splits)
next
  case False
  have "\<not> in_block b x" if b: "b \<in> set live" for b
  proof -
    obtain p n where pn: "b = (p, n)" by (cases b)
    with assms b have "unat (a_base a) \<le> p" "p + n \<le> unat (a_base a) + ARENA_SIZE"
      by (auto simp: arena_blocks_ok_def)
    with False pn show ?thesis by auto
  qed
  then have "occ live x = 0" by (simp add: occ_zero_iff)
  then show ?thesis by simp
qed

interpretation arena_alloc_if: block_allocator arena_blocks_ok arena_get arena_put
proof unfold_locales
  fix s s' live and n p :: nat
  assume inv: "arena_blocks_ok s live" and n: "0 < n"
  { assume "arena_get n s = (Some p, s')"
    then obtain q where q: "arena_alloc s n 8 = (Some q, s')" "p = unat q"
      by (auto simp: arena_get_def split: prod.splits)
    have "arena_ok live s" using inv by (simp add: arena_blocks_ok_def)
    from arena_alloc_ok [OF this n q(1)] obtain off where
      "unat q = unat (a_base s) + off" "off + n \<le> ARENA_SIZE" "a_base s' = a_base s"
      "arena_ok ((unat q, n) # live) s'" by blast
    with inv n q(2) show "arena_blocks_ok s' ((p, n) # live)"
      by (auto simp: arena_blocks_ok_def) }
  assume "arena_get n s = (None, s')"
  then have "arena_alloc s n 8 = (None, s')" by (auto simp: arena_get_def split: prod.splits)
  then show "arena_blocks_ok s' live" using inv arena_alloc_none by blast
next
  fix s live b
  assume inv: "arena_blocks_ok s live" and b: "b \<in> set live"
  obtain p n where pn: "b = (p, n)" by (cases b)
  from inv b pn have n: "0 < n" and r: "unat (a_base s) \<le> p" "p + n \<le> unat (a_base s) + ARENA_SIZE"
    by (auto simp: arena_blocks_ok_def)
  have ok: "arena_ok live s" using inv by (simp add: arena_blocks_ok_def)
  have u: "unat (of_nat p :: u32) = p"
    using r n arena_okD(2) [OF ok] by (simp add: unat_of_nat)
  obtain a' where "arena_free s (of_nat p) n = (True, a')" "arena_ok (remove1 b live) a'"
    "a_base a' = a_base s"
    using arena_free_ok [OF ok, of "of_nat p" n] b n r u pn by auto
  moreover have "set (remove1 b live) \<subseteq> set live" by (rule set_remove1_subset)
  ultimately show "arena_blocks_ok (arena_put b s) (remove1 b live)"
    using inv pn by (auto simp: arena_put_def arena_blocks_ok_def)
qed (rule arena_blocks_occ)

section \<open>Properties\<close>

text \<open>
  C23: With holes inside the arena, \<open>alloc\<close> (with the alignment 8 that \<open>mmap\<close> asks for) serves a request from a hole of least waste
  among those that fit; the bump pointer stays, and the free space loses exactly the allocated bytes.  When no hole fits, the block is
  placed at the aligned bump pointer, which moves behind it, and the free list stays; when that would leave the arena, \<open>alloc\<close> fails
  and changes nothing.
\<close>

theorem arena_alloc_best_fit:
  assumes "\<forall>h \<in> set (free_list a). fst h + snd h \<le> ARENA_SIZE"
  shows "if \<exists>h \<in> set (free_list a). hole_fits len 8 h
    then \<exists>j a'. j < length (free_list a) \<and> hole_fits len 8 (free_list a ! j) \<and>
      (\<forall>h \<in> set (free_list a). hole_fits len 8 h \<longrightarrow> hole_waste len 8 (free_list a ! j) \<le> hole_waste len 8 h) \<and>
      arena_alloc a len 8 = (Some (a_base a + of_nat (align_up (fst (free_list a ! j)) 8)), a') \<and>
      a_base a' = a_base a \<and> a_used a' = a_used a \<and>
      (\<forall>x. occ (free_list a') x + occ [(align_up (fst (free_list a ! j)) 8, len)] x = occ (free_list a) x)
    else arena_alloc a len 8 =
      (if align_up (a_used a) 8 + len \<le> ARENA_SIZE
       then (Some (a_base a + of_nat (align_up (a_used a) 8)), a\<lparr>a_used := align_up (a_used a) 8 + len\<rparr>) else (None, a))"
proof (cases "best_fit len 8 0 (free_list a) None")
  case None
  with best_fit_ok [of len 8 "free_list a"] have "\<not> (\<exists>h \<in> set (free_list a). hole_fits len 8 h)"
    by (simp add: best_ok_def) (metis in_set_conv_nth)
  with None show ?thesis by (simp add: arena_alloc_def Let_def not_less)
next
  case (Some r)
  obtain j off w where r: "r = (j, off, w)" by (cases r)
  from best_fit_ok [of len 8 "free_list a"] Some r
  have j: "j < length (free_list a)" and fits: "hole_fits len 8 (free_list a ! j)"
    and off: "off = align_up (fst (free_list a ! j)) 8"
    and least: "\<forall>m < length (free_list a). hole_fits len 8 (free_list a ! m) \<longrightarrow>
      hole_waste len 8 (free_list a ! j) \<le> hole_waste len 8 (free_list a ! m)"
    by (auto simp: best_ok_def)
  obtain h l where hl: "free_list a ! j = (h, l)" by fastforce
  with assms j have "h + l \<le> ARENA_SIZE" by (metis fst_conv nth_mem snd_conv)
  with align_up_8_props [of h] fits off have fit: "h \<le> off" "off + len \<le> h + l" by (auto simp: hole_fits_def hl)
  let ?a' = "a\<lparr>free_list := carve j off len (free_list a)\<rparr>"
  have "\<forall>h \<in> set (free_list a). hole_fits len 8 h \<longrightarrow> hole_waste len 8 (free_list a ! j) \<le> hole_waste len 8 h"
    using least by (metis in_set_conv_nth)
  moreover have "arena_alloc a len 8 = (Some (a_base a + of_nat off), ?a')" using Some r by (simp add: arena_alloc_def)
  moreover have "\<forall>x. occ (free_list ?a') x + occ [(off, len)] x = occ (free_list a) x"
    using occ_carve [OF j hl fit] by simp
  moreover have "a_base ?a' = a_base a" "a_used ?a' = a_used a" by simp_all
  moreover have "\<exists>h \<in> set (free_list a). hole_fits len 8 h" using j fits nth_mem by blast
  ultimately show ?thesis using j fits unfolding off by metis
qed

definition demo_arena :: arena where
  "demo_arena = \<lparr>a_base = 0, a_used = 400, free_list = [(0, 100), (304, 48)]\<rparr>"

theorem arena_alloc_best_fit_witness:
  "(\<exists>a'. arena_alloc demo_arena 32 8 = (Some 304, a') \<and> a_used a' = 400 \<and> occ (free_list a') 310 = 0 \<and> occ (free_list a') 340 = 1) \<and>
   arena_alloc demo_arena 200 8 = (Some 400, demo_arena\<lparr>a_used := 600\<rparr>)"
proof -
  have up: "align_up 0 8 = 0" "align_up 304 8 = 304" "align_up 400 8 = 400" by (simp_all add: align_up_8 ARENA_SIZE_def)
  have ok: "\<forall>h \<in> set (free_list demo_arena). fst h + snd h \<le> ARENA_SIZE" by (simp add: demo_arena_def ARENA_SIZE_def)
  have big: "arena_alloc demo_arena 200 8 = (Some 400, demo_arena\<lparr>a_used := 600\<rparr>)"
    using arena_alloc_best_fit [OF ok, of 200] by (simp add: demo_arena_def hole_fits_def up ARENA_SIZE_def)
  have "\<exists>h \<in> set (free_list demo_arena). hole_fits 32 8 h" by (simp add: demo_arena_def hole_fits_def up)
  with arena_alloc_best_fit [OF ok, of 32] obtain j a' where j: "j < length (free_list demo_arena)" "hole_fits 32 8 (free_list demo_arena ! j)"
    "\<forall>h \<in> set (free_list demo_arena). hole_fits 32 8 h \<longrightarrow> hole_waste 32 8 (free_list demo_arena ! j) \<le> hole_waste 32 8 h"
    "arena_alloc demo_arena 32 8 = (Some (a_base demo_arena + of_nat (align_up (fst (free_list demo_arena ! j)) 8)), a')"
    "a_used a' = a_used demo_arena"
    "\<forall>x. occ (free_list a') x + occ [(align_up (fst (free_list demo_arena ! j)) 8, 32)] x = occ (free_list demo_arena) x"
    by auto
  then have "j = 1" by (auto simp: demo_arena_def less_Suc_eq hole_waste_def hole_fits_def up)
  with j spec [OF j(6), of 310] spec [OF j(6), of 340] big show ?thesis by (auto simp: demo_arena_def up)
qed

text \<open>
  After a successful \<open>free\<close> of a live block the free list is sorted by offset
  and fully coalesced: consecutive holes are separated by at least one byte.
\<close>

lemma arena_free_coalesced:
  assumes "arena_ok live a" "(unat p, len) \<in> set live" "0 < len"
    "unat (a_base a) \<le> unat p" "unat p + len \<le> unat (a_base a) + ARENA_SIZE"
  shows "fst (arena_free a p len) \<and> sorted_wrt apart (free_list (snd (arena_free a p len)))"
  using arena_free_ok [OF assms] arena_free_apart [OF assms(1)] by force

end
