(* ===== verification/Linear_Allocator.thy ===== *)
theory Linear_Allocator
  imports Arena
begin

text \<open>
  \<^verbatim>\<open>src/src/mm/mod.rs\<close>: the allocator behind \<open>mmap\<close>.  It keeps arenas in creation
  order and a high-water mark (\<open>u32\<close>, with the release build's wrap-around); \<open>mmap\<close>
  is a decision that either places the block, asks the caller to grow linear
  memory, or fails.
\<close>

section \<open>State and operations\<close>

definition PAGE_SIZE :: nat where "PAGE_SIZE = 64 * 1024"
definition FIRST_ARENA_BASE :: u32 where "FIRST_ARENA_BASE = 0x00100000"
definition MAP_ANONYMOUS :: int where "MAP_ANONYMOUS = 0x20"
definition MAP_PRIVATE :: int where "MAP_PRIVATE = 0x02"

record linear_allocator =
  arenas :: "arena list"
  high_water :: u32

datatype mmap_result = MmapOk u32 | NeedGrow nat | MmapErr int

definition la_new :: linear_allocator where
  "la_new = \<lparr>arenas = [], high_water = FIRST_ARENA_BASE\<rparr>"

text \<open>Step 1 of \<open>mmap\<close>: the first arena that can take the block.\<close>

fun alloc_existing :: "nat \<Rightarrow> arena list \<Rightarrow> (u32 \<times> arena list) option" where
  "alloc_existing len [] = None"
| "alloc_existing len (a # as) =
     (case arena_alloc a len 8 of
        (Some addr, a') \<Rightarrow> Some (addr, a' # as)
      | (None, a') \<Rightarrow> map_option (\<lambda>(addr, as'). (addr, a' # as')) (alloc_existing len as))"

text \<open>\<open>usize::div_ceil\<close>.\<close>

definition div_ceil :: "nat \<Rightarrow> nat \<Rightarrow> nat" where
  "div_ceil a b = (if a mod b = 0 then a div b else a div b + 1)"

definition mm_mmap ::
  "linear_allocator \<Rightarrow> nat \<Rightarrow> nat \<Rightarrow> int \<Rightarrow> int \<Rightarrow> int \<Rightarrow> int \<Rightarrow> mmap_result \<times> linear_allocator"
where
  "mm_mmap la cur_mem_size len prot flags fd off =
     (if len = 0 then (MmapErr (- EINVAL), la)
      else if fd \<noteq> - 1 then (MmapErr (- ENOSYS), la)
      else if flags AND MAP_ANONYMOUS = 0 then (MmapErr (- ENOSYS), la)
      else if flags AND MAP_PRIVATE = 0 then (MmapErr (- ENOSYS), la)
      else if off \<noteq> 0 then (MmapErr (- ENOSYS), la)
      else if len > ARENA_SIZE then (MmapErr (- ENOSYS), la)
      else case alloc_existing len (arenas la) of
        Some (addr, as') \<Rightarrow> (MmapOk addr, la\<lparr>arenas := as'\<rparr>)
      | None \<Rightarrow>
          let needed = unat (high_water la) + ARENA_SIZE
          in if needed > cur_mem_size
             then (NeedGrow (div_ceil (needed - cur_mem_size) PAGE_SIZE), la)
             else let la' = la\<lparr>high_water := high_water la + of_nat ARENA_SIZE\<rparr>
                  in (case arena_alloc (arena_new (high_water la)) len 8 of
                        (Some a, ar) \<Rightarrow> (MmapOk a, la'\<lparr>arenas := arenas la' @ [ar]\<rparr>)
                      | (None, _) \<Rightarrow> (MmapErr (- ENOMEM), la')))"

fun munmap_arenas :: "u32 \<Rightarrow> nat \<Rightarrow> arena list \<Rightarrow> arena list option" where
  "munmap_arenas addr len [] = None"
| "munmap_arenas addr len (a # as) =
     (if arena_contains a addr len then Some (snd (arena_free a addr len) # as)
      else map_option (\<lambda>as'. a # as') (munmap_arenas addr len as))"

definition mm_munmap :: "linear_allocator \<Rightarrow> u32 \<Rightarrow> nat \<Rightarrow> int \<times> linear_allocator" where
  "mm_munmap la addr len =
     (if len = 0 then (0, la)
      else case munmap_arenas addr len (arenas la) of
        Some as' \<Rightarrow> (0, la\<lparr>arenas := as'\<rparr>)
      | None \<Rightarrow> (- EINVAL, la))"

fun grow_arenas :: "u32 \<Rightarrow> nat \<Rightarrow> nat \<Rightarrow> arena list \<Rightarrow> arena list option" where
  "grow_arenas old old_len extra [] = None"
| "grow_arenas old old_len extra (a # as) =
     (case u32_checked_sub old (a_base a) of
        None \<Rightarrow> map_option (\<lambda>as'. a # as') (grow_arenas old old_len extra as)
      | Some v \<Rightarrow>
          if unat v + old_len = a_used a \<and> a_used a + extra \<le> ARENA_SIZE
          then Some (a\<lparr>a_used := a_used a + extra\<rparr> # as)
          else map_option (\<lambda>as'. a # as') (grow_arenas old old_len extra as))"

definition grow_in_place ::
  "linear_allocator \<Rightarrow> u32 \<Rightarrow> nat \<Rightarrow> nat \<Rightarrow> u32 res \<times> linear_allocator"
where
  "grow_in_place la old old_len new_len =
     (if new_len \<le> old_len then (Inr old, la)
      else case grow_arenas old old_len (new_len - old_len) (arenas la) of
        Some as' \<Rightarrow> (Inr old, la\<lparr>arenas := as'\<rparr>)
      | None \<Rightarrow> (Inl (- ENOMEM), la))"

definition mm_mprotect :: "linear_allocator \<Rightarrow> u32 \<Rightarrow> nat \<Rightarrow> int \<Rightarrow> int" where
  "mm_mprotect la addr len prot = 0"

definition mm_brk :: "linear_allocator \<Rightarrow> u32" where
  "mm_brk la = high_water la"

section \<open>The allocator invariant\<close>

text \<open>
  Arenas are stacked from \<open>FIRST_ARENA_BASE\<close> to the high-water mark, which has not
  wrapped; every arena is consistent with the live blocks, and every live block
  lies in one arena.
\<close>

definition arena_start :: "nat \<Rightarrow> nat" where
  "arena_start i = unat FIRST_ARENA_BASE + i * ARENA_SIZE"

definition in_arena :: "arena \<Rightarrow> block \<Rightarrow> bool" where
  "in_arena a b \<longleftrightarrow> unat (a_base a) \<le> fst b \<and> fst b + snd b \<le> unat (a_base a) + ARENA_SIZE"

definition la_ok :: "linear_allocator \<Rightarrow> block list \<Rightarrow> bool" where
  "la_ok la live \<longleftrightarrow>
     unat (high_water la) = arena_start (length (arenas la)) \<and>
     (\<forall>i < length (arenas la). unat (a_base (arenas la ! i)) = arena_start i) \<and>
     (\<forall>a \<in> set (arenas la). arena_ok live a) \<and>
     (\<forall>b \<in> set live. 0 < snd b \<and> (\<exists>a \<in> set (arenas la). in_arena a b))"

lemma la_new_ok: "la_ok la_new []"
  by (simp add: la_ok_def la_new_def arena_start_def FIRST_ARENA_BASE_def)

lemma alloc_existing_nth:
  "alloc_existing len as = Some (p, as') \<Longrightarrow>
    \<exists>i a'. i < length as \<and> arena_alloc (as ! i) len 8 = (Some p, a') \<and> as' = as[i := a']"
proof (induction as arbitrary: as')
  case (Cons a as)
  show ?case
  proof (cases "arena_alloc a len 8")
    case (Pair r a')
    show ?thesis
    proof (cases r)
      case None
      with Pair have [simp]: "a' = a" by (simp add: arena_alloc_none)
      from Cons.prems Pair None obtain as'' where as'': "alloc_existing len as = Some (p, as'')" "as' = a # as''"
        by auto
      from Cons.IH [OF this(1)] obtain i a'' where
        "i < length as" "arena_alloc (as ! i) len 8 = (Some p, a'')" "as'' = as[i := a'']" by blast
      with as'' show ?thesis by (intro exI [of _ "Suc i"] exI [of _ a'']) auto
    next
      case (Some q)
      with Cons.prems Pair show ?thesis by (intro exI [of _ 0] exI [of _ a']) auto
    qed
  qed
qed simp

lemma munmap_arenas_nth:
  "munmap_arenas p n as = Some as' \<Longrightarrow>
    \<exists>i < length as. arena_contains (as ! i) p n \<and> as' = as[i := snd (arena_free (as ! i) p n)]"
proof (induction as arbitrary: as')
  case (Cons a as)
  show ?case
  proof (cases "arena_contains a p n")
    case True
    with Cons.prems show ?thesis by (intro exI [of _ 0]) auto
  next
    case False
    with Cons.prems obtain as'' where as'': "munmap_arenas p n as = Some as''" "as' = a # as''" by auto
    from Cons.IH [OF this(1)] obtain i where
      "i < length as" "arena_contains (as ! i) p n" "as'' = as[i := snd (arena_free (as ! i) p n)]" by blast
    with as'' show ?thesis by (intro exI [of _ "Suc i"]) auto
  qed
qed simp

lemma munmap_arenas_None:
  "munmap_arenas p n as = None \<longleftrightarrow> (\<forall>a \<in> set as. \<not> arena_contains a p n)"
  by (induction as) auto

text \<open>Two different arenas have disjoint ranges.\<close>

lemma arena_start_apart:
  "i \<noteq> j \<Longrightarrow> arena_start i + ARENA_SIZE \<le> arena_start j \<or> arena_start j + ARENA_SIZE \<le> arena_start i"
proof -
  have "i < j \<Longrightarrow> arena_start i + ARENA_SIZE \<le> arena_start j" for i j
    using mult_le_mono1 [of "Suc i" j ARENA_SIZE] by (simp add: arena_start_def)
  then show "i \<noteq> j \<Longrightarrow> ?thesis" by (cases "i < j") auto
qed

lemma la_ok_range:
  assumes "la_ok la live" "i < length (arenas la)"
  shows "unat (a_base (arenas la ! i)) + ARENA_SIZE \<le> unat (high_water la)"
  using assms arena_start_apart [of i "length (arenas la)"]
  by (auto simp: la_ok_def arena_start_def ARENA_SIZE_def)

lemma la_okD:
  assumes "la_ok la live"
  shows "unat (high_water la) = arena_start (length (arenas la))"
    "i < length (arenas la) \<Longrightarrow> unat (a_base (arenas la ! i)) = arena_start i"
    "i < length (arenas la) \<Longrightarrow> arena_ok live (arenas la ! i)"
    "b \<in> set live \<Longrightarrow> 0 < snd b"
    "b \<in> set live \<Longrightarrow> \<exists>i < length (arenas la). in_arena (arenas la ! i) b"
  using assms by (auto simp: la_ok_def) (metis in_set_conv_nth)

lemma la_ok_update:
  assumes ok: "la_ok la live" and i: "i < length (arenas la)" and base: "a_base a' = a_base (arenas la ! i)"
    and a': "arena_ok live' a'"
    and others: "\<And>j. j < length (arenas la) \<Longrightarrow> j \<noteq> i \<Longrightarrow> arena_ok live' (arenas la ! j)"
    and blocks: "\<And>b. b \<in> set live' \<Longrightarrow> 0 < snd b \<and> (\<exists>j < length (arenas la). in_arena (arenas la ! j) b)"
  shows "la_ok (la\<lparr>arenas := (arenas la)[i := a']\<rparr>) live'"
proof -
  let ?as = "(arenas la)[i := a']"
  have bases: "a_base (?as ! j) = a_base (arenas la ! j)" if "j < length (arenas la)" for j
    using that i base by (cases "j = i") auto
  have oks: "arena_ok live' a" if "a \<in> set ?as" for a
  proof -
    from that obtain j where j: "j < length (arenas la)" "a = ?as ! j" by (metis in_set_conv_nth length_list_update)
    then show ?thesis using a' others i by (cases "j = i") auto
  qed
  have "\<exists>a \<in> set ?as. in_arena a b" if "b \<in> set live'" for b
  proof -
    from blocks [OF that] obtain j where j: "j < length (arenas la)" "in_arena (arenas la ! j) b" by blast
    then have "in_arena (?as ! j) b" using bases [of j] by (simp add: in_arena_def)
    moreover have "?as ! j \<in> set ?as" using j(1) by simp
    ultimately show ?thesis by blast
  qed
  then show ?thesis using oks blocks bases la_okD(1,2) [OF ok] by (simp add: la_ok_def)
qed

lemma la_alloc_existing_ok:
  assumes ok: "la_ok la live" and len: "0 < len" and al: "alloc_existing len (arenas la) = Some (p, as')"
  shows "la_ok (la\<lparr>arenas := as'\<rparr>) ((unat p, len) # live)" "8 dvd unat p"
    "unat p + len \<le> unat (high_water la)" "length as' = length (arenas la)"
proof -
  from alloc_existing_nth [OF al] obtain i a' where i: "i < length (arenas la)"
    and a': "arena_alloc (arenas la ! i) len 8 = (Some p, a')" "as' = (arenas la)[i := a']" by blast
  from arena_alloc_ok [OF la_okD(3) [OF ok i] len a'(1)] obtain off where
    off: "unat p = unat (a_base (arenas la ! i)) + off" "off + len \<le> ARENA_SIZE" "8 dvd off"
      "arena_ok ((unat p, len) # live) a'" "a_base a' = a_base (arenas la ! i)" by blast
  have st: "unat (a_base (arenas la ! j)) = arena_start j" if "j < length (arenas la)" for j
    using la_okD(2) [OF ok that] .
  show "la_ok (la\<lparr>arenas := as'\<rparr>) ((unat p, len) # live)"
    unfolding a'(2)
  proof (rule la_ok_update [OF ok i off(5,4)])
    fix j assume j: "j < length (arenas la)" "j \<noteq> i"
    from arena_start_apart [OF j(2)] off(1,2) st [OF j(1)] st [OF i]
    have "unat p + len \<le> unat (a_base (arenas la ! j)) \<or>
        unat (a_base (arenas la ! j)) + ARENA_SIZE \<le> unat p" by auto
    then show "arena_ok ((unat p, len) # live) (arenas la ! j)"
      by (rule arena_ok_frame_add [OF la_okD(3) [OF ok j(1)]])
  next
    fix b assume b: "b \<in> set ((unat p, len) # live)"
    show "0 < snd b \<and> (\<exists>j < length (arenas la). in_arena (arenas la ! j) b)"
    proof (cases "b \<in> set live")
      case True
      then show ?thesis using la_okD(4,5) [OF ok] by blast
    next
      case False
      with b have "b = (unat p, len)" by simp
      with len off(1,2) i show ?thesis by (auto simp: in_arena_def)
    qed
  qed
  show "8 dvd unat p" using off(1,3) st [OF i] by (simp add: arena_start_def FIRST_ARENA_BASE_def ARENA_SIZE_def)
  show "unat p + len \<le> unat (high_water la)" using la_ok_range [OF ok i] off(1,2) by simp
  show "length as' = length (arenas la)" by (simp add: a'(2))
qed

lemma la_push_arena_ok:
  assumes ok: "la_ok la live" and room: "unat (high_water la) + ARENA_SIZE < 2 ^ 32" and len: "0 < len"
    and al: "arena_alloc (arena_new (high_water la)) len 8 = (Some p, ar)"
  shows "la_ok (la\<lparr>high_water := high_water la + of_nat ARENA_SIZE, arenas := arenas la @ [ar]\<rparr>)
      ((unat p, len) # live)" "8 dvd unat p" "unat p + len \<le> unat (high_water la) + ARENA_SIZE"
proof -
  let ?hw = "high_water la"
  have hw: "unat (?hw + of_nat ARENA_SIZE) = unat ?hw + ARENA_SIZE" using room by (rule unat_add_of_nat)
  have below: "fst b + snd b \<le> unat ?hw" if b: "b \<in> set live" for b
    using la_okD(5) [OF ok b] la_ok_range [OF ok] by (fastforce simp: in_arena_def)
  have "occ live (unat ?hw + x) = 0" for x
    unfolding occ_zero_iff using below by fastforce
  then have new: "arena_ok live (arena_new ?hw)" using room by (intro arena_new_ok) simp_all
  from arena_alloc_ok [OF new len al] obtain off where
    off: "unat p = unat ?hw + off" "off + len \<le> ARENA_SIZE" "8 dvd off"
      "arena_ok ((unat p, len) # live) ar" "a_base ar = ?hw" by (auto simp: arena_new_def)
  have st: "unat (a_base (arenas la ! j)) = arena_start j" if "j < length (arenas la)" for j
    using la_okD(2) [OF ok that] .
  have old: "arena_ok ((unat p, len) # live) a" if "a \<in> set (arenas la)" for a
  proof -
    from that obtain j where j: "j < length (arenas la)" "a = arenas la ! j" by (metis in_set_conv_nth)
    show ?thesis unfolding j(2)
      using la_ok_range [OF ok j(1)] off(1) la_okD(3) [OF ok j(1)] by (intro arena_ok_frame_add) auto
  qed
  have "\<exists>a \<in> set (arenas la @ [ar]). in_arena a b" if b: "b \<in> set ((unat p, len) # live)" for b
  proof (cases "b \<in> set live")
    case True
    from la_okD(5) [OF ok True] show ?thesis by (auto simp del: in_set_conv_nth)
  next
    case False
    with b have "b = (unat p, len)" by simp
    with off(1,2,5) show ?thesis by (auto simp: in_arena_def)
  qed
  then show "la_ok (la\<lparr>high_water := ?hw + of_nat ARENA_SIZE, arenas := arenas la @ [ar]\<rparr>) ((unat p, len) # live)"
    using la_okD(1,4) [OF ok] st old off(4,5) hw len
    by (auto simp: la_ok_def nth_append less_Suc_eq arena_start_def)
  show "8 dvd unat p" using off(1,3) la_okD(1) [OF ok]
    by (simp add: arena_start_def FIRST_ARENA_BASE_def ARENA_SIZE_def)
  show "unat p + len \<le> unat ?hw + ARENA_SIZE" using off(1,2) by simp
qed

text \<open>A fresh arena always has room for a block of at most its size.\<close>

lemma arena_new_alloc:
  "len \<le> ARENA_SIZE \<Longrightarrow> \<exists>p ar. arena_alloc (arena_new b) len 8 = (Some p, ar)"
  by (simp add: arena_alloc_def arena_new_def Let_def align_up_8)

lemma mm_mmap_ok:
  assumes ok: "la_ok la live" and mem: "unat (high_water la) \<le> cur" "cur < 2 ^ 32"
    and mm: "mm_mmap la cur len prot flags fd off = (MmapOk p, la')"
  shows "la_ok la' ((unat p, len) # live)" "8 dvd unat p" "unat p + len \<le> unat (high_water la')"
    "unat (high_water la') \<le> cur" "0 < len"
proof -
  show len: "0 < len" using mm by (auto simp: mm_mmap_def split: if_splits)
  have "(la_ok la' ((unat p, len) # live) \<and> 8 dvd unat p \<and> unat p + len \<le> unat (high_water la')) \<and>
      unat (high_water la') \<le> cur"
  proof (cases "alloc_existing len (arenas la)")
    case (Some r)
    obtain q as' where r: "r = (q, as')" by (cases r)
    from mm Some r have "p = q" "la' = la\<lparr>arenas := as'\<rparr>" by (auto simp: mm_mmap_def split: if_splits)
    with la_alloc_existing_ok [OF ok len, of q as'] Some r mem show ?thesis by simp
  next
    case None
    then have room: "unat (high_water la) + ARENA_SIZE \<le> cur" and sz: "len \<le> ARENA_SIZE"
      using mm by (auto simp: mm_mmap_def Let_def split: if_splits prod.splits option.splits)
    with arena_new_alloc obtain q ar where q: "arena_alloc (arena_new (high_water la)) len 8 = (Some q, ar)"
      by blast
    have "p = q" and la': "la' = la\<lparr>high_water := high_water la + of_nat ARENA_SIZE, arenas := arenas la @ [ar]\<rparr>"
      using mm None q by (auto simp: mm_mmap_def Let_def split: if_splits)
    moreover have "unat (high_water la + of_nat ARENA_SIZE) = unat (high_water la) + ARENA_SIZE"
      using room mem by (intro unat_add_of_nat) simp
    ultimately show ?thesis using la_push_arena_ok [OF ok _ len q] room mem by simp
  qed
  then show "la_ok la' ((unat p, len) # live)" "8 dvd unat p" "unat p + len \<le> unat (high_water la')"
    "unat (high_water la') \<le> cur" by simp_all
qed

lemma mm_mmap_not_ok:
  assumes "mm_mmap la cur len prot flags fd off = (r, la')" "\<And>p. r \<noteq> MmapOk p"
  shows "la' = la"
proof -
  have "\<exists>p ar. arena_alloc (arena_new b) len 8 = (Some p, ar)" if "\<not> ARENA_SIZE < len" for b
    using that arena_new_alloc by simp
  with assms show ?thesis
    by (auto simp: mm_mmap_def Let_def split: if_splits prod.splits option.splits) (metis prod.inject option.distinct(1))+
qed

section \<open>Freeing and growing\<close>

lemma arena_contains_iff:
  assumes "unat (a_base a) + ARENA_SIZE < 2 ^ 32" "unat p + n < 2 ^ 32"
  shows "arena_contains a p n \<longleftrightarrow> in_arena a (unat p, n)"
proof -
  have n: "unat (of_nat n :: u32) = n" using assms(2) by (simp add: unat_of_nat)
  then have e: "u32_checked_add p (of_nat n) = Some (p + of_nat n)"
    using assms(2) by (simp add: u32_checked_add_def)
  show ?thesis
    using assms by (simp add: arena_contains_def e in_arena_def word_le_nat_alt unat_add_of_nat)
qed

lemma in_arena_unique:
  assumes "la_ok la live" "i < length (arenas la)" "j < length (arenas la)"
    "in_arena (arenas la ! i) b" "in_arena (arenas la ! j) b" "0 < snd b"
  shows "i = j"
proof (rule ccontr)
  assume "i \<noteq> j"
  from arena_start_apart [OF this] la_okD(2) [OF assms(1,2)] la_okD(2) [OF assms(1,3)] assms(4-6)
  show False by (auto simp: in_arena_def)
qed

lemma la_ok_shrink:
  assumes ok: "la_ok la live" and i: "i < length (arenas la)"
    and a': "arena_ok (remove1 b live) a'" "a_base a' = a_base (arenas la ! i)"
  shows "la_ok (la\<lparr>arenas := (arenas la)[i := a']\<rparr>) (remove1 b live)"
proof (rule la_ok_update [OF ok i a'(2,1)])
  fix j assume "j < length (arenas la)"
  then show "arena_ok (remove1 b live) (arenas la ! j)"
    using la_okD(3) [OF ok] by (intro arena_ok_frame_remove)
next
  fix b' assume "b' \<in> set (remove1 b live)"
  then have "b' \<in> set live" by (metis notin_set_remove1)
  then show "0 < snd b' \<and> (\<exists>j < length (arenas la). in_arena (arenas la ! j) b')"
    using la_okD(4,5) [OF ok] by blast
qed

lemma mm_munmap_ok:
  assumes ok: "la_ok la live" and live: "(unat p, n) \<in> set live"
  shows "\<exists>la'. mm_munmap la p n = (0, la') \<and> la_ok la' (remove1 (unat p, n) live) \<and>
           high_water la' = high_water la"
proof -
  have n: "0 < n" using la_okD(4) [OF ok live] by simp
  from la_okD(5) [OF ok live] obtain i where i: "i < length (arenas la)" "in_arena (arenas la ! i) (unat p, n)" by blast
  have rng: "unat (a_base (arenas la ! j)) + ARENA_SIZE < 2 ^ 32" if "j < length (arenas la)" for j
    using la_ok_range [OF ok that] unat32_less [of "high_water la"] by simp
  have pn: "unat p + n < 2 ^ 32" using i(2) rng [OF i(1)] by (simp add: in_arena_def)
  have "arena_contains (arenas la ! i) p n" using i arena_contains_iff [OF rng pn] by blast
  then have "munmap_arenas p n (arenas la) \<noteq> None" using i(1) by (auto simp: munmap_arenas_None)
  then obtain as' where as': "munmap_arenas p n (arenas la) = Some as'" by blast
  from munmap_arenas_nth [OF this] obtain j where j: "j < length (arenas la)"
    "arena_contains (arenas la ! j) p n" "as' = (arenas la)[j := snd (arena_free (arenas la ! j) p n)]" by blast
  then have "in_arena (arenas la ! j) (unat p, n)" using arena_contains_iff [OF rng pn] by blast
  with arena_free_ok [OF la_okD(3) [OF ok j(1)] live n] obtain a' where
    a': "arena_free (arenas la ! j) p n = (True, a')" "arena_ok (remove1 (unat p, n) live) a'"
      "a_base a' = a_base (arenas la ! j)" by (auto simp: in_arena_def)
  then show ?thesis
    using la_ok_shrink [OF ok j(1) a'(2,3)] n as' j(3) by (simp add: mm_munmap_def)
qed

lemma grow_arenas_nth:
  "grow_arenas p n extra as = Some as' \<Longrightarrow>
    \<exists>i < length as. unat (a_base (as ! i)) \<le> unat p \<and> unat p - unat (a_base (as ! i)) + n = a_used (as ! i) \<and>
      a_used (as ! i) + extra \<le> ARENA_SIZE \<and>
      as' = as[i := (as ! i)\<lparr>a_used := a_used (as ! i) + extra\<rparr>]"
proof (induction as arbitrary: as')
  case (Cons a as)
  show ?case
  proof (cases "\<exists>v. u32_checked_sub p (a_base a) = Some v \<and> unat v + n = a_used a \<and> a_used a + extra \<le> ARENA_SIZE")
    case True
    then obtain v where v: "u32_checked_sub p (a_base a) = Some v" "unat v + n = a_used a"
      "a_used a + extra \<le> ARENA_SIZE" by blast
    moreover have "unat v = unat p - unat (a_base a)" "unat (a_base a) \<le> unat p"
      using u32_checked_sub_unat [OF v(1)] v(1) by (simp_all add: u32_checked_sub_Some)
    ultimately show ?thesis using Cons.prems by (intro exI [of _ 0]) auto
  next
    case False
    with Cons.prems obtain as'' where as'': "grow_arenas p n extra as = Some as''" "as' = a # as''"
      by (fastforce split: option.splits if_splits)
    from Cons.IH [OF this(1)] show ?thesis
      unfolding as''(2) by (metis Suc_less_eq length_Cons list_update_code(3) nth_Cons_Suc)
  qed
qed simp

text \<open>Growing the topmost block in place: its new tail was above the bump pointer.\<close>

text \<open>Extending the topmost block of an arena by moving the bump pointer.\<close>

lemma arena_grow_ok:
  assumes ok: "arena_ok live a" and live: "(unat p, n) \<in> set live" and new: "n < m"
    and top: "unat (a_base a) \<le> unat p" "unat p - unat (a_base a) + n = a_used a" "a_used a + (m - n) \<le> ARENA_SIZE"
  shows "arena_ok ((unat p, m) # remove1 (unat p, n) live) (a\<lparr>a_used := a_used a + (m - n)\<rparr>)" (is "arena_ok ?live ?a")
proof (rule arena_okI)
  note okD = arena_okD [OF ok]
  fix x assume x: "x < ARENA_SIZE"
  have "occ [(unat p, n)] (unat (a_base a) + x) = (if a_used a \<le> x + n \<and> x < a_used a then 1 else 0)"
    "occ [(unat p, m)] (unat (a_base a) + x) = (if a_used a \<le> x + n \<and> x < a_used a + (m - n) then 1 else 0)"
    using top new by auto
  with okD(4) [OF x] occ_remove1 [OF live, of "unat (a_base a) + x"]
  show "occ ?live (unat (a_base ?a) + x) + occ (free_list ?a) x \<le> (if x < a_used ?a then 1 else 0)"
    by (auto split: if_splits)
next
  fix x assume "ARENA_SIZE \<le> x"
  then show "occ (free_list ?a) x = 0" using arena_okD(1) [OF ok] arena_okD(5) [OF ok, of x] by auto
qed (use arena_okD [OF ok] top in auto)

lemma grow_in_place_ok:
  assumes ok: "la_ok la live" and live: "(unat p, n) \<in> set live" and new: "n < m"
    and gr: "grow_in_place la p n m = (Inr q, la')"
  shows "q = p" "la_ok la' ((unat p, m) # remove1 (unat p, n) live)"
proof -
  have n: "0 < n" using la_okD(4) [OF ok live] by simp
  obtain as' where as': "grow_arenas p n (m - n) (arenas la) = Some as'" "la' = la\<lparr>arenas := as'\<rparr>" "q = p"
    using gr new by (auto simp: grow_in_place_def split: option.splits)
  then show "q = p" by simp
  from grow_arenas_nth [OF as'(1)] obtain i where i: "i < length (arenas la)"
    and top: "unat (a_base (arenas la ! i)) \<le> unat p"
      "unat p - unat (a_base (arenas la ! i)) + n = a_used (arenas la ! i)"
      "a_used (arenas la ! i) + (m - n) \<le> ARENA_SIZE"
    and upd: "as' = (arenas la)[i := (arenas la ! i)\<lparr>a_used := a_used (arenas la ! i) + (m - n)\<rparr>]" by blast
  define a where "a = arenas la ! i"
  define a' where "a' = a\<lparr>a_used := a_used a + (m - n)\<rparr>"
  note okD = arena_okD [OF la_okD(3) [OF ok i], folded a_def]
  note top' = top [folded a_def]
  let ?live = "(unat p, m) # remove1 (unat p, n) live"
  have "arena_ok ?live a'" unfolding a'_def by (rule arena_grow_ok [OF la_okD(3) [OF ok i, folded a_def] live new top'])
  moreover have "arena_ok ?live (arenas la ! j)" if j: "j < length (arenas la)" "j \<noteq> i" for j
  proof (rule arena_ok_frame_add [OF arena_ok_frame_remove [OF la_okD(3) [OF ok j(1)]]])
    show "unat p + m \<le> unat (a_base (arenas la ! j)) \<or> unat (a_base (arenas la ! j)) + ARENA_SIZE \<le> unat p"
      using arena_start_apart [OF j(2)] la_okD(2) [OF ok i] la_okD(2) [OF ok j(1)] top new okD(1)
      by (auto simp: a_def)
  qed
  moreover have "0 < snd b \<and> (\<exists>j < length (arenas la). in_arena (arenas la ! j) b)" if b: "b \<in> set ?live" for b
  proof (cases "b \<in> set live")
    case True
    then show ?thesis using la_okD(4,5) [OF ok] by blast
  next
    case False
    with b have "b = (unat p, m)" by (auto dest: notin_set_remove1)
    with top new n i show ?thesis by (auto simp: in_arena_def)
  qed
  ultimately show "la_ok la' ?live"
    unfolding as'(2) upd a_def [symmetric] a'_def [symmetric]
    by (intro la_ok_update [OF ok i]) (simp_all add: a'_def a_def)
qed

text \<open>
  The bound below 4 GiB is needed: with all 4 GiB of linear memory in use the high-water mark wraps to 0, and the next arena is placed at
  address 0, on the guest's own data.
\<close>

lemma high_water_wraps:
  assumes "high_water la = 0xFFFC0000" "alloc_existing ARENA_SIZE (arenas la) = None"
  shows "\<exists>la1 la2. mm_mmap la (2 ^ 32) ARENA_SIZE 3 0x22 (- 1) 0 = (MmapOk 0xFFFC0000, la1) \<and> high_water la1 = 0 \<and>
    mm_mmap la1 (2 ^ 32) ARENA_SIZE 3 0x22 (- 1) 0 = (MmapOk 0, la2)"
proof -
  have full: "arena_alloc (arena_new b) ARENA_SIZE 8 = (Some b, \<lparr>a_base = b, a_used = ARENA_SIZE, free_list = []\<rparr>)"
    "arena_alloc \<lparr>a_base = b, a_used = ARENA_SIZE, free_list = []\<rparr> ARENA_SIZE 8 = (None, \<lparr>a_base = b, a_used = ARENA_SIZE, free_list = []\<rparr>)" for b
    by (simp_all add: arena_alloc_def arena_new_def align_up_8 ARENA_SIZE_def)
  have last: "alloc_existing ARENA_SIZE (as @ [\<lparr>a_base = b, a_used = ARENA_SIZE, free_list = []\<rparr>]) = None"
    if "alloc_existing ARENA_SIZE as = None" for as b
    using that by (induction as) (auto simp: full split: prod.splits option.splits)
  have [simp]: "ARENA_SIZE \<noteq> 0" "(of_nat ARENA_SIZE :: u32) = 0x40000" by (simp_all add: ARENA_SIZE_def)
  have n: "unat (0xFFFC0000 :: u32) + ARENA_SIZE = 2 ^ 32" "\<not> (2 ^ 32 :: nat) < ARENA_SIZE" by (simp_all add: ARENA_SIZE_def)
  let ?la1 = "la\<lparr>high_water := 0, arenas := arenas la @ [\<lparr>a_base = 0xFFFC0000, a_used = ARENA_SIZE, free_list = []\<rparr>]\<rparr>"
  have one: "mm_mmap la (2 ^ 32) ARENA_SIZE 3 0x22 (- 1) 0 = (MmapOk 0xFFFC0000, ?la1)"
    using n by (simp add: mm_mmap_def MAP_ANONYMOUS_def MAP_PRIVATE_def assms full Let_def del: unat_numeral)
  have "\<exists>la2. mm_mmap ?la1 (2 ^ 32) ARENA_SIZE 3 0x22 (- 1) 0 = (MmapOk 0, la2)"
    using n(2) by (simp add: mm_mmap_def MAP_ANONYMOUS_def MAP_PRIVATE_def last [OF assms(2)] full Let_def)
  with one show ?thesis by auto
qed

section \<open>The allocator as a block allocator\<close>

text \<open>
  The client's view: the state is the allocator and the size of linear memory; an
  allocation is an anonymous private \<open>mmap\<close> that does not need to grow memory.
\<close>

type_synonym mm_state = "linear_allocator \<times> nat"

definition mm_blocks_ok :: "mm_state \<Rightarrow> block list \<Rightarrow> bool" where
  "mm_blocks_ok s live \<longleftrightarrow>
     la_ok (fst s) live \<and> unat (high_water (fst s)) \<le> snd s \<and> snd s < 2 ^ 32"

definition mm_get :: "nat \<Rightarrow> mm_state \<Rightarrow> nat option \<times> mm_state" where
  "mm_get n s =
     (case mm_mmap (fst s) (snd s) n 3 0x22 (- 1) 0 of
        (MmapOk p, la') \<Rightarrow> (Some (unat p), (la', snd s))
      | (_, la') \<Rightarrow> (None, (la', snd s)))"

definition mm_put :: "block \<Rightarrow> mm_state \<Rightarrow> mm_state" where
  "mm_put b s = (snd (mm_munmap (fst s) (of_nat (fst b)) (snd b)), snd s)"

lemma la_ok_occ:
  assumes "la_ok la live"
  shows "occ live x \<le> 1"
proof (cases "occ live x = 0")
  case False
  then obtain b where b: "b \<in> set live" "in_block b x" by (auto simp: occ_zero_iff)
  from la_okD(5) [OF assms b(1)] obtain i where i: "i < length (arenas la)" "in_arena (arenas la ! i) b" by blast
  define y where "y = x - unat (a_base (arenas la ! i))"
  have "y < ARENA_SIZE" "unat (a_base (arenas la ! i)) + y = x"
    using i(2) b(2) by (cases b; auto simp: in_arena_def y_def)+
  then show ?thesis using arena_okD(4) [OF la_okD(3) [OF assms i(1)], of y] by (simp split: if_splits)
qed simp

interpretation mm_alloc_if: block_allocator mm_blocks_ok mm_get mm_put
proof unfold_locales
  fix s s' :: mm_state and live and n p :: nat
  assume inv: "mm_blocks_ok s live"
  { assume "mm_get n s = (Some p, s')"
    then obtain q la' where q: "mm_mmap (fst s) (snd s) n 3 0x22 (- 1) 0 = (MmapOk q, la')"
      "p = unat q" "s' = (la', snd s)"
      by (auto simp: mm_get_def split: prod.splits mmap_result.splits)
    with inv mm_mmap_ok [OF _ _ _ q(1), of live] show "mm_blocks_ok s' ((p, n) # live)"
      by (simp add: mm_blocks_ok_def) }
  assume "mm_get n s = (None, s')"
  then obtain r la' where r: "mm_mmap (fst s) (snd s) n 3 0x22 (- 1) 0 = (r, la')" "s' = (la', snd s)"
    "\<And>p. r \<noteq> MmapOk p"
    by (auto simp: mm_get_def split: prod.splits mmap_result.splits)
  from mm_mmap_not_ok [OF r(1,3)] r(2) inv show "mm_blocks_ok s' live" by (simp add: mm_blocks_ok_def)
next
  fix s :: mm_state and live b
  assume inv: "mm_blocks_ok s live" and b: "b \<in> set live"
  obtain p n where pn: "b = (p, n)" by (cases b)
  have ok: "la_ok (fst s) live" using inv by (simp add: mm_blocks_ok_def)
  from la_okD(5) [OF ok b] obtain i where "i < length (arenas (fst s))" "in_arena (arenas (fst s) ! i) b" by blast
  with la_ok_range [OF ok, of i] pn have "p + n \<le> unat (high_water (fst s))" by (simp add: in_arena_def)
  then have "unat (of_nat p :: u32) = p"
    using unat32_less [of "high_water (fst s)"] by (simp add: unat_of_nat)
  with mm_munmap_ok [OF ok, of "of_nat p" n] b pn inv
  show "mm_blocks_ok (mm_put b s) (remove1 b live)" by (auto simp: mm_blocks_ok_def mm_put_def)
qed (metis mm_blocks_ok_def la_ok_occ)

section \<open>Properties\<close>

lemma run_keeps_size: "alloc_run mm_get mm_put s live ops = (s', live') \<Longrightarrow> snd s' = snd s"
proof (induction ops arbitrary: s live)
  case (Cons op ops)
  have "snd (snd (mm_get n s)) = snd s" "snd (mm_put b s) = snd s" for n b
    by (auto simp: mm_get_def mm_put_def split: prod.split mmap_result.split)
  with Cons show ?case by (cases op) (auto split: if_splits prod.splits option.splits, metis snd_conv, metis snd_conv)
qed simp

text \<open>
  C3: Starting from a fresh allocator over a linear memory of fixed size, at least 1 MiB and below 4 GiB, after any
  sequence of \<open>mmap\<close>s (anonymous, private) and \<open>munmap\<close>s of whole live blocks no two live blocks share an address, and every live
  block lies inside one of the allocator's arenas and inside linear memory.
\<close>

theorem mmap_run_disjoint:
  assumes "0x100000 \<le> mem" "mem < 2 ^ 32"
    and "alloc_run mm_get mm_put (la_new, mem) [] ops = (s, live)"
  shows "blocks_disjoint live \<and>
    (\<forall>b \<in> set live. (\<exists>a \<in> set (arenas (fst s)). in_arena a b) \<and> fst b + snd b \<le> mem)"
proof -
  have init: "mm_blocks_ok (la_new, mem) []"
    using assms(1,2) la_new_ok by (simp add: mm_blocks_ok_def la_new_def FIRST_ARENA_BASE_def)
  from mm_alloc_if.run_inv [OF this assms(3)] run_keeps_size [OF assms(3)]
  have ok: "la_ok (fst s) live" "unat (high_water (fst s)) \<le> mem" by (simp_all add: mm_blocks_ok_def)
  have "(\<exists>a \<in> set (arenas (fst s)). in_arena a b) \<and> fst b + snd b \<le> mem" if "b \<in> set live" for b
    using la_okD(5) [OF ok(1) that] la_ok_range [OF ok(1)] ok(2) by (fastforce simp: in_arena_def)
  with mm_alloc_if.run_disjoint [OF init assms(3)] show ?thesis by blast
qed

theorem mmap_run_disjoint_witness:
  "\<exists>s live. alloc_run mm_get mm_put (la_new, 0x200000) [] [Alloc 100, Alloc 20, Free 1, Alloc 8] = (s, live) \<and>
    blocks_disjoint live \<and> (\<forall>b \<in> set live. fst b + snd b \<le> 0x200000)"
  using mmap_run_disjoint [where mem = "0x200000" and ops = "[Alloc 100, Alloc 20, Free 1, Alloc 8]"]
  by (cases "alloc_run mm_get mm_put (la_new, 0x200000) [] [Alloc 100, Alloc 20, Free 1, Alloc 8]") simp

text \<open>
  A successful \<open>mmap\<close> decision returns an 8-aligned block inside linear memory
  that overlaps no live block, and leaves the allocator consistent with the block
  added to the live ones.
\<close>

lemma mmap_placement:
  assumes "la_ok la live" "unat (high_water la) \<le> mem" "mem < 2 ^ 32"
    and "mm_mmap la mem len prot flags fd off = (MmapOk p, la')"
  shows "8 dvd unat p \<and> unat p + len \<le> mem \<and>
    (\<forall>x. in_block (unat p, len) x \<longrightarrow> occ live x = 0) \<and> la_ok la' ((unat p, len) # live)"
proof -
  note ok = mm_mmap_ok [OF assms]
  have "occ live x = 0" if "in_block (unat p, len) x" for x
    using la_ok_occ [OF ok(1), of x] that by (simp del: in_block.simps)
  with ok show ?thesis by (simp del: in_block.simps)
qed

text \<open>
  \<open>munmap\<close> of a live block returns 0 and returns the block's bytes to the
  allocator: the remaining live blocks stay consistent.
\<close>

lemma munmap_live_block:
  assumes "la_ok la live" "(unat p, n) \<in> set live"
  shows "fst (mm_munmap la p n) = 0 \<and> la_ok (snd (mm_munmap la p n)) (remove1 (unat p, n) live)"
  using mm_munmap_ok [OF assms] by auto

text \<open>
  \<open>grow_in_place\<close> on a live block keeps its address, extends it to the new
  length, and keeps the allocator consistent, so the extension overlaps nothing.
\<close>

lemma grow_in_place_correct:
  assumes "la_ok la live" "(unat p, n) \<in> set live" "n < m"
    and "grow_in_place la p n m = (Inr q, la')"
  shows "q = p \<and> la_ok la' ((unat p, m) # remove1 (unat p, n) live)"
  using grow_in_place_ok [OF assms] by simp

end
