(* ===== verification/Paths.thy ===== *)
theory Paths
  imports Errno
begin

text \<open>
  What the sources use of \<^verbatim>\<open>std::path\<close> on Unix: \<open>Path::components\<close>, \<open>join\<close>, \<open>pop\<close>,
  \<open>starts_with\<close> and printing.  A \<open>PathBuf\<close> is its list of components, the view
  \<open>Path\<close> equality and \<open>starts_with\<close> are defined by.
\<close>

named_theorems path_simps \<open>parsing and printing of paths\<close>

datatype component = RootDir | CurDir | ParentDir | Normal bytes

type_synonym pathbuf = "component list"

abbreviation slash :: u8 where "slash \<equiv> 0x2F"
abbreviation dot :: u8 where "dot \<equiv> 0x2E"

fun split_slash :: "bytes \<Rightarrow> bytes list" where
  "split_slash [] = [[]]"
| "split_slash (b # bs) =
     (if b = slash then [] # split_slash bs
      else case split_slash bs of
        [] \<Rightarrow> [[b]]
      | seg # segs \<Rightarrow> (b # seg) # segs)"

fun seg_component :: "bytes \<Rightarrow> component" where
  "seg_component s = (if s = [dot, dot] then ParentDir else Normal s)"

text \<open>
  \<open>Path::components\<close>: a leading slash is \<open>RootDir\<close>; empty and \<open>.\<close> segments are
  dropped, except that a relative path that starts with \<open>.\<close> keeps it as \<open>CurDir\<close>.
\<close>

definition components :: "bytes \<Rightarrow> pathbuf" where
  "components s =
     (let segs = split_slash s;
          pre = (if s \<noteq> [] \<and> hd s = slash then [RootDir]
                 else if hd segs = [dot] then [CurDir] else [])
      in pre @ map seg_component (filter (\<lambda>g. g \<noteq> [] \<and> g \<noteq> [dot]) segs))"

definition is_absolute :: "pathbuf \<Rightarrow> bool" where
  "is_absolute p \<longleftrightarrow> p \<noteq> [] \<and> hd p = RootDir"

text \<open>
  \<open>PathBuf::join\<close>: an absolute argument replaces the base; otherwise the components
  follow the base (a leading \<open>.\<close> is then no longer at the start of the path).
\<close>

definition path_join :: "pathbuf \<Rightarrow> pathbuf \<Rightarrow> pathbuf" where
  "path_join base p =
     (if is_absolute p then p
      else if base = [] then p
      else base @ filter (\<lambda>c. c \<noteq> CurDir) p)"

text \<open>\<open>PathBuf::pop\<close>: \<open>None\<close> is the \<open>false\<close> result (no parent).\<close>

definition path_pop :: "pathbuf \<Rightarrow> pathbuf option" where
  "path_pop p = (if p = [] \<or> last p = RootDir then None else Some (butlast p))"

text \<open>\<open>PathBuf::push\<close> of one component's \<open>as_os_str\<close>.\<close>

fun push_component :: "pathbuf \<Rightarrow> component \<Rightarrow> pathbuf" where
  "push_component p RootDir = [RootDir]"
| "push_component p c = p @ [c]"

text \<open>The string form (\<open>to_string_lossy\<close>) of a component list.\<close>

fun component_str :: "component \<Rightarrow> bytes" where
  "component_str RootDir = []"
| "component_str CurDir = [dot]"
| "component_str ParentDir = [dot, dot]"
| "component_str (Normal n) = n"

fun join_slash :: "bytes list \<Rightarrow> bytes" where
  "join_slash [] = []"
| "join_slash [s] = s"
| "join_slash (s # segs) = s @ slash # join_slash segs"

definition path_str :: "pathbuf \<Rightarrow> bytes" where
  "path_str p =
     (if p = [RootDir] then [slash] else join_slash (map component_str p))"

section \<open>Canonical paths\<close>

definition name_ok :: "bytes \<Rightarrow> bool" where
  "name_ok n \<longleftrightarrow> n \<noteq> [] \<and> slash \<notin> set n \<and> n \<noteq> [dot] \<and> n \<noteq> [dot, dot]"

definition canonical :: "pathbuf \<Rightarrow> bool" where
  "canonical p \<longleftrightarrow> (\<exists>ns. p = RootDir # map Normal ns \<and> (\<forall>n \<in> set ns. name_ok n))"

text \<open>Components a parser can produce carry well-formed names.\<close>

fun component_ok :: "component \<Rightarrow> bool" where
  "component_ok (Normal n) = name_ok n"
| "component_ok _ = True"

lemma split_slash_nonempty [simp]: "split_slash s \<noteq> []"
  by (induction s) (auto split: list.splits)

lemma split_slash_no_slash: "g \<in> set (split_slash s) \<Longrightarrow> slash \<notin> set g"
  by (induction s arbitrary: g) (auto split: if_splits list.splits)

lemma components_ok: "c \<in> set (components s) \<Longrightarrow> component_ok c"
  by (auto simp: components_def Let_def name_ok_def dest: split_slash_no_slash split: if_splits)

lemma split_slash_no_slash_id [path_simps]: "slash \<notin> set s \<Longrightarrow> split_slash s = [s]"
  by (induction s) auto

lemma split_slash_append [path_simps]:
  "slash \<notin> set s \<Longrightarrow> split_slash (s @ slash # r) = s # split_slash r"
  by (induction s) auto

lemma split_join_slash [path_simps]:
  "segs \<noteq> [] \<Longrightarrow> \<forall>s \<in> set segs. slash \<notin> set s \<Longrightarrow> split_slash (join_slash segs) = segs"
proof (induction segs rule: join_slash.induct)
  case (3 s t ts)
  then show ?case by (simp add: split_slash_append)
qed (auto simp: split_slash_no_slash_id)

lemma map_seg_component: "\<forall>n \<in> set ns. name_ok n \<Longrightarrow> map seg_component ns = map Normal ns"
  by (auto simp: name_ok_def)

lemma filter_names: "\<forall>n \<in> set ns. name_ok n \<Longrightarrow> filter (\<lambda>g. g \<noteq> [] \<and> g \<noteq> [dot]) ns = ns"
  by (auto simp: name_ok_def intro!: filter_True)

lemma hd_join_slash: "hd (join_slash ([] # n # ns)) = slash"
  by simp

text \<open>Parsing the printed form of a canonical path gives the path back.\<close>

lemma components_path_str:
  assumes "canonical p"
  shows "components (path_str p) = p"
proof -
  from assms obtain ns where p: "p = RootDir # map Normal ns" and ok: "\<forall>n \<in> set ns. name_ok n"
    by (auto simp: canonical_def)
  show ?thesis
  proof (cases ns)
    case Nil
    then show ?thesis by (simp add: p path_str_def components_def)
  next
    case (Cons n ms)
    have strs: "map component_str p = [] # ns" by (simp add: p comp_def)
    have "path_str p = join_slash ([] # ns)" unfolding path_str_def strs by (simp add: p Cons)
    moreover have "split_slash (join_slash ([] # ns)) = [] # ns"
      using ok by (intro split_join_slash) (auto simp: name_ok_def)
    moreover have "join_slash ([] # ns) \<noteq> []" "hd (join_slash ([] # ns)) = slash"
      by (simp_all add: Cons)
    ultimately show ?thesis
      using map_seg_component [OF ok] filter_names [OF ok] by (simp add: components_def Let_def p)
  qed
qed

lemma canonical_absolute: "canonical p \<Longrightarrow> is_absolute p"
  by (auto simp: canonical_def is_absolute_def)

lemma path_str_slash: "canonical p \<Longrightarrow> path_str p \<noteq> [] \<and> hd (path_str p) = slash"
proof -
  assume "canonical p"
  then obtain ns where "p = RootDir # map Normal ns" by (auto simp: canonical_def)
  then show ?thesis by (cases ns) (simp_all add: path_str_def)
qed

end
