(* ===== verification/Guest_Mem.thy ===== *)
theory Guest_Mem
  imports Errno
begin

text \<open>
  \<^verbatim>\<open>src/src/mem.rs\<close> and the memory accessors of \<^verbatim>\<open>src/src/kernel.rs\<close>: every access to
  guest linear memory goes through the bounds check \<open>guest_range\<close> and fails with
  \<open>-EFAULT\<close> outside it.  Linear memory is a byte list; a mutable slice is the range
  it covers, written with \<open>mem_write\<close>.
\<close>

section \<open>Linear memory\<close>

datatype memory_kind = Owned bytes | Shared bytes

fun memory_bytes :: "memory_kind \<Rightarrow> bytes" where
  "memory_bytes (Owned m) = m"
| "memory_bytes (Shared m) = m"

text \<open>\<open>Kernel::memory\<close>: handlers see the owned variant only.\<close>

definition kernel_memory :: "memory_kind option \<Rightarrow> bytes res" where
  "kernel_memory mem =
     (case mem of
        None \<Rightarrow> Inl (- EFAULT)
      | Some (Owned m) \<Rightarrow> Inr m
      | Some (Shared m) \<Rightarrow> Inl (- EINVAL))"

text \<open>\<open>Kernel::memory_kind\<close>: the snapshot paths take both variants.\<close>

definition kernel_memory_kind :: "memory_kind option \<Rightarrow> memory_kind res" where
  "kernel_memory_kind mem = ok_or mem (- EFAULT)"

text \<open>
  The shared prefix of \<open>guest_slice\<close> and \<open>guest_slice_mut\<close>: the byte range
  \<open>(p, l)\<close> if it lies in linear memory.
\<close>

definition guest_range :: "memory_kind option \<Rightarrow> int \<Rightarrow> int \<Rightarrow> (nat \<times> nat) res" where
  "guest_range mem ptr len =
     (if ptr < 0 \<or> len < 0 then Inl (- EFAULT)
      else let p = nat ptr; l = nat len
           in res_bind (ok_or (usize_checked_add p l) (- EFAULT)) (\<lambda>e.
              res_bind (kernel_memory mem) (\<lambda>base.
                if e \<le> length base then Inr (p, l) else Inl (- EFAULT))))"

definition guest_slice :: "memory_kind option \<Rightarrow> int \<Rightarrow> int \<Rightarrow> bytes res" where
  "guest_slice mem ptr len =
     res_bind (guest_range mem ptr len) (\<lambda>(p, l).
       res_bind (kernel_memory mem) (\<lambda>base. Inr (slice p l base)))"

definition guest_slice_mut :: "memory_kind option \<Rightarrow> int \<Rightarrow> int \<Rightarrow> (nat \<times> nat) res" where
  "guest_slice_mut mem ptr len = guest_range mem ptr len"

text \<open>\<open>guest_slice_mut_via\<close> takes the already fetched owned memory.\<close>

definition guest_slice_mut_via :: "bytes \<Rightarrow> int \<Rightarrow> int \<Rightarrow> (nat \<times> nat) res" where
  "guest_slice_mut_via base ptr len =
     (if ptr < 0 \<or> len < 0 then Inl (- EFAULT)
      else let p = nat ptr; l = nat len
           in res_bind (ok_or (usize_checked_add p l) (- EFAULT)) (\<lambda>e.
                if e \<le> length base then Inr (p, l) else Inl (- EFAULT)))"

text \<open>Storing bytes through a mutable slice that starts at \<open>p\<close>.\<close>

fun mem_write :: "memory_kind option \<Rightarrow> nat \<Rightarrow> bytes \<Rightarrow> memory_kind option" where
  "mem_write None p bs = None"
| "mem_write (Some (Owned m)) p bs = Some (Owned (splice p bs m))"
| "mem_write (Some (Shared m)) p bs = Some (Shared (splice p bs m))"

section \<open>Strings\<close>

text \<open>\<open>core::str::from_utf8\<close>: well-formed UTF-8 (no overlong forms, no surrogates).\<close>

definition byte_in :: "u8 \<Rightarrow> u8 \<Rightarrow> u8 \<Rightarrow> bool" where
  "byte_in lo hi b \<longleftrightarrow> lo \<le> b \<and> b \<le> hi"

abbreviation "cont_byte \<equiv> byte_in 0x80 0xBF"

fun utf8_tail2 :: "u8 \<Rightarrow> u8 \<Rightarrow> bool" where
  "utf8_tail2 b c =
     (if b = 0xE0 then byte_in 0xA0 0xBF c
      else if b = 0xED then byte_in 0x80 0x9F c
      else if b = 0xF0 then byte_in 0x90 0xBF c
      else if b = 0xF4 then byte_in 0x80 0x8F c
      else cont_byte c)"

fun utf8_valid :: "bytes \<Rightarrow> bool" where
  "utf8_valid [] = True"
| "utf8_valid (b # bs) =
     (if b < 0x80 then utf8_valid bs
      else case bs of
        [] \<Rightarrow> False
      | c # cs \<Rightarrow>
          if byte_in 0xC2 0xDF b then cont_byte c \<and> utf8_valid cs
          else (case cs of
             [] \<Rightarrow> False
           | d # ds \<Rightarrow>
               if byte_in 0xE0 0xEF b then utf8_tail2 b c \<and> cont_byte d \<and> utf8_valid ds
               else (case ds of
                  [] \<Rightarrow> False
                | e # es \<Rightarrow>
                    byte_in 0xF0 0xF4 b \<and> utf8_tail2 b c \<and> cont_byte d \<and> cont_byte e \<and>
                    utf8_valid es)))"

text \<open>The bytes before the first NUL, or all of them.\<close>

definition until_nul :: "bytes \<Rightarrow> bytes" where
  "until_nul bs = takeWhile (\<lambda>b. b \<noteq> 0) bs"

definition guest_str :: "memory_kind option \<Rightarrow> int \<Rightarrow> int \<Rightarrow> bytes res" where
  "guest_str mem ptr max_len =
     res_bind (guest_slice mem ptr max_len) (\<lambda>bs.
       if utf8_valid (until_nul bs) then Inr (until_nul bs) else Inl (- EINVAL))"

section \<open>Facts about guest accesses\<close>

lemma guest_range_Inr:
  "guest_range mem ptr len = Inr (p, l) \<Longrightarrow>
    \<exists>m. mem = Some (Owned m) \<and> p = nat ptr \<and> l = nat len \<and> 0 \<le> ptr \<and> 0 \<le> len \<and> p + l \<le> length m"
  by (auto simp: guest_range_def Let_def res_bind_Inr kernel_memory_def usize_checked_add_def ok_or_def
      split: if_splits option.splits memory_kind.splits)

lemma guest_slice_Inr:
  assumes "guest_slice mem ptr len = Inr bs"
  shows "\<exists>m. mem = Some (Owned m) \<and> 0 \<le> ptr \<and> 0 \<le> len \<and> nat ptr + nat len \<le> length m \<and>
    bs = slice (nat ptr) (nat len) m"
proof -
  from assms obtain p l where r: "guest_range mem ptr len = Inr (p, l)"
    by (auto simp: guest_slice_def res_bind_Inr)
  from guest_range_Inr [OF r] show ?thesis using assms r
    by (auto simp: guest_slice_def kernel_memory_def)
qed

lemma guest_slice_length: "guest_slice mem ptr len = Inr bs \<Longrightarrow> length bs = nat len"
  using guest_slice_Inr [of mem ptr len bs] by auto

lemma guest_range_Inl: "guest_range mem ptr len = Inl e \<Longrightarrow> e = - EFAULT \<or> e = - EINVAL"
  by (auto simp: guest_range_def Let_def kernel_memory_def ok_or_def usize_checked_add_def res_bind_def
      split: if_splits option.splits memory_kind.splits)

lemma mem_write_size:
  "guest_range mem ptr len = Inr (p, l) \<Longrightarrow> length bs \<le> l \<Longrightarrow>
    \<exists>m m'. mem = Some (Owned m) \<and> mem_write mem p bs = Some (Owned m') \<and> length m' = length m"
  by (auto dest!: guest_range_Inr)

lemma guest_range_length:
  "length m' = length m \<Longrightarrow> guest_range (Some (Owned m')) ptr len = guest_range (Some (Owned m)) ptr len"
  by (simp add: guest_range_def kernel_memory_def)

lemma guest_write_read:
  assumes "guest_range mem ptr len = Inr (p, l)" "length bs = l"
  shows "guest_slice (mem_write mem p bs) ptr len = Inr bs"
proof -
  from guest_range_Inr [OF assms(1)] obtain m where m: "mem = Some (Owned m)" "p + l \<le> length m"
    by blast
  with assms have "guest_range (mem_write mem p bs) ptr len = Inr (p, l)"
    using guest_range_length [of "splice p bs m" m ptr len] by simp
  with m assms(2) show ?thesis by (simp add: guest_slice_def kernel_memory_def)
qed

lemma guest_range_shrink:
  "guest_range mem ptr len = Inr (p, l) \<Longrightarrow> n \<le> l \<Longrightarrow> guest_range mem ptr (int n) = Inr (p, n)"
  by (auto simp: guest_range_def Let_def res_bind_Inr usize_checked_add_def ok_or_def
      split: if_splits option.splits)

lemma guest_write_read_prefix:
  assumes "guest_range mem ptr len = Inr (p, l)" "length bs \<le> l"
  shows "guest_slice (mem_write mem p bs) ptr (int (length bs)) = Inr bs"
  by (rule guest_write_read [OF guest_range_shrink [OF assms]]) simp

section \<open>Properties\<close>

text \<open>
  C4: \<open>guest_slice\<close>, on every state of the kernel's memory.  On an owned linear memory it returns exactly the requested bytes
  when pointer and length are not negative and the range lies inside memory, and \<open>-EFAULT\<close> in every other case: no access
  outside linear memory succeeds.  On a shared memory no access succeeds: a range that could exist is \<open>-EINVAL\<close>, any other
  \<open>-EFAULT\<close>.  Before a memory is attached every access is \<open>-EFAULT\<close>.
\<close>

theorem guest_slice_exact:
  assumes "\<forall>m. mem = Some (Owned m) \<longrightarrow> length m < 2 ^ 64"
  shows "guest_slice mem ptr len =
    (case mem of
       None \<Rightarrow> Inl (- EFAULT)
     | Some (Shared m) \<Rightarrow> Inl (if 0 \<le> ptr \<and> 0 \<le> len \<and> ptr + len < 2 ^ 64 then - EINVAL else - EFAULT)
     | Some (Owned m) \<Rightarrow>
         if 0 \<le> ptr \<and> 0 \<le> len \<and> ptr + len \<le> int (length m)
         then Inr (slice (nat ptr) (nat len) m) else Inl (- EFAULT))"
proof -
  have add: "usize_checked_add (nat ptr) (nat len) = (if ptr + len < 2 ^ 64 then Some (nat ptr + nat len) else None)"
    if "0 \<le> ptr" "0 \<le> len"
    using that by (auto simp: usize_checked_add_def)
  show ?thesis
    using assms add
    by (auto simp: guest_slice_def guest_range_def Let_def kernel_memory_def res_bind_def ok_or_def
        split: if_splits option.splits memory_kind.splits)
qed

theorem guest_slice_exact_witness:
  "guest_slice (Some (Owned [1, 2, 3, 4])) 1 2 = Inr [2, 3] \<and>
   guest_slice (Some (Owned [1, 2, 3, 4])) 3 2 = Inl (- EFAULT) \<and>
   guest_slice (Some (Shared [1, 2, 3, 4])) 1 2 = Inl (- EINVAL)"
  using guest_slice_exact [of "Some (Owned [1, 2, 3, 4])" 1 2] guest_slice_exact [of "Some (Owned [1, 2, 3, 4])" 3 2]
    guest_slice_exact [of "Some (Shared [1, 2, 3, 4])" 1 2]
  by (simp add: slice_def)

text \<open>
  C5: A write through a checked mutable slice keeps the size of linear memory,
  stores exactly the given bytes, and changes no byte outside the checked range.
\<close>

theorem guest_write_framed:
  assumes "guest_slice_mut (Some (Owned m)) ptr len = Inr (p, l)" "length bs \<le> l"
  shows "\<exists>m'. mem_write (Some (Owned m)) p bs = Some (Owned m') \<and> length m' = length m \<and>
    slice p (length bs) m' = bs \<and>
    (\<forall>i < length m. int i < ptr \<or> ptr + len \<le> int i \<longrightarrow> m' ! i = m ! i)"
proof -
  from guest_range_Inr [OF assms(1) [unfolded guest_slice_mut_def]]
  have r: "p = nat ptr" "l = nat len" "0 \<le> ptr" "0 \<le> len" "p + l \<le> length m" by auto
  with assms(2) show ?thesis by (auto simp: nth_splice)
qed

theorem guest_write_framed_witness:
  "\<exists>m'. mem_write (Some (Owned [1, 2, 3, 4])) 1 [9, 8] = Some (Owned m') \<and> slice 1 2 m' = [9, 8]"
proof -
  have "guest_slice_mut (Some (Owned [1, 2, 3, 4])) 1 2 = Inr (1, 2)"
    by (simp add: guest_slice_mut_def guest_range_def usize_checked_add_def kernel_memory_def)
  from guest_write_framed [OF this, of "[9, 8]"] show ?thesis by auto
qed

text \<open>
  \<open>guest_str\<close> needs the whole window of \<open>max_len\<close> bytes inside linear memory: a
  string that starts less than \<open>max_len\<close> bytes before the end of memory is rejected
  with \<open>-EFAULT\<close>, whether or not it is NUL-terminated inside memory.
\<close>

lemma guest_str_tail_efault:
  assumes "length m < 2 ^ 64" "int (length m) < ptr + max_len"
  shows "guest_str (Some (Owned m)) ptr max_len = Inl (- EFAULT)"
  using assms
  by (auto simp: guest_str_def guest_slice_def guest_range_def Let_def kernel_memory_def
      usize_checked_add_def res_bind_def ok_or_def split: if_splits)

end
