(* ===== verification/Vfs.thy ===== *)
theory Vfs
  imports Paths Guest_Mem
begin

text \<open>
  The path resolution of \<^verbatim>\<open>src/src/vfs.rs\<close> (\<open>resolve_path\<close>, \<open>normalize\<close>) and the flag
  translation of \<open>Vfs::open\<close>.  \<open>root\<close> bounds every resolution; the theorems show
  that a resolved path is lexically inside \<open>root\<close> and free of \<open>.\<close> and \<open>..\<close>.
\<close>

section \<open>State and resolution\<close>

definition AT_FDCWD :: int where "AT_FDCWD = - 100"

record vfs =
  root :: pathbuf
  cwd :: pathbuf

fun normalize_loop :: "pathbuf \<Rightarrow> pathbuf \<Rightarrow> pathbuf res" where
  "normalize_loop normalized [] = Inr normalized"
| "normalize_loop normalized (ParentDir # cs) =
     (case path_pop normalized of
        None \<Rightarrow> Inl (- EACCES)
      | Some p \<Rightarrow> normalize_loop p cs)"
| "normalize_loop normalized (CurDir # cs) = normalize_loop normalized cs"
| "normalize_loop normalized (RootDir # cs) = normalize_loop (push_component normalized RootDir) cs"
| "normalize_loop normalized (Normal n # cs) = normalize_loop (push_component normalized (Normal n)) cs"

definition normalize :: "vfs \<Rightarrow> pathbuf \<Rightarrow> pathbuf res" where
  "normalize v joined =
     res_bind (normalize_loop [] joined) (\<lambda>normalized.
       if prefix (root v) normalized then Inr normalized else Inl (- EACCES))"

definition resolve_path :: "vfs \<Rightarrow> int \<Rightarrow> bytes \<Rightarrow> pathbuf res" where
  "resolve_path v dirfd path =
     (let candidate = components path
      in if is_absolute candidate \<and> prefix (root v) candidate then normalize v candidate
         else
           res_bind
             (if path \<noteq> [] \<and> hd path = slash then Inr (root v)
              else if dirfd = AT_FDCWD then Inr (cwd v)
              else Inl (- ENOSYS))
             (\<lambda>base.
               let trimmed = dropWhile (\<lambda>b. b = slash) path
               in normalize v (if trimmed = [] then base else path_join base (components trimmed))))"

section \<open>Opening flags\<close>

definition O_ACCMODE :: int where "O_ACCMODE = 3"
definition O_RDONLY :: int where "O_RDONLY = 0"
definition O_WRONLY :: int where "O_WRONLY = 1"
definition O_RDWR :: int where "O_RDWR = 2"
definition O_CREAT :: int where "O_CREAT = 0x40"
definition O_EXCL :: int where "O_EXCL = 0x80"
definition O_TRUNC :: int where "O_TRUNC = 0x200"
definition O_APPEND :: int where "O_APPEND = 0x400"
definition O_NONBLOCK :: int where "O_NONBLOCK = 0x800"
definition O_DIRECTORY :: int where "O_DIRECTORY = 0x10000"
definition O_CLOEXEC :: int where "O_CLOEXEC = 0x80000"

record open_options =
  oo_read :: bool
  oo_write :: bool
  oo_create :: bool
  oo_create_new :: bool
  oo_truncate :: bool
  oo_append :: bool

text \<open>The \<open>OpenOptions\<close> that \<open>Vfs::open\<close> builds from the guest's flags.\<close>

definition open_options_of :: "int \<Rightarrow> open_options res" where
  "open_options_of flags =
     (let accmode = flags AND O_ACCMODE;
          opts = (\<lambda>r w. \<lparr>oo_read = r, oo_write = w,
                    oo_create = (flags AND O_CREAT \<noteq> 0),
                    oo_create_new = (flags AND O_CREAT \<noteq> 0 \<and> flags AND O_EXCL \<noteq> 0),
                    oo_truncate = (flags AND O_TRUNC \<noteq> 0),
                    oo_append = (flags AND O_APPEND \<noteq> 0)\<rparr>)
      in if accmode = O_RDONLY then Inr (opts True False)
         else if accmode = O_WRONLY then Inr (opts False True)
         else if accmode = O_RDWR then Inr (opts True True)
         else Inl (- EINVAL))"

section \<open>Lexical confinement\<close>

fun plain :: "component \<Rightarrow> bool" where
  "plain RootDir = True"
| "plain (Normal n) = True"
| "plain _ = False"

lemma normalize_loop_plain:
  "normalize_loop acc cs = Inr p \<Longrightarrow> \<forall>c \<in> set acc. plain c \<Longrightarrow> \<forall>c \<in> set p. plain c"
proof (induction acc cs rule: normalize_loop.induct)
  case (2 acc cs)
  then show ?case
    by (auto simp: path_pop_def split: option.splits if_splits dest: in_set_butlastD)
qed auto

lemma normalize_Inr:
  assumes "normalize v joined = Inr p"
  shows "prefix (root v) p" "\<forall>c \<in> set p. plain c" "normalize_loop [] joined = Inr p"
  using assms normalize_loop_plain [of "[]"]
  by (auto simp: normalize_def res_bind_Inr split: if_splits)

lemma resolve_path_normalize:
  assumes "resolve_path v dirfd path = Inr p"
  obtains joined where "normalize v joined = Inr p"
  using assms that by (auto simp: resolve_path_def Let_def res_bind_Inr split: if_splits)

text \<open>A canonical accumulator stays canonical, so results of resolution are canonical.\<close>

lemma normalize_loop_canonical:
  "normalize_loop acc cs = Inr p \<Longrightarrow> \<forall>c \<in> set cs. component_ok c \<Longrightarrow> canonical acc \<Longrightarrow> canonical p"
proof (induction acc cs rule: normalize_loop.induct)
  case (2 acc cs)
  from "2.prems"(3) obtain ns where acc: "acc = RootDir # map Normal ns" "\<forall>n \<in> set ns. name_ok n"
    by (auto simp: canonical_def)
  from "2.prems"(1) obtain q where q: "path_pop acc = Some q" "normalize_loop q cs = Inr p"
    by (auto split: option.splits)
  then have "q = RootDir # map Normal (butlast ns)" "ns \<noteq> []"
    using acc by (auto simp: path_pop_def map_butlast split: if_splits)
  then have "canonical q" using acc(2) by (auto simp: canonical_def dest: in_set_butlastD)
  with "2.IH" [OF q(1) q(2)] "2.prems"(2) show ?case by simp
next
  case (4 acc cs)
  have "canonical [RootDir]" by (auto simp: canonical_def intro: exI [of _ "[]"])
  with 4 show ?case by simp
next
  case (5 acc n cs)
  from "5.prems"(3) obtain ns where "acc = RootDir # map Normal ns" "\<forall>n \<in> set ns. name_ok n"
    by (auto simp: canonical_def)
  with "5.prems"(2) have "canonical (acc @ [Normal n])"
    by (auto simp: canonical_def intro!: exI [of _ "ns @ [n]"])
  with 5 show ?case by simp
qed auto

text \<open>On plain absolute input the loop is the identity.\<close>

lemma normalize_loop_names:
  "normalize_loop acc (map Normal ns) = Inr (acc @ map Normal ns)"
  by (induction ns arbitrary: acc) auto

lemma normalize_canonical_id: "canonical p \<Longrightarrow> prefix (root v) p \<Longrightarrow> normalize v p = Inr p"
  by (auto simp: canonical_def normalize_def normalize_loop_names)

section \<open>Lexical specification\<close>

text \<open>
  The abstract reading of a relative path: a walk over a stack of names that starts
  at the working directory; \<open>..\<close> above the file-system root fails.
\<close>

fun lex_walk :: "bytes list \<Rightarrow> pathbuf \<Rightarrow> bytes list option" where
  "lex_walk st [] = Some st"
| "lex_walk st (ParentDir # cs) = (if st = [] then None else lex_walk (butlast st) cs)"
| "lex_walk st (CurDir # cs) = lex_walk st cs"
| "lex_walk st (RootDir # cs) = lex_walk [] cs"
| "lex_walk st (Normal n # cs) = lex_walk (st @ [n]) cs"

lemma normalize_loop_lex_walk:
  "normalize_loop (RootDir # map Normal st) cs =
     (case lex_walk st cs of None \<Rightarrow> Inl (- EACCES) | Some st' \<Rightarrow> Inr (RootDir # map Normal st'))"
proof (induction st cs rule: lex_walk.induct)
  case (2 st cs)
  show ?case
  proof (cases "st = []")
    case False
    then have "path_pop (RootDir # map Normal st) = Some (RootDir # map Normal (butlast st))"
      by (simp add: path_pop_def map_butlast last_map)
    with 2 False show ?thesis by simp
  qed (simp add: path_pop_def)
next
  case (5 st n cs)
  then show ?case by simp
qed auto

lemma lex_walk_filter_cur: "lex_walk st (filter (\<lambda>c. c \<noteq> CurDir) cs) = lex_walk st cs"
  by (induction st cs rule: lex_walk.induct) auto

lemma lex_walk_names: "lex_walk st (map Normal ns @ cs) = lex_walk (st @ ns) cs"
  by (induction ns arbitrary: st) auto

lemma relative_components:
  assumes "s = [] \<or> hd s \<noteq> slash"
  shows "RootDir \<notin> set (components s)"
proof -
  have "RootDir \<noteq> seg_component g" for g by simp
  then have "RootDir \<notin> set (map seg_component gs)" for gs by (auto simp del: seg_component.simps)
  with assms show ?thesis by (auto simp: components_def Let_def simp del: seg_component.simps set_map)
qed

lemma relative_not_absolute: "RootDir \<notin> set p \<Longrightarrow> \<not> is_absolute p"
  by (cases p) (auto simp: is_absolute_def)

lemma dropWhile_relative: "s = [] \<or> hd s \<noteq> slash \<Longrightarrow> dropWhile (\<lambda>b. b = slash) s = s"
  by (cases s) auto

section \<open>Properties\<close>

text \<open>
  C6: Whatever \<open>dirfd\<close> and path string the guest passes, a path that
  \<open>resolve_path\<close> accepts lies below the preopen root and contains no \<open>.\<close> and no
  \<open>..\<close> component: no lexical escape.
\<close>

theorem resolve_path_confined:
  assumes "resolve_path v dirfd path = Inr p"
  shows "prefix (root v) p \<and> ParentDir \<notin> set p \<and> CurDir \<notin> set p"
  using resolve_path_normalize [OF assms] normalize_Inr(1,2) by (metis plain.simps(3,4))

theorem resolve_path_confined_witness:
  "prefix [RootDir, Normal [0x61]] [RootDir, Normal [0x61], Normal [0x63]]"
proof -
  have "resolve_path \<lparr>root = [RootDir, Normal [0x61]], cwd = [RootDir, Normal [0x61]]\<rparr> AT_FDCWD
      [0x62, 0x2F, 0x2E, 0x2E, 0x2F, 0x63] = Inr [RootDir, Normal [0x61], Normal [0x63]]"
    by (simp add: resolve_path_def components_def is_absolute_def AT_FDCWD_def path_join_def
        normalize_def path_pop_def)
  from resolve_path_confined [OF this] show ?thesis by simp
qed

text \<open>
  C24: Resolution of a relative path against the working directory is the lexical
  stack walk, accepted exactly when the walk succeeds and ends below the root.
\<close>

theorem resolve_path_relative_spec:
  assumes "cwd v = RootDir # map Normal st" "path = [] \<or> hd path \<noteq> slash"
  shows "resolve_path v AT_FDCWD path =
    (case lex_walk st (components path) of
       None \<Rightarrow> Inl (- EACCES)
     | Some st' \<Rightarrow>
         if prefix (root v) (RootDir # map Normal st') then Inr (RootDir # map Normal st')
         else Inl (- EACCES))"
proof -
  have rel: "\<not> is_absolute (components path)"
    by (rule relative_not_absolute [OF relative_components [OF assms(2)]])
  have join: "normalize_loop [] (if path = [] then cwd v else path_join (cwd v) (components path)) =
      normalize_loop (RootDir # map Normal st) (components path)"
  proof (cases "path = []")
    case True
    then show ?thesis by (simp add: assms(1) normalize_loop_names components_def)
  next
    case False
    have "normalize_loop [] (cwd v @ filter (\<lambda>c. c \<noteq> CurDir) (components path)) =
        (case lex_walk st (components path) of
           None \<Rightarrow> Inl (- EACCES) | Some st' \<Rightarrow> Inr (RootDir # map Normal st'))"
      using normalize_loop_lex_walk [of "[]" "map Normal st @ filter (\<lambda>c. c \<noteq> CurDir) (components path)"]
      by (simp add: assms(1) lex_walk_names lex_walk_filter_cur)
    with False rel show ?thesis
      by (simp add: path_join_def assms(1) normalize_loop_lex_walk)
  qed
  show ?thesis
    using assms(2) rel join
    by (auto simp: resolve_path_def Let_def dropWhile_relative normalize_def normalize_loop_lex_walk
        split: option.splits)
qed

theorem resolve_path_relative_spec_witness:
  "resolve_path \<lparr>root = [RootDir, Normal [0x61]], cwd = [RootDir, Normal [0x61]]\<rparr> AT_FDCWD [0x2E, 0x2E]
     = Inl (- EACCES)"
  using resolve_path_relative_spec
    [of "\<lparr>root = [RootDir, Normal [0x61]], cwd = [RootDir, Normal [0x61]]\<rparr>" "[[0x61]]" "[0x2E, 0x2E]"]
  by (simp add: components_def)

text \<open>
  Resolution is stable: printing a canonical path below the root and resolving
  the string again gives the same path, from any working directory and \<open>dirfd\<close>.
\<close>

lemma resolve_path_roundtrip:
  assumes "canonical p" "prefix (root v) p"
  shows "resolve_path v dirfd (path_str p) = Inr p"
  using assms by (simp add: resolve_path_def components_path_str canonical_absolute normalize_canonical_id)

end
