(* ===== verification/Stat_Layout.thy ===== *)
theory Stat_Layout
  imports Vfs
begin

text \<open>
  The byte layouts handed to the guest: \<open>struct stat\<close> and \<open>linux_dirent64\<close> of
  \<^verbatim>\<open>src/src/vfs.rs\<close>, \<open>struct statx\<close> of \<^verbatim>\<open>src/src/sys/file.rs\<close>, and their construction
  from host metadata.  The properties read the encodings back, field by field and
  record by record.
\<close>

section \<open>Host metadata\<close>

datatype file_type = FtDir | FtFile | FtSymlink | FtChar | FtBlock | FtFifo | FtSocket | FtUnknown

text \<open>\<open>SystemTime\<close>: nanoseconds since \<open>UNIX_EPOCH\<close>, negative before it.\<close>

type_synonym system_time = int

definition UNIX_EPOCH :: system_time where "UNIX_EPOCH = 0"

record metadata =
  md_type :: file_type
  md_perm :: u32
  md_len :: u64
  md_ino :: u64
  md_nlink :: u64
  md_accessed :: "system_time option"
  md_modified :: "system_time option"
  md_created :: "system_time option"

definition is_dir :: "metadata \<Rightarrow> bool" where
  "is_dir m \<longleftrightarrow> md_type m = FtDir"

definition unwrap_or :: "'a option \<Rightarrow> 'a \<Rightarrow> 'a" where
  "unwrap_or x d = (case x of None \<Rightarrow> d | Some v \<Rightarrow> v)"

text \<open>
  \<open>duration_since\<close> yields the distance to the epoch, in the error case too; only
  the seconds of an earlier time are dropped.
\<close>

definition time_split :: "system_time \<Rightarrow> u64 \<times> u32" where
  "time_split t =
     (if t \<ge> UNIX_EPOCH
      then (of_int (t div 1000000000), of_int (t mod 1000000000))
      else (0, of_int ((- t) mod 1000000000)))"

definition dirent_type :: "file_type option \<Rightarrow> u8" where
  "dirent_type ft =
     (case ft of
        Some FtDir \<Rightarrow> 4
      | Some FtFile \<Rightarrow> 8
      | Some FtSymlink \<Rightarrow> 10
      | Some FtChar \<Rightarrow> 2
      | Some FtBlock \<Rightarrow> 6
      | Some FtFifo \<Rightarrow> 1
      | Some FtSocket \<Rightarrow> 12
      | _ \<Rightarrow> 0)"

definition mode_from :: "file_type \<Rightarrow> u32 \<Rightarrow> u32" where
  "mode_from ft perm =
     (let m = perm AND 0xFFF
      in if ft = FtDir then m OR 0x4000
         else if ft = FtSymlink then m OR 0xA000
         else m OR 0x8000)"

section \<open>stat\<close>

record stat =
  st_dev :: u64
  st_ino :: u64
  st_nlink :: u64
  st_mode :: u32
  st_uid :: u32
  st_gid :: u32
  st_rdev :: u64
  st_size :: int
  st_blksize :: int
  st_blocks :: int
  st_atime :: int
  st_atime_nsec :: int
  st_mtime :: int
  st_mtime_nsec :: int
  st_ctime :: int
  st_ctime_nsec :: int

definition STAT_SIZE :: nat where "STAT_SIZE = 120"

text \<open>\<open>x as i64\<close> for a \<open>u64\<close>.\<close>

definition as_i64 :: "u64 \<Rightarrow> int" where
  "as_i64 x = sint x"

definition u64_div_ceil :: "u64 \<Rightarrow> u64 \<Rightarrow> u64" where
  "u64_div_ceil a b = (if a mod b = 0 then a div b else a div b + 1)"

definition stat_from_metadata :: "metadata \<Rightarrow> stat" where
  "stat_from_metadata meta =
     (let mode = mode_from (md_type meta) (md_perm meta);
          (atime, atime_nsec) = time_split (unwrap_or (md_accessed meta) UNIX_EPOCH);
          (mtime, mtime_nsec) = time_split (unwrap_or (md_modified meta) UNIX_EPOCH);
          (ctime, ctime_nsec) =
            time_split (unwrap_or (md_created meta) (unwrap_or (md_modified meta) UNIX_EPOCH))
      in \<lparr>st_dev = 0, st_ino = md_ino meta, st_nlink = md_nlink meta, st_mode = mode,
          st_uid = 1000, st_gid = 1000, st_rdev = 0,
          st_size = as_i64 (md_len meta), st_blksize = 4096,
          st_blocks = as_i64 (u64_div_ceil (md_len meta) 512),
          st_atime = as_i64 atime, st_atime_nsec = uint atime_nsec,
          st_mtime = as_i64 mtime, st_mtime_nsec = uint mtime_nsec,
          st_ctime = as_i64 ctime, st_ctime_nsec = uint ctime_nsec\<rparr>)"

definition stat_encode :: "stat \<Rightarrow> bytes" where
  "stat_encode s =
     le_bytes 8 (uint (st_dev s)) @ le_bytes 8 (uint (st_ino s)) @ le_bytes 8 (uint (st_nlink s)) @
     le_bytes 4 (uint (st_mode s)) @ le_bytes 4 (uint (st_uid s)) @ le_bytes 4 (uint (st_gid s)) @
     replicate 4 0 @
     le_bytes 8 (uint (st_rdev s)) @ le_bytes 8 (st_size s) @ le_bytes 8 (st_blksize s) @
     le_bytes 8 (st_blocks s) @ le_bytes 8 (st_atime s) @ le_bytes 8 (st_atime_nsec s) @
     le_bytes 8 (st_mtime s) @ le_bytes 8 (st_mtime_nsec s) @ le_bytes 8 (st_ctime s) @
     le_bytes 8 (st_ctime_nsec s)"

text \<open>\<open>synth_char\<close>: what \<open>fstat\<close> reports for descriptors without a host file.\<close>

definition synth_char :: stat where
  "synth_char =
     \<lparr>st_dev = 0, st_ino = 0, st_nlink = 1, st_mode = 0x21B6, st_uid = 1000, st_gid = 1000,
      st_rdev = 0, st_size = 0, st_blksize = 4096, st_blocks = 0, st_atime = 0,
      st_atime_nsec = 0, st_mtime = 0, st_mtime_nsec = 0, st_ctime = 0, st_ctime_nsec = 0\<rparr>"

definition stat_write_to_guest ::
  "stat \<Rightarrow> memory_kind option \<Rightarrow> int \<Rightarrow> unit res \<times> memory_kind option"
where
  "stat_write_to_guest s mem ptr =
     (let bs = stat_encode s
      in case guest_slice_mut mem ptr (int (length bs)) of
           Inl e \<Rightarrow> (Inl e, mem)
         | Inr (p, l) \<Rightarrow> (Inr (), mem_write mem p bs))"

text \<open>The guest's view of the buffer: the field offsets of \<open>struct stat\<close>.\<close>

definition u64_at :: "nat \<Rightarrow> bytes \<Rightarrow> u64" where
  "u64_at off bs = word_of_int (le_uint (slice off 8 bs))"

definition u32_at :: "nat \<Rightarrow> bytes \<Rightarrow> u32" where
  "u32_at off bs = word_of_int (le_uint (slice off 4 bs))"

definition u16_at :: "nat \<Rightarrow> bytes \<Rightarrow> u16" where
  "u16_at off bs = word_of_int (le_uint (slice off 2 bs))"

definition i64_at :: "nat \<Rightarrow> bytes \<Rightarrow> int" where
  "i64_at off bs = le_sint64 (slice off 8 bs)"

definition stat_decode :: "bytes \<Rightarrow> stat" where
  "stat_decode bs =
     \<lparr>st_dev = u64_at 0 bs, st_ino = u64_at 8 bs, st_nlink = u64_at 16 bs, st_mode = u32_at 24 bs,
      st_uid = u32_at 28 bs, st_gid = u32_at 32 bs, st_rdev = u64_at 40 bs, st_size = i64_at 48 bs,
      st_blksize = i64_at 56 bs, st_blocks = i64_at 64 bs, st_atime = i64_at 72 bs,
      st_atime_nsec = i64_at 80 bs, st_mtime = i64_at 88 bs, st_mtime_nsec = i64_at 96 bs,
      st_ctime = i64_at 104 bs, st_ctime_nsec = i64_at 112 bs\<rparr>"

definition i64_range :: "int \<Rightarrow> bool" where
  "i64_range x \<longleftrightarrow> - (2 ^ 63) \<le> x \<and> x < 2 ^ 63"

definition stat_ok :: "stat \<Rightarrow> bool" where
  "stat_ok s \<longleftrightarrow>
     i64_range (st_size s) \<and> i64_range (st_blksize s) \<and> i64_range (st_blocks s) \<and>
     i64_range (st_atime s) \<and> i64_range (st_atime_nsec s) \<and> i64_range (st_mtime s) \<and>
     i64_range (st_mtime_nsec s) \<and> i64_range (st_ctime s) \<and> i64_range (st_ctime_nsec s)"

section \<open>Reading fields back\<close>

lemma signed_take_bit_63_mod:
  assumes "i64_range x"
  shows "signed_take_bit 63 (x mod 2 ^ 64) = x"
proof -
  have "signed_take_bit 63 (take_bit 64 x) = signed_take_bit 63 x"
    by (simp add: signed_take_bit_take_bit)
  also have "\<dots> = x" using assms by (simp add: signed_take_bit_int_eq_self i64_range_def)
  finally show ?thesis by (simp only: take_bit_eq_mod)
qed

lemma slice_append1: "slice 0 n (xs @ ys) = xs" if "length xs = n"
  using that by (simp add: slice_def)

lemma slice_append2: "slice p n (xs @ ys) = slice (p - length xs) n ys" if "length xs \<le> p"
  using that by (simp add: slice_def)

lemma slice_whole: "slice 0 n xs = xs" if "length xs = n"
  using that by (simp add: slice_def)

lemmas field_simps_le = slice_append1 slice_append2 slice_whole length_le_bytes length_replicate

lemma field_u64: "word_of_int (le_uint (le_bytes 8 (uint (w :: u64)))) = w"
  by (rule le_u64_roundtrip)

lemma field_u16: "word_of_int (le_uint (le_bytes 2 (uint (w :: u16)))) = w"
  using uint_lt2p [of w] by (simp add: mod_pos_pos_trivial)

lemma field_i64: "i64_range x \<Longrightarrow> le_sint64 (le_bytes 8 x) = x"
  using signed_take_bit_63_mod [of x] by (simp add: le_sint64_def)

lemma length_stat_encode: "length (stat_encode s) = STAT_SIZE"
  by (simp add: stat_encode_def STAT_SIZE_def)

lemma sint_i64_range: "i64_range (sint (w :: u64))"
  using sint_ge [of w] sint_lt [of w] by (simp add: i64_range_def)

lemma uint32_i64_range: "i64_range (uint (w :: u32))"
proof -
  have "- (2 ^ 63) \<le> (0 :: int)" by simp
  also have "0 \<le> uint w" by simp
  finally show ?thesis using uint_lt2p [of w] by (simp add: i64_range_def)
qed

lemma stat_from_metadata_ok: "stat_ok (stat_from_metadata m)"
  by (simp add: stat_ok_def stat_from_metadata_def Let_def split_beta as_i64_def sint_i64_range
      uint32_i64_range) (simp add: i64_range_def)

lemma synth_char_ok: "stat_ok synth_char"
  by (simp add: stat_ok_def synth_char_def i64_range_def)

lemma stat_decode_encode: "stat_ok s \<Longrightarrow> stat_decode (stat_encode s) = s"
  by (simp add: stat_decode_def stat_encode_def u64_at_def u32_at_def i64_at_def
      field_simps_le field_i64 le_u64_roundtrip le_u32_roundtrip stat_ok_def
      del: le_uint_le_bytes)

section \<open>statx\<close>

record statx =
  stx_mask :: u32
  stx_blksize :: u32
  stx_attributes :: u64
  stx_nlink :: u64
  stx_uid :: u32
  stx_gid :: u32
  stx_mode :: u16
  stx_ino :: u64
  stx_size :: u64
  stx_blocks :: u64
  stx_attributes_mask :: u64
  stx_atime_sec :: int
  stx_atime_nsec :: int
  stx_btime_sec :: int
  stx_btime_nsec :: int
  stx_ctime_sec :: int
  stx_ctime_nsec :: int
  stx_mtime_sec :: int
  stx_mtime_nsec :: int
  stx_rdev_major :: u32
  stx_rdev_minor :: u32
  stx_dev_major :: u64
  stx_dev_minor :: u64
  stx_mnt_id :: u64
  stx_dio_mem_align :: u32
  stx_dio_offset_align :: u32

definition STATX_SIZE :: nat where "STATX_SIZE = 256"

text \<open>\<open>STATX_TYPE | MODE | NLINK | UID | GID | ATIME | MTIME | CTIME | INO | BLOCKS\<close>.\<close>

definition filled_mask :: u32 where
  "filled_mask =
     0x1 OR 0x2 OR 0x4 OR 0x8 OR 0x10 OR 0x20 OR 0x40 OR 0x80 OR 0x100 OR 0x400"

definition clamp_nsec :: "int \<Rightarrow> int" where
  "clamp_nsec n = (if n < 0 then 0 else if n > 999999999 then 999999999 else n)"

definition statx_from_stat :: "stat \<Rightarrow> statx" where
  "statx_from_stat s =
     \<lparr>stx_mask = filled_mask, stx_blksize = word_of_int (st_blksize s), stx_attributes = 0,
      stx_nlink = st_nlink s, stx_uid = st_uid s, stx_gid = st_gid s,
      stx_mode = ucast (st_mode s AND 0xFFFF), stx_ino = st_ino s,
      stx_size = word_of_int (st_size s), stx_blocks = word_of_int (st_blocks s),
      stx_attributes_mask = 0,
      stx_atime_sec = st_atime s, stx_atime_nsec = clamp_nsec (st_atime_nsec s),
      stx_btime_sec = 0, stx_btime_nsec = 0,
      stx_ctime_sec = st_ctime s, stx_ctime_nsec = clamp_nsec (st_ctime_nsec s),
      stx_mtime_sec = st_mtime s, stx_mtime_nsec = clamp_nsec (st_mtime_nsec s),
      stx_rdev_major = 0, stx_rdev_minor = 0, stx_dev_major = 0, stx_dev_minor = 0,
      stx_mnt_id = 0, stx_dio_mem_align = 0, stx_dio_offset_align = 0\<rparr>"

definition statx_encode :: "statx \<Rightarrow> bytes" where
  "statx_encode x =
     le_bytes 4 (uint (stx_mask x)) @ le_bytes 4 (uint (stx_blksize x)) @
     le_bytes 8 (uint (stx_attributes x)) @ le_bytes 8 (uint (stx_nlink x)) @
     le_bytes 4 (uint (stx_uid x)) @ le_bytes 4 (uint (stx_gid x)) @
     le_bytes 2 (uint (stx_mode x)) @ replicate 6 0 @
     le_bytes 8 (uint (stx_ino x)) @ le_bytes 8 (uint (stx_size x)) @
     le_bytes 8 (uint (stx_blocks x)) @ le_bytes 8 (uint (stx_attributes_mask x)) @
     le_bytes 8 (stx_atime_sec x) @ le_bytes 8 (stx_atime_nsec x) @
     le_bytes 8 (stx_btime_sec x) @ le_bytes 8 (stx_btime_nsec x) @
     le_bytes 8 (stx_ctime_sec x) @ le_bytes 8 (stx_ctime_nsec x) @
     le_bytes 8 (stx_mtime_sec x) @ le_bytes 8 (stx_mtime_nsec x) @
     le_bytes 4 (uint (stx_rdev_major x)) @ le_bytes 4 (uint (stx_rdev_minor x)) @
     le_bytes 8 (uint (stx_dev_major x)) @ le_bytes 8 (uint (stx_dev_minor x)) @
     le_bytes 8 (uint (stx_mnt_id x)) @
     le_bytes 4 (uint (stx_dio_mem_align x)) @ le_bytes 4 (uint (stx_dio_offset_align x)) @
     replicate 80 0"

lemma length_statx_encode: "length (statx_encode x) = STATX_SIZE"
  by (simp add: statx_encode_def STATX_SIZE_def)

section \<open>Directory records\<close>

record dirent64 =
  d_ino :: u64
  d_off :: int
  d_type :: u8
  d_name :: bytes

text \<open>\<open>Vec::resize\<close>.\<close>

definition vec_resize :: "nat \<Rightarrow> 'a \<Rightarrow> 'a list \<Rightarrow> 'a list" where
  "vec_resize n x xs = take n xs @ replicate (n - length xs) x"

definition dirent_reclen :: "bytes \<Rightarrow> u16" where
  "dirent_reclen name =
     (let name_len = length name + 1; pad = (8 - name_len mod 8) mod 8
      in of_nat (19 + name_len + pad))"

definition dirent_encode :: "dirent64 \<Rightarrow> bytes" where
  "dirent_encode d =
     (let reclen = dirent_reclen (d_name d)
      in vec_resize (unat reclen) 0
           (le_bytes 8 (uint (d_ino d)) @ le_bytes 8 (d_off d) @ le_bytes 2 (uint reclen) @
            [d_type d] @ d_name d @ [0]))"

text \<open>How a guest walks the buffer: advance by \<open>d_reclen\<close>, read the name up to its NUL.\<close>

definition dirent_decode :: "bytes \<Rightarrow> dirent64" where
  "dirent_decode bs =
     \<lparr>d_ino = u64_at 0 bs, d_off = i64_at 8 bs, d_type = bs ! 18,
      d_name = until_nul (drop 19 bs)\<rparr>"

function walk_dirents :: "bytes \<Rightarrow> dirent64 list" where
  "walk_dirents bs =
     (let reclen = unat (u16_at 16 bs)
      in if reclen = 0 \<or> length bs < reclen then []
         else dirent_decode (take reclen bs) # walk_dirents (drop reclen bs))"
  by pat_completeness auto
termination by (relation "measure length") auto

declare walk_dirents.simps [simp del]

definition dirent_ok :: "dirent64 \<Rightarrow> bool" where
  "dirent_ok d \<longleftrightarrow> length (d_name d) \<le> 65500 \<and> 0 \<notin> set (d_name d) \<and> i64_range (d_off d)"

lemma dirent_pad_bound: "(8 - n mod 8) mod 8 < (8 :: nat)"
  by simp

lemma dirent_reclen_unat:
  assumes "dirent_ok d"
  shows "unat (dirent_reclen (d_name d)) =
    20 + length (d_name d) + (8 - (length (d_name d) + 1) mod 8) mod 8" (is "_ = ?n")
proof -
  have "length (d_name d) \<le> 65500" using assms by (simp add: dirent_ok_def)
  with dirent_pad_bound [of "length (d_name d) + 1"] have "?n < 65536" by linarith
  moreover have "dirent_reclen (d_name d) = of_nat ?n"
    unfolding dirent_reclen_def Let_def by (rule arg_cong [where f = of_nat]) simp
  moreover have "unat (of_nat m :: u16) = m" if "m < 65536" for m
    using that by (simp add: unat_of_nat)
  ultimately show ?thesis by (simp only:)
qed

lemma dirent_encode_shape:
  assumes "dirent_ok d"
  shows "dirent_encode d =
    le_bytes 8 (uint (d_ino d)) @ le_bytes 8 (d_off d) @
    le_bytes 2 (uint (dirent_reclen (d_name d))) @ [d_type d] @ d_name d @
    replicate (1 + (8 - (length (d_name d) + 1) mod 8) mod 8) 0"
  using dirent_reclen_unat [OF assms]
  by (simp add: dirent_encode_def Let_def vec_resize_def)

lemma length_dirent_encode:
  "dirent_ok d \<Longrightarrow> length (dirent_encode d) = unat (dirent_reclen (d_name d))"
  by (simp add: dirent_encode_shape dirent_reclen_unat)

lemma until_nul_append: "0 \<notin> set xs \<Longrightarrow> until_nul (xs @ 0 # ys) = xs"
  by (simp add: until_nul_def takeWhile_append takeWhile_tail)

lemma dirent_decode_encode:
  assumes "dirent_ok d"
  shows "dirent_decode (dirent_encode d) = d"
proof -
  have "until_nul (drop 19 (dirent_encode d)) = d_name d"
    using assms by (simp add: dirent_encode_shape until_nul_append dirent_ok_def)
  moreover have "dirent_encode d ! 18 = d_type d"
    using assms by (simp add: dirent_encode_shape nth_append)
  moreover have "u64_at 0 (dirent_encode d) = d_ino d" "i64_at 8 (dirent_encode d) = d_off d"
    using assms
    by (simp_all add: dirent_encode_shape u64_at_def i64_at_def field_simps_le field_i64
        le_u64_roundtrip dirent_ok_def del: le_uint_le_bytes)
  ultimately show ?thesis by (simp add: dirent_decode_def)
qed

lemma dirent_reclen_at:
  assumes "dirent_ok d"
  shows "u16_at 16 (dirent_encode d @ rest) = dirent_reclen (d_name d)"
  using assms
  by (simp add: dirent_encode_shape u16_at_def field_simps_le field_u16 del: le_uint_le_bytes)

lemma walk_dirents_encode:
  "list_all dirent_ok ds \<Longrightarrow> walk_dirents (concat (map dirent_encode ds)) = ds"
proof (induction ds)
  case Nil
  then show ?case by (simp add: walk_dirents.simps u16_at_def slice_def)
next
  case (Cons d ds)
  then have ok: "dirent_ok d" by simp
  let ?rest = "concat (map dirent_encode ds)"
  have r: "unat (u16_at 16 (dirent_encode d @ ?rest)) = length (dirent_encode d)"
    by (simp add: dirent_reclen_at [OF ok] length_dirent_encode [OF ok])
  have "length (dirent_encode d) \<noteq> 0"
    by (simp add: length_dirent_encode [OF ok] dirent_reclen_unat [OF ok])
  with r show ?case
    using Cons.IH Cons.prems dirent_decode_encode [OF ok]
    by (subst walk_dirents.simps) (simp add: Let_def)
qed

section \<open>Properties\<close>

lemma stat_write_read:
  assumes "stat_write_to_guest s mem ptr = (Inr (), mem')"
  shows "guest_slice mem' ptr 120 = Inr (stat_encode s)"
proof -
  have len: "length (stat_encode s) = 120" by (simp add: length_stat_encode STAT_SIZE_def)
  from assms obtain p l where g: "guest_range mem ptr 120 = Inr (p, l)"
    and w: "mem' = mem_write mem p (stat_encode s)"
    by (auto simp: stat_write_to_guest_def guest_slice_mut_def Let_def len split: sum.splits)
  from guest_range_Inr [OF g] have "l = 120" by auto
  with guest_write_read [OF g] len w show ?thesis by simp
qed

lemma as_i64_small: "uint (w :: u64) < 2 ^ 63 \<Longrightarrow> as_i64 w = uint w"
proof -
  assume w: "uint w < 2 ^ 63"
  have "- (2 ^ 63) \<le> uint w" by (rule order_trans [OF _ uint_ge_0]) simp
  with w show ?thesis by (simp add: as_i64_def sint_uint signed_take_bit_int_eq_self)
qed

text \<open>A time from the epoch on, whose seconds fit an \<open>i64\<close>, is split without loss.\<close>

definition stampable :: "system_time \<Rightarrow> bool" where
  "stampable t \<longleftrightarrow> 0 \<le> t \<and> t div 1000000000 < 2 ^ 63"

lemma time_split_exact:
  assumes "stampable t" "time_split t = (s, n)"
  shows "as_i64 s = t div 1000000000" "uint n = t mod 1000000000"
proof -
  have t: "0 \<le> t div 1000000000" "t div 1000000000 < 2 ^ 63" "s = of_int (t div 1000000000)" "n = of_int (t mod 1000000000)"
    using assms by (auto simp: stampable_def time_split_def UNIX_EPOCH_def)
  then have "uint s = t div 1000000000" by (simp add: uint_word_of_int mod_pos_pos_trivial)
  with t(2) as_i64_small [of s] show "as_i64 s = t div 1000000000" by simp
  have "t mod 1000000000 < 2 ^ 32" using pos_mod_bound [of 1000000000 t] by simp
  with t(4) show "uint n = t mod 1000000000" by (simp add: uint_word_of_int mod_pos_pos_trivial)
qed

lemma div_ceil_512:
  assumes "uint (w :: u64) < 2 ^ 63"
  shows "512 * (as_i64 (u64_div_ceil w 512) - 1) < uint w" "uint w \<le> 512 * as_i64 (u64_div_ceil w 512)"
proof -
  define q where "q = uint w div 512"
  have q: "0 \<le> q" "q < 2 ^ 54" "uint (w div 512) = q"
    using assms by (simp_all add: q_def uint_div div_less_iff_less_mult pos_imp_zdiv_nonneg_iff)
  have "uint (w div 512 + 1) = q + 1" using q by (simp add: uint_word_ariths mod_pos_pos_trivial)
  moreover have "w mod 512 = 0 \<longleftrightarrow> uint w mod 512 = 0" by (simp add: uint_mod word_uint_eq_iff)
  ultimately have c: "as_i64 (u64_div_ceil w 512) = (if uint w mod 512 = 0 then q else q + 1)"
    using q as_i64_small [of "w div 512"] as_i64_small [of "w div 512 + 1"] by (simp add: u64_div_ceil_def)
  have "uint w = 512 * q + uint w mod 512" by (simp add: q_def)
  moreover have "0 \<le> uint w mod 512" "uint w mod 512 < 512" by simp_all
  ultimately show "512 * (as_i64 (u64_div_ceil w 512) - 1) < uint w" "uint w \<le> 512 * as_i64 (u64_div_ceil w 512)"
    unfolding c by (auto split: if_splits)
qed

text \<open>
  C27: What \<open>stat\<close> and \<open>fstat\<close> store at the guest's pointer, read at the field offsets of the 120-byte layout, is the host's
  metadata: inode and link count, the permission bits with the bits of the file's type (every type but directory and symbolic
  link counts as a regular file), the length, the number of 512-byte blocks that hold it, and seconds and nanoseconds of the
  access, modification and creation time (the modification time when there is no creation time); user and group are 1000, device
  numbers 0, the block size 4096.  The file is shorter than \<open>2 ^ 63\<close> bytes and its times lie in \<open>i64\<close> seconds from the epoch on.
\<close>

theorem stat_guest_roundtrip:
  assumes "stat_write_to_guest (stat_from_metadata m) mem ptr = (Inr (), mem')" "uint (md_len m) < 2 ^ 63"
    and "stampable (unwrap_or (md_accessed m) 0)" "stampable (unwrap_or (md_modified m) 0)" "stampable (unwrap_or (md_created m) 0)"
  defines "created \<equiv> (case md_created m of None \<Rightarrow> unwrap_or (md_modified m) 0 | Some t \<Rightarrow> t)"
  shows "\<exists>bs. guest_slice mem' ptr 120 = Inr bs \<and>
    u64_at 8 bs = md_ino m \<and> u64_at 16 bs = md_nlink m \<and>
    u32_at 24 bs = (md_perm m AND 0xFFF) OR (case md_type m of FtDir \<Rightarrow> 0x4000 | FtSymlink \<Rightarrow> 0xA000 | _ \<Rightarrow> 0x8000) \<and>
    i64_at 48 bs = uint (md_len m) \<and> 512 * (i64_at 64 bs - 1) < uint (md_len m) \<and> uint (md_len m) \<le> 512 * i64_at 64 bs \<and>
    i64_at 72 bs = unwrap_or (md_accessed m) 0 div 1000000000 \<and> i64_at 80 bs = unwrap_or (md_accessed m) 0 mod 1000000000 \<and>
    i64_at 88 bs = unwrap_or (md_modified m) 0 div 1000000000 \<and> i64_at 96 bs = unwrap_or (md_modified m) 0 mod 1000000000 \<and>
    i64_at 104 bs = created div 1000000000 \<and> i64_at 112 bs = created mod 1000000000 \<and>
    u64_at 0 bs = 0 \<and> u32_at 28 bs = 1000 \<and> u32_at 32 bs = 1000 \<and> u64_at 40 bs = 0 \<and> i64_at 56 bs = 4096"
proof -
  let ?s = "stat_from_metadata m"
  obtain bs where bs: "guest_slice mem' ptr 120 = Inr bs" "stat_decode bs = ?s"
    using stat_write_read [OF assms(1)] stat_decode_encode [OF stat_from_metadata_ok] by blast
  have c: "stampable created" "unwrap_or (md_created m) (unwrap_or (md_modified m) 0) = created"
    using assms(4,5) by (simp_all add: created_def unwrap_or_def split: option.splits)
  have times: "st_atime ?s = unwrap_or (md_accessed m) 0 div 1000000000" "st_atime_nsec ?s = unwrap_or (md_accessed m) 0 mod 1000000000"
    "st_mtime ?s = unwrap_or (md_modified m) 0 div 1000000000" "st_mtime_nsec ?s = unwrap_or (md_modified m) 0 mod 1000000000"
    "st_ctime ?s = created div 1000000000" "st_ctime_nsec ?s = created mod 1000000000"
    using time_split_exact [OF assms(3)] time_split_exact [OF assms(4)] time_split_exact [OF c(1)]
    by (simp_all add: stat_from_metadata_def Let_def c(2) split_beta UNIX_EPOCH_def prod_eq_iff)
  have mode: "st_mode ?s = (md_perm m AND 0xFFF) OR (case md_type m of FtDir \<Rightarrow> 0x4000 | FtSymlink \<Rightarrow> 0xA000 | _ \<Rightarrow> 0x8000)"
    by (cases "md_type m") (simp_all add: stat_from_metadata_def Let_def split_beta mode_from_def)
  have rest: "st_dev ?s = 0" "st_ino ?s = md_ino m" "st_nlink ?s = md_nlink m" "st_uid ?s = 1000" "st_gid ?s = 1000" "st_rdev ?s = 0"
    "st_size ?s = uint (md_len m)" "st_blksize ?s = 4096" "st_blocks ?s = as_i64 (u64_div_ceil (md_len m) 512)"
    using as_i64_small [OF assms(2)] by (simp_all add: stat_from_metadata_def Let_def split_beta)
  have at: "u64_at 0 bs = st_dev ?s" "u64_at 8 bs = st_ino ?s" "u64_at 16 bs = st_nlink ?s" "u32_at 24 bs = st_mode ?s"
    "u32_at 28 bs = st_uid ?s" "u32_at 32 bs = st_gid ?s" "u64_at 40 bs = st_rdev ?s" "i64_at 48 bs = st_size ?s"
    "i64_at 56 bs = st_blksize ?s" "i64_at 64 bs = st_blocks ?s" "i64_at 72 bs = st_atime ?s" "i64_at 80 bs = st_atime_nsec ?s"
    "i64_at 88 bs = st_mtime ?s" "i64_at 96 bs = st_mtime_nsec ?s" "i64_at 104 bs = st_ctime ?s" "i64_at 112 bs = st_ctime_nsec ?s"
    unfolding bs(2) [symmetric] by (simp_all add: stat_decode_def)
  show ?thesis
    by (intro exI [of _ bs] conjI) (simp_all only: bs(1) at times mode rest div_ceil_512 [OF assms(2)])
qed

definition sample_metadata :: metadata where
  "sample_metadata =
     \<lparr>md_type = FtFile, md_perm = 0x1A4, md_len = 700, md_ino = 42, md_nlink = 1,
      md_accessed = Some 1500000000, md_modified = Some 2000000007, md_created = None\<rparr>"

theorem stat_guest_roundtrip_witness:
  "\<exists>mem' bs. guest_slice mem' 8 120 = Inr bs \<and> u64_at 8 bs = 42 \<and> u32_at 24 bs = 0x81A4 \<and> i64_at 48 bs = 700 \<and>
    i64_at 64 bs \<le> 2 \<and> i64_at 72 bs = 1 \<and> i64_at 80 bs = 500000000 \<and> i64_at 104 bs = 2 \<and> i64_at 112 bs = 7"
proof -
  let ?mem = "Some (Owned (replicate 200 0))"
  have "fst (stat_write_to_guest (stat_from_metadata sample_metadata) ?mem 8) = Inr ()"
    by (simp add: stat_write_to_guest_def guest_slice_mut_def guest_range_def kernel_memory_def
        usize_checked_add_def Let_def length_stat_encode STAT_SIZE_def)
  then obtain mem' where w: "stat_write_to_guest (stat_from_metadata sample_metadata) ?mem 8 = (Inr (), mem')"
    by (metis prod.collapse)
  have m: "uint (md_len sample_metadata) < 2 ^ 63" "stampable (unwrap_or (md_accessed sample_metadata) 0)"
    "stampable (unwrap_or (md_modified sample_metadata) 0)" "stampable (unwrap_or (md_created sample_metadata) 0)"
    by (simp_all add: sample_metadata_def stampable_def unwrap_or_def)
  from stat_guest_roundtrip [OF w m] obtain bs where "guest_slice mem' 8 120 = Inr bs \<and> u64_at 8 bs = 42 \<and> u32_at 24 bs = 0x81A4 \<and>
    i64_at 48 bs = 700 \<and> 512 * (i64_at 64 bs - 1) < 700 \<and> i64_at 72 bs = 1 \<and> i64_at 80 bs = 500000000 \<and> i64_at 104 bs = 2 \<and>
    i64_at 112 bs = 7"
    by (auto simp: sample_metadata_def unwrap_or_def)
  then show ?thesis by (intro exI [of _ mem'] exI [of _ bs]) simp
qed

lemma clamp_nsec_bounds: "0 \<le> clamp_nsec n \<and> clamp_nsec n \<le> 999999999"
  by (simp add: clamp_nsec_def)

lemma clamp_nsec_range: "i64_range (clamp_nsec n)"
  by (simp add: clamp_nsec_def i64_range_def)

lemma field_i64_word: "i64_range x \<Longrightarrow> le_sint64 (le_bytes 8 (uint (word_of_int x :: u64))) = x"
  using signed_take_bit_63_mod [of x] by (simp add: le_sint64_def uint_word_of_int)

lemma ucast_low16: "ucast ((w :: u32) AND 0xFFFF) = (ucast w :: u16)"
proof -
  have m: "(0xFFFF :: u32) = mask 16" by (simp add: mask_eq_exp_minus_1)
  show ?thesis unfolding m by (rule bit_word_eqI) (simp add: bit_simps)
qed

lemma field_i64_zero: "le_sint64 (le_bytes 8 0) = 0"
  by (rule field_i64) (simp add: i64_range_def)

lemmas statx_fields =
  statx_encode_def statx_from_stat_def u64_at_def u32_at_def u16_at_def i64_at_def field_simps_le
  le_u64_roundtrip le_u32_roundtrip field_u16 field_i64 field_i64_word field_i64_zero clamp_nsec_range

text \<open>
  The \<open>statx\<close> buffer is 256 bytes, and at the offsets this code uses a guest
  reads the inode, size, block count, mode bits and timestamps of the \<open>Stat\<close> it was
  projected from, with nanoseconds clamped to a valid range.
\<close>

lemma statx_layout:
  assumes "stat_ok s"
  shows "length (statx_encode (statx_from_stat s)) = 256 \<and>
    (let bs = statx_encode (statx_from_stat s)
     in u32_at 0 bs = filled_mask \<and> u64_at 16 bs = st_nlink s \<and> u32_at 24 bs = st_uid s \<and>
        u32_at 28 bs = st_gid s \<and> u16_at 32 bs = ucast (st_mode s) \<and> u64_at 40 bs = st_ino s \<and>
        i64_at 48 bs = st_size s \<and> i64_at 56 bs = st_blocks s \<and>
        i64_at 72 bs = st_atime s \<and> i64_at 104 bs = st_ctime s \<and> i64_at 120 bs = st_mtime s \<and>
        (\<forall>off \<in> {80, 96, 112, 128}. 0 \<le> i64_at off bs \<and> i64_at off bs \<le> 999999999))"
  using assms clamp_nsec_bounds
  by (simp add: statx_fields stat_ok_def Let_def ucast_low16 del: le_uint_le_bytes)

end
