(* ===== verification/Host.thy ===== *)
theory Host
  imports Stat_Layout "HOL-Library.List_Lexorder"
begin

text \<open>
  The host file system as \<open>std::fs\<close> presents it, a parameter of the model: a record of
  functions over an abstract host state \<open>'h\<close>.  Absolute paths, open handles and
  \<open>io::ErrorKind\<close> values cross this boundary.  On top of it, the parts of
  \<^verbatim>\<open>src/src/vfs.rs\<close> that reach the host: \<open>open\<close>, \<open>stat\<close>, the directory listing,
  \<open>chdir\<close> and \<open>chroot\<close>.
\<close>

section \<open>The host interface\<close>

datatype io_kind =
  NotFound | PermissionDenied | AlreadyExists | InvalidInput | NotADirectory | IsADirectory |
  DirectoryNotEmpty | TooManyLinks | AddrInUse | AddrNotAvailable | ConnectionRefused | TimedOut | OtherKind

type_synonym 'a io = "io_kind + 'a"
type_synonym hfile = nat

datatype seek_from = SeekStart u64 | SeekCurrent int

record dir_entry =
  de_name :: bytes
  de_type :: "file_type option"
  de_ino :: "u64 option"

record 'h host_ops =
  h_canonicalize :: "pathbuf \<Rightarrow> 'h \<Rightarrow> pathbuf io"
  h_metadata :: "pathbuf \<Rightarrow> 'h \<Rightarrow> metadata io"
  h_symlink_metadata :: "pathbuf \<Rightarrow> 'h \<Rightarrow> metadata io"
  h_read_dir :: "pathbuf \<Rightarrow> 'h \<Rightarrow> dir_entry option list io"
  h_read_link :: "pathbuf \<Rightarrow> 'h \<Rightarrow> bytes io"
  h_open :: "pathbuf \<Rightarrow> open_options \<Rightarrow> 'h \<Rightarrow> hfile io \<times> 'h"
  h_create_dir :: "pathbuf \<Rightarrow> 'h \<Rightarrow> unit io \<times> 'h"
  h_remove_dir :: "pathbuf \<Rightarrow> 'h \<Rightarrow> unit io \<times> 'h"
  h_remove_file :: "pathbuf \<Rightarrow> 'h \<Rightarrow> unit io \<times> 'h"
  h_rename :: "pathbuf \<Rightarrow> pathbuf \<Rightarrow> 'h \<Rightarrow> unit io \<times> 'h"
  h_hard_link :: "pathbuf \<Rightarrow> pathbuf \<Rightarrow> 'h \<Rightarrow> unit io \<times> 'h"
  h_symlink :: "bytes \<Rightarrow> pathbuf \<Rightarrow> 'h \<Rightarrow> unit io \<times> 'h"
  h_set_permissions :: "pathbuf \<Rightarrow> u32 \<Rightarrow> 'h \<Rightarrow> unit io \<times> 'h"
  hf_metadata :: "hfile \<Rightarrow> 'h \<Rightarrow> metadata io"
  hf_read :: "hfile \<Rightarrow> nat \<Rightarrow> 'h \<Rightarrow> bytes io \<times> 'h"
  hf_write :: "hfile \<Rightarrow> bytes \<Rightarrow> 'h \<Rightarrow> nat io \<times> 'h"
  hf_seek :: "hfile \<Rightarrow> seek_from \<Rightarrow> 'h \<Rightarrow> u64 io \<times> 'h"
  hf_try_clone :: "hfile \<Rightarrow> 'h \<Rightarrow> hfile io \<times> 'h"
  hf_set_len :: "hfile \<Rightarrow> u64 \<Rightarrow> 'h \<Rightarrow> unit io \<times> 'h"
  hf_set_modified :: "hfile \<Rightarrow> system_time \<Rightarrow> 'h \<Rightarrow> unit io \<times> 'h"
  hf_set_permissions :: "hfile \<Rightarrow> u32 \<Rightarrow> 'h \<Rightarrow> unit io \<times> 'h"
  h_write_file :: "pathbuf \<Rightarrow> bytes \<Rightarrow> 'h \<Rightarrow> unit io \<times> 'h"
  h_read_file :: "pathbuf \<Rightarrow> 'h \<Rightarrow> bytes io"
  h_exists :: "pathbuf \<Rightarrow> 'h \<Rightarrow> bool"
  h_now :: "'h \<Rightarrow> system_time \<times> 'h"

text \<open>The two error translations: \<open>vfs.rs\<close> negates, \<open>sys/file.rs\<close> leaves that to its callers.\<close>

definition vfs_io_to_errno :: "io_kind \<Rightarrow> int" where
  "vfs_io_to_errno k =
     - (case k of
          NotFound \<Rightarrow> ENOENT
        | PermissionDenied \<Rightarrow> EACCES
        | InvalidInput \<Rightarrow> EFAULT
        | TooManyLinks \<Rightarrow> ELOOP
        | _ \<Rightarrow> EIO)"

definition io_to_errno :: "io_kind \<Rightarrow> int" where
  "io_to_errno k =
     (case k of
        NotFound \<Rightarrow> ENOENT
      | PermissionDenied \<Rightarrow> EACCES
      | AlreadyExists \<Rightarrow> EEXIST
      | InvalidInput \<Rightarrow> EINVAL
      | NotADirectory \<Rightarrow> ENOTDIR
      | IsADirectory \<Rightarrow> EISDIR
      | DirectoryNotEmpty \<Rightarrow> ENOTEMPTY
      | TooManyLinks \<Rightarrow> ELOOP
      | _ \<Rightarrow> EIO)"

section \<open>VFS operations that reach the host\<close>

definition vfs_new :: "'h host_ops \<Rightarrow> pathbuf \<Rightarrow> 'h \<Rightarrow> vfs res" where
  "vfs_new H preopen h =
     (case h_canonicalize H preopen h of
        Inl k \<Rightarrow> Inl (vfs_io_to_errno k)
      | Inr r \<Rightarrow> Inr \<lparr>root = r, cwd = r\<rparr>)"

definition vfs_open :: "'h host_ops \<Rightarrow> pathbuf \<Rightarrow> int \<Rightarrow> 'h \<Rightarrow> hfile res \<times> 'h" where
  "vfs_open H apath flags h =
     (case open_options_of flags of
        Inl e \<Rightarrow> (Inl e, h)
      | Inr opt \<Rightarrow>
          (case h_open H apath opt h of
             (Inl k, h') \<Rightarrow> (Inl (vfs_io_to_errno k), h')
           | (Inr f, h') \<Rightarrow>
               if flags AND O_DIRECTORY \<noteq> 0
               then (case hf_metadata H f h' of
                       Inl k \<Rightarrow> (Inl (vfs_io_to_errno k), h')
                     | Inr meta \<Rightarrow> if is_dir meta then (Inr f, h') else (Inl (- ENOTDIR), h'))
               else (Inr f, h')))"

definition vfs_stat :: "'h host_ops \<Rightarrow> pathbuf \<Rightarrow> 'h \<Rightarrow> stat res" where
  "vfs_stat H apath h =
     (case h_symlink_metadata H apath h of
        Inl k \<Rightarrow> Inl (vfs_io_to_errno k)
      | Inr meta \<Rightarrow> Inr (stat_from_metadata meta))"

text \<open>The listing: entries that can be read, sorted by name, packed as records.\<close>

definition dir_names :: "dir_entry option list \<Rightarrow> (bytes \<times> file_type option \<times> u64) list" where
  "dir_names es =
     sort_key fst
       (map (\<lambda>e. (de_name e, de_type e, unwrap_or (de_ino e) 0)) (List.map_filter (\<lambda>e. e) es))"

fun pack_dirents :: "bytes \<Rightarrow> (bytes \<times> file_type option \<times> u64) list \<Rightarrow> bytes" where
  "pack_dirents out [] = out"
| "pack_dirents out ((name, ftype, ino) # ns) =
     pack_dirents
       (out @ dirent_encode
          \<lparr>d_ino = ino, d_off = int (length out) + int (length name) + 24,
           d_type = dirent_type ftype, d_name = name\<rparr>) ns"

definition readdir_all :: "'h host_ops \<Rightarrow> pathbuf \<Rightarrow> 'h \<Rightarrow> bytes res" where
  "readdir_all H apath h =
     (case h_read_dir H apath h of
        Inl k \<Rightarrow> Inl (vfs_io_to_errno k)
      | Inr es \<Rightarrow> Inr (pack_dirents [] (dir_names es)))"

definition getdents_at :: "'h host_ops \<Rightarrow> pathbuf \<Rightarrow> nat \<Rightarrow> nat \<Rightarrow> 'h \<Rightarrow> (bytes \<times> nat) res" where
  "getdents_at H apath start len h =
     (if len = 0 then Inl (- EINVAL)
      else res_bind (readdir_all H apath h) (\<lambda>al.
        let total = length al
        in if start \<ge> total then Inr ([], total)
           else let e = min (start + len) total in Inr (slice start (e - start) al, total)))"

definition getdents :: "'h host_ops \<Rightarrow> pathbuf \<Rightarrow> nat \<Rightarrow> 'h \<Rightarrow> bytes res" where
  "getdents H apath len h =
     res_bind (getdents_at H apath 0 len h) (\<lambda>(out, total).
       Inr (if length out > len then take len out else out))"

definition vfs_chdir :: "'h host_ops \<Rightarrow> vfs \<Rightarrow> pathbuf \<Rightarrow> 'h \<Rightarrow> unit res \<times> vfs" where
  "vfs_chdir H v apath h =
     (if \<not> prefix (root v) apath then (Inl (- EACCES), v)
      else case h_metadata H apath h of
             Inl k \<Rightarrow> (Inl (vfs_io_to_errno k), v)
           | Inr meta \<Rightarrow>
               if is_dir meta then (Inr (), v\<lparr>cwd := apath\<rparr>) else (Inl (- ENOTDIR), v))"

definition vfs_chroot :: "'h host_ops \<Rightarrow> vfs \<Rightarrow> pathbuf \<Rightarrow> 'h \<Rightarrow> unit res \<times> vfs" where
  "vfs_chroot H v apath h =
     (case h_metadata H apath h of
        Inl k \<Rightarrow> (Inl (vfs_io_to_errno k), v)
      | Inr meta \<Rightarrow>
          if is_dir meta then (Inr (), v\<lparr>root := apath, cwd := apath\<rparr>) else (Inl (- ENOTDIR), v))"

section \<open>Agreement below a directory\<close>

text \<open>
  Two hosts agree below \<open>P\<close> when every path operation behaves the same on paths
  inside \<open>P\<close>.  An operation that gives the same result and the same final state on
  all such pairs reaches the host only through paths inside \<open>P\<close>.
\<close>

definition agree_below :: "pathbuf \<Rightarrow> 'h host_ops \<Rightarrow> 'h host_ops \<Rightarrow> bool" where
  "agree_below P H H' \<longleftrightarrow>
     (\<forall>p. prefix P p \<longrightarrow>
        h_metadata H p = h_metadata H' p \<and> h_symlink_metadata H p = h_symlink_metadata H' p \<and>
        h_read_dir H p = h_read_dir H' p \<and> h_read_link H p = h_read_link H' p \<and>
        h_open H p = h_open H' p \<and> h_create_dir H p = h_create_dir H' p \<and>
        h_remove_dir H p = h_remove_dir H' p \<and> h_remove_file H p = h_remove_file H' p \<and>
        h_set_permissions H p = h_set_permissions H' p \<and>
        (\<forall>t. h_symlink H t p = h_symlink H' t p) \<and>
        (\<forall>q. prefix P q \<longrightarrow> h_rename H p q = h_rename H' p q \<and> h_hard_link H p q = h_hard_link H' p q)) \<and>
     hf_metadata H = hf_metadata H' \<and> hf_read H = hf_read H' \<and> hf_write H = hf_write H' \<and>
     hf_seek H = hf_seek H' \<and> hf_try_clone H = hf_try_clone H' \<and> hf_set_len H = hf_set_len H' \<and>
     hf_set_modified H = hf_set_modified H' \<and> hf_set_permissions H = hf_set_permissions H' \<and>
     h_now H = h_now H'"

lemma agree_handles:
  assumes "agree_below P H H'"
  shows "hf_metadata H = hf_metadata H'" "hf_read H = hf_read H'" "hf_write H = hf_write H'"
    "hf_seek H = hf_seek H'" "hf_try_clone H = hf_try_clone H'" "hf_set_len H = hf_set_len H'"
    "hf_set_modified H = hf_set_modified H'" "hf_set_permissions H = hf_set_permissions H'"
    "h_now H = h_now H'"
  using assms by (simp_all add: agree_below_def)

lemma agree_paths:
  assumes "agree_below P H H'" "prefix P p"
  shows "h_metadata H p = h_metadata H' p" "h_symlink_metadata H p = h_symlink_metadata H' p"
    "h_read_dir H p = h_read_dir H' p" "h_read_link H p = h_read_link H' p"
    "h_open H p = h_open H' p" "h_create_dir H p = h_create_dir H' p"
    "h_remove_dir H p = h_remove_dir H' p" "h_remove_file H p = h_remove_file H' p"
    "h_set_permissions H p = h_set_permissions H' p" "h_symlink H t p = h_symlink H' t p"
  using assms by (simp_all add: agree_below_def)

lemma agree_two_paths:
  assumes "agree_below P H H'" "prefix P p" "prefix P q"
  shows "h_rename H p q = h_rename H' p q" "h_hard_link H p q = h_hard_link H' p q"
  using assms by (simp_all add: agree_below_def)

lemma agree_vfs:
  assumes "agree_below P H H'" "prefix P p"
  shows "vfs_open H p fl = vfs_open H' p fl" "vfs_stat H p = vfs_stat H' p"
    "readdir_all H p = readdir_all H' p" "vfs_chdir H v p = vfs_chdir H' v p"
    "vfs_chroot H v p = vfs_chroot H' v p"
  unfolding fun_eq_iff vfs_open_def vfs_stat_def readdir_all_def vfs_chdir_def vfs_chroot_def
    agree_paths [OF assms] agree_handles [OF assms(1)] by (rule allI refl)+

section \<open>Directory listings\<close>

fun dirents_of :: "nat \<Rightarrow> (bytes \<times> file_type option \<times> u64) list \<Rightarrow> dirent64 list" where
  "dirents_of n [] = []"
| "dirents_of n ((name, ftype, ino) # ns) =
     (let d = \<lparr>d_ino = ino, d_off = int n + int (length name) + 24,
               d_type = dirent_type ftype, d_name = name\<rparr>
      in d # dirents_of (n + length (dirent_encode d)) ns)"

lemma pack_dirents_eq:
  "pack_dirents out ns = out @ concat (map dirent_encode (dirents_of (length out) ns))"
proof (induction ns arbitrary: out)
  case (Cons n ns)
  obtain name ftype ino where "n = (name, ftype, ino)" by (cases n) auto
  then show ?case by (simp add: Cons.IH Let_def)
qed simp

lemma dirents_of_contents:
  "map (\<lambda>d. (d_name d, d_type d, d_ino d)) (dirents_of n ns) =
   map (\<lambda>(name, ftype, ino). (name, dirent_type ftype, ino)) ns"
  by (induction n ns rule: dirents_of.induct) (simp_all add: Let_def)

lemma dirents_of_ok:
  assumes "\<forall>(name, ftype, ino) \<in> set ns. length name \<le> 1000 \<and> 0 \<notin> set name"
    "n + length ns * 2000 < 2 ^ 62"
  shows "list_all dirent_ok (dirents_of n ns)"
  using assms
proof (induction n ns rule: dirents_of.induct)
  case (2 n name ftype ino ns)
  define d where "d = \<lparr>d_ino = ino, d_off = int n + int (length name) + 24,
    d_type = dirent_type ftype, d_name = name\<rparr>"
  have name: "length name \<le> 1000" "0 \<notin> set name" using "2.prems"(1) by auto
  have off: "n + 2000 + length ns * 2000 < 2 ^ 62" using "2.prems"(2) by simp
  have d: "dirent_ok d" using name off by (simp add: dirent_ok_def d_def i64_range_def)
  have "length (dirent_encode d) \<le> 2000"
    using name(1) dirent_pad_bound [of "length name + 1"]
    unfolding length_dirent_encode [OF d] dirent_reclen_unat [OF d] by (simp add: d_def)
  with off have "n + length (dirent_encode d) + length ns * 2000 < 2 ^ 62" by linarith
  then have "list_all dirent_ok (dirents_of (n + length (dirent_encode d)) ns)"
    using "2.prems"(1) "2.IH" [OF d_def] by (simp add: d_def)
  with d show ?case by (simp add: Let_def d_def)
qed simp

text \<open>
  C22: Walking the packed listing record by record, as a guest does with
  \<open>d_reclen\<close>, yields exactly the host's readable entries, once each, with their type
  and inode, in the byte order of their names.
\<close>

theorem readdir_walk:
  assumes "h_read_dir H apath h = Inr es"
    and "\<forall>(name, ftype, ino) \<in> set (dir_names es). length name \<le> 1000 \<and> 0 \<notin> set name"
    and "length es < 2 ^ 40"
  shows "\<exists>bs. readdir_all H apath h = Inr bs \<and>
    map (\<lambda>d. (d_name d, d_type d, d_ino d)) (walk_dirents bs) =
      map (\<lambda>(name, ftype, ino). (name, dirent_type ftype, ino)) (dir_names es) \<and>
    sorted (map d_name (walk_dirents bs))"
proof -
  have "length (dir_names es) \<le> length es"
    by (simp add: dir_names_def List.map_filter_def le_trans [OF length_filter_le])
  with assms(3) have "0 + length (dir_names es) * 2000 < 2 ^ 62" by simp
  from walk_dirents_encode [OF dirents_of_ok [OF assms(2) this]]
  have w: "walk_dirents (pack_dirents [] (dir_names es)) = dirents_of 0 (dir_names es)"
    by (simp add: pack_dirents_eq)
  have "map d_name (dirents_of 0 (dir_names es)) = map fst (dir_names es)"
    using arg_cong [OF dirents_of_contents [of 0 "dir_names es"], of "map fst"]
    by (simp add: comp_def split_beta)
  then have "sorted (map d_name (dirents_of 0 (dir_names es)))" by (simp add: dir_names_def)
  then show ?thesis by (simp add: readdir_all_def assms(1) w dirents_of_contents)
qed

end
