(* ===== verification/Kernel_State.thy ===== *)
theory Kernel_State
  imports Fd_Table Linear_Allocator Host "HOL-Library.AList"
begin

text \<open>
  The resources behind file descriptors (\<^verbatim>\<open>src/src/fd.rs\<close>, \<open>FilePos\<close> of
  \<^verbatim>\<open>src/src/sys/file.rs\<close>), the kernel state the syscall handlers share
  (\<^verbatim>\<open>src/src/kernel.rs\<close>), and the path routing of \<^verbatim>\<open>src/src/sys/path.rs\<close>.  What the code
  shares through \<open>Arc\<close> lives in a heap of the kernel, one list per kind of object, and a
  resource holds the index; \<open>dup\<close> copies the index, so aliasing is explicit.
\<close>

section \<open>Resources\<close>

record pipe =
  p_buf :: bytes
  p_closed :: bool
  p_nonblock :: bool

record file_pos =
  fp_inner :: hfile
  fp_pos :: u64
  fp_path :: "pathbuf option"
  fp_is_dir :: bool
  fp_dir_cache :: "bytes option"

definition with_path :: "hfile \<Rightarrow> pathbuf \<Rightarrow> file_pos" where
  "with_path f p =
     \<lparr>fp_inner = f, fp_pos = 0, fp_path = Some p, fp_is_dir = False, fp_dir_cache = None\<rparr>"

datatype socket_kind = Stream | Datagram

datatype sock_addr = V4 u16 bytes | V6 u16 bytes | Unix bytes

text \<open>Host network objects by handle.  A \<open>std\<close> socket address is a \<open>V4\<close> or \<open>V6\<close> value.\<close>

type_synonym hsock = nat

record unix_sock_inner =
  ux_path :: "bytes option"
  ux_listener :: "hsock option"
  ux_stream :: "hsock option"
  ux_dgram :: "hsock option"
  ux_peer_addr :: "bytes option"

record udp_socket_state =
  ud_socket :: "hsock option"
  ud_recv_queue :: "(bytes \<times> sock_addr) list"
  ud_bound_addr :: "sock_addr option"
  ud_peer_addr :: "sock_addr option"
  ud_family_v6 :: bool
  ud_ipv6_v6only :: bool
  ud_so_reuseaddr :: bool
  ud_shutdown_flags :: u8
  ud_pump :: bool
  ud_pump_cancel :: bool

text \<open>\<open>SocketInner\<close>, less its two wake-up primitives.\<close>

record socket_inner =
  s_kind :: socket_kind
  s_nonblock :: bool
  s_bound :: "sock_addr option"
  s_listen_backlog :: "int option"
  s_so_reuseaddr :: bool
  s_so_keepalive :: bool
  s_tcp_nodelay :: bool
  s_listener :: "hsock option"
  s_stream :: "hsock option"
  s_peer_addr :: "sock_addr option"
  s_last_error :: int
  s_shutdown_flags :: u8
  s_is_acceptor :: bool
  s_peek_buf :: bytes
  s_unix :: "unix_sock_inner option"
  s_family_unix :: bool
  s_stream_unix :: "hsock option"
  s_peer_addr_unix :: "bytes option"
  s_dgram_unix :: "hsock option"
  s_inherited :: bool
  s_udp :: "udp_socket_state option"
  s_family_v6 :: bool
  s_ipv6_v6only :: bool

definition socket_new :: "socket_kind \<Rightarrow> bool \<Rightarrow> socket_inner" where
  "socket_new kind nonblock =
     \<lparr>s_kind = kind, s_nonblock = nonblock, s_bound = None, s_listen_backlog = None,
      s_so_reuseaddr = False, s_so_keepalive = False, s_tcp_nodelay = False,
      s_listener = None, s_stream = None, s_peer_addr = None, s_last_error = 0, s_shutdown_flags = 0,
      s_is_acceptor = False, s_peek_buf = [], s_unix = None, s_family_unix = False, s_stream_unix = None,
      s_peer_addr_unix = None, s_dgram_unix = None, s_inherited = False, s_udp = None,
      s_family_v6 = False, s_ipv6_v6only = False\<rparr>"

definition unix_sock_new :: unix_sock_inner where
  "unix_sock_new =
     \<lparr>ux_path = None, ux_listener = None, ux_stream = None, ux_dgram = None, ux_peer_addr = None\<rparr>"

definition socket_new_unix :: "socket_kind \<Rightarrow> bool \<Rightarrow> socket_inner" where
  "socket_new_unix kind nonblock =
     (socket_new kind nonblock)\<lparr>s_unix := Some unix_sock_new, s_family_unix := True\<rparr>"

definition from_accepted :: "hsock \<Rightarrow> socket_kind \<Rightarrow> bool \<Rightarrow> socket_inner" where
  "from_accepted stream kind nonblock = (socket_new kind nonblock)\<lparr>s_stream := Some stream\<rparr>"

definition from_tcp_listener :: "hsock \<Rightarrow> sock_addr \<Rightarrow> bool \<Rightarrow> bool \<Rightarrow> socket_inner" where
  "from_tcp_listener listener bound so_reuseaddr nonblock =
     (socket_new Stream nonblock)
       \<lparr>s_listener := Some listener, s_bound := Some bound, s_listen_backlog := Some 0,
        s_so_reuseaddr := so_reuseaddr, s_is_acceptor := True\<rparr>"

definition from_inherited_listener :: "hsock \<Rightarrow> sock_addr \<Rightarrow> socket_inner" where
  "from_inherited_listener listener bound =
     (socket_new Stream False)
       \<lparr>s_listener := Some listener, s_bound := Some bound, s_listen_backlog := Some 0,
        s_so_reuseaddr := True, s_is_acceptor := True, s_inherited := True\<rparr>"

definition from_unix_listener :: "hsock \<Rightarrow> bytes \<Rightarrow> bool \<Rightarrow> socket_inner" where
  "from_unix_listener listener path nonblock =
     (socket_new_unix Stream nonblock)
       \<lparr>s_bound := Some (Unix path), s_listen_backlog := Some 0, s_is_acceptor := True,
        s_unix := Some (unix_sock_new\<lparr>ux_path := Some path, ux_listener := Some listener\<rparr>)\<rparr>"

definition is_listening :: "socket_inner \<Rightarrow> bool" where
  "is_listening s \<longleftrightarrow> s_bound s \<noteq> None \<and> s_listen_backlog s \<noteq> None"

definition sock_family :: "socket_inner \<Rightarrow> int" where
  "sock_family s =
     (if s_family_unix s then 1
      else case s_bound s of
        Some (V4 _ _) \<Rightarrow> 2
      | Some (V6 _ _) \<Rightarrow> 10
      | Some (Unix _) \<Rightarrow> 1
      | None \<Rightarrow> 2)"

record epoll_entry =
  ee_fd :: u32
  ee_events :: u32
  ee_data :: u64

record epoll_inner =
  ep_entries :: "(u32 \<times> epoll_entry) list"
  ep_self_event_fd :: "u32 option"

record eventfd_inner =
  ev_counter :: u64
  ev_nonblock :: bool

text \<open>\<open>Resource\<close>; pipes, files and sockets by heap index.\<close>

datatype resource =
  RStdin nat | RStdout nat | RStderr nat | RFile nat | RPipeRead nat | RPipeWrite nat |
  RSocket nat | REpoll epoll_inner | REventFd eventfd_inner

section \<open>Signals, children and waiters\<close>

record sig_action =
  sa_handler :: u64
  sa_flags :: u64
  sa_restorer :: u64
  sa_mask :: u64

record signal_state =
  sig_actions :: "(int \<times> sig_action) list"
  sig_mask :: u64
  sig_alt_stack :: "bytes option"

definition signal_state_new :: signal_state where
  "signal_state_new = \<lparr>sig_actions = [], sig_mask = 0, sig_alt_stack = None\<rparr>"

record child_exit_status =
  ch_exit_code :: int
  ch_exited :: bool

definition child_new :: "int \<Rightarrow> child_exit_status" where
  "child_new code = \<lparr>ch_exit_code = code, ch_exited = False\<rparr>"

text \<open>\<open>IpAddr\<close> by its octets, and \<open>ResolverState\<close> with instants in nanoseconds; the backend is a parameter.\<close>

datatype ip_addr = Ip4 bytes | Ip6 bytes

record resolver_state =
  rv_cache :: "(bytes \<times> (ip_addr list \<times> nat)) list"
  rv_denylist :: "ip_addr list"
  rv_ttl_ms :: u64
  rv_timeout_ms :: u64

definition resolver_state_default :: resolver_state where
  "resolver_state_default = \<lparr>rv_cache = [], rv_denylist = [], rv_ttl_ms = 60000, rv_timeout_ms = 5000\<rparr>"

text \<open>
  \<open>ProcessState\<close>: hash maps as association lists (the order of the list stands for the
  map's iteration order), the futex table as waiter counts by address.
\<close>

record process_state =
  ps_next_pid :: int
  ps_children :: "(int \<times> child_exit_status) list"
  ps_futex :: "(u32 \<times> nat) list"
  ps_signals_pending :: "int list"
  ps_tgid_registry :: "int list"
  ps_tgid :: int
  ps_resolver :: resolver_state

definition process_state_new :: process_state where
  "process_state_new =
     \<lparr>ps_next_pid = 2, ps_children = [], ps_futex = [], ps_signals_pending = [],
      ps_tgid_registry = [1], ps_tgid = 1, ps_resolver = resolver_state_default\<rparr>"

section \<open>The kernel\<close>

record 'h kernel =
  k_memory :: "memory_kind option"
  k_fds :: "resource fd_table"
  k_vfs :: vfs
  k_mm :: linear_allocator
  k_pipes :: "pipe list"
  k_files :: "file_pos list"
  k_sockets :: "socket_inner list"
  k_clock :: u64
  k_brk :: u32
  k_args :: "bytes list"
  k_env :: "(bytes \<times> bytes) list"
  k_rng_seed :: bytes
  k_signals :: signal_state
  k_exit_code :: "int option"
  k_comm :: bytes
  k_tid :: int
  k_tgid :: int
  k_process :: process_state
  k_cpu_ns :: u64
  k_host :: 'h

text \<open>A syscall's six \<open>i64\<close> arguments.\<close>

datatype args = Args int int int int int int

type_synonym 'h handler = "'h kernel \<Rightarrow> args \<Rightarrow> int \<times> 'h kernel"

text \<open>\<open>match r { Ok(x) => ..., Err(e) => return e }\<close>.\<close>

definition try_ret :: "'a res \<Rightarrow> 'k \<Rightarrow> ('a \<Rightarrow> int \<times> 'k) \<Rightarrow> int \<times> 'k" where
  "try_ret r k f = (case r of Inl e \<Rightarrow> (e, k) | Inr x \<Rightarrow> f x)"

lemma try_ret_simps [simp]: "try_ret (Inl e) k f = (e, k)" "try_ret (Inr x) k f = f x"
  by (simp_all add: try_ret_def)

lemma try_ret_cong:
  assumes "\<And>x. r = Inr x \<Longrightarrow> f x = g x"
  shows "try_ret r k f = try_ret r k g"
  using assms by (cases r) auto

lemma try_ret_inv:
  assumes "P k" "\<And>x. r = Inr x \<Longrightarrow> P (snd (f x))"
  shows "P (snd (try_ret r k f))"
  using assms by (cases r) auto

text \<open>\<open>match r { Ok(()) => 0, Err(e) => -io_to_errno(e) }\<close> for a host call.\<close>

definition host_ret :: "'h kernel \<Rightarrow> unit io \<times> 'h \<Rightarrow> int \<times> 'h kernel" where
  "host_ret k r = (case r of (Inl e, h) \<Rightarrow> (- io_to_errno e, k\<lparr>k_host := h\<rparr>) | (Inr _, h) \<Rightarrow> (0, k\<lparr>k_host := h\<rparr>))"

lemma host_ret_snd: "\<exists>h. snd (host_ret k r) = k\<lparr>k_host := h\<rparr>"
  by (auto simp: host_ret_def split: prod.splits sum.splits)

definition k_write :: "'h kernel \<Rightarrow> nat \<Rightarrow> bytes \<Rightarrow> 'h kernel" where
  "k_write k p bs = k\<lparr>k_memory := mem_write (k_memory k) p bs\<rparr>"

definition set_pipe :: "'h kernel \<Rightarrow> nat \<Rightarrow> pipe \<Rightarrow> 'h kernel" where
  "set_pipe k r p = k\<lparr>k_pipes := (k_pipes k)[r := p]\<rparr>"

definition set_file :: "'h kernel \<Rightarrow> nat \<Rightarrow> file_pos \<Rightarrow> 'h kernel" where
  "set_file k r fp = k\<lparr>k_files := (k_files k)[r := fp]\<rparr>"

definition set_socket :: "'h kernel \<Rightarrow> nat \<Rightarrow> socket_inner \<Rightarrow> 'h kernel" where
  "set_socket k r s = k\<lparr>k_sockets := (k_sockets k)[r := s]\<rparr>"

lemmas k_update_defs = k_write_def set_pipe_def set_file_def set_socket_def

text \<open>\<open>make_pipe\<close>: both ends share buffer, \<open>closed\<close> flag and \<open>nonblock\<close> flag.\<close>

definition make_pipe :: "'h kernel \<Rightarrow> nat \<times> 'h kernel" where
  "make_pipe k =
     (length (k_pipes k),
      k\<lparr>k_pipes := k_pipes k @ [\<lparr>p_buf = [], p_closed = False, p_nonblock = False\<rparr>]\<rparr>)"

text \<open>\<open>FdTable::with_buffered_stdio\<close>: descriptors 0 and 1 get the two ends of one pipe.\<close>

definition with_buffered_stdio :: "'h kernel \<Rightarrow> 'h kernel" where
  "with_buffered_stdio k =
     (let (rd, k1) = make_pipe k; (wr_err, k2) = make_pipe k1
      in k2\<lparr>k_fds := \<lparr>table = [0 \<mapsto> RStdin rd, 1 \<mapsto> RStdout rd, 2 \<mapsto> RStderr wr_err],
                     next_fd = 3, cloexec = {}\<rparr>\<rparr>)"

text \<open>\<open>Kernel::new_inner\<close>; \<open>seed\<close> is what \<open>fresh_rng_seed\<close> draws from the operating system.\<close>

definition kernel_new_inner ::
  "bytes list \<Rightarrow> (bytes \<times> bytes) list \<Rightarrow> bytes \<Rightarrow> vfs \<Rightarrow> 'h \<Rightarrow> 'h kernel" where
  "kernel_new_inner args env seed v h =
     with_buffered_stdio
       \<lparr>k_memory = None, k_fds = fd_empty, k_vfs = v, k_mm = la_new, k_pipes = [], k_files = [],
        k_sockets = [], k_clock = 0, k_brk = 0, k_args = args, k_env = env, k_rng_seed = seed,
        k_signals = signal_state_new, k_exit_code = None, k_comm = replicate 16 0,
        k_tid = 1, k_tgid = 1, k_process = process_state_new, k_cpu_ns = 0, k_host = h\<rparr>"

text \<open>\<open>Kernel::new_with_preopen\<close>: a preopen that cannot be canonicalised falls back to \<open>/\<close>.\<close>

definition kernel_new_with_preopen ::
  "'h host_ops \<Rightarrow> bytes list \<Rightarrow> (bytes \<times> bytes) list \<Rightarrow> bytes \<Rightarrow> pathbuf \<Rightarrow> 'h \<Rightarrow> 'h kernel" where
  "kernel_new_with_preopen H args env seed preopen h =
     kernel_new_inner args env seed
       (case vfs_new H preopen h of Inr v \<Rightarrow> v | Inl _ \<Rightarrow> \<lparr>root = [RootDir], cwd = [RootDir]\<rparr>) h"

definition stdout_buf :: "'h kernel \<Rightarrow> nat option" where
  "stdout_buf k = (case fd_get (k_fds k) 1 of Inr (RStdout w) \<Rightarrow> Some w | _ \<Rightarrow> None)"

definition stderr_buf :: "'h kernel \<Rightarrow> nat option" where
  "stderr_buf k = (case fd_get (k_fds k) 2 of Inr (RStderr w) \<Rightarrow> Some w | _ \<Rightarrow> None)"

section \<open>Path routing\<close>

definition resolve_via_dirfd :: "'h kernel \<Rightarrow> u32 \<Rightarrow> bytes \<Rightarrow> pathbuf res" where
  "resolve_via_dirfd k dirfd path =
     res_bind
       (case fd_get (k_fds k) dirfd of
          Inr (RFile r) \<Rightarrow>
            (let gs = k_files k ! r
             in if \<not> fp_is_dir gs then Inl (- ENOTDIR)
                else case fp_path gs of Some p \<Rightarrow> Inr p | None \<Rightarrow> Inl (- EACCES))
        | Inr _ \<Rightarrow> Inl (- ENOTDIR)
        | Inl _ \<Rightarrow> Inl (- EBADF))
       (\<lambda>dir_path.
         let joined = (if path = [] then dir_path else path_join dir_path (components path))
         in resolve_path (k_vfs k) AT_FDCWD (path_str joined))"

definition sys_resolve :: "'h kernel \<Rightarrow> int \<Rightarrow> bytes \<Rightarrow> pathbuf res" where
  "sys_resolve k dirfd path =
     (if (path \<noteq> [] \<and> hd path = slash) \<or> dirfd = AT_FDCWD then resolve_path (k_vfs k) dirfd path
      else if dirfd \<ge> 0 then resolve_via_dirfd k (as_u32 dirfd) path
      else Inl (- ENOSYS))"

text \<open>Every successful routing is a successful \<open>Vfs::resolve_path\<close>.\<close>

lemma sys_resolve_vfs:
  "sys_resolve k dirfd path = Inr p \<Longrightarrow> \<exists>d q. resolve_path (k_vfs k) d q = Inr p"
  by (auto simp: sys_resolve_def resolve_via_dirfd_def Let_def res_bind_Inr split: if_splits)

lemma sys_resolve_confined: "sys_resolve k dirfd path = Inr p \<Longrightarrow> prefix (root (k_vfs k)) p"
  using sys_resolve_vfs [of k dirfd path p] resolve_path_normalize normalize_Inr(1) by blast

section \<open>Well-formed kernels\<close>

text \<open>Heap indices are valid.\<close>

fun resource_ok :: "'h kernel \<Rightarrow> resource \<Rightarrow> bool" where
  "resource_ok k (RStdin r) = (r < length (k_pipes k))"
| "resource_ok k (RStdout r) = (r < length (k_pipes k))"
| "resource_ok k (RStderr r) = (r < length (k_pipes k))"
| "resource_ok k (RPipeRead r) = (r < length (k_pipes k))"
| "resource_ok k (RPipeWrite r) = (r < length (k_pipes k))"
| "resource_ok k (RFile r) = (r < length (k_files k))"
| "resource_ok k (RSocket r) = (r < length (k_sockets k))"
| "resource_ok k (REpoll e) = True"
| "resource_ok k (REventFd e) = True"

definition fds_wf :: "'h kernel \<Rightarrow> bool" where
  "fds_wf k \<longleftrightarrow> (\<forall>fd r. table (k_fds k) fd = Some r \<longrightarrow> resource_ok k r)"

end
