(* ===== verification/Sys_Signal.thy ===== *)
theory Sys_Signal
  imports Kernel_State
begin

text \<open>
  \<^verbatim>\<open>src/src/sys/signal.rs\<close>: signal dispositions, the signal mask and the alternate stack.
  They are recorded, never delivered; what the theorems show is that a guest reads back
  what it stored.
\<close>

unbundle bit_operations_syntax

definition SIGACTION_SIZE :: int where "SIGACTION_SIZE = 32"
definition SIGALTSTACK_SIZE :: int where "SIGALTSTACK_SIZE = 24"
definition SS_DISABLE :: int where "SS_DISABLE = 2"

definition sig_action_default :: sig_action where
  "sig_action_default = \<lparr>sa_handler = 0, sa_flags = 0, sa_restorer = 0, sa_mask = 0\<rparr>"

definition prev_action :: "signal_state \<Rightarrow> int \<Rightarrow> sig_action" where
  "prev_action s signum =
     (case map_of (sig_actions s) signum of None \<Rightarrow> sig_action_default | Some x \<Rightarrow> x)"

text \<open>The four stores of \<open>oldact\<close>; bytes 16 to 23 and 28 to 31 keep what the guest had there.\<close>

definition store_action :: "'h kernel \<Rightarrow> nat \<Rightarrow> sig_action \<Rightarrow> 'h kernel" where
  "store_action k b prev =
     k_write
       (k_write
         (k_write (k_write k b (le_bytes 4 (uint (ucast (sa_handler prev) :: u32))))
           (b + 4) (le_bytes 4 (uint (ucast (sa_flags prev) :: u32))))
         (b + 8) (le_bytes 8 (uint (sa_mask prev))))
       (b + 24) (le_bytes 4 (uint (ucast (sa_restorer prev) :: u32)))"

definition load_action :: "bytes \<Rightarrow> sig_action" where
  "load_action bs =
     \<lparr>sa_handler = word_of_int (le_uint (slice 0 4 bs)), sa_flags = word_of_int (le_uint (slice 4 4 bs)),
      sa_restorer = word_of_int (le_uint (slice 24 4 bs)), sa_mask = word_of_int (le_uint (slice 8 8 bs))\<rparr>"

text \<open>A mutable slice through the owned memory, as the handlers here take it.\<close>

definition via_memory :: "'h kernel \<Rightarrow> int \<Rightarrow> int \<Rightarrow> (nat \<times> nat) res" where
  "via_memory k ptr len = res_bind (kernel_memory (k_memory k)) (\<lambda>m. guest_slice_mut_via m ptr len)"

fun sys_rt_sigaction :: "'h handler" where
  "sys_rt_sigaction k (Args a0 act oldact _ _ _) =
     (let signum = as_i32 a0
      in if signum < 1 \<or> 64 < signum then (- EINVAL, k)
         else
           let prev = prev_action (k_signals k) signum;
               finish = (\<lambda>k1.
                 if act \<noteq> 0
                 then try_ret (guest_slice (k_memory k1) act SIGACTION_SIZE) k1 (\<lambda>bs.
                        (0, k1\<lparr>k_signals := (k_signals k1)\<lparr>sig_actions :=
                              AList.update signum (load_action bs) (sig_actions (k_signals k1))\<rparr>\<rparr>))
                 else (0, k1))
           in if oldact \<noteq> 0
              then try_ret (via_memory k oldact SIGACTION_SIZE) k (\<lambda>(b, _). finish (store_action k b prev))
              else finish k)"

fun sys_rt_sigprocmask :: "'h handler" where
  "sys_rt_sigprocmask k (Args how set_ptr oldset _ _ _) =
     (let prev_mask = sig_mask (k_signals k);
          finish = (\<lambda>k1.
            if set_ptr \<noteq> 0
            then try_ret (guest_slice (k_memory k1) set_ptr 8) k1 (\<lambda>bs.
                   let new_mask = word_of_int (le_uint bs);
                       put = (\<lambda>m. (0, k1\<lparr>k_signals := (k_signals k1)\<lparr>sig_mask := m\<rparr>\<rparr>))
                   in if how = 0 then put (prev_mask OR new_mask)
                      else if how = 1 then put (prev_mask AND NOT new_mask)
                      else if how = 2 then put new_mask
                      else (- EINVAL, k1))
            else (0, k1))
      in if oldset \<noteq> 0
         then try_ret (via_memory k oldset 8) k (\<lambda>(b, _). finish (k_write k b (le_bytes 8 (uint prev_mask))))
         else finish k)"

fun sys_sigaltstack :: "'h handler" where
  "sys_sigaltstack k (Args ss old_ss _ _ _ _) =
     (let prev = sig_alt_stack (k_signals k);
          finish = (\<lambda>k1.
            if ss \<noteq> 0
            then try_ret (guest_slice (k_memory k1) ss SIGALTSTACK_SIZE) k1 (\<lambda>bs.
                   let flags = as_i32 (le_uint (slice 8 4 bs))
                   in (0, k1\<lparr>k_signals := (k_signals k1)\<lparr>sig_alt_stack :=
                           (if flags AND SS_DISABLE \<noteq> 0 then None else Some bs)\<rparr>\<rparr>))
            else (0, k1))
      in if old_ss \<noteq> 0
         then try_ret (guest_slice_mut (k_memory k) old_ss SIGALTSTACK_SIZE) k (\<lambda>(b, _).
                finish (k_write k b (case prev of
                                       Some p \<Rightarrow> take 24 p
                                     | None \<Rightarrow> replicate 24 0)))
         else finish k)"

definition sys_rt_sigreturn :: "'h handler" where
  "sys_rt_sigreturn k a = (0, k)"

section \<open>Reading back\<close>

lemma via_memory_range: "via_memory k ptr len = Inr (b, l) \<Longrightarrow> guest_range (k_memory k) ptr len = Inr (b, l)"
  by (auto simp: via_memory_def res_bind_Inr guest_slice_mut_via_def guest_range_def kernel_memory_def
      split: option.splits memory_kind.splits if_splits)

lemma k_write_owned: "k_memory k = Some (Owned m) \<Longrightarrow> k_memory (k_write k b bs) = Some (Owned (splice b bs m))"
  by (simp add: k_write_def)

lemma slice_splice_within:
  assumes "p + length ys \<le> length xs" "p \<le> q" "q + n \<le> p + length ys"
  shows "slice q n (splice p ys xs) = slice (q - p) n ys"
  using assms by (intro nth_equalityI) (auto simp: slice_nth nth_splice)

lemma slice_join: "slice p n xs @ slice (p + n) m xs = slice p (n + m) xs"
  by (simp add: slice_def take_add) (simp add: add.commute)

lemma slice_slice: "i + n \<le> l \<Longrightarrow> slice i n (slice p l xs) = slice (p + i) n xs"
  by (simp add: slice_def drop_take min_def add.commute)

lemma guest_slice_range:
  assumes "guest_slice mem ptr len = Inr bs"
  shows "guest_range mem ptr len = Inr (nat ptr, nat len)"
proof -
  from assms obtain p l where r: "guest_range mem ptr len = Inr (p, l)"
    by (auto simp: guest_slice_def res_bind_Inr)
  with guest_range_Inr [OF r] show ?thesis by auto
qed

lemma guest_slice_part:
  assumes "guest_range (Some (Owned m)) ptr len = Inr (p, l)" "i + n \<le> l"
  shows "guest_slice (Some (Owned m)) (ptr + int i) (int n) = Inr (slice (p + i) n m)"
  using assms by (auto simp: guest_slice_def guest_range_def kernel_memory_def usize_checked_add_def Let_def
      res_bind_Inr ok_or_def nat_add_distrib split: if_splits)

lemma le_bytes_of_slice:
  assumes "p + n \<le> length xs"
  shows "le_bytes n (le_uint (slice p n xs)) = slice p n xs"
  using le_bytes_le_uint [of "slice p n xs"] assms by simp

lemma le_uint_slice_less: "p + n \<le> length bs \<Longrightarrow> le_uint (slice p n bs) < 256 ^ n"
  using le_uint_less [of "slice p n bs"] by simp

lemma ucast_u64_u32_small: "0 \<le> x \<Longrightarrow> x < 2 ^ 32 \<Longrightarrow> uint (ucast (word_of_int x :: u64) :: u32) = x"
  by (simp add: uint_word_of_int unsigned_ucast_eq take_bit_eq_mod unsigned_of_int)

lemma load_action_uints:
  assumes "length bs = 32"
  shows "uint (ucast (sa_handler (load_action bs)) :: u32) = le_uint (slice 0 4 bs)"
    "uint (ucast (sa_flags (load_action bs)) :: u32) = le_uint (slice 4 4 bs)"
    "uint (ucast (sa_restorer (load_action bs)) :: u32) = le_uint (slice 24 4 bs)"
    "uint (sa_mask (load_action bs)) = le_uint (slice 8 8 bs)"
  using assms le_uint_slice_less [of 0 4 bs] le_uint_slice_less [of 4 4 bs] le_uint_slice_less [of 24 4 bs]
    le_uint_slice_less [of 8 8 bs]
  by (simp_all add: load_action_def ucast_u64_u32_small uint_word_of_int)

lemma store_load_action:
  assumes "k_memory k = Some (Owned m)" "b + 32 \<le> length m" "length bs = 32"
  shows "\<exists>m'. k_memory (store_action k b (load_action bs)) = Some (Owned m') \<and> length m' = length m \<and>
    slice b 16 m' = slice 0 16 bs \<and> slice (b + 24) 4 m' = slice 24 4 bs"
proof -
  have w: "le_bytes 4 (uint (ucast (sa_handler (load_action bs)) :: u32)) = slice 0 4 bs"
    "le_bytes 4 (uint (ucast (sa_flags (load_action bs)) :: u32)) = slice 4 4 bs"
    "le_bytes 4 (uint (ucast (sa_restorer (load_action bs)) :: u32)) = slice 24 4 bs"
    "le_bytes 8 (uint (sa_mask (load_action bs))) = slice 8 8 bs"
    using assms(3) by (simp_all add: load_action_uints le_bytes_of_slice)
  define m1 where "m1 = splice b (slice 0 4 bs) m"
  define m2 where "m2 = splice (b + 4) (slice 4 4 bs) m1"
  define m3 where "m3 = splice (b + 8) (slice 8 8 bs) m2"
  define m4 where "m4 = splice (b + 24) (slice 24 4 bs) m3"
  have len: "length m1 = length m" "length m2 = length m" "length m3 = length m" "length m4 = length m"
    using assms(2,3) by (simp_all add: m1_def m2_def m3_def m4_def)
  have mem: "k_memory (store_action k b (load_action bs)) = Some (Owned m4)"
    unfolding store_action_def w m4_def m3_def m2_def m1_def by (intro k_write_owned assms(1))
  have b0: "slice b 4 m4 = slice 0 4 bs"
    using assms(2,3) len by (simp add: m4_def m3_def m2_def m1_def slice_splice_other)
  have b4: "slice (b + 4) 4 m4 = slice 4 4 bs"
    using assms(2,3) len by (simp add: m4_def m3_def m2_def slice_splice_other)
  have b8: "slice (b + 8) 8 m4 = slice 8 8 bs"
    using assms(2,3) len by (simp add: m4_def m3_def slice_splice_other)
  have "slice b 16 m4 = slice 0 16 bs"
    using slice_join [of b 4 m4 4] slice_join [of b 8 m4 8] slice_join [of 0 4 bs 4] slice_join [of 0 8 bs 8]
      b0 b4 b8 by simp
  moreover have "slice (b + 24) 4 m4 = slice 24 4 bs"
    using assms(2,3) len by (simp add: m4_def)
  ultimately show ?thesis using mem len by blast
qed

text \<open>
  A disposition stored with \<open>rt_sigaction\<close> is the one a later query of the same signal writes
  back: handler, flags and mask (the first 16 bytes) and the restorer (bytes 24 to 27) come back
  as they were, wherever in memory the two records lie.
\<close>
lemma sigaction_roundtrip:
  assumes "sys_rt_sigaction k (Args sig act 0 x4 x5 x6) = (0, k1)" "act \<noteq> 0"
    "sys_rt_sigaction k1 (Args sig 0 oldact y4 y5 y6) = (0, k2)" "oldact \<noteq> 0"
  shows "guest_slice (k_memory k2) oldact 16 = guest_slice (k_memory k1) act 16 \<and>
    guest_slice (k_memory k2) (oldact + 24) 4 = guest_slice (k_memory k1) (act + 24) 4"
proof
  have nz: "guest_slice mem p n = Inl e \<Longrightarrow> e \<noteq> 0" "via_memory k p n = Inl e \<Longrightarrow> e \<noteq> 0" "EINVAL \<noteq> 0"
    for mem p n e and k :: "'h kernel"
    by (auto simp: guest_slice_def via_memory_def res_bind_def kernel_memory_def guest_slice_mut_via_def
        ok_or_def errno_defs Let_def dest!: guest_range_Inl split: sum.splits option.splits memory_kind.splits
        prod.splits if_splits)
  from assms(1,2) nz(3) have sig: "\<not> (as_i32 sig < 1 \<or> 64 < as_i32 sig)" by (auto simp: Let_def)
  obtain bs where bs: "guest_slice (k_memory k) act 32 = Inr bs"
    using assms(1,2) sig nz(1) by (cases "guest_slice (k_memory k) act 32") (auto simp: SIGACTION_SIZE_def)
  have k1: "k_memory k1 = k_memory k" "prev_action (k_signals k1) (as_i32 sig) = load_action bs"
    using assms(1,2) sig bs by (auto simp: SIGACTION_SIZE_def Let_def prev_action_def update_conv')
  obtain b l where b: "via_memory k1 oldact 32 = Inr (b, l)"
    using assms(3,4) sig nz(2) [of k1 oldact 32]
    by (cases "via_memory k1 oldact 32") (auto simp: SIGACTION_SIZE_def)
  then have k2: "k2 = store_action k1 b (load_action bs)"
    using assms(3,4) sig k1 by (simp add: SIGACTION_SIZE_def)
  from guest_range_Inr [OF via_memory_range [OF b]] obtain m where
    m: "k_memory k1 = Some (Owned m)" "b = nat oldact" "0 \<le> oldact" "b + 32 \<le> length m" by auto
  from guest_slice_Inr [OF bs] k1(1) m(1) have act: "0 \<le> act" "nat act + 32 \<le> length m"
    "bs = slice (nat act) 32 m" by auto
  from store_load_action [OF m(1,4), of bs] act obtain m' where m': "k_memory k2 = Some (Owned m')"
    "length m' = length m" "slice b 16 m' = slice 0 16 bs" "slice (b + 24) 4 m' = slice 24 4 bs"
    unfolding k2 by auto
  have r1: "guest_range (Some (Owned m)) act 32 = Inr (nat act, 32)"
    using guest_slice_range [OF bs] k1(1) m(1) by simp
  have r2: "guest_range (Some (Owned m')) oldact 32 = Inr (b, 32)"
    using via_memory_range [OF b] m(1) m'(2) guest_range_length [of m' m]
    by (auto dest: guest_range_Inr)
  show "guest_slice (k_memory k2) oldact 16 = guest_slice (k_memory k1) act 16"
    using guest_slice_part [OF r1, of 0 16] guest_slice_part [OF r2, of 0 16] m m' act(3)
    by (simp add: slice_slice)
  show "guest_slice (k_memory k2) (oldact + 24) 4 = guest_slice (k_memory k1) (act + 24) 4"
    using guest_slice_part [OF r1, of 24 4] guest_slice_part [OF r2, of 24 4] m m' act(3)
    by (simp add: slice_slice)
qed

text \<open>A handler record at address 4 of a small memory, copied back to address 40.\<close>

definition demo_sig :: "unit kernel" where
  "demo_sig = (kernel_new_inner [] [] (replicate 32 0) \<lparr>root = [], cwd = []\<rparr> ())
     \<lparr>k_memory := Some (Owned ([0, 0, 0, 0, 7, 1, 0, 0, 4, 0, 0, 0, 1, 2, 3, 4, 5, 6, 7, 8] @ replicate 52 9))\<rparr>"

end
