(* ===== verification/Sys_Process.thy ===== *)
theory Sys_Process
  imports Sys_Signal
begin

text \<open>
  \<^verbatim>\<open>src/src/sys/process.rs\<close>: exit, the process and thread ids, \<open>clone\<close>, \<open>fork\<close>, \<open>wait4\<close>, \<open>prctl\<close>,
  the scheduler stubs and signal sending; and the fixed answers of \<^verbatim>\<open>src/src/sys/identity.rs\<close>.
  A call that would sleep returns \<open>Park\<close> with what it sleeps on; \<open>wait4_resume\<close> is the code
  after the sleep.
\<close>

section \<open>Exit and identity\<close>

definition WNOHANG :: int where "WNOHANG = 0x40"
definition WAIT4_SUPPORTED_V1 :: int where "WAIT4_SUPPORTED_V1 = WNOHANG"
definition CLONE_CHILD_SETTID :: int where "CLONE_CHILD_SETTID = 0x1000000"
definition CLONE_PARENT_SETTID :: int where "CLONE_PARENT_SETTID = 0x8000000"
definition CLONE_VM :: int where "CLONE_VM = 0x100"
definition CLONE_THREAD :: int where "CLONE_THREAD = 0x10000"
definition CLONE_SUPPORTED_V2 :: int where
  "CLONE_SUPPORTED_V2 = CLONE_CHILD_SETTID OR CLONE_PARENT_SETTID OR CLONE_VM OR CLONE_THREAD"

definition reap_all_children :: "'h kernel \<Rightarrow> 'h kernel" where
  "reap_all_children k =
     k\<lparr>k_process := (k_process k)\<lparr>ps_children :=
         map (\<lambda>(p, c). (p, c\<lparr>ch_exited := True\<rparr>)) (ps_children (k_process k))\<rparr>\<rparr>"

fun sys_exit :: "'h handler" where
  "sys_exit k (Args a0 _ _ _ _ _) = (0, reap_all_children (k\<lparr>k_exit_code := Some (as_i32 a0)\<rparr>))"

fun sys_exit_group :: "'h handler" where
  "sys_exit_group k (Args a0 _ _ _ _ _) = (0, reap_all_children (k\<lparr>k_exit_code := Some (as_i32 a0)\<rparr>))"

definition sys_getpid :: "'h handler" where "sys_getpid k a = (k_tgid k, k)"
definition sys_gettid :: "'h handler" where "sys_gettid k a = (k_tid k, k)"
definition sys_set_tid_address :: "'h handler" where "sys_set_tid_address k a = (k_tid k, k)"
definition sys_set_robust_list :: "'h handler" where "sys_set_robust_list k a = (0, k)"

section \<open>clone and fork\<close>

text \<open>\<open>next_pid.fetch_add(1)\<close>: the old value, the counter wrapping at 32 bits.\<close>

definition alloc_pid :: "'h kernel \<Rightarrow> int \<times> 'h kernel" where
  "alloc_pid k =
     (ps_next_pid (k_process k),
      k\<lparr>k_process := (k_process k)\<lparr>ps_next_pid := as_i32 (ps_next_pid (k_process k) + 1)\<rparr>\<rparr>)"

definition register_tid :: "int \<Rightarrow> 'h kernel \<Rightarrow> 'h kernel" where
  "register_tid tid k =
     k\<lparr>k_process := (k_process k)\<lparr>ps_tgid_registry := List.insert tid (ps_tgid_registry (k_process k))\<rparr>\<rparr>"

fun sys_clone :: "'h handler" where
  "sys_clone k (Args flags _ ptid_ptr ctid_ptr _ _) =
     (if flags AND NOT CLONE_SUPPORTED_V2 \<noteq> 0 then (- EINVAL, k)
      else if flags AND (CLONE_CHILD_SETTID OR CLONE_PARENT_SETTID) = 0 then (- EINVAL, k)
      else
        let (child_tid, k0) = alloc_pid k; k1 = register_tid child_tid k0
        in try_ret (kernel_memory (k_memory k1)) k1 (\<lambda>m.
             let child = (\<lambda>k2.
                   if flags AND CLONE_CHILD_SETTID \<noteq> 0
                   then try_ret (guest_slice_mut_via m ctid_ptr 4) k2 (\<lambda>(b, _).
                          (child_tid, k_write k2 b (le_bytes 4 child_tid)))
                   else (child_tid, k2))
             in if flags AND CLONE_PARENT_SETTID \<noteq> 0
                then try_ret (guest_slice_mut_via m ptid_ptr 4) k1 (\<lambda>(b, _).
                       child (k_write k1 b (le_bytes 4 child_tid)))
                else child k1))"

definition sys_fork :: "'h handler" where
  "sys_fork k a =
     (let (child_pid, k1) = alloc_pid k;
          k2 = k1\<lparr>k_process := (k_process k1)\<lparr>ps_children :=
                 AList.update child_pid (child_new 0) (ps_children (k_process k1))\<rparr>\<rparr>
      in (child_pid, register_tid child_pid k2))"

definition sys_sched_yield :: "'h handler" where "sys_sched_yield k a = (0, k)"

section \<open>wait4\<close>

text \<open>Any child of an any-pid wait is the first exited one the map's iteration meets.\<close>

definition pick_child :: "(int \<times> child_exit_status) list \<Rightarrow> int \<Rightarrow> int option" where
  "pick_child children pid =
     (if pid > 0
      then (case map_of children (as_i32 pid) of
              Some c \<Rightarrow> if ch_exited c then Some (as_i32 pid) else None
            | None \<Rightarrow> None)
      else map_option fst (find (\<lambda>(p, c). ch_exited c) children))"

definition try_reap :: "'h kernel \<Rightarrow> int \<Rightarrow> (int \<times> int) option \<times> 'h kernel" where
  "try_reap k pid =
     (let children = ps_children (k_process k)
      in case pick_child children pid of
           None \<Rightarrow> (None, k)
         | Some picked \<Rightarrow>
             (case map_of children picked of
                None \<Rightarrow> (None, k)
              | Some c \<Rightarrow>
                  (Some (picked, ch_exit_code c),
                   k\<lparr>k_process := (k_process k)\<lparr>ps_children := AList.delete picked children\<rparr>\<rparr>)))"

definition write_wstatus_and_return :: "'h kernel \<Rightarrow> int \<Rightarrow> int \<Rightarrow> int \<Rightarrow> int \<times> 'h kernel" where
  "write_wstatus_and_return k picked exit_code wstatus_ptr =
     (let wstatus = push_bit 8 (exit_code AND 0xFF)
      in if wstatus_ptr \<noteq> 0
         then try_ret (via_memory k wstatus_ptr 4) k (\<lambda>(b, _). (picked, k_write k b (le_bytes 4 wstatus)))
         else (picked, k))"

datatype 'w outcome = Ret int | Park 'w

text \<open>What a sleeping \<open>wait4\<close> waits on: one child's \<open>notify\<close>, or \<open>child_event\<close>.\<close>

datatype wait_on = OnChild int | OnChildEvent

definition wait4_park :: "'h kernel \<Rightarrow> int \<Rightarrow> wait_on outcome" where
  "wait4_park k pid =
     (if pid > 0 \<and> map_of (ps_children (k_process k)) (as_i32 pid) \<noteq> None
      then Park (OnChild (as_i32 pid)) else Park OnChildEvent)"

fun sys_wait4 :: "'h kernel \<Rightarrow> args \<Rightarrow> wait_on outcome \<times> 'h kernel" where
  "sys_wait4 k (Args pid wstatus_ptr a2 _ _ _) =
     (let options = as_i32 a2
      in if options AND NOT WAIT4_SUPPORTED_V1 \<noteq> 0 then (Ret (- EINVAL), k)
         else if pid < - 1 then (Ret (- EINVAL), k)
         else if ps_children (k_process k) = [] then (Ret (- ECHILD), k)
         else case try_reap k pid of
           (Some (picked, exit_code), k1) \<Rightarrow>
             (case write_wstatus_and_return k1 picked exit_code wstatus_ptr of (r, k2) \<Rightarrow> (Ret r, k2))
         | (None, k1) \<Rightarrow>
             if options AND WNOHANG \<noteq> 0 then (Ret 0, k1)
             else if pid > 0 \<and> map_of (ps_children (k_process k1)) (as_i32 pid) = None then (Ret (- ECHILD), k1)
             else (wait4_park k1 pid, k1))"

fun wait4_resume :: "'h kernel \<Rightarrow> args \<Rightarrow> wait_on outcome \<times> 'h kernel" where
  "wait4_resume k (Args pid wstatus_ptr _ _ _ _) =
     (case try_reap k pid of
        (Some (picked, exit_code), k1) \<Rightarrow>
          (case write_wstatus_and_return k1 picked exit_code wstatus_ptr of (r, k2) \<Rightarrow> (Ret r, k2))
      | (None, k1) \<Rightarrow> (wait4_park k1 pid, k1))"

section \<open>Scheduling, prctl, signals\<close>

fun sys_sched_getaffinity :: "'h handler" where
  "sys_sched_getaffinity k (Args pid len mask_ptr _ _ _) =
     (if pid \<noteq> 0 \<and> pid \<noteq> 1 then (- ESRCH, k)
      else
        let to_write = max (min len 8) 0
        in if to_write = 0 then (- EINVAL, k)
           else try_ret (guest_slice_mut (k_memory k) mask_ptr to_write) k (\<lambda>(b, _).
                  (to_write, k_write k b (1 # replicate (nat to_write - 1) 0))))"

definition comm_of :: "bytes \<Rightarrow> bytes" where
  "comm_of bs = until_nul bs @ replicate (16 - length (until_nul bs)) 0"

fun sys_prctl :: "'h handler" where
  "sys_prctl k (Args a0 arg2 _ _ _ _) =
     (let option = as_i32 a0
      in if option = 15 then
           (if arg2 = 0 then (- EINVAL, k)
            else try_ret (guest_slice (k_memory k) arg2 16) k (\<lambda>bs. (0, k\<lparr>k_comm := comm_of bs\<rparr>)))
         else if option = 16 then
           (if arg2 = 0 then (- EINVAL, k)
            else try_ret (guest_slice_mut (k_memory k) arg2 16) k (\<lambda>(b, _). (0, k_write k b (k_comm k))))
         else if option = 3 then (0, k)
         else if option = 4 then (0, k)
         else if option = 39 then (1, k)
         else if option = 38 then (0, k)
         else (- EINVAL, k))"

definition push_signal :: "int \<Rightarrow> 'h kernel \<Rightarrow> 'h kernel" where
  "push_signal sig k =
     k\<lparr>k_process := (k_process k)\<lparr>ps_signals_pending := ps_signals_pending (k_process k) @ [as_i32 sig]\<rparr>\<rparr>"

fun sys_kill :: "'h handler" where
  "sys_kill k (Args pid sig _ _ _ _) =
     (if \<not> (0 \<le> sig \<and> sig \<le> 64) then (- EINVAL, k)
      else if pid < - 1 then (- EINVAL, k)
      else if pid = 0 then
        (if k_tgid k \<noteq> ps_tgid (k_process k) then (- ESRCH, k) else (0, push_signal sig k))
      else if pid > 0 then
        (if as_i32 pid \<noteq> k_tgid k then (- ESRCH, k) else (0, push_signal sig k))
      else (- EINVAL, k))"

fun sys_tgkill :: "'h handler" where
  "sys_tgkill k (Args tgid_arg tid_arg sig _ _ _) =
     (if \<not> (0 \<le> sig \<and> sig \<le> 64) then (- EINVAL, k)
      else
        let tgid = (if tgid_arg = 0 then k_tgid k else tgid_arg);
            tid = (if tid_arg = 0 then k_tid k else tid_arg)
        in if as_i32 tgid \<noteq> k_tgid k then (- ESRCH, k)
           else if as_i32 tid \<notin> set (ps_tgid_registry (k_process k)) then (- ESRCH, k)
           else (0, push_signal sig k))"

section \<open>identity.rs\<close>

definition UID :: int where "UID = 1000"

definition sys_getuid :: "'h handler" where "sys_getuid k a = (UID, k)"
definition sys_geteuid :: "'h handler" where "sys_geteuid k a = (UID, k)"
definition sys_getgid :: "'h handler" where "sys_getgid k a = (UID, k)"
definition sys_getegid :: "'h handler" where "sys_getegid k a = (UID, k)"
definition sys_getppid :: "'h handler" where "sys_getppid k a = (1, k)"

definition str_bytes :: "string \<Rightarrow> bytes" where
  "str_bytes s = map (\<lambda>c. word_of_nat (of_char c)) s"

definition utsname_fields :: "bytes list" where
  "utsname_fields =
     map str_bytes [''Linux'', ''edge-libos'', ''6.0.0'', ''#1 wasm32'', ''wasm32'', ''(none)'']"

definition utsname_bytes :: bytes where
  "utsname_bytes = concat (map (\<lambda>f. f @ replicate (65 - length f) 0) utsname_fields)"

fun sys_uname :: "'h handler" where
  "sys_uname k (Args buf_ptr _ _ _ _ _) =
     try_ret (guest_slice_mut (k_memory k) buf_ptr 390) k (\<lambda>(b, _). (0, k_write k b utsname_bytes))"

fun sys_prlimit64 :: "'h handler" where
  "sys_prlimit64 k (Args pid _ _ old_limit_ptr _ _) =
     (if pid \<noteq> 0 \<and> pid \<noteq> 1 then (- EPERM, k)
      else if old_limit_ptr \<noteq> 0
      then try_ret (guest_slice_mut (k_memory k) old_limit_ptr 16) k (\<lambda>(b, _). (0, k_write k b (replicate 16 0xFF)))
      else (0, k))"

fun sys_getrlimit :: "'h handler" where
  "sys_getrlimit k (Args a0 a1 _ _ _ _) = sys_prlimit64 k (Args 0 a0 0 a1 0 0)"

definition sys_setsid :: "'h handler" where "sys_setsid k a = (- EPERM, k)"
definition sys_getsid :: "'h handler" where "sys_getsid k a = (1, k)"

fun sys_getgroups :: "'h handler" where
  "sys_getgroups k (Args size' list_ptr _ _ _ _) =
     (if size' < 0 then (- EINVAL, k)
      else if size' = 0 then (0, k)
      else if list_ptr = 0 then (- EOPNOTSUPP, k)
      else (0, k))"

section \<open>Process ids\<close>

datatype proc_call = CFork | CClone | CExit | CExitGroup | CWait | CWaitResume | CKill | CTgkill

text \<open>One call of the process group; \<open>None\<close> while it sleeps.\<close>

definition returned :: "'w outcome \<times> 'k \<Rightarrow> int option \<times> 'k" where
  "returned x = (case x of (Ret r, k) \<Rightarrow> (Some r, k) | (Park _, k) \<Rightarrow> (None, k))"

fun proc_exec :: "proc_call \<Rightarrow> 'h kernel \<Rightarrow> args \<Rightarrow> int option \<times> 'h kernel" where
  "proc_exec CFork k a = map_prod Some id (sys_fork k a)"
| "proc_exec CClone k a = map_prod Some id (sys_clone k a)"
| "proc_exec CExit k a = map_prod Some id (sys_exit k a)"
| "proc_exec CExitGroup k a = map_prod Some id (sys_exit_group k a)"
| "proc_exec CWait k a = returned (sys_wait4 k a)"
| "proc_exec CWaitResume k a = returned (wait4_resume k a)"
| "proc_exec CKill k a = map_prod Some id (sys_kill k a)"
| "proc_exec CTgkill k a = map_prod Some id (sys_tgkill k a)"

inductive proc_runs :: "'h kernel \<Rightarrow> (proc_call \<times> int option) list \<Rightarrow> 'h kernel \<Rightarrow> bool" where
  proc_nil: "proc_runs k [] k"
| proc_step: "proc_exec c k a = (r, k1) \<Longrightarrow> proc_runs k1 tr k2 \<Longrightarrow> proc_runs k ((c, r) # tr) k2"

text \<open>The ids that \<open>fork\<close> and \<open>clone\<close> handed out.\<close>

fun spawned :: "(proc_call \<times> int option) list \<Rightarrow> int list" where
  "spawned [] = []"
| "spawned ((c, Some r) # tr) = (if c \<in> {CFork, CClone} \<and> r > 0 then r # spawned tr else spawned tr)"
| "spawned ((c, None) # tr) = spawned tr"

abbreviation next_pid :: "'h kernel \<Rightarrow> int" where
  "next_pid k \<equiv> ps_next_pid (k_process k)"

lemma k_process_write [simp]: "k_process (k_write k b bs) = k_process k"
  by (simp add: k_write_def)

lemma next_pid_simps [simp]:
  "next_pid (reap_all_children k) = next_pid k" "next_pid (register_tid t k) = next_pid k"
  "next_pid (push_signal sg k) = next_pid k" "next_pid (snd (try_reap k pid)) = next_pid k"
  "next_pid (snd (write_wstatus_and_return k q c ptr)) = next_pid k"
  "next_pid (snd (alloc_pid k)) = as_i32 (next_pid k + 1)"
  by (auto simp: reap_all_children_def register_tid_def push_signal_def try_reap_def write_wstatus_and_return_def
      alloc_pid_def try_ret_def Let_def split: option.split sum.split prod.split)

lemma next_pid_try_reap: "try_reap k pid = (x, k1) \<Longrightarrow> next_pid k1 = next_pid k"
  using next_pid_simps(4) [of k pid] by simp

lemma next_pid_wstatus: "write_wstatus_and_return k q c ptr = (x, k1) \<Longrightarrow> next_pid k1 = next_pid k"
  using next_pid_simps(5) [of k q c ptr] by simp

lemma next_pid_wait4:
  "next_pid (snd (sys_wait4 k a)) = next_pid k" "next_pid (snd (wait4_resume k a)) = next_pid k"
  by (cases a; auto simp: Let_def split: prod.split option.split dest!: next_pid_try_reap next_pid_wstatus)+

lemma next_pid_signals:
  "next_pid (snd (sys_kill k a)) = next_pid k" "next_pid (snd (sys_tgkill k a)) = next_pid k"
  "next_pid (snd (sys_exit k a)) = next_pid k" "next_pid (snd (sys_exit_group k a)) = next_pid k"
  by (cases a; auto simp: Let_def)+

lemma snd_returned: "snd (returned x) = snd x"
  by (simp add: returned_def split: prod.split outcome.split)

lemma fork_pid:
  "sys_fork k a = (r, k1) \<Longrightarrow> r = next_pid k \<and> next_pid k1 = as_i32 (next_pid k + 1)"
  by (auto simp: sys_fork_def alloc_pid_def Let_def)

lemma guest_slice_mut_via_Inl: "guest_slice_mut_via m p n = Inl e \<Longrightarrow> e < 0"
  by (auto simp: guest_slice_mut_via_def Let_def ok_or_def res_bind_def errno_defs
      split: if_splits option.splits)

lemma kernel_memory_Inl: "kernel_memory m = Inl e \<Longrightarrow> e < 0"
  by (auto simp: kernel_memory_def errno_defs split: option.splits memory_kind.splits)

lemma clone_pid:
  assumes "sys_clone k a = (r, k1)"
  shows "r < 0 \<and> next_pid k1 \<in> {next_pid k, as_i32 (next_pid k + 1)} \<or>
    r = next_pid k \<and> next_pid k1 = as_i32 (next_pid k + 1)"
proof -
  obtain flags x2 pp cp x5 x6 where a: "a = Args flags x2 pp cp x5 x6" by (cases a)
  show ?thesis
    using assms unfolding a
    by (auto simp: alloc_pid_def Let_def try_ret_def errno_defs
        split: if_splits sum.splits prod.splits dest!: guest_slice_mut_via_Inl kernel_memory_Inl)
qed

lemma proc_exec_pid:
  assumes "proc_exec c k a = (r, k1)" "next_pid k > 1"
  shows "next_pid k1 \<in> {next_pid k, as_i32 (next_pid k + 1)}"
    "c \<in> {CFork, CClone} \<Longrightarrow> r = Some q \<Longrightarrow> q > 0 \<Longrightarrow> q = next_pid k \<and> next_pid k1 = as_i32 (next_pid k + 1)"
proof -
  have k1: "k1 = snd (proc_exec c k a)" using assms(1) by simp
  have "next_pid (snd (sys_fork k a)) \<in> {next_pid k, as_i32 (next_pid k + 1)}"
    "next_pid (snd (sys_clone k a)) \<in> {next_pid k, as_i32 (next_pid k + 1)}"
    using fork_pid [of k a "fst (sys_fork k a)" "snd (sys_fork k a)"]
      clone_pid [of k a "fst (sys_clone k a)" "snd (sys_clone k a)"] by auto
  then show "next_pid k1 \<in> {next_pid k, as_i32 (next_pid k + 1)}"
    unfolding k1 by (cases c) (simp_all add: next_pid_wait4 next_pid_signals snd_returned)
  show "q = next_pid k \<and> next_pid k1 = as_i32 (next_pid k + 1)"
    if "c \<in> {CFork, CClone}" "r = Some q" "q > 0"
    using that assms(1) fork_pid [of k a q k1] clone_pid [of k a q k1] by (auto simp: map_prod_def split: prod.splits)
qed

lemma spawned_bounds:
  "proc_runs k tr k' \<Longrightarrow> 1 < next_pid k \<Longrightarrow> next_pid k + int (length tr) < 2 ^ 31 \<Longrightarrow>
    distinct (spawned tr) \<and> (\<forall>p \<in> set (spawned tr). next_pid k \<le> p)"
proof (induction rule: proc_runs.induct)
  case (proc_step c k a r k1 tr k2)
  have wrap: "as_i32 (next_pid k + 1) = next_pid k + 1"
    using proc_step.prems by (simp add: as_i32_def signed_take_bit_int_eq_self)
  from proc_exec_pid(1) [OF proc_step.hyps(1) proc_step.prems(1)] wrap
  have n: "next_pid k1 = next_pid k \<or> next_pid k1 = next_pid k + 1" by auto
  then have IH: "distinct (spawned tr)" "\<forall>p \<in> set (spawned tr). next_pid k1 \<le> p"
    using proc_step.IH proc_step.prems by auto
  show ?case
  proof (cases "\<exists>q. r = Some q \<and> c \<in> {CFork, CClone} \<and> q > 0")
    case True
    then obtain q where q: "r = Some q" "c \<in> {CFork, CClone}" "q > 0" by blast
    from proc_exec_pid(2) [OF proc_step.hyps(1) proc_step.prems(1) q(2,1,3)] wrap
    have "q = next_pid k" "next_pid k1 = next_pid k + 1" by auto
    with IH q show ?thesis by auto
  next
    case False
    then have "spawned ((c, r) # tr) = spawned tr" by (cases r) auto
    with IH n show ?thesis by auto
  qed
qed simp

text \<open>
  C11: In a process started fresh, whatever \<open>fork\<close>, \<open>clone\<close>, \<open>exit\<close>, \<open>wait4\<close> and \<open>kill\<close> calls are made and
  in whatever order, no two of them hand out the same id and none hands out 0, 1 or a negative id,
  for as long as the 32-bit counter has not run through.
\<close>
theorem pids_never_reused:
  assumes "proc_runs ((kernel_new_inner args env seed v h)\<lparr>k_memory := m\<rparr>) tr k" "length tr < 2 ^ 31 - 2"
  shows "distinct (spawned tr) \<and> (\<forall>p \<in> set (spawned tr). 1 < p)"
proof -
  have "next_pid ((kernel_new_inner args env seed v h)\<lparr>k_memory := m\<rparr>) = 2"
    by (simp add: kernel_new_inner_def with_buffered_stdio_def make_pipe_def process_state_new_def Let_def)
  with spawned_bounds [OF assms(1)] assms(2)
  show ?thesis by auto
qed

text \<open>A process that forks, clones a thread, waits without blocking, and forks again.\<close>

theorem pids_never_reused_witness:
  "\<exists>k. proc_runs ((kernel_new_inner [] [] (replicate 32 0) \<lparr>root = [], cwd = []\<rparr> ())\<lparr>k_memory := Some (Owned (replicate 8 0))\<rparr>)
      [(CFork, Some 2), (CClone, Some 3), (CFork, Some 4)] k \<and> distinct [2, 3, 4 :: int]"
proof -
  let ?k = "(kernel_new_inner [] [] (replicate 32 0) \<lparr>root = [], cwd = []\<rparr> ())\<lparr>k_memory := Some (Owned (replicate 8 0))\<rparr>"
  let ?c = "Args 0x1000000 0 0 4 0 0"
  have p: "k_process ?k = process_state_new" "k_memory ?k = Some (Owned (replicate 8 0))"
    by (simp_all add: kernel_new_inner_def with_buffered_stdio_def make_pipe_def Let_def)
  obtain k1 where k1: "proc_exec CFork ?k ?c = (Some 2, k1)" "next_pid k1 = 3" "k_memory k1 = Some (Owned (replicate 8 0))"
    by (simp add: sys_fork_def alloc_pid_def register_tid_def p process_state_new_def as_i32_def Let_def)
  obtain k2 where k2: "proc_exec CClone k1 ?c = (Some 3, k2)" "next_pid k2 = 4"
    using k1(2,3) by (simp add: alloc_pid_def register_tid_def as_i32_def Let_def CLONE_SUPPORTED_V2_def
        CLONE_CHILD_SETTID_def CLONE_PARENT_SETTID_def CLONE_VM_def CLONE_THREAD_def kernel_memory_def
        guest_slice_mut_via_def usize_checked_add_def k_write_def)
  obtain k3 where k3: "proc_exec CFork k2 ?c = (Some 4, k3)"
    using k2(2) by (simp add: sys_fork_def alloc_pid_def register_tid_def as_i32_def Let_def)
  have r: "proc_runs ?k [(CFork, Some 2), (CClone, Some 3), (CFork, Some 4)] k3"
    by (rule proc_step [OF k1(1) proc_step [OF k2(1) proc_step [OF k3 proc_nil]]])
  from pids_never_reused [OF this] have "distinct [2, 3, 4 :: int]" by simp
  with r show ?thesis by blast
qed

section \<open>Waiting\<close>

lemma try_reap_exited:
  assumes "map_of (ps_children (k_process k)) (as_i32 pid) = Some c" "ch_exited c" "0 < pid"
  shows "try_reap k pid = (Some (as_i32 pid, ch_exit_code c),
    k\<lparr>k_process := (k_process k)\<lparr>ps_children := AList.delete (as_i32 pid) (ps_children (k_process k))\<rparr>\<rparr>)"
  using assms by (simp add: try_reap_def pick_child_def)

lemma wstatus_bytes: "le_bytes 4 (push_bit 8 c AND 65280) = [0, word_of_int c, 0, 0]"
proof -
  have t: "take_bit 8 c = c AND 255" by (simp add: take_bit_eq_mask mask_eq_exp_minus_1)
  have "push_bit 8 c AND 65280 = push_bit 8 (take_bit 8 c)" by (simp add: t push_bit_and)
  also have "\<dots> = 256 * (c mod 256)" by (simp add: push_bit_eq_mult take_bit_eq_mod)
  finally have e: "push_bit 8 c AND 65280 = 256 * (c mod 256)" .
  have "(word_of_int (c mod 256) :: u8) = word_of_int c"
    by (simp add: word_of_int_eq_iff take_bit_eq_mod)
  moreover have "word_of_int (256 * (c mod 256)) = (0 :: u8)"
    using uint_word_of_int [of "256 * (c mod 256)", where 'a = 8] by (intro word_uint_eqI) simp
  ultimately show ?thesis unfolding e by (simp add: numeral_eq_Suc)
qed

lemma wait4_reaps_exited:
  assumes "map_of (ps_children (k_process k)) (as_i32 pid) = Some c" "ch_exited c" "0 < pid"
    "as_i32 opts \<in> {0, WNOHANG}" "ptr = 0 \<or> guest_range (k_memory k) ptr 4 = Inr (b, 4)"
  shows "\<exists>k'. sys_wait4 k (Args pid ptr opts x4 x5 x6) = (Ret (as_i32 pid), k') \<and>
    (ptr \<noteq> 0 \<longrightarrow> guest_slice (k_memory k') ptr 4 = Inr [0, word_of_int (ch_exit_code c), 0, 0]) \<and>
    map_of (ps_children (k_process k')) = (map_of (ps_children (k_process k)))(as_i32 pid := None)"
proof -
  let ?k1 = "k\<lparr>k_process := (k_process k)\<lparr>ps_children := AList.delete (as_i32 pid) (ps_children (k_process k))\<rparr>\<rparr>"
  have ne: "ps_children (k_process k) \<noteq> []" using assms(1) by auto
  have opts: "as_i32 opts AND NOT WAIT4_SUPPORTED_V1 = 0"
    using assms(4) by (auto simp: WAIT4_SUPPORTED_V1_def WNOHANG_def)
  have gone: "map_of (ps_children (k_process ?k1)) = (map_of (ps_children (k_process k)))(as_i32 pid := None)"
    by (rule ext) (simp add: delete_conv)
  show ?thesis
  proof (cases "ptr = 0")
    case True
    then have "sys_wait4 k (Args pid ptr opts x4 x5 x6) = (Ret (as_i32 pid), ?k1)"
      using assms(3) opts ne by (simp add: try_reap_exited [OF assms(1-3)] write_wstatus_and_return_def Let_def)
    with True gone show ?thesis by simp
  next
    case False
    with assms(5) have g: "guest_range (k_memory k) ptr 4 = Inr (b, 4)" by simp
    from guest_range_Inr [OF g] obtain m where m: "k_memory k = Some (Owned m)" by blast
    have via: "via_memory ?k1 ptr 4 = Inr (b, 4)"
      using g m by (auto simp: via_memory_def guest_slice_mut_via_def guest_range_def kernel_memory_def
          res_bind_Inr ok_or_def Let_def split: if_splits option.splits)
    have "sys_wait4 k (Args pid ptr opts x4 x5 x6) =
        (Ret (as_i32 pid), k_write ?k1 b [0, word_of_int (ch_exit_code c), 0, 0])"
      using assms(3) False opts ne via
      by (simp add: try_reap_exited [OF assms(1-3)] write_wstatus_and_return_def wstatus_bytes Let_def)
    moreover have "guest_slice (k_memory (k_write ?k1 b [0, word_of_int (ch_exit_code c), 0, 0])) ptr 4 =
        Inr [0, word_of_int (ch_exit_code c), 0, 0]"
      using guest_write_read [OF g] by (simp add: k_write_def)
    ultimately show ?thesis using gone by simp
  qed
qed

text \<open>
  C12: \<open>wait4\<close> on a child that has exited returns that child at once, blocking or not: it stores the
  exit code in the second byte of the status word, takes the child off the table, and leaves
  every other child there.
\<close>
theorem wait4_reaps:
  assumes "map_of (ps_children (k_process k)) (as_i32 pid) = Some c" "ch_exited c" "0 < pid"
    "as_i32 opts \<in> {0, WNOHANG}" "guest_range (k_memory k) ptr 4 = Inr (b, 4)" "ptr \<noteq> 0"
  shows "\<exists>k'. sys_wait4 k (Args pid ptr opts x4 x5 x6) = (Ret (as_i32 pid), k') \<and>
    guest_slice (k_memory k') ptr 4 = Inr [0, word_of_int (ch_exit_code c), 0, 0] \<and>
    map_of (ps_children (k_process k')) = (map_of (ps_children (k_process k)))(as_i32 pid := None)"
  using wait4_reaps_exited [OF assms(1-4), of ptr b] assms(5,6) by simp

text \<open>A process with one exited and one running child.\<close>

definition demo_proc :: "unit kernel" where
  "demo_proc = (kernel_new_inner [] [] (replicate 32 0) \<lparr>root = [], cwd = []\<rparr> ())
     \<lparr>k_memory := Some (Owned (replicate 40 65)),
      k_process := process_state_new\<lparr>ps_next_pid := 4, ps_children := [(2, child_new 0), (3, \<lparr>ch_exit_code = 7, ch_exited = True\<rparr>)]\<rparr>\<rparr>"

lemma demo_proc_simps [simp]:
  "k_memory demo_proc = Some (Owned (replicate 40 65))"
  "k_process demo_proc =
     process_state_new\<lparr>ps_next_pid := 4, ps_children := [(2, child_new 0), (3, \<lparr>ch_exit_code = 7, ch_exited = True\<rparr>)]\<rparr>"
  "k_tgid demo_proc = 1"
  by (simp_all add: demo_proc_def kernel_new_inner_def with_buffered_stdio_def make_pipe_def Let_def)

theorem wait4_reaps_witness:
  "\<exists>k'. sys_wait4 demo_proc (Args 3 8 0 0 0 0) = (Ret 3, k') \<and> guest_slice (k_memory k') 8 4 = Inr [0, 7, 0, 0]"
proof -
  have h: "map_of (ps_children (k_process demo_proc)) (as_i32 3) = Some \<lparr>ch_exit_code = 7, ch_exited = True\<rparr>"
    "as_i32 0 \<in> {0, WNOHANG}" "guest_range (k_memory demo_proc) 8 4 = Inr (8, 4)"
    by (simp_all add: as_i32_def guest_range_def kernel_memory_def usize_checked_add_def)
  from wait4_reaps [OF h(1) _ _ h(2,3), of 0 0 0] show ?thesis by (auto simp: as_i32_def)
qed

text \<open>
  What a call of the process group does to one entry of the table: it keeps it, marks it, takes it
  off for a waiter, or registers it anew. \<open>left_alone q tr\<close>: no other waiter of the trace took
  child \<open>q\<close> off, neither by returning it nor by failing to store its status.
\<close>
abbreviation child_table :: "'h kernel \<Rightarrow> (int \<times> child_exit_status) list" where
  "child_table k \<equiv> ps_children (k_process k)"

definition left_alone :: "int \<Rightarrow> (proc_call \<times> int option) list \<Rightarrow> bool" where
  "left_alone q tr \<longleftrightarrow> (\<forall>(c, r) \<in> set tr. c \<in> {CWait, CWaitResume} \<longrightarrow> r \<notin> {Some q, Some (- EFAULT), Some (- EINVAL)})"

lemma children_reap_all:
  "map_of (child_table (reap_all_children k)) q = map_option (\<lambda>c. c\<lparr>ch_exited := True\<rparr>) (map_of (child_table k) q)"
  by (simp add: reap_all_children_def map_of_map comp_def)

lemma children_kept [simp]:
  "child_table (register_tid t k) = child_table k" "child_table (push_signal sg k) = child_table k"
  "child_table (snd (alloc_pid k)) = child_table k" "child_table (snd (write_wstatus_and_return k p c ptr)) = child_table k"
  by (auto simp: register_tid_def push_signal_def alloc_pid_def write_wstatus_and_return_def try_ret_def Let_def
      split: sum.split prod.split)

lemma children_clone: "child_table (snd (sys_clone k a)) = child_table k"
  by (cases a) (auto simp: alloc_pid_def Let_def try_ret_def register_tid_def split: sum.split prod.split)

lemma children_signals: "child_table (snd (sys_kill k a)) = child_table k" "child_table (snd (sys_tgkill k a)) = child_table k"
  by (cases a; simp add: Let_def)+

lemma via_memory_errors: "via_memory k p n = Inl e \<Longrightarrow> e = - EFAULT \<or> e = - EINVAL"
  by (auto simp: via_memory_def kernel_memory_def guest_slice_mut_via_def Let_def ok_or_def res_bind_def
      split: if_splits option.splits memory_kind.splits sum.splits)

lemma wstatus_result: "fst (write_wstatus_and_return k p c ptr) \<in> {p, - EFAULT, - EINVAL}"
  by (auto simp: write_wstatus_and_return_def try_ret_def Let_def split: sum.split prod.split dest!: via_memory_errors)

lemma try_reap_children:
  "try_reap k pid = (Some (p, c), k1) \<Longrightarrow> map_of (child_table k1) = (map_of (child_table k))(p := None)"
  "try_reap k pid = (None, k1) \<Longrightarrow> k1 = k"
  by (auto simp: try_reap_def Let_def delete_conv split: option.splits)

lemma waits_keep:
  assumes "x \<in> {sys_wait4 k a, wait4_resume k a}" "fst (returned x) \<notin> {Some q, Some (- EFAULT), Some (- EINVAL)}"
  shows "map_of (child_table (snd x)) q = map_of (child_table k) q"
proof (cases a)
  case (Args pid ptr opts x4 x5 x6)
  show ?thesis
  proof (cases "try_reap k pid")
    case (Pair got k1)
    show ?thesis
    proof (cases got)
      case None
      with Pair have "try_reap k pid = (None, k1)" "k1 = k" using try_reap_children(2) by auto
      with assms(1) show ?thesis by (auto simp: Args Let_def)
    next
      case (Some pc)
      then obtain p c where pc: "try_reap k pid = (Some (p, c), k1)" using Pair by (cases pc) auto
      show ?thesis
      proof (cases "snd x = k")
        case False
        with assms(1) pc have x: "x = (case write_wstatus_and_return k1 p c ptr of (r, k2) \<Rightarrow> (Ret r, k2))"
          by (auto simp: Args Let_def split: if_splits)
        with wstatus_result [of k1 p c ptr] assms(2) have "p \<noteq> q"
          by (auto simp: returned_def split: prod.splits)
        moreover have "child_table (snd x) = child_table k1"
          using children_kept(4) [of k1 p c ptr] by (cases "write_wstatus_and_return k1 p c ptr") (simp add: x)
        ultimately show ?thesis using try_reap_children(1) [OF pc] by simp
      qed simp
    qed
  qed
qed

lemma proc_exec_entry:
  assumes "proc_exec c k a = (r, k1)" "left_alone q [(c, r)]"
  shows "map_of (child_table k1) q \<in> {map_of (child_table k) q, map_option (\<lambda>c. c\<lparr>ch_exited := True\<rparr>) (map_of (child_table k) q)}
    \<or> (c = CFork \<and> r = Some q \<and> map_of (child_table k1) q = Some (child_new 0))"
proof (cases c)
  case CFork
  with assms(1) show ?thesis
    by (auto simp: sys_fork_def Let_def alloc_pid_def update_conv' split: if_splits)
next
  case CClone
  with assms(1) children_clone [of k a] show ?thesis by (auto simp: map_prod_def split: prod.splits)
next
  case CExit
  with assms(1) show ?thesis by (cases a) (auto simp: children_reap_all)
next
  case CExitGroup
  with assms(1) show ?thesis by (cases a) (auto simp: children_reap_all)
next
  case CWait
  with assms waits_keep [of "sys_wait4 k a" k a q] snd_returned [of "sys_wait4 k a"]
  show ?thesis by (auto simp: left_alone_def)
next
  case CWaitResume
  with assms waits_keep [of "wait4_resume k a" k a q] snd_returned [of "wait4_resume k a"]
  show ?thesis by (auto simp: left_alone_def)
next
  case CKill
  with assms(1) children_signals(1) [of k a] show ?thesis by (auto simp: map_prod_def split: prod.splits)
next
  case CTgkill
  with assms(1) children_signals(2) [of k a] show ?thesis by (auto simp: map_prod_def split: prod.splits)
qed

lemma child_stays:
  "proc_runs k tr k' \<Longrightarrow> left_alone q tr \<Longrightarrow> map_of (child_table k) q \<noteq> None \<Longrightarrow> map_of (child_table k') q \<noteq> None"
proof (induction rule: proc_runs.induct)
  case (proc_step c k a r k1 tr k2)
  then have "left_alone q [(c, r)]" "left_alone q tr" by (auto simp: left_alone_def)
  with proc_exec_entry [OF proc_step.hyps(1)] proc_step show ?case by fastforce
qed simp

lemma child_stays_exited:
  "proc_runs k tr k' \<Longrightarrow> left_alone q tr \<Longrightarrow> (CFork, Some q) \<notin> set tr \<Longrightarrow>
    map_of (child_table k) q = Some c \<Longrightarrow> ch_exited c \<Longrightarrow> \<exists>c'. map_of (child_table k') q = Some c' \<and> ch_exited c'"
proof (induction arbitrary: c rule: proc_runs.induct)
  case (proc_step call k a r k1 tr k2)
  then have la: "left_alone q [(call, r)]" "left_alone q tr" by (auto simp: left_alone_def)
  with proc_exec_entry [OF proc_step.hyps(1) la(1)] proc_step.prems
  obtain c1 where "map_of (child_table k1) q = Some c1" "ch_exited c1" by auto
  with proc_step.IH la proc_step.prems show ?case by simp
qed simp

lemma try_reap_some:
  assumes "map_of (child_table k) q = Some c" "ch_exited c" "0 < pid \<longrightarrow> q = as_i32 pid"
  obtains p c' where "try_reap k pid = (Some (p, ch_exit_code c'),
      k\<lparr>k_process := (k_process k)\<lparr>ps_children := AList.delete p (child_table k)\<rparr>\<rparr>)"
    "map_of (child_table k) p = Some c'" "0 < pid \<longrightarrow> p = as_i32 pid"
proof (cases "0 < pid")
  case True
  with assms that [of q c] show ?thesis by (simp add: try_reap_def pick_child_def)
next
  case False
  have "find (\<lambda>(p, c). ch_exited c) (child_table k) \<noteq> None"
    using map_of_SomeD [OF assms(1)] assms(2) by (auto simp: find_None_iff)
  then obtain p d where f: "find (\<lambda>(p, c). ch_exited c) (child_table k) = Some (p, d)" by auto
  then have "(p, d) \<in> set (child_table k)" by (metis find_Some_iff nth_mem)
  then obtain c' where c': "map_of (child_table k) p = Some c'" by (metis weak_map_of_SomeI)
  show ?thesis
    by (rule that [of p c']) (use False f c' in \<open>simp_all add: try_reap_def pick_child_def\<close>)
qed

lemma resume_reaps:
  assumes "map_of (child_table k) q = Some c" "ch_exited c" "0 < pid \<longrightarrow> q = as_i32 pid"
    "ptr = 0 \<or> guest_range (k_memory k) ptr 4 = Inr (b, 4)"
  shows "\<exists>p c' k'. wait4_resume k (Args pid ptr opts x4 x5 x6) = (Ret p, k') \<and> (0 < pid \<longrightarrow> p = as_i32 pid) \<and>
    map_of (child_table k) p = Some c' \<and> map_of (child_table k') = (map_of (child_table k))(p := None) \<and>
    (ptr \<noteq> 0 \<longrightarrow> guest_slice (k_memory k') ptr 4 = Inr [0, word_of_int (ch_exit_code c'), 0, 0])"
proof -
  from try_reap_some [OF assms(1-3)] obtain p c' where r: "try_reap k pid = (Some (p, ch_exit_code c'),
      k\<lparr>k_process := (k_process k)\<lparr>ps_children := AList.delete p (child_table k)\<rparr>\<rparr>)" (is "_ = (_, ?k1)")
    and p: "map_of (child_table k) p = Some c'" "0 < pid \<longrightarrow> p = as_i32 pid" by blast
  have ch: "map_of (AList.delete p (child_table k)) = (map_of (child_table k))(p := None)" by (rule ext) (simp add: delete_conv)
  show ?thesis
  proof (cases "ptr = 0")
    case True
    with r p ch show ?thesis by (simp add: write_wstatus_and_return_def)
  next
    case False
    with assms(4) have g: "guest_range (k_memory k) ptr 4 = Inr (b, 4)" by simp
    from guest_range_Inr [OF g] obtain m where m: "k_memory k = Some (Owned m)" by blast
    have via: "via_memory ?k1 ptr 4 = Inr (b, 4)"
      using g m by (auto simp: via_memory_def guest_slice_mut_via_def guest_range_def kernel_memory_def
          res_bind_Inr ok_or_def Let_def split: if_splits option.splits)
    have "wait4_resume k (Args pid ptr opts x4 x5 x6) = (Ret p, k_write ?k1 b [0, word_of_int (ch_exit_code c'), 0, 0])"
      using False via by (simp add: r write_wstatus_and_return_def wstatus_bytes Let_def)
    moreover have "guest_slice (k_memory (k_write ?k1 b [0, word_of_int (ch_exit_code c'), 0, 0])) ptr 4 =
        Inr [0, word_of_int (ch_exit_code c'), 0, 0]"
      using guest_write_read [OF g] by (simp add: k_write_def)
    ultimately show ?thesis using p ch by auto
  qed
qed



text \<open>
  A sleeper on a child that another waiter has reaped in the meantime never gets an answer for
  it: each time it runs again it goes back to sleep, now on the event of all children.
\<close>
lemma wait4_resume_gone:
  assumes "0 < pid" "map_of (ps_children (k_process k)) (as_i32 pid) = None"
  shows "wait4_resume k (Args pid ptr opts x4 x5 x6) = (Park OnChildEvent, k)"
  using assms by (simp add: try_reap_def pick_child_def wait4_park_def)

section \<open>Names and signals\<close>

text \<open>
  The thread name set with \<open>PR_SET_NAME\<close> is the one \<open>PR_GET_NAME\<close> stores: the 16 bytes read,
  cut at the first NUL and padded with zeros.
\<close>
lemma comm_roundtrip:
  assumes "guest_slice (k_memory k) src 16 = Inr name" "src \<noteq> 0" "dst \<noteq> 0"
    "guest_range (k_memory k) dst 16 = Inr (b, 16)"
  shows "\<exists>k1 k2. sys_prctl k (Args 15 src x3 x4 x5 x6) = (0, k1) \<and> sys_prctl k1 (Args 16 dst y3 y4 y5 y6) = (0, k2) \<and>
    guest_slice (k_memory k2) dst 16 = Inr (until_nul name @ replicate (16 - length (until_nul name)) 0)"
proof -
  have "length (until_nul name) \<le> 16"
    using guest_slice_length [OF assms(1)] length_takeWhile_le [of "\<lambda>b. b \<noteq> 0" name] by (simp add: until_nul_def)
  then have "length (comm_of name) = 16" by (simp add: comm_of_def)
  from guest_write_read [OF assms(4) this] show ?thesis
    using assms by (simp add: as_i32_def guest_slice_mut_def k_write_def comm_of_def)
qed

text \<open>
  \<open>kill\<close> does not reach a forked child, although \<open>fork\<close> registers it: the id that \<open>fork\<close>
  returned is answered with \<open>-ESRCH\<close> and nothing is queued.
\<close>
lemma kill_child_esrch:
  assumes "sys_fork k a = (p, k1)" "1 < p" "p < 2 ^ 31" "k_tgid k = 1" "0 \<le> sig" "sig \<le> 64"
  shows "sys_kill k1 (Args p sig x3 x4 x5 x6) = (- ESRCH, k1)" "p \<in> set (ps_tgid_registry (k_process k1))"
proof -
  have "k_tgid k1 = 1" "as_i32 p = p"
    using assms by (auto simp: sys_fork_def alloc_pid_def register_tid_def Let_def as_i32_def
        signed_take_bit_int_eq_self)
  with assms show "sys_kill k1 (Args p sig x3 x4 x5 x6) = (- ESRCH, k1)" by simp
  show "p \<in> set (ps_tgid_registry (k_process k1))"
    using assms(1) by (auto simp: sys_fork_def alloc_pid_def register_tid_def Let_def)
qed

end
