(* ===== verification/Resolver.thy ===== *)
theory Resolver
  imports Sys_Process
begin

text \<open>
  \<^verbatim>\<open>src/src/sys/resolver.rs\<close>: the name-resolution syscall with its cache, denylist and result encoding.
  The lookup itself (hickory) is awaited: \<open>sys_resolve_name\<close> returns \<open>Park\<close> and \<open>resolve_resume\<close> continues with
  what the backend answered.  Instants are nanoseconds, passed in where the code reads the clock.
\<close>

section \<open>Configuration\<close>

definition DEFAULT_TTL_MS :: u64 where "DEFAULT_TTL_MS = 60000"
definition DEFAULT_TIMEOUT_MS :: u64 where "DEFAULT_TIMEOUT_MS = 5000"
definition ADDRINFO_SIZE :: nat where "ADDRINFO_SIZE = 32"
definition SOCKADDR_IN_SIZE :: nat where "SOCKADDR_IN_SIZE = 16"
definition SOCKADDR_IN6_SIZE :: nat where "SOCKADDR_IN6_SIZE = 28"
definition MAX_RESOLVER_SCRATCH_BYTES :: nat where "MAX_RESOLVER_SCRATCH_BYTES = 4096"
definition MAX_CACHE_ENTRIES :: nat where "MAX_CACHE_ENTRIES = 1024"
definition RESOLVER_SCRATCH_BASE :: int where "RESOLVER_SCRATCH_BASE = 8192"
definition AI_NUMERICHOST :: int where "AI_NUMERICHOST = 4"
definition AI_NUMERICSERV :: int where "AI_NUMERICSERV = 0x400"

definition EAI_BADFLAGS :: int where "EAI_BADFLAGS = - 1"
definition EAI_NONAME :: int where "EAI_NONAME = - 2"
definition EAI_AGAIN :: int where "EAI_AGAIN = - 3"
definition EAI_FAIL :: int where "EAI_FAIL = - 4"
definition EAI_FAMILY :: int where "EAI_FAMILY = - 6"
definition EAI_SOCKTYPE :: int where "EAI_SOCKTYPE = - 7"
definition EAI_SERVICE :: int where "EAI_SERVICE = - 8"
definition EAI_MEMORY :: int where "EAI_MEMORY = - 10"
definition EAI_SYSTEM :: int where "EAI_SYSTEM = - 11"

lemmas eai_consts = EAI_BADFLAGS_def EAI_NONAME_def EAI_AGAIN_def EAI_FAIL_def EAI_FAMILY_def EAI_SOCKTYPE_def
  EAI_SERVICE_def EAI_MEMORY_def EAI_SYSTEM_def

text \<open>\<open>str::parse\<close> for unsigned integers below a bound: an optional plus sign and at least one digit.\<close>

fun parse_digits :: "nat \<Rightarrow> nat \<Rightarrow> bytes \<Rightarrow> nat option" where
  "parse_digits bound acc [] = Some acc"
| "parse_digits bound acc (c # cs) =
     (if 0x30 \<le> c \<and> c \<le> 0x39
      then (let v = acc * 10 + (unat c - 48) in if v < bound then parse_digits bound v cs else None)
      else None)"

definition parse_uint :: "nat \<Rightarrow> bytes \<Rightarrow> nat option" where
  "parse_uint bound s =
     (case s of
        [] \<Rightarrow> None
      | c # cs \<Rightarrow> if c = 0x2B then (if cs = [] then None else parse_digits bound 0 cs) else parse_digits bound 0 s)"

record resolver_config =
  rc_denylist :: "ip_addr list"
  rc_ttl_ms :: u64
  rc_timeout_ms :: u64

text \<open>\<open>ResolverConfig::from_env\<close>; splitting at commas, \<open>trim\<close> and the textual form of addresses are the parameter
  \<open>deny_list\<close>, from the value of the variable to the valid addresses in it.\<close>

fun config_env ::
  "(bytes \<Rightarrow> ip_addr list) \<Rightarrow> bytes \<times> bytes \<Rightarrow> resolver_config \<Rightarrow> resolver_config" where
  "config_env deny_list (n, v) cfg =
     (if n = map (of_nat \<circ> of_char) ''EDGE_RESOLVER_DENY'' then cfg\<lparr>rc_denylist := rc_denylist cfg @ deny_list v\<rparr>
      else if n = map (of_nat \<circ> of_char) ''EDGE_RESOLVER_CACHE_TTL_MS''
      then (case parse_uint (2 ^ 64) v of Some ms \<Rightarrow> cfg\<lparr>rc_ttl_ms := of_nat ms\<rparr> | None \<Rightarrow> cfg)
      else if n = map (of_nat \<circ> of_char) ''EDGE_RESOLVER_TIMEOUT_MS''
      then (case parse_uint (2 ^ 64) v of Some ms \<Rightarrow> cfg\<lparr>rc_timeout_ms := of_nat ms\<rparr> | None \<Rightarrow> cfg)
      else cfg)"

definition config_from_env :: "(bytes \<Rightarrow> ip_addr list) \<Rightarrow> (bytes \<times> bytes) list \<Rightarrow> resolver_config" where
  "config_from_env deny_list env =
     fold (config_env deny_list) env
       \<lparr>rc_denylist = [], rc_ttl_ms = DEFAULT_TTL_MS, rc_timeout_ms = DEFAULT_TIMEOUT_MS\<rparr>"

definition put_resolver :: "'h kernel \<Rightarrow> resolver_state \<Rightarrow> 'h kernel" where
  "put_resolver k r = k\<lparr>k_process := (k_process k)\<lparr>ps_resolver := r\<rparr>\<rparr>"

abbreviation k_resolver :: "'h kernel \<Rightarrow> resolver_state" where
  "k_resolver k \<equiv> ps_resolver (k_process k)"

definition attach_resolver_config :: "'h kernel \<Rightarrow> resolver_config \<Rightarrow> 'h kernel" where
  "attach_resolver_config k cfg =
     put_resolver k ((k_resolver k)\<lparr>rv_denylist := rc_denylist cfg, rv_ttl_ms := rc_ttl_ms cfg, rv_timeout_ms := rc_timeout_ms cfg\<rparr>)"

section \<open>Encoding the result\<close>

fun is_ipv4 :: "ip_addr \<Rightarrow> bool" where
  "is_ipv4 (Ip4 _) = True"
| "is_ipv4 (Ip6 _) = False"

definition sockaddr_size :: "ip_addr \<Rightarrow> nat" where
  "sockaddr_size ip = (if is_ipv4 ip then SOCKADDR_IN_SIZE else SOCKADDR_IN6_SIZE)"

definition be16 :: "u16 \<Rightarrow> bytes" where
  "be16 port = rev (le_bytes 2 (uint port))"

fun sockaddr_bytes :: "u16 \<Rightarrow> ip_addr \<Rightarrow> bytes" where
  "sockaddr_bytes port (Ip4 octets) = le_bytes 2 2 @ be16 port @ octets @ replicate 8 0"
| "sockaddr_bytes port (Ip6 octets) = le_bytes 2 10 @ be16 port @ replicate 4 0 @ octets @ replicate 4 0"

definition addrinfo_bytes :: "int \<Rightarrow> int \<Rightarrow> int \<Rightarrow> ip_addr \<Rightarrow> nat \<Rightarrow> nat \<Rightarrow> bytes" where
  "addrinfo_bytes ai_flags ai_socktype ai_protocol ip addr_off next_off =
     le_bytes 4 ai_flags @ le_bytes 4 (if is_ipv4 ip then 2 else 10) @ le_bytes 4 ai_socktype @ le_bytes 4 ai_protocol @
     le_bytes 4 (int (sockaddr_size ip)) @ le_bytes 4 (int addr_off) @ le_bytes 4 0 @ le_bytes 4 (int next_off)"

text \<open>The nodes from offset \<open>c\<close> on: each header is followed by its socket address.\<close>

fun marshal_from :: "int \<Rightarrow> int \<Rightarrow> int \<Rightarrow> u16 \<Rightarrow> nat \<Rightarrow> ip_addr list \<Rightarrow> bytes" where
  "marshal_from fl st pr port c [] = []"
| "marshal_from fl st pr port c (ip # ips) =
     (let next = c + ADDRINFO_SIZE + sockaddr_size ip
      in addrinfo_bytes fl st pr ip (c + ADDRINFO_SIZE) (if ips = [] then 0 else next)
         @ sockaddr_bytes port ip @ marshal_from fl st pr port next ips)"

definition marshal_addrinfo_into_vec :: "ip_addr list \<Rightarrow> int \<Rightarrow> int \<Rightarrow> int \<Rightarrow> u16 \<Rightarrow> bytes \<times> u32" where
  "marshal_addrinfo_into_vec addrs ai_flags ai_socktype ai_protocol port =
     (marshal_from ai_flags ai_socktype ai_protocol port 0 addrs, 0)"

definition filter_addrs :: "ip_addr list \<Rightarrow> int \<Rightarrow> ip_addr list \<Rightarrow> ip_addr list" where
  "filter_addrs addrs family denylist =
     filter (\<lambda>ip. ip \<notin> set denylist)
       (filter (\<lambda>ip. if family = 2 then is_ipv4 ip else if family = 10 then \<not> is_ipv4 ip else True) addrs)"

section \<open>The syscall\<close>

record resolve_req =
  rq_node :: bytes
  rq_flags :: int
  rq_family :: int
  rq_socktype :: int
  rq_protocol :: int
  rq_port :: u16
  rq_res_ptr :: u32

definition marshal_and_return :: "'h kernel \<Rightarrow> ip_addr list \<Rightarrow> resolve_req \<Rightarrow> ip_addr list \<Rightarrow> int \<times> 'h kernel" where
  "marshal_and_return k addrs rq denylist =
     (let filtered = filter_addrs addrs (rq_family rq) denylist
      in if filtered = [] then (EAI_NONAME, k)
         else
           let (bs, head_off) = marshal_addrinfo_into_vec filtered (rq_flags rq) (rq_socktype rq) (rq_protocol rq) (rq_port rq)
           in if length bs > MAX_RESOLVER_SCRATCH_BYTES then (EAI_MEMORY, k)
              else (case guest_slice_mut (k_memory k) RESOLVER_SCRATCH_BASE (int (length bs)) of
                      Inl _ \<Rightarrow> (EAI_SYSTEM, k)
                    | Inr (p, _) \<Rightarrow>
                        let k1 = k_write k p bs
                        in case guest_slice_mut (k_memory k1) (uint (rq_res_ptr rq)) 4 of
                             Inl _ \<Rightarrow> (EAI_SYSTEM, k1)
                           | Inr (q, _) \<Rightarrow> (int (length filtered), k_write k1 q (le_bytes 4 (uint head_off)))))"

definition i32_at :: "nat \<Rightarrow> bytes \<Rightarrow> int" where
  "i32_at off bs = signed_take_bit 31 (le_uint (slice off 4 bs))"

text \<open>Steps 1 to 4 of \<open>resolve\<close>: reading and checking the arguments; \<open>Inl\<close> is an EAI code.\<close>

definition read_hints :: "memory_kind option \<Rightarrow> u32 \<Rightarrow> (int \<times> int \<times> int \<times> int) res" where
  "read_hints mem hints_ptr =
     (if hints_ptr = 0 then Inr (0, 0, 0, 0)
      else case guest_slice mem (uint hints_ptr) (int ADDRINFO_SIZE) of
        Inl _ \<Rightarrow> Inl EAI_SYSTEM
      | Inr h \<Rightarrow>
          let fl = i32_at 0 h; fam = i32_at 4 h; st = i32_at 8 h; pr = i32_at 12 h
          in if fl AND (AI_NUMERICHOST OR AI_NUMERICSERV) \<noteq> 0 then Inl EAI_BADFLAGS
             else if fam \<notin> {0, 2, 10} then Inl EAI_FAMILY
             else if \<not> (0 \<le> st \<and> st \<le> 2) then Inl EAI_SOCKTYPE
             else Inr (fl, fam, st, pr))"

definition read_service :: "memory_kind option \<Rightarrow> u32 \<Rightarrow> u16 res" where
  "read_service mem service_ptr =
     (if service_ptr = 0 then Inr 0
      else case guest_str mem (uint service_ptr) 64 of
        Inl _ \<Rightarrow> Inl EAI_SYSTEM
      | Inr svc \<Rightarrow> (case parse_uint (2 ^ 16) svc of None \<Rightarrow> Inl EAI_SERVICE | Some p \<Rightarrow> Inr (of_nat p)))"

fun read_request :: "memory_kind option \<Rightarrow> args \<Rightarrow> resolve_req res" where
  "read_request mem (Args a0 _ a2 _ a4 a5) =
     (let node_ptr = as_u32 a0; service_ptr = as_u32 a2
      in if node_ptr = 0 \<and> service_ptr = 0 then Inl EAI_NONAME
         else
           res_bind (if node_ptr \<noteq> 0
                     then (case guest_str mem (uint node_ptr) 256 of Inl _ \<Rightarrow> Inl EAI_SYSTEM | Inr s \<Rightarrow> Inr s)
                     else Inr []) (\<lambda>node.
           res_bind (read_hints mem (as_u32 a4)) (\<lambda>(fl, fam, st, pr).
           res_bind (read_service mem service_ptr) (\<lambda>port.
             Inr \<lparr>rq_node = node, rq_flags = fl, rq_family = fam, rq_socktype = (if st = 0 then 1 else st),
                  rq_protocol = pr, rq_port = port, rq_res_ptr = as_u32 a5\<rparr>))))"

text \<open>A cache entry that is still valid; a zero time to live means for ever.\<close>

definition cache_hit :: "resolver_state \<Rightarrow> nat \<Rightarrow> bytes \<Rightarrow> ip_addr list option" where
  "cache_hit st now node =
     (case map_of (rv_cache st) node of
        None \<Rightarrow> None
      | Some (addrs, inserted) \<Rightarrow>
          if rv_ttl_ms st = 0 \<or> now - inserted < unat (rv_ttl_ms st) * 1000000 then Some addrs else None)"

fun oldest :: "(bytes \<times> (ip_addr list \<times> nat)) list \<Rightarrow> bytes option" where
  "oldest [] = None"
| "oldest (x # xs) =
     (case oldest xs of
        None \<Rightarrow> Some (fst x)
      | Some y \<Rightarrow> (case map_of xs y of
                     Some (_, t) \<Rightarrow> if snd (snd x) \<le> t then Some (fst x) else Some y
                   | None \<Rightarrow> Some (fst x)))"

definition cache_insert :: "resolver_state \<Rightarrow> nat \<Rightarrow> bytes \<Rightarrow> ip_addr list \<Rightarrow> resolver_state" where
  "cache_insert st now node addrs =
     (let c = (if length (rv_cache st) \<ge> MAX_CACHE_ENTRIES
               then (case oldest (rv_cache st) of Some old \<Rightarrow> AList.delete old (rv_cache st) | None \<Rightarrow> rv_cache st)
               else rv_cache st)
      in st\<lparr>rv_cache := AList.update node (addrs, now) c\<rparr>)"

definition sys_resolve_name :: "nat \<Rightarrow> 'h kernel \<Rightarrow> args \<Rightarrow> resolve_req outcome \<times> 'h kernel" where
  "sys_resolve_name now k a =
     (case read_request (k_memory k) a of
        Inl e \<Rightarrow> (Ret e, k)
      | Inr rq \<Rightarrow>
          (case cache_hit (k_resolver k) now (rq_node rq) of
             Some cached \<Rightarrow>
               (case marshal_and_return k cached rq (rv_denylist (k_resolver k)) of (r, k1) \<Rightarrow> (Ret r, k1))
           | None \<Rightarrow> (Park rq, k)))"

datatype lookup_result = LookupTimeout | LookupFailed | LookupOk "ip_addr list"

definition resolve_resume :: "nat \<Rightarrow> 'h kernel \<Rightarrow> resolve_req \<Rightarrow> lookup_result \<Rightarrow> int \<times> 'h kernel" where
  "resolve_resume now k rq r =
     (case r of
        LookupTimeout \<Rightarrow> (EAI_AGAIN, k)
      | LookupFailed \<Rightarrow> (EAI_FAIL, k)
      | LookupOk addrs \<Rightarrow>
          let k1 = put_resolver k (cache_insert (k_resolver k) now (rq_node rq) addrs)
          in marshal_and_return k1 addrs rq (rv_denylist (k_resolver k1)))"

section \<open>Walking the result\<close>

text \<open>What a guest reads: from a node, its socket address (address and port) and the next node.\<close>

definition field32_at :: "nat \<Rightarrow> bytes \<Rightarrow> nat" where
  "field32_at off bs = nat (le_uint (slice off 4 bs))"

definition sockaddr_at :: "bytes \<Rightarrow> nat \<Rightarrow> ip_addr \<times> u16" where
  "sockaddr_at bs off =
     (if le_uint (slice off 2 bs) = 2 then Ip4 (slice (off + 4) 4 bs) else Ip6 (slice (off + 8) 16 bs),
      word_of_int (le_uint (rev (slice (off + 2) 2 bs))))"

fun read_nodes :: "nat \<Rightarrow> bytes \<Rightarrow> nat \<Rightarrow> (ip_addr \<times> u16) list" where
  "read_nodes 0 bs off = []"
| "read_nodes (Suc n) bs off =
     sockaddr_at bs (field32_at (off + 20) bs) #
       (let next = field32_at (off + 28) bs in if next = 0 then [] else read_nodes n bs next)"

fun ip_ok :: "ip_addr \<Rightarrow> bool" where
  "ip_ok (Ip4 octets) = (length octets = 4)"
| "ip_ok (Ip6 octets) = (length octets = 16)"

lemma slice_shift: "slice (length pre + i) n (pre @ xs) = slice i n xs"
  by (simp add: slice_def)

lemma slice_append_left: "i + n \<le> length xs \<Longrightarrow> slice i n (xs @ ys) = slice i n xs"
  by (simp add: slice_def)

lemma length_sockaddr_bytes: "ip_ok ip \<Longrightarrow> length (sockaddr_bytes port ip) = sockaddr_size ip"
  by (cases ip) (simp_all add: sockaddr_size_def SOCKADDR_IN_SIZE_def SOCKADDR_IN6_SIZE_def be16_def)

lemma length_addrinfo_bytes [simp]: "length (addrinfo_bytes fl st pr ip a n) = 32"
  by (simp add: addrinfo_bytes_def)

lemma le_u16_roundtrip: "word_of_int (le_uint (le_bytes 2 (uint (w :: u16)))) = w"
  using uint_lt2p [of w] by (simp add: mod_pos_pos_trivial)

lemma sockaddr_at_bytes:
  assumes "ip_ok ip"
  shows "sockaddr_at (pre @ sockaddr_bytes port ip @ post) (length pre) = (ip, port)"
proof -
  have r: "word_of_int (le_uint (rev (be16 port))) = port" "length (be16 port) = 2"
    using le_u16_roundtrip [of port] by (simp_all add: be16_def)
  have f: "length (le_bytes 2 x) = 2" for x by simp
  show ?thesis
    using assms r
    unfolding sockaddr_at_def slice_shift
      slice_shift [of pre 0, simplified]
    by (cases ip) (simp_all add: slice_def f)
qed

lemma addrinfo_fields:
  assumes "a < 2 ^ 32" "n < 2 ^ 32"
  shows "field32_at (length pre + 20) (pre @ addrinfo_bytes fl st pr ip a n @ post) = a"
    "field32_at (length pre + 28) (pre @ addrinfo_bytes fl st pr ip a n @ post) = n"
  using assms
  by (simp_all add: field32_at_def slice_shift slice_def addrinfo_bytes_def mod_pos_pos_trivial)

lemma length_marshal_from:
  "list_all ip_ok ips \<Longrightarrow> length (marshal_from fl st pr port c ips) = (\<Sum>ip \<leftarrow> ips. 32 + sockaddr_size ip)"
  by (induction ips arbitrary: c) (simp_all add: Let_def length_sockaddr_bytes)

lemma read_nodes_marshal:
  assumes "list_all ip_ok ips" "ips \<noteq> []" "length pre + length (marshal_from fl st pr port (length pre) ips) < 2 ^ 32"
  shows "read_nodes (length ips) (pre @ marshal_from fl st pr port (length pre) ips @ post) (length pre) =
    map (\<lambda>ip. (ip, port)) ips"
  using assms
proof (induction ips arbitrary: pre)
  case (Cons ip ips)
  let ?a = "length pre + 32" and ?c = "length pre + 32 + sockaddr_size ip"
  let ?n = "if ips = [] then 0 else ?c"
  let ?node = "addrinfo_bytes fl st pr ip ?a ?n" and ?sock = "sockaddr_bytes port ip"
  let ?rest = "marshal_from fl st pr port ?c ips"
  have ip: "ip_ok ip" "list_all ip_ok ips" using Cons.prems(1) by simp_all
  have mem: "pre @ marshal_from fl st pr port (length pre) (ip # ips) @ post = pre @ ?node @ ?sock @ ?rest @ post"
    by (simp add: Let_def ADDRINFO_SIZE_def)
  have len: "?c + length ?rest < 2 ^ 32"
    using Cons.prems(3) length_sockaddr_bytes [OF ip(1), of port] by (simp add: Let_def ADDRINFO_SIZE_def)
  have fields: "field32_at (length pre + 20) (pre @ ?node @ ?sock @ ?rest @ post) = ?a"
    "field32_at (length pre + 28) (pre @ ?node @ ?sock @ ?rest @ post) = ?n"
    using addrinfo_fields [of ?a ?n pre fl st pr ip "?sock @ ?rest @ post"] len by auto
  have sock: "sockaddr_at (pre @ ?node @ ?sock @ ?rest @ post) ?a = (ip, port)"
    using sockaddr_at_bytes [OF ip(1), of "pre @ ?node" port "?rest @ post"] by simp
  have tail: "(if ?n = 0 then [] else read_nodes (length ips) (pre @ ?node @ ?sock @ ?rest @ post) ?n) = map (\<lambda>ip. (ip, port)) ips"
  proof (cases "ips = []")
    case False
    have l: "length (pre @ ?node @ ?sock) = ?c" using length_sockaddr_bytes [OF ip(1), of port] by simp
    from Cons.IH [OF ip(2) False, of "pre @ ?node @ ?sock", unfolded l, OF len] False show ?thesis by simp
  qed simp
  show ?case unfolding mem using fields sock tail by (simp add: Let_def)
qed simp

section \<open>Properties\<close>

lemma filter_addrs_ok: "list_all ip_ok addrs \<Longrightarrow> list_all ip_ok (filter_addrs addrs fam deny)"
  by (auto simp: filter_addrs_def list_all_iff)

text \<open>Two writes to ranges that do not overlap are both read back.\<close>

lemma guest_two_writes:
  assumes p: "guest_range mem x (int (length bs)) = Inr (p, l)"
    and q: "guest_range (mem_write mem p bs) y (int (length cs)) = Inr (q, l')"
    and apart: "y + int (length cs) \<le> x \<or> x + int (length bs) \<le> y"
  shows "guest_slice (mem_write (mem_write mem p bs) q cs) x (int (length bs)) = Inr bs"
    "guest_slice (mem_write (mem_write mem p bs) q cs) y (int (length cs)) = Inr cs"
proof -
  obtain m where m: "mem = Some (Owned m)" "p = nat x" "0 \<le> x" "p + length bs \<le> length m" "l = length bs"
    using guest_range_Inr [OF p] by auto
  have q': "q = nat y" "0 \<le> y" "q + length cs \<le> length m" "l' = length cs"
    using guest_range_Inr [OF q] m by auto
  have "q + length cs \<le> p \<or> p + length bs \<le> q" using apart m(2,3) q'(1,2) by linarith
  then have s: "slice p (length bs) (splice q cs (splice p bs m)) = bs"
    using slice_splice_other [of q cs "splice p bs m" p "length bs"] m(4) q'(3) by auto
  have "guest_range (mem_write (mem_write mem p bs) q cs) x (int (length bs)) = Inr (p, l)"
    using p guest_range_length [of "splice q cs (splice p bs m)" m] m(1,4) q'(3) by simp
  then show "guest_slice (mem_write (mem_write mem p bs) q cs) x (int (length bs)) = Inr bs"
    using s m(1,5) by (simp add: guest_slice_def kernel_memory_def)
  show "guest_slice (mem_write (mem_write mem p bs) q cs) y (int (length cs)) = Inr cs"
    using guest_write_read [OF q] q'(4) by simp
qed

lemma marshal_and_return_ok:
  assumes "marshal_and_return k addrs rq deny = (n, k')" "0 \<le> n"
  defines "found \<equiv> filter_addrs addrs (rq_family rq) deny"
  defines "bs \<equiv> marshal_from (rq_flags rq) (rq_socktype rq) (rq_protocol rq) (rq_port rq) 0 found"
  shows "n = int (length found) \<and> found \<noteq> [] \<and> length bs \<le> 4096 \<and>
    (\<exists>p l q l'. guest_range (k_memory k) 8192 (int (length bs)) = Inr (p, l) \<and>
       guest_range (mem_write (k_memory k) p bs) (uint (rq_res_ptr rq)) 4 = Inr (q, l') \<and>
       k_memory k' = mem_write (mem_write (k_memory k) p bs) q (le_bytes 4 0))"
  using assms(1,2)
  by (auto simp: marshal_and_return_def found_def [symmetric] marshal_addrinfo_into_vec_def bs_def [symmetric] k_write_def
      eai_consts MAX_RESOLVER_SCRATCH_BYTES_def Let_def guest_slice_mut_def RESOLVER_SCRATCH_BASE_def
      split: if_splits sum.splits)

lemma resolver_write [simp]: "k_resolver (k_write k p bs) = k_resolver k"
  by (simp add: k_write_def)

lemma resolver_marshal: "k_resolver (snd (marshal_and_return k addrs rq deny)) = k_resolver k"
  by (auto simp: marshal_and_return_def Let_def split: prod.split sum.split)

lemma cached_fresh:
  assumes "rv_ttl_ms st = 0 \<or> later - now < unat (rv_ttl_ms st) * 1000000"
  shows "cache_hit (cache_insert st now node addrs) later node = Some addrs"
  using assms by (simp add: cache_hit_def cache_insert_def Let_def update_conv')

text \<open>
  C38: When the lookup answers and \<open>resolve\<close> succeeds, with a result slot outside the 4096 bytes of the scratch region,
  walking the list the guest finds at the scratch base, from the offset stored in its result slot, yields exactly the
  addresses of the requested family that are not on the denylist, in the backend's order, each with the requested port;
  their number is the result.  All addresses of the answer are then in the cache under the name, and are found there for as
  long as the time to live says.
\<close>

theorem resolve_reports:
  assumes "resolve_resume now k rq (LookupOk addrs) = (n, k')" "0 \<le> n" "list_all ip_ok addrs"
    and "uint (rq_res_ptr rq) + 4 \<le> 8192 \<or> 8192 + 4096 \<le> uint (rq_res_ptr rq)"
  defines "found \<equiv> filter_addrs addrs (rq_family rq) (rv_denylist (k_resolver k))"
  shows "n = int (length found) \<and> found \<noteq> [] \<and> set found \<inter> set (rv_denylist (k_resolver k)) = {} \<and>
    (\<exists>bs. guest_slice (k_memory k') 8192 (int (length bs)) = Inr bs \<and>
       guest_slice (k_memory k') (uint (rq_res_ptr rq)) 4 = Inr (le_bytes 4 0) \<and>
       read_nodes (length found) bs 0 = map (\<lambda>ip. (ip, rq_port rq)) found) \<and>
    (\<forall>later. rv_ttl_ms (k_resolver k) = 0 \<or> later - now < unat (rv_ttl_ms (k_resolver k)) * 1000000 \<longrightarrow>
       cache_hit (k_resolver k') later (rq_node rq) = Some addrs)"
proof -
  define k1 where "k1 = put_resolver k (cache_insert (k_resolver k) now (rq_node rq) addrs)"
  define bs where "bs = marshal_from (rq_flags rq) (rq_socktype rq) (rq_protocol rq) (rq_port rq) 0 found"
  have "rv_denylist (k_resolver k1) = rv_denylist (k_resolver k)"
    by (simp add: k1_def put_resolver_def cache_insert_def Let_def)
  then have "marshal_and_return k1 addrs rq (rv_denylist (k_resolver k)) = (n, k')"
    using assms(1) by (simp add: resolve_resume_def k1_def [symmetric])
  then have "k_resolver k' = cache_insert (k_resolver k) now (rq_node rq) addrs"
    using resolver_marshal [of k1 addrs rq "rv_denylist (k_resolver k)"] by (simp add: k1_def put_resolver_def)
  then have cached: "cache_hit (k_resolver k') later (rq_node rq) = Some addrs"
    if "rv_ttl_ms (k_resolver k) = 0 \<or> later - now < unat (rv_ttl_ms (k_resolver k)) * 1000000" for later
    using cached_fresh [OF that] by simp
  from marshal_and_return_ok [OF \<open>marshal_and_return k1 _ _ _ = _\<close> assms(2), folded found_def, folded bs_def] obtain p l q l' where
    n: "n = int (length found)" "found \<noteq> []" "length bs \<le> 4096"
    and p: "guest_range (k_memory k1) 8192 (int (length bs)) = Inr (p, l)"
    and q: "guest_range (mem_write (k_memory k1) p bs) (uint (rq_res_ptr rq)) (int (length (le_bytes 4 0))) = Inr (q, l')"
    and k': "k_memory k' = mem_write (mem_write (k_memory k1) p bs) q (le_bytes 4 0)"
    by auto
  have "uint (rq_res_ptr rq) + int (length (le_bytes 4 0)) \<le> 8192 \<or> 8192 + int (length bs) \<le> uint (rq_res_ptr rq)"
    using assms(4) n(3) unfolding length_le_bytes by linarith
  note w = guest_two_writes [OF p q this, folded k', unfolded length_le_bytes]
  have "read_nodes (length found) bs 0 = map (\<lambda>ip. (ip, rq_port rq)) found"
    using read_nodes_marshal [of found "[]" "rq_flags rq" "rq_socktype rq" "rq_protocol rq" "rq_port rq" "[]"]
      filter_addrs_ok [OF assms(3)] n(2,3) by (simp add: bs_def found_def)
  moreover have "set found \<inter> set (rv_denylist (k_resolver k)) = {}" by (auto simp: found_def filter_addrs_def)
  ultimately show ?thesis using n(1,2) w [unfolded of_nat_numeral] cached by blast
qed

definition demo_request :: resolve_req where
  "demo_request = \<lparr>rq_node = [97], rq_flags = 0, rq_family = 2, rq_socktype = 1, rq_protocol = 0, rq_port = 80, rq_res_ptr = 64\<rparr>"

definition demo_resolver :: "unit kernel" where
  "demo_resolver = put_resolver ((kernel_new_inner [] [] (replicate 32 0) \<lparr>root = [], cwd = []\<rparr> ())
       \<lparr>k_memory := Some (Owned (replicate 8300 0))\<rparr>)
     (resolver_state_default\<lparr>rv_denylist := [Ip4 [10, 0, 0, 1]]\<rparr>)"

theorem resolve_reports_witness:
  "\<exists>k' bs. resolve_resume 0 demo_resolver demo_request (LookupOk [Ip4 [10, 0, 0, 1], Ip6 (replicate 16 1), Ip4 [9, 9, 9, 9]]) = (1, k') \<and>
    guest_slice (k_memory k') 8192 (int (length bs)) = Inr bs \<and> read_nodes 1 bs 0 = [(Ip4 [9, 9, 9, 9], 80)] \<and>
    cache_hit (k_resolver k') 5 [97] = Some [Ip4 [10, 0, 0, 1], Ip6 (replicate 16 1), Ip4 [9, 9, 9, 9]]"
proof -
  let ?as = "[Ip4 [10, 0, 0, 1], Ip6 (replicate 16 1), Ip4 [9, 9, 9, 9]]"
  have d: "rv_denylist (k_resolver demo_resolver) = [Ip4 [10, 0, 0, 1]]" by (simp add: demo_resolver_def put_resolver_def)
  have f: "filter_addrs ?as (rq_family demo_request) [Ip4 [10, 0, 0, 1]] = [Ip4 [9, 9, 9, 9]]"
    by (simp add: filter_addrs_def demo_request_def)
  obtain n k' where r: "resolve_resume 0 demo_resolver demo_request (LookupOk ?as) = (n, k')" by (cases "resolve_resume 0 demo_resolver demo_request (LookupOk ?as)")
  have len: "length (marshal_from 0 1 0 80 0 [Ip4 [9, 9, 9, 9]]) = 48"
    by (simp add: be16_def)
  define k1 where "k1 = put_resolver demo_resolver (cache_insert (k_resolver demo_resolver) 0 [97] ?as)"
  have k1: "k_memory k1 = Some (Owned (replicate 8300 0))" "rv_denylist (k_resolver k1) = [Ip4 [10, 0, 0, 1]]"
    by (simp_all add: k1_def put_resolver_def demo_resolver_def cache_insert_def Let_def)
  have "fst (marshal_and_return k1 ?as demo_request [Ip4 [10, 0, 0, 1]]) = 1"
    unfolding marshal_and_return_def f Let_def using len
    by (simp add: demo_request_def marshal_addrinfo_into_vec_def MAX_RESOLVER_SCRATCH_BYTES_def k1(1)
        guest_slice_mut_def guest_range_def kernel_memory_def usize_checked_add_def ok_or_def res_bind_def
        RESOLVER_SCRATCH_BASE_def k_write_def del: marshal_from.simps)
  moreover have "marshal_and_return k1 ?as demo_request [Ip4 [10, 0, 0, 1]] = (n, k')"
    using r k1(2) by (simp add: resolve_resume_def k1_def Let_def demo_request_def)
  ultimately have "n = 1" by simp
  have rq: "uint (rq_res_ptr demo_request) + 4 \<le> 8192" "rq_port demo_request = 80" by (simp_all add: demo_request_def)
  have ok: "0 \<le> n" "list_all ip_ok ?as" using \<open>n = 1\<close> by simp_all
  have t: "rv_ttl_ms (k_resolver demo_resolver) = 0 \<or> 5 - 0 < unat (rv_ttl_ms (k_resolver demo_resolver)) * 1000000"
    by (simp add: demo_resolver_def put_resolver_def resolver_state_default_def)
  note rep = resolve_reports [OF r ok disjI1 [OF rq(1)], unfolded d f rq(2)]
  then have "cache_hit (k_resolver k') 5 (rq_node demo_request) = Some ?as" using t by blast
  with rep r \<open>n = 1\<close> show ?thesis by (auto simp: demo_request_def simp del: read_nodes.simps)
qed

section \<open>The cache\<close>

lemma oldest_key: "xs \<noteq> [] \<Longrightarrow> \<exists>y. oldest xs = Some y \<and> y \<in> fst ` set xs"
proof (induction xs)
  case (Cons x xs)
  then show ?case by (cases "xs = []") (auto simp: image_iff split: option.split, force+)
qed simp

lemma length_update_le: "length (AList.update n v al) \<le> Suc (length al)"
  by (induction al) auto

lemma length_delete_less: "n \<in> fst ` set al \<Longrightarrow> length (AList.delete n al) < length al"
  using length_delete_le [of n] by (induction al) (force simp: less_Suc_eq_le)+

text \<open>
  However many names are resolved, the cache never holds more than 1024 entries, and the answer just
  stored is the one the next lookup of that name finds while it is fresh.
\<close>

lemma resolver_cache_bounded:
  assumes "length (rv_cache st) \<le> MAX_CACHE_ENTRIES"
  shows "length (rv_cache (cache_insert st now node addrs)) \<le> MAX_CACHE_ENTRIES \<and>
    cache_hit (cache_insert st now node addrs) later node =
      (if rv_ttl_ms st = 0 \<or> later - now < unat (rv_ttl_ms st) * 1000000 then Some addrs else None)"
proof -
  define c where "c = (if length (rv_cache st) \<ge> MAX_CACHE_ENTRIES
    then (case oldest (rv_cache st) of Some old \<Rightarrow> AList.delete old (rv_cache st) | None \<Rightarrow> rv_cache st) else rv_cache st)"
  have "length c < MAX_CACHE_ENTRIES"
  proof (cases "length (rv_cache st) \<ge> MAX_CACHE_ENTRIES")
    case True
    then have "rv_cache st \<noteq> []" by (auto simp: MAX_CACHE_ENTRIES_def)
    from oldest_key [OF this] obtain y where "oldest (rv_cache st) = Some y" "y \<in> fst ` set (rv_cache st)" by blast
    with length_delete_less [of y "rv_cache st"] True assms show ?thesis by (simp add: c_def)
  qed (simp add: c_def)
  with length_update_le [of node "(addrs, now)" c] have "length (AList.update node (addrs, now) c) \<le> MAX_CACHE_ENTRIES" by simp
  then show ?thesis
    by (simp add: cache_insert_def Let_def c_def [symmetric] cache_hit_def update_conv')
qed

end
