(* ===== verification/Futex.thy ===== *)
theory Futex
  imports Sys_Process
begin

text \<open>
  \<^verbatim>\<open>src/src/sys/futex.rs\<close>: the waiter table, \<open>FUTEX_WAIT\<close> and \<open>FUTEX_WAKE\<close>.  A wait that has to sleep
  returns \<open>Park\<close>; \<open>futex_resume\<close> is the code after the sleep, told whether it was a wake or the
  timeout.  The step relation interleaves any number of waiting fibers; its ghost components are
  the multisets of addresses at which a fiber sleeps, and at which one has been woken and not yet returned.
\<close>

definition FUTEX_CMD_MASK :: int where "FUTEX_CMD_MASK = 0x3F"
definition INVALID_FUTEX_ADDR :: u32 where "INVALID_FUTEX_ADDR = 0xFFFFFFFF"

type_synonym futex_table = "(u32 \<times> nat) list"

definition waiters :: "futex_table \<Rightarrow> u32 \<Rightarrow> nat" where
  "waiters t u = (case map_of t u of None \<Rightarrow> 0 | Some n \<Rightarrow> n)"

section \<open>The table\<close>

definition register_waiter :: "u32 \<Rightarrow> futex_table \<Rightarrow> futex_table" where
  "register_waiter u t = AList.update u (waiters t u + 1) t"

definition release_waiter :: "u32 \<Rightarrow> futex_table \<Rightarrow> futex_table" where
  "release_waiter u t =
     (case map_of t u of
        None \<Rightarrow> t
      | Some n \<Rightarrow> if n - 1 = 0 then AList.delete u t else AList.update u (n - 1) t)"

definition wake_waiters :: "u32 \<Rightarrow> int \<Rightarrow> futex_table \<Rightarrow> nat \<times> futex_table" where
  "wake_waiters u val t =
     (case map_of t u of
        None \<Rightarrow> (0, t)
      | Some n \<Rightarrow>
          let to_wake = min (nat (max val 0)) n
          in (to_wake, if n - to_wake = 0 then AList.delete u t else AList.update u (n - to_wake) t))"

text \<open>\<open>FutexTable::snapshot\<close>, sorted by address, and \<open>rebuild_from_snapshot\<close>.\<close>

definition futex_snapshot :: "futex_table \<Rightarrow> (u32 \<times> u32) list" where
  "futex_snapshot t = sort_key fst (map (\<lambda>(u, n). (u, of_nat n)) t)"

fun futex_rebuild :: "futex_table \<Rightarrow> (u32 \<times> u32) list \<Rightarrow> futex_table" where
  "futex_rebuild t [] = t"
| "futex_rebuild t ((u, n) # fs) = futex_rebuild (AList.update u (unat n) t) fs"

definition rebuild_from_snapshot :: "(u32 \<times> u32) list \<Rightarrow> futex_table" where
  "rebuild_from_snapshot fs = futex_rebuild [] fs"

section \<open>The handlers\<close>

text \<open>Nanoseconds; \<open>saturating_mul\<close> then a wrapping addition.\<close>

definition decode_timespec :: "memory_kind option \<Rightarrow> int \<Rightarrow> u64 res" where
  "decode_timespec mem ptr =
     res_bind (guest_slice mem ptr 16) (\<lambda>bs.
       let sec = le_sint64 (slice 0 8 bs); nsec = le_sint64 (slice 8 8 bs)
       in if \<not> (0 \<le> nsec \<and> nsec < 1000000000) \<or> sec < 0 then Inl (- EINVAL)
          else Inr (u64_saturating_mul (word_of_int sec) 1000000000 + word_of_int nsec))"

definition put_futex :: "'h kernel \<Rightarrow> futex_table \<Rightarrow> 'h kernel" where
  "put_futex k t = k\<lparr>k_process := (k_process k)\<lparr>ps_futex := t\<rparr>\<rparr>"

abbreviation k_futex :: "'h kernel \<Rightarrow> futex_table" where
  "k_futex k \<equiv> ps_futex (k_process k)"

text \<open>What a sleeping wait is parked with: its address and its timeout.\<close>

definition futex_wait ::
  "'h kernel \<Rightarrow> u32 \<Rightarrow> int \<Rightarrow> int \<Rightarrow> (u32 \<times> u64 option) outcome \<times> 'h kernel"
where
  "futex_wait k uaddr val timeout_ptr =
     (case guest_slice (k_memory k) (uint uaddr) 4 of
        Inl e \<Rightarrow> (Ret e, k)
      | Inr bs \<Rightarrow>
          if le_uint bs \<noteq> val then (Ret (- EAGAIN), k)
          else
            (case (if timeout_ptr = 0 then Inr None
                   else res_bind (decode_timespec (k_memory k) timeout_ptr) (\<lambda>d. Inr (Some d))) of
               Inl e \<Rightarrow> (Ret e, k)
             | Inr deadline \<Rightarrow> (Park (uaddr, deadline), put_futex k (register_waiter uaddr (k_futex k)))))"

definition futex_resume :: "'h kernel \<Rightarrow> u32 \<Rightarrow> bool \<Rightarrow> int \<times> 'h kernel" where
  "futex_resume k uaddr timed_out =
     (if timed_out then - ETIMEDOUT else 0, put_futex k (release_waiter uaddr (k_futex k)))"

definition futex_wake :: "'h kernel \<Rightarrow> u32 \<Rightarrow> int \<Rightarrow> int \<times> 'h kernel" where
  "futex_wake k uaddr val =
     (let (n, t) = wake_waiters uaddr val (k_futex k) in (int n, put_futex k t))"

fun sys_futex :: "'h kernel \<Rightarrow> args \<Rightarrow> (u32 \<times> u64 option) outcome \<times> 'h kernel" where
  "sys_futex k (Args a0 a1 a2 a3 _ _) =
     (case u32_try_from a0 of
        None \<Rightarrow> (Ret (- EINVAL), k)
      | Some uaddr \<Rightarrow>
          let cmd = as_i32 a1 AND FUTEX_CMD_MASK
          in if uaddr = INVALID_FUTEX_ADDR then (Ret (- EINVAL), k)
             else if cmd = 0 then futex_wait k uaddr a2 a3
             else if cmd = 1 then (case futex_wake k uaddr (as_i32 a2) of (r, k1) \<Rightarrow> (Ret r, k1))
             else (Ret (to_ret ENOSYS), k))"

section \<open>Counts\<close>

named_theorems waiters_simps

lemma waiters_register [waiters_simps]:
  "waiters (register_waiter u t) v = (if v = u then waiters t u + 1 else waiters t v)"
  by (simp add: waiters_def register_waiter_def update_conv')

lemma waiters_release [waiters_simps]:
  "waiters (release_waiter u t) v = (if v = u then waiters t u - 1 else waiters t v)"
  by (auto simp: waiters_def release_waiter_def update_conv' delete_conv' split: option.split)

lemma waiters_wake [waiters_simps]:
  "waiters (snd (wake_waiters u val t)) v =
     (if v = u then waiters t u - fst (wake_waiters u val t) else waiters t v)"
  by (auto simp: waiters_def wake_waiters_def update_conv' delete_conv' Let_def split: option.split)

lemma wake_count: "fst (wake_waiters u val t) = min (nat (max val 0)) (waiters t u)"
  by (simp add: wake_waiters_def waiters_def Let_def split: option.split)

text \<open>No entry with a zero count stays in the table.\<close>

definition no_zero :: "futex_table \<Rightarrow> bool" where
  "no_zero t \<longleftrightarrow> (\<forall>u. map_of t u \<noteq> Some 0)"

lemma no_zero_keeps:
  "no_zero t \<Longrightarrow> no_zero (register_waiter u t)" "no_zero t \<Longrightarrow> no_zero (release_waiter u t)"
  "no_zero t \<Longrightarrow> no_zero (snd (wake_waiters u val t))"
  by (auto simp: no_zero_def register_waiter_def release_waiter_def wake_waiters_def update_conv' delete_conv'
      Let_def split: option.split)

section \<open>Interleaved waiters\<close>

lemma k_futex_put [simp]: "k_futex (put_futex k t) = t"
  by (simp add: put_futex_def)

lemma sys_futex_Park:
  "sys_futex k a = (Park (u, d), k1) \<Longrightarrow> k1 = put_futex k (register_waiter u (k_futex k))"
  by (cases a) (auto simp: futex_wait_def futex_wake_def Let_def
      split: option.splits if_splits sum.splits prod.splits)

lemma futex_wake_eq:
  "futex_wake k u val =
     (int (fst (wake_waiters u val (k_futex k))), put_futex k (snd (wake_waiters u val (k_futex k))))"
  by (simp add: futex_wake_def split: prod.split)

text \<open>
  The kernel with the addresses of the sleeping fibers and of the woken ones.  A wake that reports \<open>n\<close> calls \<open>notify_one\<close> \<open>n\<close> times, so
  \<open>n\<close> of the fibers asleep at its address wake up, if there are as many; which ones is the runtime's choice.  A sleeping fiber may time out.
\<close>

fun wake_of :: "args \<Rightarrow> u32 option" where
  "wake_of (Args a0 a1 _ _ _ _) =
     (case u32_try_from a0 of
        None \<Rightarrow> None
      | Some u \<Rightarrow> if u \<noteq> INVALID_FUTEX_ADDR \<and> as_i32 a1 AND FUTEX_CMD_MASK = 1 then Some u else None)"

type_synonym 'h futex_state = "'h kernel \<times> u32 multiset \<times> u32 multiset"

inductive futex_step :: "'h futex_state \<Rightarrow> 'h futex_state \<Rightarrow> bool" where
  fs_ret: "sys_futex k a = (Ret r, k1) \<Longrightarrow> wake_of a = None \<Longrightarrow> futex_step (k, S, R) (k1, S, R)"
| fs_wake: "sys_futex k a = (Ret r, k1) \<Longrightarrow> wake_of a = Some u \<Longrightarrow>
    futex_step (k, S, R) (k1, S - replicate_mset (nat r) u, R + replicate_mset (min (nat r) (count S u)) u)"
| fs_park: "sys_futex k a = (Park (u, d), k1) \<Longrightarrow> futex_step (k, S, R) (k1, add_mset u S, R)"
| fs_timeout: "u \<in># S \<Longrightarrow> futex_resume k u True = (r, k1) \<Longrightarrow> futex_step (k, S, R) (k1, S - {#u#}, R)"
| fs_return: "u \<in># R \<Longrightarrow> futex_resume k u False = (r, k1) \<Longrightarrow> futex_step (k, S, R) (k1, S, R - {#u#})"

inductive futex_reach :: "'h futex_state \<Rightarrow> bool" where
  fr_init: "k_futex k = [] \<Longrightarrow> futex_reach (k, {#}, {#})"
| fr_step: "futex_reach s \<Longrightarrow> futex_step s s' \<Longrightarrow> futex_reach s'"

definition futex_inv :: "'h futex_state \<Rightarrow> bool" where
  "futex_inv s \<longleftrightarrow> no_zero (k_futex (fst s)) \<and> (\<forall>u. waiters (k_futex (fst s)) u \<le> count (fst (snd s)) u)"

lemma sys_futex_Ret:
  "sys_futex k a = (Ret r, k1) \<Longrightarrow>
    case wake_of a of
      None \<Rightarrow> k1 = k
    | Some u \<Rightarrow> \<exists>val. r = int (fst (wake_waiters u val (k_futex k))) \<and> k1 = put_futex k (snd (wake_waiters u val (k_futex k)))"
  by (cases a) (auto simp: futex_wait_def futex_wake_eq Let_def split: option.splits if_splits sum.splits)

lemma futex_inv_table:
  assumes "futex_inv (k, S, R)"
  shows "futex_inv (put_futex k (register_waiter u (k_futex k)), add_mset u S, R')"
    "futex_inv (put_futex k (snd (wake_waiters u val (k_futex k))), S - replicate_mset (fst (wake_waiters u val (k_futex k))) u, R')"
    "futex_inv (put_futex k (release_waiter u (k_futex k)), S - {#u#}, R')"
    "futex_inv (put_futex k (release_waiter u (k_futex k)), S, R')"
proof -
  have le: "waiters (k_futex k) v \<le> count S v" for v using assms by (simp add: futex_inv_def)
  have nz: "no_zero (k_futex k)" using assms by (simp add: futex_inv_def)
  show "futex_inv (put_futex k (register_waiter u (k_futex k)), add_mset u S, R')"
    using le nz by (simp add: futex_inv_def no_zero_keeps waiters_register)
  show "futex_inv (put_futex k (snd (wake_waiters u val (k_futex k))), S - replicate_mset (fst (wake_waiters u val (k_futex k))) u, R')"
    using le nz by (auto simp: futex_inv_def no_zero_keeps waiters_wake intro: diff_le_mono)
  show "futex_inv (put_futex k (release_waiter u (k_futex k)), S - {#u#}, R')"
    using le nz by (auto simp: futex_inv_def no_zero_keeps waiters_release intro: diff_le_mono)
  show "futex_inv (put_futex k (release_waiter u (k_futex k)), S, R')"
    using le nz by (simp add: futex_inv_def no_zero_keeps waiters_release le_trans [OF diff_le_self])
qed

lemma futex_inv_step: "futex_step s s' \<Longrightarrow> futex_inv s \<Longrightarrow> futex_inv s'"
proof (induction rule: futex_step.induct)
  case (fs_ret k a r k1 S R)
  with sys_futex_Ret [OF fs_ret(1)] show ?case by simp
next
  case (fs_wake k a r k1 u S R)
  from sys_futex_Ret [OF fs_wake(1)] fs_wake(2,3) show ?case by (auto intro: futex_inv_table(2))
next
  case (fs_park k a u d k1 S R)
  with sys_futex_Park [OF fs_park(1)] show ?case by (simp add: futex_inv_table)
next
  case (fs_timeout u S k r k1 R)
  then show ?case by (auto simp: futex_resume_def futex_inv_table)
next
  case (fs_return u R k r k1 S)
  then show ?case by (auto simp: futex_resume_def futex_inv_table)
qed

lemma futex_reach_inv: "futex_reach s \<Longrightarrow> futex_inv s"
proof (induction rule: futex_reach.induct)
  case (fr_init k)
  then show ?case by (simp add: futex_inv_def no_zero_def waiters_def)
qed (rule futex_inv_step)

text \<open>
  C9: From a kernel without waiters on, however waits, wakes, timeouts and the returns of woken fibers interleave, \<open>FUTEX_WAKE\<close>
  never reports more wake-ups than there are fibers asleep at the address (fibers already woken do not count), and an address
  nobody sleeps at has no entry.
\<close>
theorem futex_wake_bounded:
  assumes "futex_reach (k, S, R)" "futex_wake k u val = (r, k1)"
  shows "r \<le> int (count S u) \<and> (u \<notin># S \<longrightarrow> map_of (k_futex k) u = None)"
proof (intro conjI impI)
  from futex_reach_inv [OF assms(1)] have inv: "no_zero (k_futex k)" "waiters (k_futex k) u \<le> count S u"
    by (simp_all add: futex_inv_def)
  from assms(2) have "r = int (fst (wake_waiters u val (k_futex k)))" by (simp add: futex_wake_eq)
  with inv(2) show "r \<le> int (count S u)" by (simp add: wake_count min.coboundedI2)
  assume "u \<notin># S"
  with inv(2) have "waiters (k_futex k) u = 0" by (simp add: not_in_iff)
  with inv(1) show "map_of (k_futex k) u = None" by (auto simp: waiters_def no_zero_def split: option.splits)
qed

text \<open>A fresh process whose word at address 8 is zero; three fibers wait for it.\<close>

definition demo_futex :: "unit kernel" where
  "demo_futex = (kernel_new_inner [] [] (replicate 32 0) \<lparr>root = [], cwd = []\<rparr> ())\<lparr>k_memory := Some (Owned (replicate 16 0))\<rparr>"

lemma demo_futex_simps [simp]: "k_memory demo_futex = Some (Owned (replicate 16 0))" "k_futex demo_futex = []"
  by (simp_all add: demo_futex_def kernel_new_inner_def with_buffered_stdio_def make_pipe_def
      process_state_new_def Let_def)

lemma le_uint_zeros: "le_uint (replicate n 0) = 0"
  by (induction n) auto

lemma demo_wait:
  assumes "k_memory k = Some (Owned (replicate 16 0))"
  shows "sys_futex k (Args 8 0 0 0 0 0) = (Park (8, None), put_futex k (register_waiter 8 (k_futex k)))"
  using assms
  by (simp add: u32_try_from_def as_i32_def FUTEX_CMD_MASK_def INVALID_FUTEX_ADDR_def futex_wait_def guest_slice_def
      guest_range_def kernel_memory_def usize_checked_add_def slice_def le_uint_zeros)

lemma demo_reach:
  "\<exists>k. futex_reach (k :: unit kernel, {#8, 8, 8#}, {#}) \<and> waiters (k_futex k) 8 = 3"
proof -
  have mem: "k_memory (put_futex k t) = k_memory k" for k :: "unit kernel" and t by (simp add: put_futex_def)
  let ?w = "\<lambda>k. put_futex k (register_waiter 8 (k_futex k))"
  have "futex_reach (?w demo_futex, {#8#}, {#})"
    by (rule fr_step [OF fr_init fs_park [OF demo_wait]]) simp_all
  then have "futex_reach (?w (?w demo_futex), {#8, 8#}, {#})"
    by (rule fr_step [OF _ fs_park [OF demo_wait]]) (simp add: mem)
  then have "futex_reach (?w (?w (?w demo_futex)), {#8, 8, 8#}, {#})"
    by (rule fr_step [OF _ fs_park [OF demo_wait]]) (simp add: mem)
  moreover have "waiters (k_futex (?w (?w (?w demo_futex)))) 8 = 3"
    by (simp add: waiters_register) (simp add: waiters_def)
  ultimately show ?thesis by blast
qed

text \<open>One of them is woken.\<close>

lemma demo_woken:
  "\<exists>k. futex_reach (k :: unit kernel, {#8, 8#}, {#8#}) \<and> waiters (k_futex k) 8 = 2"
proof -
  obtain k :: "unit kernel" where k: "futex_reach (k, {#8, 8, 8#}, {#})" "waiters (k_futex k) 8 = 3"
    using demo_reach by blast
  let ?k1 = "put_futex k (snd (wake_waiters 8 1 (k_futex k)))"
  have n: "fst (wake_waiters 8 1 (k_futex k)) = 1" by (simp add: wake_count k(2))
  have "sys_futex k (Args 8 1 1 0 0 0) = (Ret 1, ?k1)" "wake_of (Args 8 1 1 0 0 0) = Some 8"
    using n by (simp_all add: u32_try_from_def as_i32_def FUTEX_CMD_MASK_def INVALID_FUTEX_ADDR_def futex_wake_eq)
  from fr_step [OF k(1) fs_wake [OF this, of "{#8, 8, 8#}" "{#}"]] have "futex_reach (?k1, {#8, 8#}, {#8#})" by simp
  moreover have "waiters (k_futex ?k1) 8 = 2" by (simp add: waiters_wake n k(2))
  ultimately show ?thesis by blast
qed

theorem futex_wake_bounded_witness:
  "\<exists>(k :: unit kernel) k1. futex_reach (k, {#8, 8#}, {#8#}) \<and> futex_wake k 8 100 = (2, k1) \<and> (2 :: int) \<le> int (count {#8, 8 :: u32#} 8)"
proof -
  obtain k :: "unit kernel" where k: "futex_reach (k, {#8, 8#}, {#8#})" "waiters (k_futex k) 8 = 2" using demo_woken by blast
  obtain k1 where k1: "futex_wake k 8 100 = (2, k1)" using k(2) by (simp add: futex_wake_eq wake_count)
  with futex_wake_bounded [OF k(1) this] k(1) show ?thesis by blast
qed

text \<open>
  C28: The count is too low after a wake: \<open>FUTEX_WAKE\<close> has already taken the woken fiber off the
  count when its own release takes it off again.  A state is reachable in which two fibers sleep at an address and no woken
  fiber is on its way, and yet a wake of all fibers at the address reports and wakes only one of the two.
\<close>
theorem futex_wake_loses_waiter:
  "\<exists>k :: unit kernel. futex_reach (k, {#8, 8#}, {#}) \<and> fst (futex_wake k 8 0x7FFFFFFF) = 1"
proof -
  obtain k :: "unit kernel" where k: "futex_reach (k, {#8, 8#}, {#8#})" "waiters (k_futex k) 8 = 2" using demo_woken by blast
  let ?k2 = "put_futex k (release_waiter 8 (k_futex k))"
  have "futex_resume k 8 False = (0, ?k2)" by (simp add: futex_resume_def)
  from fr_step [OF k(1) fs_return [OF _ this, of "{#8#}" "{#8, 8#}"]] have "futex_reach (?k2, {#8, 8#}, {#})" by simp
  moreover have "waiters (k_futex ?k2) 8 = 1" by (simp add: waiters_release k(2))
  then have "fst (futex_wake ?k2 8 0x7FFFFFFF) = 1" by (simp add: futex_wake_eq wake_count)
  ultimately show ?thesis by blast
qed

section \<open>Snapshots of the table\<close>

lemma map_of_futex_rebuild:
  "map_of (futex_rebuild t fs) = map_of t ++ map_of (rev (map (\<lambda>(u, n). (u, unat n)) fs))"
proof (induction fs arbitrary: t)
  case (Cons f fs)
  then show ?case by (cases f) (auto simp: update_conv' fun_eq_iff map_add_def split: option.splits)
qed simp

text \<open>
  A futex table comes back from its snapshot as it was, provided its keys are distinct (it is a
  map) and no count exceeds 32 bits; and the snapshot lists the addresses in increasing order.
\<close>
lemma futex_snapshot_roundtrip:
  assumes "distinct (map fst t)" "\<forall>(u, n) \<in> set t. n < 2 ^ 32"
  shows "map_of (rebuild_from_snapshot (futex_snapshot t)) = map_of t \<and> sorted (map fst (futex_snapshot t))"
proof
  let ?s = "futex_snapshot t"
  have set: "set (map (\<lambda>(u, n). (u, unat n)) ?s) = set t"
    using assms(2) by (force simp: futex_snapshot_def image_iff unat_of_nat)
  have "distinct (map fst ?s)"
  proof -
    have "mset (map fst ?s) = mset (map fst t)"
      by (simp add: futex_snapshot_def image_mset.compositionality comp_def case_prod_unfold)
    then show ?thesis using assms(1) mset_eq_imp_distinct_iff by blast
  qed
  then have d: "distinct (map fst (rev (map (\<lambda>(u, n). (u, unat n)) ?s)))"
    by (simp add: comp_def case_prod_unfold flip: rev_map)
  have "map_of (rev (map (\<lambda>(u, n). (u, unat n)) ?s)) = map_of t"
    by (rule map_of_inject_set [OF d assms(1), THEN iffD2]) (use set in simp)
  then show "map_of (rebuild_from_snapshot ?s) = map_of t"
    by (simp add: rebuild_from_snapshot_def map_of_futex_rebuild)
  show "sorted (map fst ?s)" by (simp add: futex_snapshot_def)
qed

end
