(* ===== verification/Net_Host.thy ===== *)
theory Net_Host
  imports Kernel_State
begin

text \<open>
  The host network as \<open>std::net\<close>, \<open>tokio::net\<close> and \<open>setsockopt\<close> present it, a parameter of the model: a
  record of functions over the abstract host state.  Sockets cross the boundary as handles.
\<close>

record 'h net_ops =
  n_local_port :: "hsock \<Rightarrow> 'h \<Rightarrow> u16 option"
  n_tcp_bind :: "sock_addr \<Rightarrow> 'h \<Rightarrow> hsock io \<times> 'h"
  n_set_reuseaddr :: "hsock \<Rightarrow> bool \<Rightarrow> 'h \<Rightarrow> unit io \<times> 'h"
  n_from_std :: "hsock \<Rightarrow> 'h \<Rightarrow> hsock io \<times> 'h"
  n_unix_bind :: "bytes \<Rightarrow> 'h \<Rightarrow> hsock io \<times> 'h"

text \<open>
  What the socket syscalls ask of the host synchronously.  The calls they await (connecting, accepting, transferring
  bytes) are not here: the handlers stop there and the result is an argument of the code that follows.
\<close>

record 'h sock_ops =
  x_is_socket :: "bytes \<Rightarrow> 'h \<Rightarrow> bool io"
  x_remove_file :: "bytes \<Rightarrow> 'h \<Rightarrow> unit io \<times> 'h"
  x_unix_bind :: "bytes \<Rightarrow> 'h \<Rightarrow> hsock io \<times> 'h"
  x_unix_clone :: "hsock \<Rightarrow> 'h \<Rightarrow> hsock io \<times> 'h"
  x_unix_pair :: "'h \<Rightarrow> (hsock \<times> hsock) io \<times> 'h"
  x_tcp_listen :: "sock_addr \<Rightarrow> 'h \<Rightarrow> hsock io \<times> 'h"
  x_udp_socket :: "bool \<Rightarrow> 'h \<Rightarrow> hsock io \<times> 'h"
  x_set_reuse_address :: "hsock \<Rightarrow> 'h \<Rightarrow> 'h"
  x_set_only_v6 :: "hsock \<Rightarrow> bool \<Rightarrow> 'h \<Rightarrow> 'h"
  x_udp_bind :: "hsock \<Rightarrow> sock_addr \<Rightarrow> 'h \<Rightarrow> unit io \<times> 'h"
  x_udp_tokio :: "hsock \<Rightarrow> 'h \<Rightarrow> unit io \<times> 'h"
  x_local_addr :: "hsock \<Rightarrow> 'h \<Rightarrow> sock_addr io"

end
