(* ===== verification/Snapshot_Memory.thy ===== *)
theory Snapshot_Memory
  imports Host Guest_Mem
begin

text \<open>
  The linear-memory half of \<^verbatim>\<open>src/src/snapshot.rs\<close>: \<open>collect_pages\<close> saves the 64 KiB pages that are not
  all zero, \<open>apply_snapshot_to_memory\<close> and \<open>apply_snapshot_to_shared_memory\<close> grow the target and
  copy them back.  wasmtime's \<open>grow\<close> is the parameter \<open>G\<close> of the memory syscalls.  An
  \<open>std::io::Error\<close> inside a \<open>SnapshotError\<close> is its kind, without the message text.
\<close>

section \<open>Errors and pages\<close>

datatype snapshot_error =
  FormatVersionMismatch u32 u32 | ModuleHashMismatch bytes bytes | IoError io_kind |
  MissingPath bytes | Unsupported string | AcceptedStreamOnListener | AbstractUnixNamespace |
  UnknownResource | Postcard | Invalid string

type_synonym 'a snap_res = "snapshot_error + 'a"

definition PAGE_SIZE_BYTES :: nat where "PAGE_SIZE_BYTES = 65536"

record memory_page_snapshot =
  page_index :: u32
  page_bytes :: bytes

definition is_zero_page :: "bytes \<Rightarrow> bool" where
  "is_zero_page page = (\<not> list_ex (\<lambda>b. b \<noteq> 0) page)"

text \<open>The loop over \<open>chunks_exact\<close> and its remainder, from page \<open>i\<close> on.\<close>

function collect_from :: "u32 \<Rightarrow> bytes \<Rightarrow> memory_page_snapshot list" where
  "collect_from i data =
     (if length data < PAGE_SIZE_BYTES
      then (if data \<noteq> [] \<and> \<not> is_zero_page data then [\<lparr>page_index = i, page_bytes = data\<rparr>] else [])
      else (if is_zero_page (take PAGE_SIZE_BYTES data) then []
            else [\<lparr>page_index = i, page_bytes = take PAGE_SIZE_BYTES data\<rparr>])
           @ collect_from (i + 1) (drop PAGE_SIZE_BYTES data))"
  by pat_completeness auto
termination
  by (relation "measure (length \<circ> snd)") (auto simp: PAGE_SIZE_BYTES_def)

declare collect_from.simps [simp del]

definition collect_pages :: "bytes \<Rightarrow> memory_page_snapshot list" where
  "collect_pages data = collect_from 0 data"

section \<open>Restoring\<close>

text \<open>The copy loop; what was copied before an error stays.\<close>

fun copy_pages :: "memory_page_snapshot list \<Rightarrow> bytes \<Rightarrow> unit snap_res \<times> bytes" where
  "copy_pages [] m = (Inr (), m)"
| "copy_pages (p # ps) m =
     (let start = unat (page_index p) * PAGE_SIZE_BYTES; e = start + length (page_bytes p)
      in if e > length m then (Inl (IoError OtherKind), m)
         else copy_pages ps (splice start (page_bytes p) m))"

definition max_page :: "memory_page_snapshot list \<Rightarrow> nat option" where
  "max_page ps = (if ps = [] then None else Some (foldr (\<lambda>p n. max (unat (page_index p)) n) ps 0))"

text \<open>Growing the target to \<open>max_idx + 1\<close> pages.\<close>

definition grow_for ::
  "(bytes \<Rightarrow> nat \<Rightarrow> bytes option) \<Rightarrow> memory_page_snapshot list \<Rightarrow> bytes \<Rightarrow> bytes snap_res" where
  "grow_for G ps m =
     (case max_page ps of
        None \<Rightarrow> Inl (Invalid ''empty pages in snapshot'')
      | Some max_idx \<Rightarrow>
          let target_pages = max_idx + 1; cur_pages = length m div PAGE_SIZE_BYTES
          in if target_pages > cur_pages
             then (case G m (target_pages - cur_pages) of
                     None \<Rightarrow> Inl (IoError OtherKind)
                   | Some m' \<Rightarrow> Inr m')
             else Inr m)"

definition apply_snapshot_to_shared_memory ::
  "(bytes \<Rightarrow> nat \<Rightarrow> bytes option) \<Rightarrow> memory_page_snapshot list \<Rightarrow> bytes \<Rightarrow> unit snap_res \<times> bytes" where
  "apply_snapshot_to_shared_memory G ps m =
     (case grow_for G ps m of Inl e \<Rightarrow> (Inl e, m) | Inr m' \<Rightarrow> copy_pages ps m')"

definition apply_snapshot_to_memory ::
  "(bytes \<Rightarrow> nat \<Rightarrow> bytes option) \<Rightarrow> memory_page_snapshot list \<Rightarrow> bytes \<Rightarrow> unit snap_res \<times> bytes" where
  "apply_snapshot_to_memory G ps m =
     (if ps = [] then (Inr (), m)
      else case grow_for G ps m of Inl e \<Rightarrow> (Inl e, m) | Inr m' \<Rightarrow> copy_pages ps m')"

text \<open>\<open>dispatch_memory_apply\<close>: the target's kind of memory picks the driver.\<close>

definition dispatch_memory_apply ::
  "(bytes \<Rightarrow> nat \<Rightarrow> bytes option) \<Rightarrow> memory_page_snapshot list \<Rightarrow> memory_kind option \<Rightarrow>
   unit snap_res \<times> memory_kind option" where
  "dispatch_memory_apply G ps mem =
     (if ps = [] then (Inr (), mem)
      else case kernel_memory_kind mem of
             Inl _ \<Rightarrow> (Inl (IoError OtherKind), mem)
           | Inr (Owned m) \<Rightarrow> (let (r, m') = apply_snapshot_to_memory G ps m in (r, Some (Owned m')))
           | Inr (Shared m) \<Rightarrow>
               (let (r, m') = apply_snapshot_to_shared_memory G ps m in (r, Some (Shared m'))))"

section \<open>The saved pages\<close>

definition page_of :: "bytes \<Rightarrow> nat \<Rightarrow> bytes" where
  "page_of data j = slice (j * PAGE_SIZE_BYTES) PAGE_SIZE_BYTES data"

definition live_pages :: "bytes \<Rightarrow> nat list" where
  "live_pages data = filter (\<lambda>j. \<not> is_zero_page (page_of data j)) [0..<Suc (length data div PAGE_SIZE_BYTES)]"

definition saved_page :: "bytes \<Rightarrow> nat \<Rightarrow> memory_page_snapshot" where
  "saved_page data j = \<lparr>page_index = of_nat j, page_bytes = page_of data j\<rparr>"

lemma page_of_drop: "page_of (drop PAGE_SIZE_BYTES data) j = page_of data (Suc j)"
  by (simp add: page_of_def slice_def add.commute)

lemma page_of_0: "page_of data 0 = take PAGE_SIZE_BYTES data"
  by (simp add: page_of_def slice_def)

lemma is_zero_page_Nil [simp]: "is_zero_page []"
  by (simp add: is_zero_page_def)

lemma page_size_pos [simp]: "0 < PAGE_SIZE_BYTES" "PAGE_SIZE_BYTES \<noteq> 0"
  by (simp_all add: PAGE_SIZE_BYTES_def)

lemma upt_Suc_map: "[0..<Suc n] = 0 # map Suc [0..<n]"
  by (simp only: map_Suc_upt upt_conv_Cons [of 0 "Suc n"] zero_less_Suc One_nat_def)

lemma saved_page_sel [simp]:
  "page_index (saved_page data j) = of_nat j" "page_bytes (saved_page data j) = page_of data j"
  by (simp_all add: saved_page_def)

lemma live_pages_step:
  assumes "\<not> length data < PAGE_SIZE_BYTES"
  shows "live_pages data =
    (if is_zero_page (take PAGE_SIZE_BYTES data) then [] else [0]) @
      map Suc (live_pages (drop PAGE_SIZE_BYTES data))"
proof -
  let ?n = "Suc (length (drop PAGE_SIZE_BYTES data) div PAGE_SIZE_BYTES)"
  have "Suc (length data div PAGE_SIZE_BYTES) = Suc ?n"
    using assms by (simp add: div_if [of "length data"])
  then have "[0..<Suc (length data div PAGE_SIZE_BYTES)] = 0 # map Suc [0..<?n]"
    by (simp only: upt_Suc_map)
  then show ?thesis
    unfolding live_pages_def by (simp add: filter_map comp_def page_of_drop page_of_0 del: upt_Suc)
qed

lemma collect_from_eq:
  "collect_from i data = map (\<lambda>j. (saved_page data j)\<lparr>page_index := i + of_nat j\<rparr>) (live_pages data)"
proof (induction i data rule: collect_from.induct)
  case (1 i data)
  show ?case
  proof (cases "length data < PAGE_SIZE_BYTES")
    case True
    then show ?thesis
      by (subst collect_from.simps) (auto simp: live_pages_def page_of_0 saved_page_def)
  next
    case False
    then show ?thesis
      unfolding live_pages_step [OF False] collect_from.simps [of i data]
      using "1.IH" [OF False]
      by (auto simp: saved_page_def page_of_drop page_of_0 algebra_simps)
  qed
qed

lemma collect_pages_eq: "collect_pages data = map (saved_page data) (live_pages data)"
  by (simp add: collect_pages_def collect_from_eq saved_page_def)

lemma live_pages_bound: "j \<in> set (live_pages data) \<Longrightarrow> j * PAGE_SIZE_BYTES < length data"
proof -
  assume j: "j \<in> set (live_pages data)"
  then have "page_of data j \<noteq> []" by (auto simp: live_pages_def simp del: upt_Suc)
  then show ?thesis by (auto simp: page_of_def slice_def)
qed

lemma length_page_of: "length (page_of data j) = min PAGE_SIZE_BYTES (length data - j * PAGE_SIZE_BYTES)"
  by (simp add: page_of_def slice_def)

lemma page_of_nth:
  "i < length (page_of data j) \<Longrightarrow> page_of data j ! i = data ! (j * PAGE_SIZE_BYTES + i)"
  by (cases "j * PAGE_SIZE_BYTES \<le> length data") (auto simp: page_of_def slice_def)

lemma in_page_iff:
  "j * PAGE_SIZE_BYTES \<le> i \<and> i < j * PAGE_SIZE_BYTES + length (page_of data j) \<longleftrightarrow>
     i div PAGE_SIZE_BYTES = j \<and> i < length data"
proof -
  have q: "i div PAGE_SIZE_BYTES = j \<longleftrightarrow> j * PAGE_SIZE_BYTES \<le> i \<and> i < j * PAGE_SIZE_BYTES + PAGE_SIZE_BYTES"
    using div_nat_eqI [of PAGE_SIZE_BYTES j i] dividend_less_times_div [of PAGE_SIZE_BYTES i]
      div_times_less_eq_dividend [of i PAGE_SIZE_BYTES]
    by (auto simp: algebra_simps)
  show ?thesis unfolding q length_page_of by (auto simp: min_def)
qed

lemma copy_saved_pages:
  assumes "\<forall>j \<in> set js. j < 2 ^ 32 \<and> j * PAGE_SIZE_BYTES + length (page_of data j) \<le> length m"
  shows "\<exists>m'. copy_pages (map (saved_page data) js) m = (Inr (), m') \<and> length m' = length m \<and>
    (\<forall>i < length m. m' ! i = (if i div PAGE_SIZE_BYTES \<in> set js \<and> i < length data then data ! i else m ! i))"
  using assms
proof (induction js arbitrary: m)
  case (Cons j js)
  let ?m = "splice (j * PAGE_SIZE_BYTES) (page_of data j) m"
  have j: "unat (of_nat j :: u32) = j" "j * PAGE_SIZE_BYTES + length (page_of data j) \<le> length m"
    using Cons.prems by (simp_all add: unat_of_nat)
  from Cons.IH [of ?m] Cons.prems j(2) obtain m' where
    m': "copy_pages (map (saved_page data) js) ?m = (Inr (), m')" "length m' = length m"
      "\<forall>i < length m. m' ! i = (if i div PAGE_SIZE_BYTES \<in> set js \<and> i < length data then data ! i else ?m ! i)"
    by auto
  have "?m ! i = (if i div PAGE_SIZE_BYTES = j \<and> i < length data then data ! i else m ! i)" if "i < length m" for i
    using nth_splice [OF j(2) that] in_page_iff [of j i data] page_of_nth [of "i - j * PAGE_SIZE_BYTES" data j]
    by (auto simp: less_diff_conv2)
  with m' j show ?case by (auto simp: Let_def)
qed simp

section \<open>Properties\<close>

lemma unat_page: "j * PAGE_SIZE_BYTES < 2 ^ 32 \<Longrightarrow> unat (of_nat j :: u32) = j"
  by (simp add: unat_of_nat PAGE_SIZE_BYTES_def)

lemma live_pages_less:
  assumes "length data \<le> 2 ^ 32" "j \<in> set (live_pages data)"
  shows "j < 2 ^ 32" "unat (of_nat j :: u32) = j"
  using live_pages_bound [OF assms(2)] assms(1) unat_page [of j] by (auto simp: PAGE_SIZE_BYTES_def)

text \<open>The bytes that a restore leaves in a target memory \<open>t\<close>.\<close>

definition restored_byte :: "bytes \<Rightarrow> bytes \<Rightarrow> nat \<Rightarrow> u8" where
  "restored_byte data t i =
     (if i < length data \<and> \<not> is_zero_page (page_of data (i div PAGE_SIZE_BYTES)) then data ! i
      else if i < length t then t ! i else 0)"

lemma live_page_of:
  assumes "i < length data"
  shows "i div PAGE_SIZE_BYTES \<in> set (live_pages data) \<longleftrightarrow> \<not> is_zero_page (page_of data (i div PAGE_SIZE_BYTES))"
  using div_le_mono [of i "length data" PAGE_SIZE_BYTES] assms
  by (auto simp: live_pages_def simp del: upt_Suc)

lemma zero_page_byte:
  assumes "i < length data" "is_zero_page (page_of data (i div PAGE_SIZE_BYTES))"
  shows "data ! i = 0"
proof -
  let ?j = "i div PAGE_SIZE_BYTES"
  have "?j * PAGE_SIZE_BYTES \<le> i \<and> i < ?j * PAGE_SIZE_BYTES + length (page_of data ?j)"
    using assms(1) in_page_iff [of ?j i data] by simp
  then have "i - ?j * PAGE_SIZE_BYTES < length (page_of data ?j)" "data ! i = page_of data ?j ! (i - ?j * PAGE_SIZE_BYTES)"
    using page_of_nth [of "i - ?j * PAGE_SIZE_BYTES" data ?j] by (auto simp: less_diff_conv2)
  with assms(2) show ?thesis by (auto simp: is_zero_page_def list_ex_iff)
qed

text \<open>
  What wasmtime documents of \<open>Memory::grow\<close>: when it succeeds, the new pages come after the old ones
  and are zero.  It may fail.  \<open>grow_request\<close> is the number of pages a restore asks for.
\<close>

definition grows_zeroed :: "(bytes \<Rightarrow> nat \<Rightarrow> bytes option) \<Rightarrow> bool" where
  "grows_zeroed G \<longleftrightarrow> (\<forall>m n m'. G m n = Some m' \<longrightarrow> m' = m @ replicate (n * PAGE_SIZE_BYTES) 0)"

definition grow_request :: "bytes \<Rightarrow> bytes \<Rightarrow> nat" where
  "grow_request data t =
     (if live_pages data = [] then 0 else Max (set (live_pages data)) + 1 - length t div PAGE_SIZE_BYTES)"

lemma foldr_max_Max: "js \<noteq> [] \<Longrightarrow> foldr max js 0 = Max (set js)" for js :: "nat list"
proof (induction js)
  case (Cons j js)
  then show ?case by (cases "js = []") simp_all
qed simp

lemma max_page_live:
  assumes "length data \<le> 2 ^ 32" "live_pages data \<noteq> []"
  shows "max_page (collect_pages data) = Some (Max (set (live_pages data)))"
proof -
  have "foldr (\<lambda>p n. max (unat (page_index p)) n) (map (saved_page data) js) 0 = foldr max js 0"
    if "set js \<subseteq> set (live_pages data)" for js
    using that live_pages_less(2) [OF assms(1)] by (induction js) (auto simp del: unat_of_nat)
  with assms(2) foldr_max_Max [OF assms(2)] show ?thesis by (simp add: max_page_def collect_pages_eq)
qed

lemma grow_for_live:
  assumes "length data \<le> 2 ^ 32" "live_pages data \<noteq> []"
  shows "grow_for G (collect_pages data) t =
    (if grow_request data t = 0 then Inr t
     else case G t (grow_request data t) of None \<Rightarrow> Inl (IoError OtherKind) | Some m \<Rightarrow> Inr m)"
  using assms(2) by (auto simp: grow_for_def max_page_live [OF assms] grow_request_def Let_def)

lemma grown_enough:
  assumes "live_pages data \<noteq> []" "j \<in> set (live_pages data)"
  shows "j * PAGE_SIZE_BYTES + length (page_of data j) \<le> length t + grow_request data t * PAGE_SIZE_BYTES"
proof -
  let ?n = "Max (set (live_pages data))" and ?c = "length t div PAGE_SIZE_BYTES"
  have "j \<le> ?n" using assms(2) by simp
  then have "j + 1 \<le> ?c + grow_request data t" using assms(1) by (auto simp: grow_request_def)
  then have "(j + 1) * PAGE_SIZE_BYTES \<le> (?c + grow_request data t) * PAGE_SIZE_BYTES" by (rule mult_le_mono1)
  moreover have "?c * PAGE_SIZE_BYTES \<le> length t" by (rule div_times_less_eq_dividend)
  ultimately show ?thesis unfolding length_page_of add_mult_distrib mult_1 by linarith
qed

lemma apply_collected:
  assumes len: "length data \<le> 2 ^ 32" and grow: "grows_zeroed G"
    and live: "live_pages data \<noteq> []" and ok: "grow_request data t = 0 \<or> G t (grow_request data t) \<noteq> None"
  shows "\<exists>r. apply_snapshot_to_memory G (collect_pages data) t = (Inr (), r) \<and> length t \<le> length r \<and>
    (\<forall>i < length r. r ! i = restored_byte data t i) \<and>
    (\<forall>j \<in> set (live_pages data). j * PAGE_SIZE_BYTES + length (page_of data j) \<le> length r)"
proof -
  define m where "m = t @ replicate (grow_request data t * PAGE_SIZE_BYTES) (0 :: u8)"
  have g: "grow_for G (collect_pages data) t = Inr m"
    using ok grow by (auto simp: grow_for_live [OF len live] m_def grows_zeroed_def)
  have fit: "j * PAGE_SIZE_BYTES + length (page_of data j) \<le> length m" if "j \<in> set (live_pages data)" for j
    using grown_enough [OF live that, of t] by (simp add: m_def)
  from copy_saved_pages [of "live_pages data" data m] fit live_pages_less(1) [OF len] obtain r where
    r: "copy_pages (map (saved_page data) (live_pages data)) m = (Inr (), r)" "length r = length m"
      "\<forall>i < length m. r ! i =
         (if i div PAGE_SIZE_BYTES \<in> set (live_pages data) \<and> i < length data then data ! i else m ! i)"
    by blast
  have "m ! i = (if i < length t then t ! i else 0)" if "i < length m" for i
    using that by (auto simp: m_def nth_append)
  then have "\<forall>i < length r. r ! i = restored_byte data t i"
    using r(2,3) live_page_of [of _ data] by (auto simp: restored_byte_def)
  moreover have "apply_snapshot_to_memory G (collect_pages data) t = (Inr (), r)"
    using r(1) live by (simp add: apply_snapshot_to_memory_def g [unfolded collect_pages_eq] collect_pages_eq)
  ultimately show ?thesis using fit r(2) by (auto simp: m_def)
qed

lemma apply_collected_any:
  assumes "length data \<le> 2 ^ 32" "grows_zeroed G" "grow_request data t = 0 \<or> G t (grow_request data t) \<noteq> None"
  shows "\<exists>r. apply_snapshot_to_memory G (collect_pages data) t = (Inr (), r) \<and>
    length t \<le> length r \<and> (\<forall>i < length r. r ! i = restored_byte data t i)"
proof (cases "live_pages data = []")
  case True
  then have "is_zero_page (page_of data (i div PAGE_SIZE_BYTES))" if "i < length data" for i
    using live_page_of [OF that] by auto
  with True show ?thesis by (auto simp: apply_snapshot_to_memory_def collect_pages_eq restored_byte_def)
next
  case False
  from apply_collected [OF assms(1,2) False assms(3)] show ?thesis by blast
qed

lemma restore_succeeds:
  assumes "length data \<le> 2 ^ 32" "grows_zeroed G" "t = memory_bytes mem"
    and "grow_request data t = 0 \<or> G t (grow_request data t) \<noteq> None"
  shows "\<exists>mem'. dispatch_memory_apply G (collect_pages data) (Some mem) = (Inr (), Some mem') \<and>
    length t \<le> length (memory_bytes mem') \<and>
    (\<forall>i < length (memory_bytes mem'). memory_bytes mem' ! i = restored_byte data t i) \<and>
    (\<forall>i < length data. length (memory_bytes mem') \<le> i \<longrightarrow> data ! i = 0)"
proof (cases "live_pages data = []")
  case True
  then have "is_zero_page (page_of data (i div PAGE_SIZE_BYTES))" if "i < length data" for i
    using live_page_of [OF that] by auto
  with True zero_page_byte [of _ data] show ?thesis
    by (auto simp: dispatch_memory_apply_def collect_pages_eq restored_byte_def assms(3))
next
  case False
  from apply_collected [OF assms(1,2) False assms(4)] obtain r where
    r: "apply_snapshot_to_memory G (collect_pages data) t = (Inr (), r)"
      "length t \<le> length r" "\<forall>i < length r. r ! i = restored_byte data t i"
      "\<forall>j \<in> set (live_pages data). j * PAGE_SIZE_BYTES + length (page_of data j) \<le> length r" by blast
  have "collect_pages data \<noteq> []" using False by (simp add: collect_pages_eq)
  then have "\<exists>mem'. dispatch_memory_apply G (collect_pages data) (Some mem) = (Inr (), Some mem') \<and> memory_bytes mem' = r"
    using r(1) assms(3) by (cases mem) (simp_all add: dispatch_memory_apply_def kernel_memory_kind_def ok_or_def
        apply_snapshot_to_memory_def apply_snapshot_to_shared_memory_def)
  moreover have "data ! i = 0" if "i < length data" "length r \<le> i" for i
    using r(4) live_page_of [OF that(1)] zero_page_byte [OF that(1)] in_page_iff [of "i div PAGE_SIZE_BYTES" i data] that
    by force
  ultimately show ?thesis using r(2,3) by blast
qed

lemma restore_fails:
  assumes "length data \<le> 2 ^ 32" "t = memory_bytes mem" "grow_request data t \<noteq> 0" "G t (grow_request data t) = None"
  shows "dispatch_memory_apply G (collect_pages data) (Some mem) = (Inl (IoError OtherKind), Some mem)"
proof -
  have live: "live_pages data \<noteq> []" using assms(3) by (auto simp: grow_request_def)
  then have "collect_pages data \<noteq> []" by (simp add: collect_pages_eq)
  with assms(2-4) grow_for_live [OF assms(1) live, of G t] show ?thesis
    by (cases mem) (simp_all add: dispatch_memory_apply_def kernel_memory_kind_def ok_or_def
        apply_snapshot_to_memory_def apply_snapshot_to_shared_memory_def)
qed

text \<open>
  C15: Restoring the pages saved from one linear memory of at most 4 GiB into another asks \<open>grow\<close> for the
  pages that are missing up to the last one that was not all zero.  When none is missing or \<open>grow\<close> gives
  them, it succeeds with exactly this: every byte of a page that was not all zero has its saved value,
  every other byte is what the target held, or zero where the target was grown; the result is never
  shorter than the target, and whatever it does not cover was zero.  When \<open>grow\<close> refuses, it fails
  and the target is untouched.
\<close>

theorem snapshot_memory_restore:
  assumes "length data \<le> 2 ^ 32" "grows_zeroed G" "t = memory_bytes mem"
  shows "if grow_request data t = 0 \<or> G t (grow_request data t) \<noteq> None
    then \<exists>mem'. dispatch_memory_apply G (collect_pages data) (Some mem) = (Inr (), Some mem') \<and>
      length t \<le> length (memory_bytes mem') \<and>
      (\<forall>i < length (memory_bytes mem'). memory_bytes mem' ! i = restored_byte data t i) \<and>
      (\<forall>i < length data. length (memory_bytes mem') \<le> i \<longrightarrow> data ! i = 0)
    else dispatch_memory_apply G (collect_pages data) (Some mem) = (Inl (IoError OtherKind), Some mem)"
  using restore_succeeds [OF assms] restore_fails [OF assms(1,3), of G] by auto

text \<open>A memory that grows to at most two pages.\<close>

definition demo_grow :: "bytes \<Rightarrow> nat \<Rightarrow> bytes option" where
  "demo_grow m n = (if length m div PAGE_SIZE_BYTES + n \<le> 2 then Some (m @ replicate (n * PAGE_SIZE_BYTES) 0) else None)"

lemma demo_grow_zeroed: "grows_zeroed demo_grow"
  by (simp add: grows_zeroed_def demo_grow_def)

lemma demo_live: "live_pages [7, 0, 8] = [0]"
  by (simp add: live_pages_def page_of_def slice_def is_zero_page_def PAGE_SIZE_BYTES_def)

theorem snapshot_memory_restore_witness:
  "\<exists>mem'. dispatch_memory_apply demo_grow (collect_pages [7, 0, 8]) (Some (Shared [])) = (Inr (), Some mem') \<and>
    (\<forall>i < length (memory_bytes mem'). memory_bytes mem' ! i = restored_byte [7, 0, 8] [] i) \<and>
    restored_byte [7, 0, 8] [] 2 = 8 \<and> restored_byte [7, 0, 8] [] 5 = 0"
proof -
  have "grow_request [7, 0, 8] [] = 1" by (simp add: grow_request_def demo_live)
  then have "demo_grow [] (grow_request [7, 0, 8] []) \<noteq> None" by (simp add: demo_grow_def)
  with snapshot_memory_restore [of "[7, 0, 8]" demo_grow "[]" "Shared []", OF _ demo_grow_zeroed] show ?thesis
    by (fastforce simp: restored_byte_def page_of_def slice_def is_zero_page_def PAGE_SIZE_BYTES_def)
qed

text \<open>
  What the copied-back memory is not: a target whose page holds bytes where the saved page is
  all zero keeps them.
\<close>

lemma zero_page_keeps_target:
  "dispatch_memory_apply G (collect_pages [0]) (Some (Owned [9])) = (Inr (), Some (Owned [9]))"
  by (simp add: dispatch_memory_apply_def collect_pages_eq live_pages_def page_of_def slice_def is_zero_page_def PAGE_SIZE_BYTES_def)

end
