(* ===== verification/Mem_Host.thy ===== *)
theory Mem_Host
  imports Host
begin

text \<open>
  A small in-memory host file system: an instance of the host interface, used to
  evaluate the model on concrete inputs and to show that the hypotheses about hosts
  can hold.  It models no code of the repository.
\<close>

record memfs =
  nodes :: "(pathbuf \<times> bytes option) list"
  handles :: "(pathbuf \<times> nat) list"

definition node_meta :: "bytes option \<Rightarrow> metadata" where
  "node_meta n =
     \<lparr>md_type = (case n of None \<Rightarrow> FtDir | Some _ \<Rightarrow> FtFile), md_perm = 0x1ED,
      md_len = of_nat (case n of None \<Rightarrow> 0 | Some bs \<Rightarrow> length bs), md_ino = 7, md_nlink = 1,
      md_accessed = None, md_modified = None, md_created = None\<rparr>"

definition mfs_meta :: "pathbuf \<Rightarrow> memfs \<Rightarrow> metadata io" where
  "mfs_meta p s = (case map_of (nodes s) p of None \<Rightarrow> Inl NotFound | Some n \<Rightarrow> Inr (node_meta n))"

definition mfs_contents :: "pathbuf \<Rightarrow> memfs \<Rightarrow> bytes" where
  "mfs_contents p s = (case map_of (nodes s) p of Some (Some bs) \<Rightarrow> bs | _ \<Rightarrow> [])"

definition mfs_put :: "pathbuf \<Rightarrow> bytes option \<Rightarrow> memfs \<Rightarrow> memfs" where
  "mfs_put p n s = s\<lparr>nodes := (p, n) # filter (\<lambda>x. fst x \<noteq> p) (nodes s)\<rparr>"

definition mfs_drop :: "pathbuf \<Rightarrow> memfs \<Rightarrow> memfs" where
  "mfs_drop p s = s\<lparr>nodes := filter (\<lambda>x. fst x \<noteq> p) (nodes s)\<rparr>"

definition child_name :: "pathbuf \<Rightarrow> pathbuf \<Rightarrow> bytes option" where
  "child_name p q =
     (if q \<noteq> [] \<and> butlast q = p then (case last q of Normal n \<Rightarrow> Some n | _ \<Rightarrow> None) else None)"

definition mfs_read_dir :: "pathbuf \<Rightarrow> memfs \<Rightarrow> dir_entry option list io" where
  "mfs_read_dir p s =
     Inr (map (\<lambda>(q, n). map_option (\<lambda>nm. \<lparr>de_name = nm, de_type = Some (md_type (node_meta n)),
                                        de_ino = Some 7\<rparr>) (child_name p q)) (nodes s))"

definition mfs_open :: "pathbuf \<Rightarrow> open_options \<Rightarrow> memfs \<Rightarrow> hfile io \<times> memfs" where
  "mfs_open p opt s =
     (case map_of (nodes s) p of
        None \<Rightarrow>
          if oo_create opt
          then (Inr (length (handles s)), (mfs_put p (Some []) s)\<lparr>handles := handles s @ [(p, 0)]\<rparr>)
          else (Inl NotFound, s)
      | Some n \<Rightarrow>
          if oo_create_new opt then (Inl AlreadyExists, s)
          else (Inr (length (handles s)), s\<lparr>handles := handles s @ [(p, 0)]\<rparr>))"

definition mfs_handle :: "hfile \<Rightarrow> memfs \<Rightarrow> (pathbuf \<times> nat) io" where
  "mfs_handle f s = (if f < length (handles s) then Inr (handles s ! f) else Inl OtherKind)"

definition mfs_read :: "hfile \<Rightarrow> nat \<Rightarrow> memfs \<Rightarrow> bytes io \<times> memfs" where
  "mfs_read f n s =
     (case mfs_handle f s of
        Inl k \<Rightarrow> (Inl k, s)
      | Inr (p, pos) \<Rightarrow>
          let bs = take n (drop pos (mfs_contents p s))
          in (Inr bs, s\<lparr>handles := (handles s)[f := (p, pos + length bs)]\<rparr>))"

definition mfs_write :: "hfile \<Rightarrow> bytes \<Rightarrow> memfs \<Rightarrow> nat io \<times> memfs" where
  "mfs_write f bs s =
     (case mfs_handle f s of
        Inl k \<Rightarrow> (Inl k, s)
      | Inr (p, pos) \<Rightarrow>
          let old = mfs_contents p s; new = take pos old @ bs @ drop (pos + length bs) old
          in (Inr (length bs),
              (mfs_put p (Some new) s)\<lparr>handles := (handles s)[f := (p, pos + length bs)]\<rparr>))"

definition mfs_seek :: "hfile \<Rightarrow> seek_from \<Rightarrow> memfs \<Rightarrow> u64 io \<times> memfs" where
  "mfs_seek f from s =
     (case mfs_handle f s of
        Inl k \<Rightarrow> (Inl k, s)
      | Inr (p, pos) \<Rightarrow>
          let q = (case from of SeekStart o' \<Rightarrow> int (unat o') | SeekCurrent d \<Rightarrow> int pos + d)
          in if q < 0 \<or> 2 ^ 63 \<le> q then (Inl InvalidInput, s)
             else (Inr (word_of_int q), s\<lparr>handles := (handles s)[f := (p, nat q)]\<rparr>))"

definition mem_host :: "memfs host_ops" where
  "mem_host =
     \<lparr>h_canonicalize = (\<lambda>p s. case map_of (nodes s) p of None \<Rightarrow> Inl NotFound | Some _ \<Rightarrow> Inr p),
      h_metadata = mfs_meta, h_symlink_metadata = mfs_meta, h_read_dir = mfs_read_dir,
      h_read_link = (\<lambda>p s. Inl InvalidInput), h_open = mfs_open,
      h_create_dir = (\<lambda>p s. case map_of (nodes s) p of
                               None \<Rightarrow> (Inr (), mfs_put p None s) | Some _ \<Rightarrow> (Inl AlreadyExists, s)),
      h_remove_dir = (\<lambda>p s. (Inr (), mfs_drop p s)), h_remove_file = (\<lambda>p s. (Inr (), mfs_drop p s)),
      h_rename = (\<lambda>p q s. (Inr (), mfs_put q (Some (mfs_contents p s)) (mfs_drop p s))),
      h_hard_link = (\<lambda>p q s. (Inr (), mfs_put q (Some (mfs_contents p s)) s)),
      h_symlink = (\<lambda>t p s. (Inr (), mfs_put p (Some t) s)),
      h_set_permissions = (\<lambda>p m s. (Inr (), s)),
      hf_metadata = (\<lambda>f s. case mfs_handle f s of Inl k \<Rightarrow> Inl k | Inr (p, _) \<Rightarrow> mfs_meta p s),
      hf_read = mfs_read, hf_write = mfs_write, hf_seek = mfs_seek,
      hf_try_clone = (\<lambda>f s. (Inr f, s)), hf_set_len = (\<lambda>f n s. (Inr (), s)),
      hf_set_modified = (\<lambda>f t s. (Inr (), s)), hf_set_permissions = (\<lambda>f m s. (Inr (), s)),
      h_write_file = (\<lambda>p bs s. (Inr (), mfs_put p (Some bs) s)),
      h_read_file = (\<lambda>p s. case map_of (nodes s) p of Some (Some bs) \<Rightarrow> Inr bs | Some None \<Rightarrow> Inl IsADirectory | None \<Rightarrow> Inl NotFound),
      h_exists = (\<lambda>p s. map_of (nodes s) p \<noteq> None),
      h_now = (\<lambda>s. (0, s))\<rparr>"

text \<open>A sandbox directory \<open>/p\<close> with two files, and a secret outside it.\<close>

definition demo_root :: pathbuf where
  "demo_root = [RootDir, Normal [112]]"

definition demo_fs :: memfs where
  "demo_fs =
     \<lparr>nodes = [(demo_root, None), (demo_root @ [Normal [98]], Some [1, 2, 3]),
               (demo_root @ [Normal [97]], Some []), ([RootDir, Normal [115]], Some [9])],
      handles = []\<rparr>"

lemmas mem_host_defs =
  mem_host_def mfs_meta_def mfs_contents_def mfs_put_def mfs_drop_def mfs_read_dir_def mfs_open_def
  mfs_handle_def mfs_read_def mfs_write_def mfs_seek_def node_meta_def child_name_def

theorem readdir_walk_witness:
  "\<exists>bs. readdir_all mem_host demo_root demo_fs = Inr bs \<and>
    map (\<lambda>d. (d_name d, d_type d, d_ino d)) (walk_dirents bs) = [([97], 8, 7), ([98], 8, 7)]"
proof -
  obtain es where es: "h_read_dir mem_host demo_root demo_fs = Inr es" "length es = 4"
    "dir_names es = [([97], Some FtFile, 7), ([98], Some FtFile, 7)]"
    by (simp add: mem_host_defs demo_root_def demo_fs_def dir_names_def unwrap_or_def map_filter_simps)
  have "\<forall>(name, ftype, ino) \<in> set (dir_names es). length name \<le> 1000 \<and> 0 \<notin> set name"
    "length es < 2 ^ 40" by (simp_all add: es(2,3))
  from readdir_walk [OF es(1) this] obtain bs where "readdir_all mem_host demo_root demo_fs = Inr bs"
    "map (\<lambda>d. (d_name d, d_type d, d_ino d)) (walk_dirents bs) =
      map (\<lambda>(name, ftype, ino). (name, dirent_type ftype, ino)) (dir_names es)" by blast
  then show ?thesis by (intro exI [of _ bs]) (simp add: es(3) dirent_type_def)
qed

end
