(* ===== verification/Snapshot.thy ===== *)
theory Snapshot
  imports Futex Net_Host Snapshot_Memory Mem_Host
begin

text \<open>
  \<^verbatim>\<open>src/src/snapshot.rs\<close> and \<^verbatim>\<open>src/src/snapshot/io.rs\<close>: the serialisable image of a kernel, how it is
  built (\<open>build_kernel_snapshot\<close>, \<open>try_to_snapshot\<close>), how it is applied to another kernel
  (\<open>apply_snapshot_kernel_state\<close>, \<open>apply_snapshot\<close>), its file form, and the guest's \<open>snapshot\<close> syscall
  of \<^verbatim>\<open>src/src/sys/process.rs\<close>.  The little-endian integer wrappers of \<^verbatim>\<open>snapshot/endian.rs\<close> are the words they
  wrap.  The \<open>postcard\<close> codec and SHA-256 are parameters.
\<close>

section \<open>Snapshot types\<close>

record pipe_snapshot =
  pn_buf :: bytes
  pn_closed :: bool
  pn_nonblock :: bool

record file_snapshot =
  fn_path :: "pathbuf option"
  fn_pos :: u64
  fn_is_dir :: bool
  fn_dir_cache :: "bytes option"

record unix_sock_snapshot =
  un_path :: "bytes option"
  un_peer_addr_present :: bool

record socket_snapshot =
  sn_sock_kind :: socket_kind
  sn_nonblock :: bool
  sn_bound :: "sock_addr option"
  sn_listen_backlog :: "int option"
  sn_so_reuseaddr :: bool
  sn_so_keepalive :: bool
  sn_tcp_nodelay :: bool
  sn_peer_addr_present :: bool
  sn_last_error :: int
  sn_shutdown_flags :: u8
  sn_is_acceptor :: bool
  sn_peek_buf :: bytes
  sn_family_unix :: bool
  sn_unix_inner :: "unix_sock_snapshot option"
  sn_inherited :: bool

text \<open>An \<open>EpollEntrySnapshot\<close> has the fields of the entry itself, less its wake-up primitive.\<close>

record epoll_snapshot =
  en_entries :: "epoll_entry list"
  en_self_event_fd :: "u32 option"

record eventfd_snapshot =
  vn_counter :: u64
  vn_nonblock :: bool

datatype resource_kind =
  KStdin | KStdout | KStderr | KPipeRead | KPipeWrite | KFile | KSocket | KEpoll | KEventFd

record resource_body =
  rb_pipe :: "pipe_snapshot option"
  rb_file :: "file_snapshot option"
  rb_socket :: "socket_snapshot option"
  rb_epoll :: "epoll_snapshot option"
  rb_eventfd :: "eventfd_snapshot option"

record resource_snapshot =
  rs_kind :: resource_kind
  rs_body :: resource_body

definition default_body :: resource_body where
  "default_body = \<lparr>rb_pipe = None, rb_file = None, rb_socket = None, rb_epoll = None, rb_eventfd = None\<rparr>"

definition from_pipe :: "resource_kind \<Rightarrow> pipe_snapshot \<Rightarrow> resource_snapshot" where
  "from_pipe kind p = \<lparr>rs_kind = kind, rs_body = default_body\<lparr>rb_pipe := Some p\<rparr>\<rparr>"

definition from_file :: "file_snapshot \<Rightarrow> resource_snapshot" where
  "from_file f = \<lparr>rs_kind = KFile, rs_body = default_body\<lparr>rb_file := Some f\<rparr>\<rparr>"

definition from_socket :: "socket_snapshot \<Rightarrow> resource_snapshot" where
  "from_socket s = \<lparr>rs_kind = KSocket, rs_body = default_body\<lparr>rb_socket := Some s\<rparr>\<rparr>"

definition from_epoll :: "epoll_snapshot \<Rightarrow> resource_snapshot" where
  "from_epoll e = \<lparr>rs_kind = KEpoll, rs_body = default_body\<lparr>rb_epoll := Some e\<rparr>\<rparr>"

definition from_eventfd :: "eventfd_snapshot \<Rightarrow> resource_snapshot" where
  "from_eventfd e = \<lparr>rs_kind = KEventFd, rs_body = default_body\<lparr>rb_eventfd := Some e\<rparr>\<rparr>"

record fd_snapshot =
  dn_entries :: "(u32 \<times> resource_snapshot) list"
  dn_next_fd :: u32
  dn_cloexec :: "u32 list"

record linear_allocator_snapshot =
  ln_arenas :: "arena list"
  ln_high_water :: u32

record signal_state_snapshot =
  gn_actions :: "(int \<times> sig_action) list"
  gn_mask :: u64
  gn_alt_stack :: "bytes option"

record kernel_snapshot =
  kn_format_version :: u32
  kn_pages :: "memory_page_snapshot list"
  kn_fds :: fd_snapshot
  kn_mm :: linear_allocator_snapshot
  kn_vfs :: vfs
  kn_clock :: u64
  kn_brk :: u32
  kn_args :: "bytes list"
  kn_env :: "(bytes \<times> bytes) list"
  kn_rng_seed :: bytes
  kn_signals :: signal_state_snapshot
  kn_exit_code :: "int option"
  kn_comm :: bytes
  kn_futex_table :: "(u32 \<times> u32) list"
  kn_cpu_ns :: u64
  kn_module_sha256 :: bytes

definition SNAPSHOT_FORMAT_VERSION :: u32 where "SNAPSHOT_FORMAT_VERSION = 1"

section \<open>Taking a snapshot\<close>

text \<open>\<open>PipeRead::snapshot\<close> and \<open>PipeWrite::snapshot\<close> are the same code.\<close>

definition pipe_snapshot_of :: "pipe \<Rightarrow> pipe_snapshot" where
  "pipe_snapshot_of p = \<lparr>pn_buf = p_buf p, pn_closed = p_closed p, pn_nonblock = p_nonblock p\<rparr>"

definition file_snapshot_of :: "file_pos \<Rightarrow> file_snapshot" where
  "file_snapshot_of fp =
     \<lparr>fn_path = fp_path fp, fn_pos = fp_pos fp, fn_is_dir = fp_is_dir fp, fn_dir_cache = fp_dir_cache fp\<rparr>"

definition socket_snapshot_of :: "socket_inner \<Rightarrow> socket_snapshot" where
  "socket_snapshot_of s =
     \<lparr>sn_sock_kind = s_kind s, sn_nonblock = s_nonblock s, sn_bound = s_bound s,
      sn_listen_backlog = s_listen_backlog s, sn_so_reuseaddr = s_so_reuseaddr s,
      sn_so_keepalive = s_so_keepalive s, sn_tcp_nodelay = s_tcp_nodelay s,
      sn_peer_addr_present = (s_peer_addr s \<noteq> None), sn_last_error = s_last_error s,
      sn_shutdown_flags = s_shutdown_flags s, sn_is_acceptor = s_is_acceptor s,
      sn_peek_buf = s_peek_buf s, sn_family_unix = s_family_unix s,
      sn_unix_inner =
        map_option (\<lambda>u. \<lparr>un_path = ux_path u, un_peer_addr_present = (ux_peer_addr u \<noteq> None)\<rparr>) (s_unix s),
      sn_inherited = s_inherited s\<rparr>"

definition epoll_snapshot_of :: "epoll_inner \<Rightarrow> epoll_snapshot" where
  "epoll_snapshot_of e =
     \<lparr>en_entries = map snd (sort_key fst (ep_entries e)), en_self_event_fd = ep_self_event_fd e\<rparr>"

definition eventfd_snapshot_of :: "eventfd_inner \<Rightarrow> eventfd_snapshot" where
  "eventfd_snapshot_of e = \<lparr>vn_counter = ev_counter e, vn_nonblock = ev_nonblock e\<rparr>"

definition signal_snapshot_of :: "signal_state \<Rightarrow> signal_state_snapshot" where
  "signal_snapshot_of s =
     \<lparr>gn_actions = sort_key fst (sig_actions s), gn_mask = sig_mask s, gn_alt_stack = sig_alt_stack s\<rparr>"

definition mm_snapshot :: "linear_allocator \<Rightarrow> linear_allocator_snapshot" where
  "mm_snapshot la = \<lparr>ln_arenas = arenas la, ln_high_water = high_water la\<rparr>"

text \<open>A V4 listener recorded with port 0 gets the port the host gave it.\<close>

definition fix_port :: "'h net_ops \<Rightarrow> 'h \<Rightarrow> socket_inner \<Rightarrow> socket_snapshot \<Rightarrow> socket_snapshot" where
  "fix_port N h s sn =
     (case s_listener s of
        None \<Rightarrow> sn
      | Some l \<Rightarrow>
          (case (n_local_port N l h, sn_bound sn) of
             (Some actual, Some (V4 port addr)) \<Rightarrow>
               if port = 0 then sn\<lparr>sn_bound := Some (V4 actual addr)\<rparr> else sn
           | _ \<Rightarrow> sn))"

fun snapshot_resource :: "'h net_ops \<Rightarrow> 'h kernel \<Rightarrow> resource \<Rightarrow> resource_snapshot" where
  "snapshot_resource N k (RStdin r) = from_pipe KStdin (pipe_snapshot_of (k_pipes k ! r))"
| "snapshot_resource N k (RStdout r) = from_pipe KStdout (pipe_snapshot_of (k_pipes k ! r))"
| "snapshot_resource N k (RStderr r) = from_pipe KStderr (pipe_snapshot_of (k_pipes k ! r))"
| "snapshot_resource N k (RPipeRead r) = from_pipe KPipeRead (pipe_snapshot_of (k_pipes k ! r))"
| "snapshot_resource N k (RPipeWrite r) = from_pipe KPipeWrite (pipe_snapshot_of (k_pipes k ! r))"
| "snapshot_resource N k (RFile r) = from_file (file_snapshot_of (k_files k ! r))"
| "snapshot_resource N k (RSocket r) =
     from_socket (fix_port N (k_host k) (k_sockets k ! r) (socket_snapshot_of (k_sockets k ! r)))"
| "snapshot_resource N k (REpoll e) = from_epoll (epoll_snapshot_of e)"
| "snapshot_resource N k (REventFd e) = from_eventfd (eventfd_snapshot_of e)"

text \<open>\<open>iter_for_snapshot\<close> sorted by descriptor.\<close>

definition fds_sorted :: "resource fd_table \<Rightarrow> (u32 \<times> resource) list" where
  "fds_sorted t = map (\<lambda>fd. (fd, the (table t fd))) (sorted_list_of_set (dom (table t)))"

definition build_kernel_snapshot ::
  "'h net_ops \<Rightarrow> 'h kernel \<Rightarrow> memory_page_snapshot list \<Rightarrow> kernel_snapshot" where
  "build_kernel_snapshot N k pages =
     \<lparr>kn_format_version = SNAPSHOT_FORMAT_VERSION,
      kn_pages = pages,
      kn_fds = \<lparr>dn_entries = map (\<lambda>(fd, r). (fd, snapshot_resource N k r)) (fds_sorted (k_fds k)),
                dn_next_fd = next_fd (k_fds k),
                dn_cloexec = sorted_list_of_set (cloexec (k_fds k))\<rparr>,
      kn_mm = mm_snapshot (k_mm k),
      kn_vfs = k_vfs k,
      kn_clock = k_clock k,
      kn_brk = k_brk k,
      kn_args = k_args k,
      kn_env = k_env k,
      kn_rng_seed = k_rng_seed k,
      kn_signals = signal_snapshot_of (k_signals k),
      kn_exit_code = k_exit_code k,
      kn_comm = k_comm k,
      kn_futex_table = futex_snapshot (k_futex k),
      kn_cpu_ns = k_cpu_ns k,
      kn_module_sha256 = replicate 32 0\<rparr>"

definition try_to_snapshot :: "'h net_ops \<Rightarrow> 'h kernel \<Rightarrow> kernel_snapshot snap_res" where
  "try_to_snapshot N k =
     Inr (build_kernel_snapshot N k
       (case kernel_memory_kind (k_memory k) of Inr mk \<Rightarrow> collect_pages (memory_bytes mk) | Inl _ \<Rightarrow> []))"

section \<open>Files\<close>

text \<open>\<open>postcard\<close> as a pair of partial functions.\<close>

type_synonym postcard = "(kernel_snapshot \<Rightarrow> bytes option) \<times> (bytes \<Rightarrow> kernel_snapshot option)"

definition encode_snapshot :: "postcard \<Rightarrow> kernel_snapshot \<Rightarrow> bytes snap_res" where
  "encode_snapshot pc snap = (case fst pc snap of None \<Rightarrow> Inl Postcard | Some bs \<Rightarrow> Inr bs)"

definition decode_snapshot :: "postcard \<Rightarrow> bytes \<Rightarrow> kernel_snapshot snap_res" where
  "decode_snapshot pc bs = (case snd pc bs of None \<Rightarrow> Inl Postcard | Some s \<Rightarrow> Inr s)"

definition write_snapshot_file ::
  "'h host_ops \<Rightarrow> postcard \<Rightarrow> pathbuf \<Rightarrow> kernel_snapshot \<Rightarrow> 'h \<Rightarrow> unit snap_res \<times> 'h" where
  "write_snapshot_file H pc path snap h =
     (case encode_snapshot pc snap of
        Inl e \<Rightarrow> (Inl e, h)
      | Inr bs \<Rightarrow>
          (case h_write_file H path bs h of
             (Inl e, h1) \<Rightarrow> (Inl (IoError e), h1)
           | (Inr _, h1) \<Rightarrow> (Inr (), h1)))"

definition read_snapshot_file ::
  "'h host_ops \<Rightarrow> postcard \<Rightarrow> pathbuf \<Rightarrow> 'h \<Rightarrow> kernel_snapshot snap_res" where
  "read_snapshot_file H pc path h =
     (if \<not> h_exists H path h then Inl (MissingPath (path_str path))
      else case h_read_file H path h of
             Inl e \<Rightarrow> Inl (IoError e)
           | Inr bs \<Rightarrow> decode_snapshot pc bs)"

fun snapshot_syscall :: "'h host_ops \<Rightarrow> 'h net_ops \<Rightarrow> postcard \<Rightarrow> 'h handler" where
  "snapshot_syscall H N pc k (Args snap_path_ptr _ _ _ _ _) =
     (if snap_path_ptr = 0 then (- EFAULT, k)
      else try_ret (guest_str (k_memory k) snap_path_ptr 4096) k (\<lambda>s.
        case try_to_snapshot N k of
          Inl _ \<Rightarrow> (- EIO, k)
        | Inr snap \<Rightarrow>
            (case write_snapshot_file H pc (components s) snap (k_host k) of
               (Inl _, h) \<Rightarrow> (- EIO, k\<lparr>k_host := h\<rparr>)
             | (Inr _, h) \<Rightarrow>
                 (case encode_snapshot pc snap of
                    Inl _ \<Rightarrow> (- EIO, k\<lparr>k_host := h\<rparr>)
                  | Inr bs \<Rightarrow> (int (length bs), k\<lparr>k_host := h\<rparr>)))))"

definition verify_module_hash :: "(bytes \<Rightarrow> bytes) \<Rightarrow> kernel_snapshot \<Rightarrow> bytes \<Rightarrow> unit snap_res" where
  "verify_module_hash sha256 snap wasm_bytes =
     (let computed = sha256 wasm_bytes
      in if kn_module_sha256 snap = replicate 32 0 then Inr ()
         else if computed \<noteq> kn_module_sha256 snap then Inl (ModuleHashMismatch (kn_module_sha256 snap) computed)
         else Inr ())"

section \<open>Applying a snapshot\<close>

text \<open>The scalar state.\<close>

definition replace_from_snapshot :: "linear_allocator_snapshot \<Rightarrow> linear_allocator" where
  "replace_from_snapshot s = \<lparr>arenas = ln_arenas s, high_water = ln_high_water s\<rparr>"

definition restore_signals :: "signal_state_snapshot \<Rightarrow> signal_state" where
  "restore_signals s =
     \<lparr>sig_actions = fold (\<lambda>(n, a). AList.update n a) (gn_actions s) [],
      sig_mask = gn_mask s, sig_alt_stack = gn_alt_stack s\<rparr>"

definition restore_scalars :: "kernel_snapshot \<Rightarrow> 'h kernel \<Rightarrow> 'h kernel" where
  "restore_scalars snap k =
     k\<lparr>k_args := kn_args snap, k_env := kn_env snap, k_comm := kn_comm snap,
       k_exit_code := kn_exit_code snap, k_brk := kn_brk snap, k_rng_seed := kn_rng_seed snap,
       k_vfs := kn_vfs snap, k_clock := kn_clock snap, k_signals := restore_signals (kn_signals snap),
       k_mm := replace_from_snapshot (kn_mm snap),
       k_process := (k_process k)\<lparr>ps_futex := rebuild_from_snapshot (kn_futex_table snap)\<rparr>,
       k_cpu_ns := kn_cpu_ns snap\<rparr>"

text \<open>The resources: a fresh object for every entry.\<close>

definition new_pipe :: "pipe_snapshot option \<Rightarrow> (nat \<Rightarrow> resource) \<Rightarrow> 'h kernel \<Rightarrow> resource snap_res \<times> 'h kernel" where
  "new_pipe ps mk k =
     (case ps of
        None \<Rightarrow> (Inl UnknownResource, k)
      | Some s \<Rightarrow>
          (Inr (mk (length (k_pipes k))),
           k\<lparr>k_pipes := k_pipes k @ [\<lparr>p_buf = pn_buf s, p_closed = pn_closed s, p_nonblock = pn_nonblock s\<rparr>]\<rparr>))"

definition reopen_options :: open_options where
  "reopen_options = \<lparr>oo_read = True, oo_write = True, oo_create = False, oo_create_new = False,
     oo_truncate = False, oo_append = False\<rparr>"

definition restore_file :: "'h host_ops \<Rightarrow> file_snapshot option \<Rightarrow> 'h kernel \<Rightarrow> resource snap_res \<times> 'h kernel" where
  "restore_file H fs k =
     (case fs of
        None \<Rightarrow> (Inl UnknownResource, k)
      | Some f \<Rightarrow>
          if fn_is_dir f then (Inl (Unsupported ''Resource::File (directory) reopen on apply_snapshot''), k)
          else case fn_path f of
            None \<Rightarrow> (Inl (MissingPath (map (of_nat \<circ> of_char) ''<unknown: no path captured>'')), k)
          | Some path \<Rightarrow>
              (case h_open H path reopen_options (k_host k) of
                 (Inl e, h1) \<Rightarrow> (Inl (IoError e), k\<lparr>k_host := h1\<rparr>)
               | (Inr fh, h1) \<Rightarrow>
                   (case hf_seek H fh (SeekStart (fn_pos f)) h1 of
                      (Inl e, h2) \<Rightarrow> (Inl (IoError e), k\<lparr>k_host := h2\<rparr>)
                    | (Inr _, h2) \<Rightarrow>
                        (Inr (RFile (length (k_files k))),
                         k\<lparr>k_host := h2,
                           k_files := k_files k @
                             [\<lparr>fp_inner = fh, fp_pos = fn_pos f, fp_path = Some path, fp_is_dir = False,
                               fp_dir_cache = fn_dir_cache f\<rparr>]\<rparr>))))"

definition add_socket :: "socket_inner \<Rightarrow> 'h kernel \<Rightarrow> resource snap_res \<times> 'h kernel" where
  "add_socket s k = (Inr (RSocket (length (k_sockets k))), k\<lparr>k_sockets := k_sockets k @ [s]\<rparr>)"

text \<open>An AF_UNIX listener: remove a stale socket file, refuse any other file, bind again.\<close>

definition restore_unix :: "'h host_ops \<Rightarrow> 'h net_ops \<Rightarrow> socket_snapshot \<Rightarrow> 'h kernel \<Rightarrow> resource snap_res \<times> 'h kernel" where
  "restore_unix H N sock k =
     (case Option.bind (sn_unix_inner sock) un_path of
        None \<Rightarrow> (Inl AbstractUnixNamespace, k)
      | Some path \<Rightarrow>
          if path \<noteq> [] \<and> hd path = 0 then (Inl AbstractUnixNamespace, k)
          else
            let bind = (\<lambda>h. case n_unix_bind N path h of
                    (Inl e, h2) \<Rightarrow> (Inl (IoError e), k\<lparr>k_host := h2\<rparr>)
                  | (Inr l, h2) \<Rightarrow> add_socket (from_unix_listener l path (sn_nonblock sock)) (k\<lparr>k_host := h2\<rparr>))
            in case h_metadata H (components path) (k_host k) of
                 Inr m \<Rightarrow>
                   if md_type m = FtSocket then bind (snd (h_remove_file H (components path) (k_host k)))
                   else (Inl (IoError AddrInUse), k)
               | Inl _ \<Rightarrow> bind (k_host k))"

definition restore_tcp :: "'h net_ops \<Rightarrow> socket_snapshot \<Rightarrow> 'h kernel \<Rightarrow> resource snap_res \<times> 'h kernel" where
  "restore_tcp N sock k =
     (if \<not> sn_is_acceptor sock then (Inl (Unsupported ''unconnected TCP client not yet supported''), k)
      else case sn_bound sock of
        None \<Rightarrow> (Inl (Unsupported ''missing bound for TCP listener''), k)
      | Some (V4 port addr) \<Rightarrow>
          (case n_tcp_bind N (V4 port addr) (k_host k) of
             (Inl e, h1) \<Rightarrow> (Inl (IoError e), k\<lparr>k_host := h1\<rparr>)
           | (Inr l, h1) \<Rightarrow>
               (case (if sn_so_reuseaddr sock then n_set_reuseaddr N l True h1 else (Inr (), h1)) of
                  (Inl e, h2) \<Rightarrow> (Inl (IoError e), k\<lparr>k_host := h2\<rparr>)
                | (Inr _, h2) \<Rightarrow>
                    (case n_from_std N l h2 of
                       (Inl e, h3) \<Rightarrow> (Inl (IoError e), k\<lparr>k_host := h3\<rparr>)
                     | (Inr lst, h3) \<Rightarrow>
                         add_socket (from_tcp_listener lst (V4 port addr) (sn_so_reuseaddr sock) (sn_nonblock sock))
                           (k\<lparr>k_host := h3\<rparr>))))
      | Some _ \<Rightarrow> (Inl (Unsupported ''only IPv4 socket reopen supported''), k))"

definition restore_socket ::
  "'h host_ops \<Rightarrow> 'h net_ops \<Rightarrow> socket_snapshot option \<Rightarrow> 'h kernel \<Rightarrow> resource snap_res \<times> 'h kernel" where
  "restore_socket H N ss k =
     (case ss of
        None \<Rightarrow> (Inl UnknownResource, k)
      | Some sock \<Rightarrow>
          if sn_is_acceptor sock \<and> sn_peer_addr_present sock then (Inl AcceptedStreamOnListener, k)
          else if sn_family_unix sock then restore_unix H N sock k
          else restore_tcp N sock k)"

definition restore_epoll :: "epoll_snapshot option \<Rightarrow> resource snap_res" where
  "restore_epoll es =
     (case es of
        None \<Rightarrow> Inl UnknownResource
      | Some e \<Rightarrow>
          Inr (REpoll \<lparr>ep_entries = fold (\<lambda>x. AList.update (ee_fd x) x) (en_entries e) [],
                       ep_self_event_fd = en_self_event_fd e\<rparr>))"

definition restore_eventfd :: "eventfd_snapshot option \<Rightarrow> resource snap_res" where
  "restore_eventfd es =
     (case es of
        None \<Rightarrow> Inl UnknownResource
      | Some e \<Rightarrow> Inr (REventFd \<lparr>ev_counter = vn_counter e, ev_nonblock = vn_nonblock e\<rparr>))"

definition restore_resource ::
  "'h host_ops \<Rightarrow> 'h net_ops \<Rightarrow> resource_snapshot \<Rightarrow> 'h kernel \<Rightarrow> resource snap_res \<times> 'h kernel" where
  "restore_resource H N rs k =
     (case rs_kind rs of
        KStdin \<Rightarrow> new_pipe (rb_pipe (rs_body rs)) RStdin k
      | KStdout \<Rightarrow> new_pipe (rb_pipe (rs_body rs)) RStdout k
      | KStderr \<Rightarrow> new_pipe (rb_pipe (rs_body rs)) RStderr k
      | KPipeRead \<Rightarrow> new_pipe (rb_pipe (rs_body rs)) RPipeRead k
      | KPipeWrite \<Rightarrow> new_pipe (rb_pipe (rs_body rs)) RPipeWrite k
      | KFile \<Rightarrow> restore_file H (rb_file (rs_body rs)) k
      | KSocket \<Rightarrow> restore_socket H N (rb_socket (rs_body rs)) k
      | KEpoll \<Rightarrow> (restore_epoll (rb_epoll (rs_body rs)), k)
      | KEventFd \<Rightarrow> (restore_eventfd (rb_eventfd (rs_body rs)), k))"

definition is_inherited :: "resource_snapshot \<Rightarrow> bool" where
  "is_inherited rs \<longleftrightarrow>
     rs_kind rs = KSocket \<and> (case rb_socket (rs_body rs) of Some s \<Rightarrow> sn_inherited s | None \<Rightarrow> False)"

fun restore_entries ::
  "'h host_ops \<Rightarrow> 'h net_ops \<Rightarrow> (u32 \<times> resource_snapshot) list \<Rightarrow> 'h kernel \<Rightarrow> unit snap_res \<times> 'h kernel" where
  "restore_entries H N [] k = (Inr (), k)"
| "restore_entries H N ((fd, rs) # es) k =
     (if is_inherited rs then restore_entries H N es k
      else case restore_resource H N rs k of
        (Inl e, k1) \<Rightarrow> (Inl e, k1)
      | (Inr r, k1) \<Rightarrow>
          (case fd_insert_at (k_fds k1) fd r of
             (Inl _, _) \<Rightarrow> (Inl (IoError OtherKind), k1)
           | (Inr _, t) \<Rightarrow> restore_entries H N es (k1\<lparr>k_fds := t\<rparr>)))"

definition apply_snapshot_kernel_state ::
  "'h host_ops \<Rightarrow> 'h net_ops \<Rightarrow> kernel_snapshot \<Rightarrow> 'h kernel \<Rightarrow> unit snap_res \<times> 'h kernel" where
  "apply_snapshot_kernel_state H N snap k =
     (if kn_format_version snap \<noteq> SNAPSHOT_FORMAT_VERSION
      then (Inl (FormatVersionMismatch (kn_format_version snap) SNAPSHOT_FORMAT_VERSION), k)
      else
        case restore_entries H N (sort_key fst (dn_entries (kn_fds snap))) ((restore_scalars snap k)\<lparr>k_fds := fd_empty\<rparr>) of
          (Inl e, k1) \<Rightarrow> (Inl e, k1)
        | (Inr _, k1) \<Rightarrow>
            (Inr (),
             k1\<lparr>k_fds := (fold (\<lambda>fd t. fd_set_cloexec t fd True) (dn_cloexec (kn_fds snap)) (k_fds k1))
                           \<lparr>next_fd := dn_next_fd (kn_fds snap)\<rparr>\<rparr>))"

definition apply_snapshot_inherited_listeners ::
  "kernel_snapshot \<Rightarrow> (u32 \<times> nat) list \<Rightarrow> 'h kernel \<Rightarrow> unit snap_res \<times> 'h kernel" where
  "apply_snapshot_inherited_listeners snap listeners k =
     (let inherited_fds = map fst (filter (\<lambda>(fd, rs). is_inherited rs) (dn_entries (kn_fds snap)))
      in (Inr (),
          fold (\<lambda>(fd, s) k. if fd \<in> set inherited_fds
                             then k\<lparr>k_fds := snd (fd_insert_at (k_fds k) fd (RSocket s))\<rparr> else k)
            listeners k))"

definition apply_snapshot ::
  "'h host_ops \<Rightarrow> 'h net_ops \<Rightarrow> (bytes \<Rightarrow> nat \<Rightarrow> bytes option) \<Rightarrow> kernel_snapshot \<Rightarrow> 'h kernel \<Rightarrow>
   unit snap_res \<times> 'h kernel" where
  "apply_snapshot H N G snap k =
     (case apply_snapshot_kernel_state H N snap k of
        (Inl e, k1) \<Rightarrow> (Inl e, k1)
      | (Inr _, k1) \<Rightarrow>
          (let (r, mem) = dispatch_memory_apply G (kn_pages snap) (k_memory k1)
           in (r, k1\<lparr>k_memory := mem\<rparr>)))"

section \<open>Restored resources are fresh objects\<close>

text \<open>The shared object behind a descriptor.\<close>

datatype obj_ref = PipeObj nat | FileObj nat | SocketObj nat

fun obj_of :: "resource \<Rightarrow> obj_ref option" where
  "obj_of (RStdin r) = Some (PipeObj r)"
| "obj_of (RStdout r) = Some (PipeObj r)"
| "obj_of (RStderr r) = Some (PipeObj r)"
| "obj_of (RPipeRead r) = Some (PipeObj r)"
| "obj_of (RPipeWrite r) = Some (PipeObj r)"
| "obj_of (RFile r) = Some (FileObj r)"
| "obj_of (RSocket r) = Some (SocketObj r)"
| "obj_of (REpoll e) = None"
| "obj_of (REventFd e) = None"

definition unshared :: "'h kernel \<Rightarrow> bool" where
  "unshared k \<longleftrightarrow>
     (\<forall>fd fd' r r'. table (k_fds k) fd = Some r \<longrightarrow> table (k_fds k) fd' = Some r' \<longrightarrow>
        obj_of r = obj_of r' \<longrightarrow> obj_of r \<noteq> None \<longrightarrow> fd = fd')"

lemma resource_ok_obj: "obj_of r = obj_of r' \<Longrightarrow> obj_of r \<noteq> None \<Longrightarrow> resource_ok k r = resource_ok k r'"
  by (cases r; cases r') auto

text \<open>What building a resource may change.\<close>

definition heap_grows :: "'h kernel \<Rightarrow> 'h kernel \<Rightarrow> bool" where
  "heap_grows k k1 \<longleftrightarrow>
     prefix (k_pipes k) (k_pipes k1) \<and> prefix (k_files k) (k_files k1) \<and> prefix (k_sockets k) (k_sockets k1) \<and>
     k1\<lparr>k_pipes := k_pipes k, k_files := k_files k, k_sockets := k_sockets k, k_host := k_host k\<rparr> = k"

lemma heap_grows_intros [intro, simp]:
  "heap_grows k k" "heap_grows k (k\<lparr>k_host := h\<rparr>)" "heap_grows k (k\<lparr>k_pipes := k_pipes k @ ps\<rparr>)"
  "heap_grows k (k\<lparr>k_host := h, k_files := k_files k @ fs\<rparr>)"
  "heap_grows k (k\<lparr>k_host := h, k_sockets := k_sockets k @ ss\<rparr>)"
  by (cases k, simp add: heap_grows_def)+

lemma heap_grows_ok: "heap_grows k k1 \<Longrightarrow> resource_ok k r \<Longrightarrow> resource_ok k1 r"
  unfolding heap_grows_def by (cases r) (auto dest: prefix_length_le)

lemma heap_grows_fds: "heap_grows k k1 \<Longrightarrow> k_fds k1 = k_fds k"
proof -
  assume "heap_grows k k1"
  then have "k_fds (k1\<lparr>k_pipes := k_pipes k, k_files := k_files k, k_sockets := k_sockets k, k_host := k_host k\<rparr>) = k_fds k"
    by (simp add: heap_grows_def)
  then show ?thesis by simp
qed

definition builds :: "'h kernel \<Rightarrow> resource snap_res \<times> 'h kernel \<Rightarrow> bool" where
  "builds k out \<longleftrightarrow> heap_grows k (snd out) \<and>
     (\<forall>r. fst out = Inr r \<longrightarrow> resource_ok (snd out) r \<and> (obj_of r = None \<or> \<not> resource_ok k r))"

lemma builds_err: "heap_grows k k1 \<Longrightarrow> builds k (Inl e, k1)"
  by (simp add: builds_def)

lemma builds_new_pipe:
  "mk \<in> {RStdin, RStdout, RStderr, RPipeRead, RPipeWrite} \<Longrightarrow> builds k (new_pipe ps mk k)"
  by (auto simp: builds_def new_pipe_def split: option.split)

lemma builds_restore_file: "builds k (restore_file H fs k)"
  unfolding restore_file_def by (auto simp: builds_def split: option.split prod.split sum.split)

lemma builds_add_socket: "builds k (add_socket s (k\<lparr>k_host := h\<rparr>))"
  by (simp add: builds_def add_socket_def)

lemma builds_restore_unix: "builds k (restore_unix H N sock k)"
  unfolding restore_unix_def Let_def
  by (intro builds_err [OF heap_grows_intros(1)] builds_err [OF heap_grows_intros(2)] builds_add_socket conjI allI impI |
      split option.split prod.split sum.split if_split)+

lemma builds_restore_tcp: "builds k (restore_tcp N sock k)"
  unfolding restore_tcp_def
  by (intro builds_err [OF heap_grows_intros(1)] builds_err [OF heap_grows_intros(2)] builds_add_socket conjI allI impI |
      split option.split prod.split sum.split if_split sock_addr.split)+

lemma builds_restore_resource: "builds k (restore_resource H N rs k)"
proof (cases "rs_kind rs")
  case KSocket
  then show ?thesis
    by (auto simp: restore_resource_def restore_socket_def builds_restore_unix builds_restore_tcp
        intro: builds_err split: option.split)
qed (auto simp: restore_resource_def builds_new_pipe builds_restore_file restore_epoll_def restore_eventfd_def
    builds_def [of _ "(_, _)"] split: option.split)

definition restored_ok :: "'h kernel \<Rightarrow> bool" where
  "restored_ok k \<longleftrightarrow> unshared k \<and> fds_wf k"

lemma restored_ok_insert:
  assumes "restored_ok k" "builds k (Inr r, k1)" "fd_insert_at (k_fds k1) fd r = (Inr fd', t)"
  shows "restored_ok (k1\<lparr>k_fds := t\<rparr>)"
proof -
  have g: "heap_grows k k1" and r: "resource_ok k1 r" "obj_of r = None \<or> \<not> resource_ok k r"
    using assms(2) by (simp_all add: builds_def)
  have t: "table t = (table (k_fds k))(fd \<mapsto> r)"
    using assms(3) heap_grows_fds [OF g] by (auto simp: fd_insert_at_def split: if_splits)
  have ok: "resource_ok (k1\<lparr>k_fds := t\<rparr>) x = resource_ok k1 x" for x by (cases x) simp_all
  have wf: "table (k_fds k) fd = Some x \<Longrightarrow> resource_ok k x" for fd x
    using assms(1) by (auto simp: restored_ok_def fds_wf_def)
  have new: "obj_of r \<noteq> obj_of x \<or> obj_of r = None" if "table (k_fds k) fd = Some x" for fd x
    using resource_ok_obj [of r x k] wf [OF that] r(2) by metis
  have old: "obj_of x = obj_of y \<Longrightarrow> obj_of x \<noteq> None \<Longrightarrow> a = b"
    if "table (k_fds k) a = Some x" "table (k_fds k) b = Some y" for a b x y
    using assms(1) that unfolding restored_ok_def unshared_def by blast
  have "unshared (k1\<lparr>k_fds := t\<rparr>)"
    unfolding unshared_def
  proof (intro allI impI)
    fix a b x y
    assume "table (k_fds (k1\<lparr>k_fds := t\<rparr>)) a = Some x" "table (k_fds (k1\<lparr>k_fds := t\<rparr>)) b = Some y"
      and e: "obj_of x = obj_of y" "obj_of x \<noteq> None"
    then have ab: "((table (k_fds k))(fd \<mapsto> r)) a = Some x" "((table (k_fds k))(fd \<mapsto> r)) b = Some y"
      by (simp_all add: t)
    show "a = b"
      using ab e old [of a x b y] new [of a x] new [of b y] by (auto split: if_splits)
  qed
  moreover have "fds_wf (k1\<lparr>k_fds := t\<rparr>)"
    using wf heap_grows_ok [OF g] r(1) by (auto simp: fds_wf_def ok t)
  ultimately show ?thesis by (simp add: restored_ok_def)
qed

lemma restore_entries_ok:
  "restored_ok k \<Longrightarrow> restore_entries H N es k = (Inr (), k') \<Longrightarrow> restored_ok k'"
proof (induction es arbitrary: k)
  case (Cons x es)
  obtain fd rs where x: "x = (fd, rs)" by (cases x)
  show ?case
  proof (cases "is_inherited rs")
    case False
    with Cons.prems x obtain r k1 t where
      "restore_resource H N rs k = (Inr r, k1)" "fd_insert_at (k_fds k1) fd r = (Inr fd, t)"
      and rest: "restore_entries H N es (k1\<lparr>k_fds := t\<rparr>) = (Inr (), k')"
      by (auto simp: fd_insert_at_def split: prod.splits sum.splits if_splits)
    then have "restored_ok (k1\<lparr>k_fds := t\<rparr>)"
      using restored_ok_insert [OF Cons.prems(1), of r k1] builds_restore_resource [of k H N rs] by simp
    then show ?thesis by (rule Cons.IH [OF _ rest])
  qed (use Cons x in auto)
qed simp

section \<open>A snapshot survives a restore\<close>

text \<open>
  The resources a restore rebuilds in full: pipes, event counters, epoll sets that are well-formed maps,
  and regular files with a known path.  \<open>reopens\<close> tells whether the host, from the state it is in, opens
  and positions the given files one after the other; \<open>open_files\<close> lists those of a kernel by descriptor.
\<close>

fun restorable :: "'h kernel \<Rightarrow> resource \<Rightarrow> bool" where
  "restorable k (RFile r) = (\<not> fp_is_dir (k_files k ! r) \<and> fp_path (k_files k ! r) \<noteq> None)"
| "restorable k (RSocket r) = False"
| "restorable k (REpoll e) = (distinct (map fst (ep_entries e)) \<and> (\<forall>(fd, x) \<in> set (ep_entries e). ee_fd x = fd))"
| "restorable k _ = True"

definition reopen_one :: "'h host_ops \<Rightarrow> pathbuf \<Rightarrow> u64 \<Rightarrow> 'h \<Rightarrow> 'h option" where
  "reopen_one H p pos h =
     (case h_open H p reopen_options h of
        (Inl _, _) \<Rightarrow> None
      | (Inr f, h1) \<Rightarrow> (case hf_seek H f (SeekStart pos) h1 of (Inl _, _) \<Rightarrow> None | (Inr _, h2) \<Rightarrow> Some h2))"

fun reopens :: "'h host_ops \<Rightarrow> (pathbuf \<times> u64) list \<Rightarrow> 'h \<Rightarrow> bool" where
  "reopens H [] h = True"
| "reopens H ((p, pos) # fs) h = (case reopen_one H p pos h of None \<Rightarrow> False | Some h1 \<Rightarrow> reopens H fs h1)"

fun open_file :: "'h kernel \<Rightarrow> resource \<Rightarrow> (pathbuf \<times> u64) list" where
  "open_file k (RFile r) = (case fp_path (k_files k ! r) of None \<Rightarrow> [] | Some p \<Rightarrow> [(p, fp_pos (k_files k ! r))])"
| "open_file k _ = []"

definition open_files :: "'h kernel \<Rightarrow> (pathbuf \<times> u64) list" where
  "open_files k = concat (map (\<lambda>x. open_file k (snd x)) (fds_sorted (k_fds k)))"

lemma update_fresh: "n \<notin> fst ` set al \<Longrightarrow> AList.update n v al = al @ [(n, v)]"
  by (induction al) auto

lemma fold_update_fresh:
  "distinct (map fst al @ map fst xs) \<Longrightarrow> fold (\<lambda>(n, v). AList.update n v) xs al = al @ xs"
proof (induction xs arbitrary: al)
  case (Cons x xs)
  obtain n v where x: "x = (n, v)" by (cases x)
  have "n \<notin> fst ` set al" "distinct (map fst (al @ [(n, v)]) @ map fst xs)" using Cons.prems by (auto simp: x)
  then show ?case using Cons.IH [of "al @ [(n, v)]"] by (simp add: x update_fresh)
qed simp

lemma distinct_sort_fst: "distinct (map fst xs) \<Longrightarrow> distinct (map fst (sort_key fst xs))"
proof -
  assume d: "distinct (map fst xs)"
  have "mset (map fst (sort_key fst xs)) = mset (map fst xs)" by (simp add: mset_map)
  with d mset_eq_imp_distinct_iff show ?thesis by blast
qed

text \<open>Rebuilding a map from its sorted list and sorting it again gives the same list.\<close>

lemma sort_rebuild:
  assumes "distinct (map fst xs)"
  shows "sort_key fst (fold (\<lambda>(n, v). AList.update n v) (sort_key fst xs) []) = sort_key fst xs"
  using fold_update_fresh [of "[]" "sort_key fst xs"] distinct_sort_fst [OF assms]
  by (simp add: sort_key_id_if_sorted)

lemma futex_rebuild_fold: "futex_rebuild t fs = fold (\<lambda>(u, n). AList.update u n) (map (\<lambda>(u, n). (u, unat n)) fs) t"
  by (induction t fs rule: futex_rebuild.induct) simp_all

lemma futex_snapshot_again:
  assumes "distinct (map fst t)"
  shows "futex_snapshot (rebuild_from_snapshot (futex_snapshot t)) = futex_snapshot t"
proof -
  define s where "s = futex_snapshot t"
  have fst: "map fst (map (\<lambda>(u, n). (u, unat (n :: u32))) s) = map fst s" by (simp add: case_prod_unfold)
  have "distinct (map fst s)" unfolding s_def futex_snapshot_def
    by (rule distinct_sort_fst) (use assms in \<open>simp add: comp_def case_prod_unfold\<close>)
  then have "rebuild_from_snapshot s = map (\<lambda>(u, n). (u, unat n)) s"
    unfolding rebuild_from_snapshot_def futex_rebuild_fold
    by (subst fold_update_fresh) (simp_all add: fst del: map_map)
  moreover have "sorted (map fst s)" by (simp add: s_def futex_snapshot_def)
  ultimately have "futex_snapshot (rebuild_from_snapshot s) = s"
    by (simp add: futex_snapshot_def comp_def case_prod_unfold sort_key_id_if_sorted)
  then show ?thesis by (simp add: s_def)
qed

lemma epoll_snapshot_again:
  assumes "restorable k (REpoll e)"
  shows "\<exists>e'. restore_epoll (Some (epoll_snapshot_of e)) = Inr (REpoll e') \<and> epoll_snapshot_of e' = epoll_snapshot_of e"
proof -
  let ?s = "sort_key fst (ep_entries e)"
  have key: "map (\<lambda>x. (ee_fd x, x)) (map snd ?s) = ?s"
    unfolding map_map by (rule map_idI) (use assms in auto)
  have "fold (\<lambda>x. AList.update (ee_fd x) x) xs al = fold (\<lambda>(n, v). AList.update n v) (map (\<lambda>x. (ee_fd x, x)) xs) al" for xs al
    by (induction xs arbitrary: al) simp_all
  from this [of "map snd ?s" "[]"]
  have "fold (\<lambda>x. AList.update (ee_fd x) x) (map snd ?s) [] = fold (\<lambda>(n, v). AList.update n v) ?s []"
    by (simp only: key)
  then show ?thesis
    using sort_rebuild [of "ep_entries e"] assms by (simp add: restore_epoll_def epoll_snapshot_of_def)
qed

text \<open>The image of a resource that is not a socket depends on its own object only.\<close>

definition plain_resource :: "resource \<Rightarrow> bool" where
  "plain_resource r \<longleftrightarrow> (\<forall>s. r \<noteq> RSocket s)"

lemma snapshot_resource_grows:
  assumes "heap_grows k k1" "resource_ok k r" "plain_resource r"
  shows "snapshot_resource N (k1\<lparr>k_fds := t\<rparr>) r = snapshot_resource N k r"
  using assms unfolding heap_grows_def prefix_def
  by (cases r) (auto simp: plain_resource_def nth_append)

lemma restore_file_cases:
  assumes "restorable k (RFile i)" "fp_path (k_files k ! i) = Some p"
  shows "case reopen_one H p (fp_pos (k_files k ! i)) (k_host k1) of
      None \<Rightarrow> \<exists>e k2. restore_resource H N (snapshot_resource N k (RFile i)) k1 = (Inl (IoError e), k2)
    | Some h \<Rightarrow> \<exists>r' k2. restore_resource H N (snapshot_resource N k (RFile i)) k1 = (Inr r', k2) \<and> plain_resource r' \<and>
        snapshot_resource N k2 r' = snapshot_resource N k (RFile i) \<and> k_host k2 = h"
proof -
  have "restore_resource H N (snapshot_resource N k (RFile i)) k1 = restore_file H (Some (file_snapshot_of (k_files k ! i))) k1"
    by (simp add: restore_resource_def from_file_def default_body_def)
  moreover have "\<not> fn_is_dir (file_snapshot_of (k_files k ! i))" "fn_path (file_snapshot_of (k_files k ! i)) = Some p"
    "fn_pos (file_snapshot_of (k_files k ! i)) = fp_pos (k_files k ! i)"
    using assms by (simp_all add: file_snapshot_of_def)
  ultimately show ?thesis
    using assms by (auto simp: restore_file_def reopen_one_def plain_resource_def from_file_def file_snapshot_of_def
        split: prod.split sum.split)
qed

lemma restore_resource_plain:
  assumes "restorable k r" "reopens H (open_file k r @ fs) (k_host k1)"
  shows "\<exists>r' k2. restore_resource H N (snapshot_resource N k r) k1 = (Inr r', k2) \<and> plain_resource r' \<and>
    snapshot_resource N k2 r' = snapshot_resource N k r \<and> reopens H fs (k_host k2)"
proof (cases r)
  case (RFile i)
  with assms obtain p where p: "fp_path (k_files k ! i) = Some p" by auto
  from restore_file_cases [OF assms(1) [unfolded RFile] p, of H N k1] assms(2) p show ?thesis
    by (auto simp: RFile split: option.splits)
next
  case (REpoll e)
  from epoll_snapshot_again [OF assms(1) [unfolded REpoll]] show ?thesis
    using assms(2) by (auto simp: REpoll restore_resource_def from_epoll_def default_body_def plain_resource_def)
qed (use assms in \<open>auto simp: restore_resource_def from_pipe_def from_eventfd_def default_body_def new_pipe_def
      pipe_snapshot_of_def eventfd_snapshot_of_def restore_eventfd_def plain_resource_def\<close>)

text \<open>When the host refuses a file, so does the restore, with the host's error.\<close>

lemma restore_resource_refused:
  assumes "restorable k r" "\<not> reopens H (open_file k r) (k_host k1)"
  shows "\<exists>e k2. restore_resource H N (snapshot_resource N k r) k1 = (Inl (IoError e), k2)"
proof (cases r)
  case (RFile i)
  with assms obtain p where p: "fp_path (k_files k ! i) = Some p" by auto
  from restore_file_cases [OF assms(1) [unfolded RFile] p, of H N k1] assms(2) p show ?thesis
    by (auto simp: RFile split: option.splits)
qed (use assms(2) in simp_all)

lemma restore_resource_host:
  assumes "restorable k r" "restore_resource H N (snapshot_resource N k r) k1 = (Inr r', k2)"
  shows "reopens H (open_file k r @ fs) (k_host k1) = reopens H fs (k_host k2)"
proof (cases r)
  case (RFile i)
  with assms obtain p where p: "fp_path (k_files k ! i) = Some p" by auto
  from restore_file_cases [OF assms(1) [unfolded RFile] p, of H N k1] assms(2) p show ?thesis
    by (auto simp: RFile split: option.splits)
qed (use assms in \<open>auto simp: restore_resource_def default_body_def from_pipe_def from_eventfd_def from_epoll_def new_pipe_def\<close>)

lemma reopens_append: "reopens H (xs @ ys) h \<Longrightarrow> reopens H xs h"
  by (induction H xs h rule: reopens.induct) (auto split: option.splits)

lemma snapshot_not_inherited: "restorable k r \<Longrightarrow> \<not> is_inherited (snapshot_resource N k r)"
  by (cases r) (auto simp: is_inherited_def from_pipe_def from_file_def from_epoll_def from_eventfd_def)

text \<open>The descriptors of \<open>k1\<close> that carry the images of the source entries \<open>xs\<close>.\<close>

definition carries :: "'h net_ops \<Rightarrow> 'h kernel \<Rightarrow> 'h kernel \<Rightarrow> (u32 \<times> resource) list \<Rightarrow> bool" where
  "carries N k k1 xs \<longleftrightarrow>
     dom (table (k_fds k1)) = fst ` set xs \<and>
     (\<forall>(fd, r) \<in> set xs. \<exists>r'. table (k_fds k1) fd = Some r' \<and> plain_resource r' \<and> resource_ok k1 r' \<and>
        snapshot_resource N k1 r' = snapshot_resource N k r)"

lemma carries_insert:
  assumes c: "carries N k k1 xs" and b: "builds k1 (Inr r', k2)" and fd: "fd \<notin> fst ` set xs"
    and r': "plain_resource r'" "snapshot_resource N k2 r' = snapshot_resource N k r"
    and t: "table t = (table (k_fds k1))(fd \<mapsto> r')"
  shows "carries N k (k2\<lparr>k_fds := t\<rparr>) (xs @ [(fd, r)])"
proof -
  have g: "heap_grows k1 k2" and ok: "resource_ok k2 r'" using b by (simp_all add: builds_def)
  have upd: "resource_ok (k2\<lparr>k_fds := t\<rparr>) x = resource_ok k2 x" for x by (cases x) simp_all
  have new: "snapshot_resource N (k2\<lparr>k_fds := t\<rparr>) r' = snapshot_resource N k r"
    using snapshot_resource_grows [OF heap_grows_intros(1) ok r'(1)] r'(2) by simp
  have "\<exists>y. table t a = Some y \<and> plain_resource y \<and> resource_ok (k2\<lparr>k_fds := t\<rparr>) y \<and>
      snapshot_resource N (k2\<lparr>k_fds := t\<rparr>) y = snapshot_resource N k x" if ax: "(a, x) \<in> set xs" for a x
  proof -
    from c ax obtain y where y: "table (k_fds k1) a = Some y" "plain_resource y" "resource_ok k1 y"
      "snapshot_resource N k1 y = snapshot_resource N k x" by (auto simp: carries_def)
    have "a \<noteq> fd" using fd ax by force
    with y show ?thesis
      using snapshot_resource_grows [OF g y(3,2)] heap_grows_ok [OF g y(3)] by (simp add: t upd)
  qed
  moreover have "dom (table t) = fst ` set (xs @ [(fd, r)])" using c by (auto simp: t carries_def)
  ultimately show ?thesis using new ok r'(1) by (auto simp: carries_def upd t)
qed

text \<open>What the loop over the entries leaves alone.\<close>

definition only_heap :: "'h kernel \<Rightarrow> 'h kernel \<Rightarrow> bool" where
  "only_heap k k1 \<longleftrightarrow> cloexec (k_fds k1) = cloexec (k_fds k) \<and>
     k1\<lparr>k_pipes := k_pipes k, k_files := k_files k, k_sockets := k_sockets k, k_host := k_host k, k_fds := k_fds k\<rparr> = k"

lemma only_heap_trans: "only_heap k k1 \<Longrightarrow> only_heap k1 k2 \<Longrightarrow> only_heap k k2"
  by (cases k; cases k1; cases k2) (simp add: only_heap_def)

lemma only_heap_step:
  "heap_grows k k1 \<Longrightarrow> cloexec t = cloexec (k_fds k) \<Longrightarrow> only_heap k (k1\<lparr>k_fds := t\<rparr>)"
  by (cases k; cases k1) (simp add: only_heap_def heap_grows_def)

lemma restore_entries_carries:
  assumes "carries N k k1 xs" "distinct (map fst (xs @ ys))" "\<forall>(fd, r) \<in> set ys. restorable k r"
  shows "\<exists>e k2. restore_entries H N (map (\<lambda>(fd, r). (fd, snapshot_resource N k r)) ys) k1 = (e, k2) \<and>
    (if reopens H (concat (map (\<lambda>x. open_file k (snd x)) ys)) (k_host k1)
     then e = Inr () \<and> carries N k k2 (xs @ ys) \<and> only_heap k1 k2 else \<exists>x. e = Inl (IoError x))"
  using assms
proof (induction ys arbitrary: k1 xs)
  case (Cons y ys)
  obtain fd r where y: "y = (fd, r)" by (cases y)
  let ?fs = "concat (map (\<lambda>x. open_file k (snd x)) ys)"
  have r: "restorable k r" and fd: "fd \<notin> fst ` set xs" using Cons.prems by (auto simp: y)
  show ?case
  proof (cases "reopens H (open_file k r @ []) (k_host k1)")
    case False
    then have "\<not> reopens H (open_file k r @ ?fs) (k_host k1)" using reopens_append [of H "open_file k r" ?fs] by auto
    moreover obtain e k2 where "restore_resource H N (snapshot_resource N k r) k1 = (Inl (IoError e), k2)"
      using restore_resource_refused [OF r, of H k1 N] False by auto
    ultimately show ?thesis by (simp add: y snapshot_not_inherited [OF r])
  next
    case True
    from restore_resource_plain [OF r True] obtain r' k2 where
      r': "restore_resource H N (snapshot_resource N k r) k1 = (Inr r', k2)" "plain_resource r'"
        "snapshot_resource N k2 r' = snapshot_resource N k r" by blast
    have b: "builds k1 (Inr r', k2)" using builds_restore_resource [of k1 H N "snapshot_resource N k r"] by (simp add: r'(1))
    then have g: "heap_grows k1 k2" by (simp add: builds_def)
    define t where "t = snd (fd_insert_at (k_fds k2) fd r')"
    have "table (k_fds k2) fd = None"
      using Cons.prems(1) fd heap_grows_fds [OF g] by (auto simp: carries_def)
    then have t: "fd_insert_at (k_fds k2) fd r' = (Inr fd, t)" "table t = (table (k_fds k1))(fd \<mapsto> r')"
      "cloexec t = cloexec (k_fds k1)"
      using heap_grows_fds [OF g] by (simp_all add: t_def fd_insert_at_def)
    note step = carries_insert [OF Cons.prems(1) b fd r'(2,3) t(2)]
    have "distinct (map fst ((xs @ [(fd, r)]) @ ys))" "\<forall>(fd, r) \<in> set ys. restorable k r" using Cons.prems by (auto simp: y)
    from Cons.IH [OF step this] obtain e k3 where
      k3: "restore_entries H N (map (\<lambda>(fd, r). (fd, snapshot_resource N k r)) ys) (k2\<lparr>k_fds := t\<rparr>) = (e, k3)"
        "if reopens H ?fs (k_host k2) then e = Inr () \<and> carries N k k3 (xs @ y # ys) \<and> only_heap (k2\<lparr>k_fds := t\<rparr>) k3
         else \<exists>x. e = Inl (IoError x)"
      unfolding append.assoc append.simps y [symmetric] by auto
    moreover have "reopens H (open_file k r @ ?fs) (k_host k1) = reopens H ?fs (k_host k2)"
      by (rule restore_resource_host [OF r r'(1)])
    ultimately show ?thesis
      using only_heap_trans [OF only_heap_step [OF g t(3)], of k3]
      by (auto simp: y r'(1) t(1) snapshot_not_inherited [OF r] split: if_splits)
  qed
qed (auto simp: only_heap_def)

lemma fold_cloexec:
  "table (fold (\<lambda>fd t. fd_set_cloexec t fd True) fds t) = table t"
  "cloexec (fold (\<lambda>fd t. fd_set_cloexec t fd True) fds t) = cloexec t \<union> set fds"
  by (induction fds arbitrary: t) (auto simp: fd_set_cloexec_def)

lemma fds_sorted_keys: "map fst (fds_sorted t) = sorted_list_of_set (dom (table t))"
  by (simp add: fds_sorted_def comp_def)

lemma fds_sorted_mem: "(fd, r) \<in> set (fds_sorted t) \<longleftrightarrow> table t fd = Some r"
  by (auto simp: fds_sorted_def)

lemma carries_sorted:
  assumes "carries N k k1 (fds_sorted (k_fds k))"
  shows "map (\<lambda>(fd, r). (fd, snapshot_resource N k1 r)) (fds_sorted (k_fds k1)) =
    map (\<lambda>(fd, r). (fd, snapshot_resource N k r)) (fds_sorted (k_fds k))"
proof -
  have d: "dom (table (k_fds k1)) = dom (table (k_fds k))"
    using assms arg_cong [OF fds_sorted_keys [of "k_fds k"], of set] by (simp add: carries_def)
  have "snapshot_resource N k1 (the (table (k_fds k1) fd)) = snapshot_resource N k (the (table (k_fds k) fd))"
    if "fd \<in> dom (table (k_fds k))" for fd
    using assms that unfolding carries_def by (force simp: fds_sorted_mem)
  then show ?thesis by (simp add: fds_sorted_def d)
qed

lemma restore_scalars_image:
  assumes "distinct (map fst (sig_actions (k_signals k)))" "distinct (map fst (k_futex k))"
  shows "signal_snapshot_of (restore_signals (signal_snapshot_of (k_signals k))) = signal_snapshot_of (k_signals k)"
    "mm_snapshot (replace_from_snapshot (mm_snapshot la)) = mm_snapshot la"
    "futex_snapshot (rebuild_from_snapshot (futex_snapshot (k_futex k))) = futex_snapshot (k_futex k)"
  using sort_rebuild [OF assms(1)] futex_snapshot_again [OF assms(2)]
  by (simp_all add: signal_snapshot_of_def restore_signals_def mm_snapshot_def replace_from_snapshot_def)

lemma only_heap_scalars:
  assumes "only_heap (k\<lparr>k_fds := t\<rparr>) k1"
  shows "cloexec (k_fds k1) = cloexec t" "k_mm k1 = k_mm k" "k_vfs k1 = k_vfs k" "k_clock k1 = k_clock k"
    "k_brk k1 = k_brk k" "k_args k1 = k_args k" "k_env k1 = k_env k" "k_rng_seed k1 = k_rng_seed k"
    "k_signals k1 = k_signals k" "k_exit_code k1 = k_exit_code k" "k_comm k1 = k_comm k" "k_process k1 = k_process k"
    "k_cpu_ns k1 = k_cpu_ns k" "k_memory k1 = k_memory k"
  using assms by (cases k; cases k1; simp add: only_heap_def)+

lemma snapshot_resource_fds: "snapshot_resource N (k\<lparr>k_fds := t\<rparr>) r = snapshot_resource N k r"
  by (cases r) simp_all

text \<open>The entries of a snapshot are sorted already.\<close>

lemma image_entries:
  "dn_entries (kn_fds (build_kernel_snapshot N k pages)) = map (\<lambda>(fd, r). (fd, snapshot_resource N k r)) (fds_sorted (k_fds k))"
  by (simp add: build_kernel_snapshot_def)

lemma sorted_image:
  "sort_key fst (map (\<lambda>(fd, r). (fd, snapshot_resource N k r)) (fds_sorted (k_fds k))) =
    map (\<lambda>(fd, r). (fd, snapshot_resource N k r)) (fds_sorted (k_fds k))"
proof (rule sort_key_id_if_sorted)
  have "map fst (map (\<lambda>(fd, r). (fd, snapshot_resource N k r)) (fds_sorted (k_fds k))) = map fst (fds_sorted (k_fds k))"
    by (simp add: case_prod_unfold)
  then show "sorted (map fst (map (\<lambda>(fd, r). (fd, snapshot_resource N k r)) (fds_sorted (k_fds k))))"
    by (simp only: fds_sorted_keys sorted_list_of_set.sorted_sorted_key_list_of_set)
qed

lemma restored_entries:
  assumes "\<forall>fd r. table (k_fds k) fd = Some r \<longrightarrow> restorable k r" "table (k_fds k0) = Map.empty"
  shows "\<exists>e k1. restore_entries H N (map (\<lambda>(fd, r). (fd, snapshot_resource N k r)) (fds_sorted (k_fds k))) k0 = (e, k1) \<and>
    (if reopens H (open_files k) (k_host k0) then e = Inr () \<and> carries N k k1 (fds_sorted (k_fds k)) \<and> only_heap k0 k1
     else \<exists>x. e = Inl (IoError x))"
proof -
  have "carries N k k0 []" by (simp add: carries_def assms(2))
  moreover have "distinct (map fst ([] @ fds_sorted (k_fds k)))" by (simp add: fds_sorted_keys)
  moreover have "\<forall>(fd, r) \<in> set (fds_sorted (k_fds k)). restorable k r" using assms(1) by (auto simp: fds_sorted_mem)
  ultimately show ?thesis
    unfolding open_files_def using restore_entries_carries [of N k k0 "[]" "fds_sorted (k_fds k)" H] unfolding append_Nil by blast
qed

lemma restore_image:
  assumes "\<forall>fd r. table (k_fds k) fd = Some r \<longrightarrow> restorable k r"
    and "distinct (map fst (sig_actions (k_signals k)))" "distinct (map fst (k_futex k))"
    and "reopens H (open_files k) (k_host k0)"
  shows "\<exists>k'. apply_snapshot_kernel_state H N (build_kernel_snapshot N k pages) k0 = (Inr (), k') \<and>
    k_memory k' = k_memory k0 \<and> (\<forall>qs. build_kernel_snapshot N k' qs = build_kernel_snapshot N k qs)"
proof -
  let ?snap = "build_kernel_snapshot N k pages" and ?xs = "fds_sorted (k_fds k)"
  let ?es = "map (\<lambda>(fd, r). (fd, snapshot_resource N k r)) ?xs"
  let ?k0 = "(restore_scalars ?snap k0)\<lparr>k_fds := fd_empty\<rparr>"
  have "k_host ?k0 = k_host k0" by (simp add: restore_scalars_def)
  with assms(1,4) restored_entries [of k ?k0 H N]
  obtain k1 where k1: "restore_entries H N ?es ?k0 = (Inr (), k1)" "carries N k k1 ?xs" "only_heap ?k0 k1"
    by (auto simp: fd_empty_def)
  note sc = only_heap_scalars [OF k1(3)]
  define t where "t = (fold (\<lambda>fd t. fd_set_cloexec t fd True) (sorted_list_of_set (cloexec (k_fds k))) (k_fds k1))
    \<lparr>next_fd := next_fd (k_fds k)\<rparr>"
  have t: "table t = table (k_fds k1)" "next_fd t = next_fd (k_fds k)" "cloexec t = cloexec (k_fds k)"
    by (simp_all add: t_def fold_cloexec sc(1) fd_empty_def)
  have es: "map (\<lambda>(fd, r). (fd, snapshot_resource N (k1\<lparr>k_fds := t\<rparr>) r)) (fds_sorted t) = ?es"
    using carries_sorted [OF k1(2)] by (simp add: snapshot_resource_fds fds_sorted_def t(1))
  have "apply_snapshot_kernel_state H N ?snap k0 = (Inr (), k1\<lparr>k_fds := t\<rparr>)"
    unfolding apply_snapshot_kernel_state_def image_entries sorted_image k1(1)
    by (simp add: build_kernel_snapshot_def t_def)
  moreover have "k_memory (k1\<lparr>k_fds := t\<rparr>) = k_memory k0" by (simp add: sc restore_scalars_def)
  moreover have "build_kernel_snapshot N (k1\<lparr>k_fds := t\<rparr>) qs = build_kernel_snapshot N k qs" for qs
    by (simp add: build_kernel_snapshot_def es t sc restore_scalars_def restore_scalars_image [OF assms(2,3)]
        fds_sorted_def [of "t\<lparr>next_fd := _\<rparr>"])
  ultimately show ?thesis by blast
qed

lemma restore_image_refused:
  assumes "\<forall>fd r. table (k_fds k) fd = Some r \<longrightarrow> restorable k r" "\<not> reopens H (open_files k) (k_host k0)"
  shows "\<exists>e k'. apply_snapshot_kernel_state H N (build_kernel_snapshot N k pages) k0 = (Inl (IoError e), k')"
proof -
  let ?snap = "build_kernel_snapshot N k pages"
  let ?k0 = "(restore_scalars ?snap k0)\<lparr>k_fds := fd_empty\<rparr>"
  have "k_host ?k0 = k_host k0" by (simp add: restore_scalars_def)
  with assms restored_entries [of k ?k0 H N] obtain e k1 where
    "restore_entries H N (map (\<lambda>(fd, r). (fd, snapshot_resource N k r)) (fds_sorted (k_fds k))) ?k0 = (Inl (IoError e), k1)"
    by (auto simp: fd_empty_def)
  then show ?thesis
    unfolding apply_snapshot_kernel_state_def image_entries sorted_image by (simp add: build_kernel_snapshot_def)
qed

text \<open>
  C14: Applying the snapshot of a kernel whose descriptors hold only pipes, event counters, epoll sets and
  regular files with a known path to any kernel: when the host, from the state it is then in, opens and
  positions each of those files, one after the other in the order of the descriptors, the restore
  succeeds, and the restored kernel has the same snapshot: descriptors and their contents, close-on-exec
  set, next descriptor, allocator, working directory, clock, break, arguments, environment, seed,
  signal actions and mask, exit code, name, futex table and CPU time.  When the host refuses one
  of them, the restore fails with an I/O error.  (The maps of signal actions, futexes and watched
  descriptors have no key twice.)
\<close>

theorem snapshot_kernel_roundtrip:
  assumes "\<forall>fd r. table (k_fds k) fd = Some r \<longrightarrow> restorable k r"
    and "distinct (map fst (sig_actions (k_signals k)))" "distinct (map fst (k_futex k))"
  shows "if reopens H (open_files k) (k_host k0)
    then \<exists>k'. apply_snapshot_kernel_state H N (build_kernel_snapshot N k pages) k0 = (Inr (), k') \<and>
      build_kernel_snapshot N k' pages = build_kernel_snapshot N k pages
    else \<exists>e k'. apply_snapshot_kernel_state H N (build_kernel_snapshot N k pages) k0 = (Inl (IoError e), k')"
  using restore_image [OF assms, of H k0 N pages] restore_image_refused [OF assms(1), of H k0 N pages] by auto

definition demo_net :: "memfs net_ops" where
  "demo_net = \<lparr>n_local_port = (\<lambda>_ _. None), n_tcp_bind = (\<lambda>_ h. (Inl OtherKind, h)),
     n_set_reuseaddr = (\<lambda>_ _ h. (Inr (), h)), n_from_std = (\<lambda>l h. (Inr l, h)), n_unix_bind = (\<lambda>_ h. (Inl OtherKind, h))\<rparr>"

text \<open>A kernel with its three standard streams, an event counter and an epoll set that watches it.\<close>

definition demo_snap :: "memfs kernel" where
  "demo_snap =
     (let k = kernel_new_inner [] [] (replicate 32 7) \<lparr>root = [RootDir], cwd = [RootDir]\<rparr> demo_fs;
          (_, t1) = fd_insert (k_fds k) (REventFd \<lparr>ev_counter = 5, ev_nonblock = True\<rparr>);
          (_, t2) = fd_insert t1 (REpoll \<lparr>ep_entries = [(3, \<lparr>ee_fd = 3, ee_events = 1, ee_data = 9\<rparr>)], ep_self_event_fd = None\<rparr>)
      in k\<lparr>k_fds := t2, k_brk := 77\<rparr>)"

lemma demo_snap_table:
  "table (k_fds demo_snap) =
     [0 \<mapsto> RStdin 0, 1 \<mapsto> RStdout 0, 2 \<mapsto> RStderr 1, 3 \<mapsto> REventFd \<lparr>ev_counter = 5, ev_nonblock = True\<rparr>,
      4 \<mapsto> REpoll \<lparr>ep_entries = [(3, \<lparr>ee_fd = 3, ee_events = 1, ee_data = 9\<rparr>)], ep_self_event_fd = None\<rparr>]"
  "sig_actions (k_signals demo_snap) = []" "k_futex demo_snap = []"
  by (simp_all add: demo_snap_def kernel_new_inner_def with_buffered_stdio_def make_pipe_def fd_insert_def Let_def
      signal_state_new_def process_state_new_def)

text \<open>The same kernel with the file \<open>/p/b\<close> open at offset 2 on descriptor 5.\<close>

definition demo_snap_file :: "memfs kernel" where
  "demo_snap_file = demo_snap\<lparr>k_fds := (k_fds demo_snap)\<lparr>table := (table (k_fds demo_snap))(5 \<mapsto> RFile 0), next_fd := 6\<rparr>,
     k_files := [\<lparr>fp_inner = 0, fp_pos = 2, fp_path = Some (demo_root @ [Normal [98]]), fp_is_dir = False, fp_dir_cache = None\<rparr>]\<rparr>"

lemma demo_snap_restorable: "\<forall>fd r. table (k_fds demo_snap_file) fd = Some r \<longrightarrow> restorable demo_snap_file r"
  by (auto simp: demo_snap_file_def demo_snap_table(1) fun_upd_apply)

lemma demo_snap_files: "open_files demo_snap_file = [(demo_root @ [Normal [98]], 2)]"
  by (simp add: open_files_def fds_sorted_def demo_snap_file_def demo_snap_table(1) word_le_nat_alt)

lemma demo_snap_reopens: "reopens mem_host (open_files demo_snap_file) (k_host demo_snap_file)"
proof -
  have "k_host demo_snap_file = demo_fs"
    by (simp add: demo_snap_file_def demo_snap_def kernel_new_inner_def with_buffered_stdio_def make_pipe_def fd_insert_def Let_def)
  then show ?thesis
    by (simp add: demo_snap_files reopen_one_def reopen_options_def mem_host_defs demo_fs_def demo_root_def)
qed

theorem snapshot_kernel_roundtrip_witness:
  "\<exists>k'. apply_snapshot_kernel_state mem_host demo_net (build_kernel_snapshot demo_net demo_snap_file []) demo_snap_file = (Inr (), k') \<and>
    build_kernel_snapshot demo_net k' [] = build_kernel_snapshot demo_net demo_snap_file []"
proof -
  have "distinct (map fst (sig_actions (k_signals demo_snap_file)))" "distinct (map fst (k_futex demo_snap_file))"
    using demo_snap_table(2,3) by (simp_all add: demo_snap_file_def)
  from snapshot_kernel_roundtrip [OF demo_snap_restorable this, of mem_host demo_snap_file demo_net "[]"]
  show ?thesis by (simp add: demo_snap_reopens)
qed

text \<open>
  C19: After a snapshot is applied, no two descriptors share a pipe, an open file or a socket, whatever
  they shared when it was taken: the two ends of a pipe are separate buffers, and duplicated descriptors
  have separate offsets.
\<close>

theorem restore_unshares:
  assumes "apply_snapshot_kernel_state H N snap k0 = (Inr (), k)"
    and "table (k_fds k) fd = Some r" "table (k_fds k) fd' = Some r'" "fd \<noteq> fd'" "obj_of r \<noteq> None"
  shows "obj_of r \<noteq> obj_of r'"
proof -
  let ?k0 = "(restore_scalars snap k0)\<lparr>k_fds := fd_empty\<rparr>"
  from assms(1) obtain k1 where
    k1: "restore_entries H N (sort_key fst (dn_entries (kn_fds snap))) ?k0 = (Inr (), k1)"
    and k: "table (k_fds k) = table (k_fds k1)"
    by (auto simp: apply_snapshot_kernel_state_def fold_cloexec split: if_splits prod.splits sum.splits)
  have "restored_ok ?k0" by (simp add: restored_ok_def unshared_def fds_wf_def fd_empty_def)
  from restore_entries_ok [OF this k1] have "unshared k1" by (simp add: restored_ok_def)
  with assms(2-5) show ?thesis unfolding unshared_def k by blast
qed

theorem restore_unshares_witness:
  "obj_of (the (table (k_fds demo_snap) 0)) = obj_of (the (table (k_fds demo_snap) 1)) \<and>
   (\<exists>k r r'. apply_snapshot_kernel_state mem_host demo_net (build_kernel_snapshot demo_net demo_snap []) demo_snap = (Inr (), k) \<and>
      table (k_fds k) 0 = Some r \<and> table (k_fds k) 1 = Some r' \<and> obj_of r \<noteq> obj_of r')"
proof
  define snap where "snap = build_kernel_snapshot demo_net demo_snap []"
  define k where "k = snd (apply_snapshot_kernel_state mem_host demo_net snap demo_snap)"
  have n: "length (k_pipes demo_snap) = 2"
    by (simp add: demo_snap_def kernel_new_inner_def with_buffered_stdio_def make_pipe_def fd_insert_def Let_def)
  have es: "dn_entries (kn_fds snap) = map (\<lambda>fd. (fd, snapshot_resource demo_net demo_snap (the (table (k_fds demo_snap) fd)))) [0, 1, 2, 3, 4]"
    by (simp add: snap_def build_kernel_snapshot_def fds_sorted_def demo_snap_table(1) word_le_nat_alt)
  have v: "kn_format_version snap = SNAPSHOT_FORMAT_VERSION" by (simp add: snap_def build_kernel_snapshot_def)
  have a: "apply_snapshot_kernel_state mem_host demo_net snap demo_snap = (Inr (), k)"
    and t: "table (k_fds k) 0 = Some (RStdin 2)" "table (k_fds k) 1 = Some (RStdout 3)"
    by (simp_all add: k_def apply_snapshot_kernel_state_def v es demo_snap_table(1) word_le_nat_alt is_inherited_def
        from_pipe_def from_eventfd_def from_epoll_def default_body_def restore_resource_def new_pipe_def
        restore_epoll_def restore_eventfd_def fd_insert_at_def fd_empty_def restore_scalars_def n fold_cloexec)
  show "\<exists>k r r'. apply_snapshot_kernel_state mem_host demo_net (build_kernel_snapshot demo_net demo_snap []) demo_snap = (Inr (), k) \<and>
      table (k_fds k) 0 = Some r \<and> table (k_fds k) 1 = Some r' \<and> obj_of r \<noteq> obj_of r'"
    using restore_unshares [OF a t] a t by (auto simp: snap_def)
qed (simp add: demo_snap_table)

section \<open>The snapshot syscall\<close>

text \<open>What the file round trip needs of \<open>postcard\<close> and of the host's files.\<close>

definition postcard_ok :: "postcard \<Rightarrow> bool" where
  "postcard_ok pc \<longleftrightarrow> (\<forall>snap bs. fst pc snap = Some bs \<longrightarrow> snd pc bs = Some snap)"

definition files_ok :: "'h host_ops \<Rightarrow> bool" where
  "files_ok H \<longleftrightarrow>
     (\<forall>p bs h h'. h_write_file H p bs h = (Inr (), h') \<longrightarrow> h_exists H p h' \<and> h_read_file H p h' = Inr bs)"

text \<open>
  C16: When a guest's \<open>snapshot\<close> call does not fail, the file at exactly the path string the guest passed
  reads back as the snapshot of the kernel at the call, the result is its length in bytes, and
  nothing but the host changed.  The path is not taken through the preopen directory.
\<close>

theorem snapshot_syscall_file:
  assumes "postcard_ok pc" "files_ok H"
    and "guest_str (k_memory k) p 4096 = Inr s"
    and "snapshot_syscall H N pc k (Args p a1 a2 a3 a4 a5) = (n, k')" "0 \<le> n"
  shows "read_snapshot_file H pc (components s) (k_host k') = try_to_snapshot N k \<and>
    (\<exists>snap bs. try_to_snapshot N k = Inr snap \<and> encode_snapshot pc snap = Inr bs \<and> n = int (length bs)) \<and>
    k' = k\<lparr>k_host := k_host k'\<rparr>"
proof -
  obtain snap where snap: "try_to_snapshot N k = Inr snap" by (simp add: try_to_snapshot_def)
  have "p \<noteq> 0" using assms(4,5) by (auto simp: EFAULT_def)
  then obtain bs where bs: "fst pc snap = Some bs" "n = int (length bs)"
    and w: "h_write_file H (components s) bs (k_host k) = (Inr (), k_host k')" and k': "k' = k\<lparr>k_host := k_host k'\<rparr>"
    using assms(3,4,5)
    by (auto simp: snap write_snapshot_file_def encode_snapshot_def EIO_def split: option.splits prod.splits sum.splits)
  have "h_exists H (components s) (k_host k')" "h_read_file H (components s) (k_host k') = Inr bs"
    using assms(2) w unfolding files_ok_def by blast+
  moreover have "snd pc bs = Some snap" using assms(1) bs(1) by (simp add: postcard_ok_def)
  ultimately show ?thesis
    using bs k' by (simp add: read_snapshot_file_def decode_snapshot_def encode_snapshot_def snap)
qed

text \<open>A kernel confined to \<open>/p\<close> whose memory holds the path \<open>/s\<close> at address 1.\<close>

definition demo_jail :: "memfs kernel" where
  "demo_jail = (kernel_new_inner [] [] (replicate 32 7) \<lparr>root = demo_root, cwd = demo_root\<rparr> demo_fs)
     \<lparr>k_memory := Some (Owned ([0, 0x2F, 0x73] @ replicate 4096 0))\<rparr>"

definition demo_image :: kernel_snapshot where
  "demo_image = (case try_to_snapshot demo_net demo_jail of Inr s \<Rightarrow> s)"

definition demo_postcard :: postcard where
  "demo_postcard = ((\<lambda>s. if s = demo_image then Some [1, 2, 3] else None), (\<lambda>bs. if bs = [1, 2, 3] then Some demo_image else None))"

lemma demo_hosts: "postcard_ok demo_postcard" "files_ok mem_host"
  by (auto simp: postcard_ok_def demo_postcard_def files_ok_def mem_host_def mfs_put_def split: if_splits)

lemma demo_jail_path: "guest_str (k_memory demo_jail) 1 4096 = Inr [0x2F, 0x73]"
  by (simp add: demo_jail_def guest_str_def guest_slice_def guest_range_def kernel_memory_def res_bind_def Let_def
      usize_try_from_def usize_checked_add_def slice_def until_nul_def ok_or_def)

lemma demo_jail_call:
  "snapshot_syscall mem_host demo_net demo_postcard demo_jail (Args 1 0 0 0 0 0) =
     (3, demo_jail\<lparr>k_host := mfs_put (components [0x2F, 0x73]) (Some [1, 2, 3]) demo_fs\<rparr>)"
proof -
  have "try_to_snapshot demo_net demo_jail = Inr demo_image" by (simp add: demo_image_def try_to_snapshot_def)
  moreover have "k_host demo_jail = demo_fs"
    by (simp add: demo_jail_def kernel_new_inner_def with_buffered_stdio_def make_pipe_def Let_def)
  ultimately show ?thesis
    by (simp add: demo_jail_path write_snapshot_file_def encode_snapshot_def demo_postcard_def mem_host_def)
qed

theorem snapshot_syscall_file_witness:
  "\<exists>k'. snapshot_syscall mem_host demo_net demo_postcard demo_jail (Args 1 0 0 0 0 0) = (3, k') \<and>
    read_snapshot_file mem_host demo_postcard (components [0x2F, 0x73]) (k_host k') = try_to_snapshot demo_net demo_jail"
  using snapshot_syscall_file [OF demo_hosts demo_jail_path demo_jail_call] demo_jail_call by simp

text \<open>The file \<open>/s\<close> is outside the guest's root \<open>/p\<close> and is overwritten.\<close>

lemma snapshot_escapes_preopen:
  "root (k_vfs demo_jail) = [RootDir, Normal [0x70]] \<and>
   h_read_file mem_host [RootDir, Normal [0x73]] (k_host demo_jail) = Inr [9] \<and>
   h_read_file mem_host [RootDir, Normal [0x73]]
     (k_host (snd (snapshot_syscall mem_host demo_net demo_postcard demo_jail (Args 1 0 0 0 0 0)))) = Inr [1, 2, 3]"
proof -
  have "components [0x2F, 0x73] = [RootDir, Normal [0x73]]" by code_simp
  moreover have "k_host demo_jail = demo_fs" "root (k_vfs demo_jail) = demo_root"
    by (simp_all add: demo_jail_def kernel_new_inner_def with_buffered_stdio_def make_pipe_def Let_def)
  ultimately show ?thesis unfolding demo_jail_call by (simp add: mem_host_def mfs_put_def demo_fs_def demo_root_def)
qed

end
