(* ===== verification/Cli_Args.thy ===== *)
theory Cli_Args
  imports Resolver Snapshot
begin

text \<open>
  The command line of \<^verbatim>\<open>src/src/cli\<close>: subcommands, their argument loops, the socket-activation variables, and the exit codes.
  Command-line strings are byte lists; an error carries no message text.  All argument loops take the words that are no flags
  as positional arguments in order: the locale \<open>argv_loop\<close> states it, and each loop is an interpretation.
\<close>

abbreviation text_of :: "string \<Rightarrow> bytes" where
  "text_of s \<equiv> map (of_nat \<circ> of_char) s"

section \<open>Errors, subcommands and exit codes\<close>

datatype cli_error =
  CliArgs | MissingSubcommand | UnknownSubcommand bytes | CliSnapshot snapshot_error | CliWasmtime | CliIo io_kind |
  CliBench | CliMetered

type_synonym 'a cli_result = "cli_error + 'a"

datatype subcommand = Run | Freeze | Serve | Bench | Trace | Migrate

definition subcommand_from_str :: "bytes \<Rightarrow> subcommand cli_result" where
  "subcommand_from_str s =
     (if s = text_of ''run'' then Inr Run
      else if s = text_of ''freeze'' then Inr Freeze
      else if s = text_of ''serve'' then Inr Serve
      else if s = text_of ''bench'' then Inr Bench
      else if s = text_of ''trace'' then Inr Trace
      else if s = text_of ''migrate'' then Inr Migrate
      else Inl (UnknownSubcommand s))"

fun exit_code_of :: "int cli_result \<Rightarrow> int" where
  "exit_code_of (Inr code) = code"
| "exit_code_of (Inl CliArgs) = 2"
| "exit_code_of (Inl (CliSnapshot e)) = 1"
| "exit_code_of (Inl CliWasmtime) = 1"
| "exit_code_of (Inl (CliIo e)) = 1"
| "exit_code_of (Inl CliBench) = 1"
| "exit_code_of (Inl CliMetered) = 1"
| "exit_code_of (Inl MissingSubcommand) = 2"
| "exit_code_of (Inl (UnknownSubcommand s)) = 2"

text \<open>\<open>From<anyhow::Error>\<close>: everything, snapshot errors included, becomes an argument error.\<close>

definition from_anyhow :: "snapshot_error option \<Rightarrow> cli_error" where
  "from_anyhow e = (case e of Some _ \<Rightarrow> CliArgs | None \<Rightarrow> CliArgs)"

section \<open>Argument loops\<close>

text \<open>Guest arguments: the words after the program, without one leading \<open>--\<close>.\<close>

definition guest_args_of :: "bytes list \<Rightarrow> bytes list" where
  "guest_args_of r = (case r of [] \<Rightarrow> [] | d # r' \<Rightarrow> if d = text_of ''--'' then r' else r)"

text \<open>A flag's number: a decimal below the bound that is not zero.\<close>

definition positive_arg :: "nat \<Rightarrow> bytes \<Rightarrow> nat cli_result" where
  "positive_arg bound raw =
     (case parse_uint bound raw of None \<Rightarrow> Inl CliArgs | Some n \<Rightarrow> if n = 0 then Inl CliArgs else Inr n)"

definition RUN_DEFAULT_BUDGET_MS :: u64 where "RUN_DEFAULT_BUDGET_MS = 0xFFFFFFFFFFFFFFFF"

fun run_loop :: "bytes list \<Rightarrow> u64 \<Rightarrow> bytes list \<Rightarrow> (u64 \<times> bytes list) cli_result" where
  "run_loop [] budget pos = Inr (budget, pos)"
| "run_loop (a # rest) budget pos =
     (if a = text_of ''--cpu-budget-ms'' then
        (case rest of
           [] \<Rightarrow> Inl CliArgs
         | raw # rest' \<Rightarrow>
             (case positive_arg (2 ^ 64) raw of Inl e \<Rightarrow> Inl e | Inr n \<Rightarrow> run_loop rest' (of_nat n) pos))
      else run_loop rest budget (pos @ [a]))"

definition parse_run_argv :: "bytes list \<Rightarrow> (bytes \<times> u64 \<times> bytes list) cli_result" where
  "parse_run_argv args =
     (if args = [] then Inl CliArgs
      else case run_loop args RUN_DEFAULT_BUDGET_MS [] of
        Inl e \<Rightarrow> Inl e
      | Inr (budget, []) \<Rightarrow> Inl CliArgs
      | Inr (budget, wasm # r) \<Rightarrow> Inr (wasm, budget, guest_args_of r))"

fun freeze_loop :: "bytes list \<Rightarrow> bytes option \<Rightarrow> bytes list \<Rightarrow> (bytes option \<times> bytes list) cli_result" where
  "freeze_loop [] out pos = Inr (out, pos)"
| "freeze_loop (a # rest) out pos =
     (if a = text_of ''--out'' then
        (case rest of [] \<Rightarrow> Inl CliArgs | p # rest' \<Rightarrow> freeze_loop rest' (Some p) pos)
      else freeze_loop rest out (pos @ [a]))"

definition parse_freeze_argv :: "bytes list \<Rightarrow> (bytes \<times> bytes \<times> bytes list) cli_result" where
  "parse_freeze_argv args =
     (case freeze_loop args None [] of
        Inl e \<Rightarrow> Inl e
      | Inr (None, _) \<Rightarrow> Inl CliArgs
      | Inr (Some out, []) \<Rightarrow> Inl CliArgs
      | Inr (Some out, wasm # r) \<Rightarrow> Inr (out, wasm, guest_args_of r))"

fun serve_loop_args :: "bytes list \<Rightarrow> u16 option \<Rightarrow> bytes list \<Rightarrow> (u16 option \<times> bytes list) cli_result" where
  "serve_loop_args [] port pos = Inr (port, pos)"
| "serve_loop_args (a # rest) port pos =
     (if a = text_of ''--port'' then
        (case rest of
           [] \<Rightarrow> Inl CliArgs
         | raw # rest' \<Rightarrow>
             (case positive_arg (2 ^ 16) raw of Inl e \<Rightarrow> Inl e | Inr n \<Rightarrow> serve_loop_args rest' (Some (of_nat n)) pos))
      else serve_loop_args rest port (pos @ [a]))"

definition parse_serve_argv :: "bytes list \<Rightarrow> (u16 option \<times> bytes \<times> bytes) cli_result" where
  "parse_serve_argv args =
     (case serve_loop_args args None [] of
        Inl e \<Rightarrow> Inl e
      | Inr (port, snap # wasm # _) \<Rightarrow> Inr (port, snap, wasm)
      | Inr _ \<Rightarrow> Inl CliArgs)"

fun bench_loop :: "bytes list \<Rightarrow> nat \<times> u64 \<Rightarrow> bytes list \<Rightarrow> ((nat \<times> u64) \<times> bytes list) cli_result" where
  "bench_loop [] s pos = Inr (s, pos)"
| "bench_loop (a # rest) s pos =
     (if a = text_of ''--iters'' then
        (case rest of
           [] \<Rightarrow> Inl CliArgs
         | raw # rest' \<Rightarrow>
             (case positive_arg (2 ^ 64) raw of Inl e \<Rightarrow> Inl e | Inr n \<Rightarrow> bench_loop rest' (n, snd s) pos))
      else if a = text_of ''--cpu-budget-ms'' then
        (case rest of
           [] \<Rightarrow> Inl CliArgs
         | raw # rest' \<Rightarrow>
             (case positive_arg (2 ^ 64) raw of Inl e \<Rightarrow> Inl e | Inr n \<Rightarrow> bench_loop rest' (fst s, of_nat n) pos))
      else bench_loop rest s (pos @ [a]))"

definition parse_bench_argv :: "bytes list \<Rightarrow> (nat \<times> u64 \<times> bytes \<times> bytes) cli_result" where
  "parse_bench_argv args =
     (case bench_loop args (50, 0xFFFFFFFFFFFFFFFF) [] of
        Inl e \<Rightarrow> Inl e
      | Inr ((iters, budget), snap # wasm # _) \<Rightarrow> Inr (iters, budget, snap, wasm)
      | Inr _ \<Rightarrow> Inl CliArgs)"

fun trace_loop :: "bytes list \<Rightarrow> bytes option \<times> bool \<Rightarrow> bytes list \<Rightarrow> ((bytes option \<times> bool) \<times> bytes list) cli_result" where
  "trace_loop [] s pos = Inr (s, pos)"
| "trace_loop (a # rest) s pos =
     (if a = text_of ''--diff'' then
        (case rest of [] \<Rightarrow> Inl CliArgs | p # rest' \<Rightarrow> trace_loop rest' (Some p, snd s) pos)
      else if a = text_of ''--no-marker'' then trace_loop rest (fst s, False) pos
      else trace_loop rest s (pos @ [a]))"

definition parse_trace_argv :: "bytes list \<Rightarrow> (bytes option \<times> bool \<times> bytes \<times> bytes list) cli_result" where
  "parse_trace_argv args =
     (case trace_loop args (None, True) [] of
        Inl e \<Rightarrow> Inl e
      | Inr ((baseline, marker), wasm # r) \<Rightarrow> Inr (baseline, marker, wasm, guest_args_of r)
      | Inr _ \<Rightarrow> Inl CliArgs)"

fun migrate_loop :: "bytes list \<Rightarrow> bool \<Rightarrow> bytes list \<Rightarrow> bytes list" where
  "migrate_loop [] seen acc = acc"
| "migrate_loop (a # rest) seen acc =
     (if \<not> seen \<and> a = text_of ''--'' then migrate_loop rest True acc else migrate_loop rest seen (acc @ [a]))"

definition parse_migrate_args :: "bytes list \<Rightarrow> (bytes \<times> bytes list) cli_result" where
  "parse_migrate_args args = (case args of [] \<Rightarrow> Inl CliArgs | wasm # rest \<Rightarrow> Inr (wasm, migrate_loop rest False []))"

text \<open>The arguments \<open>migrate\<close> starts its two child processes with, after the subcommand's name.\<close>

definition freeze_argv :: "bytes \<Rightarrow> bytes list \<Rightarrow> bytes \<Rightarrow> bytes list" where
  "freeze_argv wasm guest_args snap =
     [wasm] @ (if guest_args = [] then [] else text_of ''--'' # guest_args) @ [text_of ''--out'', snap]"

definition serve_argv :: "bytes \<Rightarrow> bytes \<Rightarrow> bytes list" where
  "serve_argv wasm snap = [snap, wasm]"

section \<open>What the loops have in common\<close>

locale argv_loop =
  fixes loop :: "bytes list \<Rightarrow> 's \<Rightarrow> bytes list \<Rightarrow> ('s \<times> bytes list) cli_result" and flags :: "bytes set"
  assumes loop_nil: "loop [] s pos = Inr (s, pos)"
    and loop_plain: "a \<notin> flags \<Longrightarrow> loop (a # as) s pos = loop as s (pos @ [a])"
begin

lemma plain_prefix: "set as \<inter> flags = {} \<Longrightarrow> loop (as @ bs) s pos = loop bs s (pos @ as)"
  by (induction as arbitrary: pos) (simp_all add: loop_plain)

lemma plain_args: "set as \<inter> flags = {} \<Longrightarrow> loop as s pos = Inr (s, pos @ as)"
  using plain_prefix [of as "[]" s pos] by (simp add: loop_nil)

end

interpretation run_args: argv_loop run_loop "{text_of ''--cpu-budget-ms''}"
  by unfold_locales simp_all

interpretation freeze_args: argv_loop freeze_loop "{text_of ''--out''}"
  by unfold_locales simp_all

interpretation serve_args: argv_loop serve_loop_args "{text_of ''--port''}"
  by unfold_locales simp_all

interpretation bench_args: argv_loop bench_loop "{text_of ''--iters'', text_of ''--cpu-budget-ms''}"
  by unfold_locales simp_all

interpretation trace_args: argv_loop trace_loop "{text_of ''--diff'', text_of ''--no-marker''}"
  by unfold_locales simp_all

section \<open>From migrate to freeze and serve\<close>

text \<open>
  The command lines \<open>migrate\<close> builds for its child processes are read back by them as meant: \<open>freeze\<close> gets the same
  program, the same guest arguments (even when these start with \<open>--\<close> or are empty) and the snapshot path as its output, and
  \<open>serve\<close> gets the snapshot and the program.  The arguments must not contain the flags \<open>--out\<close> and \<open>--port\<close>.
\<close>
lemma migrate_argv_roundtrip:
  assumes "text_of ''--out'' \<notin> set (wasm # guest_args)" "text_of ''--port'' \<notin> {snap, wasm}"
  shows "parse_freeze_argv (freeze_argv wasm guest_args snap) = Inr (snap, wasm, guest_args) \<and>
    parse_serve_argv (serve_argv wasm snap) = Inr (None, snap, wasm)"
proof -
  let ?pos = "wasm # (if guest_args = [] then [] else text_of ''--'' # guest_args)"
  have "set ?pos \<inter> {text_of ''--out''} = {}" using assms(1) by auto
  from freeze_args.plain_prefix [OF this, of "[text_of ''--out'', snap]" None "[]"]
  have "freeze_loop (freeze_argv wasm guest_args snap) None [] = Inr (Some snap, ?pos)"
    by (simp add: freeze_argv_def)
  then have "parse_freeze_argv (freeze_argv wasm guest_args snap) = Inr (snap, wasm, guest_args)"
    by (simp add: parse_freeze_argv_def guest_args_of_def)
  moreover have "serve_loop_args (serve_argv wasm snap) None [] = Inr (None, [snap, wasm])"
    using serve_args.plain_args [of "[snap, wasm]" None "[]"] assms(2) by (auto simp: serve_argv_def)
  ultimately show ?thesis by (simp add: parse_serve_argv_def)
qed

text \<open>
  Without that restriction they are not: a guest argument \<open>--out\<close> in last position makes \<open>freeze\<close> write its snapshot to a
  file called \<open>--out\<close> and hand the path meant for it to the guest.
\<close>

lemma freeze_argv_hijacked:
  assumes "text_of ''--out'' \<notin> set (snap # wasm # args)"
  shows "parse_freeze_argv (freeze_argv wasm (args @ [text_of ''--out'']) snap) =
    Inr (text_of ''--out'', wasm, args @ [snap])"
proof -
  let ?pos = "wasm # text_of ''--'' # args"
  have "set ?pos \<inter> {text_of ''--out''} = {}" using assms by auto
  from freeze_args.plain_prefix [OF this, of "[text_of ''--out'', text_of ''--out'', snap]" None "[]"]
  have "freeze_loop (freeze_argv wasm (args @ [text_of ''--out'']) snap) None [] = Inr (Some (text_of ''--out''), ?pos @ [snap])"
    using assms by (auto simp: freeze_argv_def)
  then show ?thesis by (simp add: parse_freeze_argv_def guest_args_of_def)
qed

text \<open>\<open>run\<close> takes its budget flag out of the guest's arguments, after the \<open>--\<close> too.\<close>

lemma run_budget_in_guest_args:
  assumes "text_of ''--cpu-budget-ms'' \<notin> set (wasm # args)" "positive_arg (2 ^ 64) raw = Inr n"
  shows "parse_run_argv (wasm # text_of ''--'' # args @ [text_of ''--cpu-budget-ms'', raw]) = Inr (wasm, of_nat n, args)"
proof -
  let ?pos = "wasm # text_of ''--'' # args"
  have "set ?pos \<inter> {text_of ''--cpu-budget-ms''} = {}" using assms(1) by auto
  from run_args.plain_prefix [OF this, of "[text_of ''--cpu-budget-ms'', raw]" RUN_DEFAULT_BUDGET_MS "[]"] assms(2)
  show ?thesis by (simp add: parse_run_argv_def guest_args_of_def)
qed

text \<open>\<open>migrate\<close> removes the first \<open>--\<close> wherever it stands; the other subcommands only one right after the program.\<close>

lemma migrate_loop_seen: "migrate_loop as True acc = acc @ as"
  by (induction as arbitrary: acc) simp_all

lemma migrate_loop_plain: "text_of ''--'' \<notin> set as \<Longrightarrow> migrate_loop (as @ bs) False acc = migrate_loop bs False (acc @ as)"
  by (induction as arbitrary: acc) auto

lemma migrate_drops_dashes:
  "text_of ''--'' \<notin> set as \<Longrightarrow> parse_migrate_args (wasm # as @ text_of ''--'' # bs) = Inr (wasm, as @ bs)"
  by (simp add: parse_migrate_args_def migrate_loop_plain migrate_loop_seen)

section \<open>Socket activation\<close>

definition EDGE_SERVE_FD_PREFIX :: bytes where "EDGE_SERVE_FD_PREFIX = text_of ''EDGE_SERVE_FD_''"

definition strip_prefix :: "bytes \<Rightarrow> bytes \<Rightarrow> bytes option" where
  "strip_prefix p s = (if prefix p s then Some (drop (length p) s) else None)"

text \<open>\<open>str::parse::<i32>\<close>: an optional sign and at least one digit.\<close>

definition parse_i32 :: "bytes \<Rightarrow> int option" where
  "parse_i32 s =
     (case s of
        [] \<Rightarrow> None
      | c # cs \<Rightarrow>
          if c = 0x2D then (if cs = [] then None else map_option (\<lambda>n. - int n) (parse_digits (2 ^ 31 + 1) 0 cs))
          else map_option int (parse_uint (2 ^ 31) s))"

fun inherited_loop :: "(bytes \<times> bytes) list \<Rightarrow> (u32 \<times> int) list cli_result" where
  "inherited_loop [] = Inr []"
| "inherited_loop ((key, val) # env) =
     (case strip_prefix EDGE_SERVE_FD_PREFIX key of
        None \<Rightarrow> inherited_loop env
      | Some slot \<Rightarrow>
          (case parse_uint (2 ^ 32) slot of
             None \<Rightarrow> Inl CliArgs
           | Some target \<Rightarrow>
               (case parse_i32 val of
                  None \<Rightarrow> Inl CliArgs
                | Some source \<Rightarrow>
                    if source < 0 then Inl CliArgs
                    else map_sum id (Cons (of_nat target, source)) (inherited_loop env))))"

definition parse_inherited_fds :: "(bytes \<times> bytes) list \<Rightarrow> (u32 \<times> int) list cli_result" where
  "parse_inherited_fds env = map_sum id (sort_key fst) (inherited_loop env)"

definition collect_inherit_env :: "(bytes \<times> bytes) list \<Rightarrow> (bytes \<times> bytes) list" where
  "collect_inherit_env env = filter (\<lambda>(k, v). utf8_valid k \<and> strip_prefix EDGE_SERVE_FD_PREFIX k \<noteq> None) env"

text \<open>What \<open>migrate\<close> forwards is all that \<open>serve\<close> looks at.\<close>

lemma inherited_loop_collect:
  "\<forall>(k, v) \<in> set env. utf8_valid k \<Longrightarrow> inherited_loop (collect_inherit_env env) = inherited_loop env"
  by (induction env rule: inherited_loop.induct) (auto simp: collect_inherit_env_def split: option.splits)

lemma inherited_forwarded:
  "\<forall>(k, v) \<in> set env. utf8_valid k \<Longrightarrow> parse_inherited_fds (collect_inherit_env env) = parse_inherited_fds env"
  by (simp add: parse_inherited_fds_def inherited_loop_collect)

lemma nothing_forwarded: "parse_inherited_fds env = Inr [] \<Longrightarrow> collect_inherit_env env = []"
proof -
  have "inherited_loop env = Inr [] \<Longrightarrow> collect_inherit_env env = []"
    by (induction env rule: inherited_loop.induct)
      (auto simp: collect_inherit_env_def map_sum_def split: option.splits if_splits sum.splits)
  then show "parse_inherited_fds env = Inr [] \<Longrightarrow> collect_inherit_env env = []"
    using length_sort [of fst] by (cases "inherited_loop env") (auto simp: parse_inherited_fds_def dest!: arg_cong [of _ "[]" length])
qed

lemma inherited_loop_nonneg: "inherited_loop env = Inr fds \<Longrightarrow> (t, s) \<in> set fds \<Longrightarrow> 0 \<le> s"
  by (induction env arbitrary: fds rule: inherited_loop.induct) (auto split: option.splits if_splits sum.splits simp: map_sum_def)

lemma parse_inherited_sorted:
  "parse_inherited_fds env = Inr fds \<Longrightarrow> sorted (map fst fds) \<and> (\<forall>(t, s) \<in> set fds. 0 \<le> s)"
  by (cases "inherited_loop env") (auto simp: parse_inherited_fds_def dest: inherited_loop_nonneg)

section \<open>Overriding the port\<close>

definition override_entry :: "u16 \<Rightarrow> u32 \<times> resource_snapshot \<Rightarrow> (u32 \<times> resource_snapshot) \<times> bool" where
  "override_entry port e =
     (case e of
        (fd, rs) \<Rightarrow>
          if rs_kind rs \<noteq> KSocket then (e, False)
          else case rb_socket (rs_body rs) of
            None \<Rightarrow> (e, False)
          | Some sock \<Rightarrow>
              (case sn_bound sock of
                 Some (V4 _ addr) \<Rightarrow>
                   if sn_is_acceptor sock
                   then ((fd, rs\<lparr>rs_body := (rs_body rs)\<lparr>rb_socket := Some (sock\<lparr>sn_bound := Some (V4 port addr)\<rparr>)\<rparr>\<rparr>), True)
                   else (e, False)
               | _ \<Rightarrow> (e, False)))"

definition override_snapshot_port :: "kernel_snapshot \<Rightarrow> u16 \<Rightarrow> kernel_snapshot cli_result" where
  "override_snapshot_port snap port =
     (let rs = map (override_entry port) (dn_entries (kn_fds snap))
      in if \<exists>r \<in> set rs. snd r then Inr (snap\<lparr>kn_fds := (kn_fds snap)\<lparr>dn_entries := map fst rs\<rparr>\<rparr>)
         else Inl CliArgs)"

lemma override_entry_fd [simp]: "fst (fst (override_entry port e)) = fst e"
  by (auto simp: override_entry_def split: prod.splits option.splits sock_addr.splits)

lemma override_entry_same: "\<not> snd (override_entry port e) \<Longrightarrow> fst (override_entry port e) = e"
  by (auto simp: override_entry_def split: prod.splits option.splits sock_addr.splits if_splits)

end
