(* ===== verification/Sys_Fd.thy ===== *)
theory Sys_Fd
  imports Kernel_State
begin

text \<open>
  The descriptor syscalls of \<^verbatim>\<open>src/src/sys/file.rs\<close>: \<open>close\<close>, \<open>pipe\<close>/\<open>pipe2\<close>, \<open>fcntl\<close> and the
  \<open>dup\<close> family.  A handler that searches for a free descriptor has an option result;
  \<open>None\<close> is the search that never ends.
\<close>

section \<open>Handlers\<close>

definition F_DUPFD :: int where "F_DUPFD = 0"
definition F_GETFD :: int where "F_GETFD = 1"
definition F_SETFD :: int where "F_SETFD = 2"
definition F_GETFL :: int where "F_GETFL = 3"
definition F_SETFL :: int where "F_SETFL = 4"
definition F_DUPFD_CLOEXEC :: int where "F_DUPFD_CLOEXEC = 1030"

lemmas fcntl_cmds =
  F_DUPFD_def F_GETFD_def F_SETFD_def F_GETFL_def F_SETFL_def F_DUPFD_CLOEXEC_def

fun sys_close :: "'h handler" where
  "sys_close k (Args fd_raw _ _ _ _ _) =
     (case u32_try_from fd_raw of
        None \<Rightarrow> (- EBADF, k)
      | Some fd \<Rightarrow>
          (case fd_close (k_fds k) fd of
             (Inr _, t) \<Rightarrow> (0, k\<lparr>k_fds := t\<rparr>)
           | (Inl e, t) \<Rightarrow> (e, k\<lparr>k_fds := t\<rparr>)))"

fun sys_pipe2 :: "'h handler" where
  "sys_pipe2 k (Args fdarray_ptr flags_raw _ _ _ _) =
     try_ret (guest_slice_mut (k_memory k) fdarray_ptr 8) k (\<lambda>_.
       let (p, k1) = make_pipe k;
           k2 = (if as_i32 flags_raw AND O_NONBLOCK \<noteq> 0
                 then set_pipe k1 p ((k_pipes k1 ! p)\<lparr>p_nonblock := True\<rparr>) else k1);
           (rd_fd, t1) = fd_insert (k_fds k2) (RPipeRead p);
           (wr_fd, t2) = fd_insert t1 (RPipeWrite p);
           k3 = k2\<lparr>k_fds := t2\<rparr>
       in try_ret (guest_slice_mut (k_memory k3) fdarray_ptr 8) k3 (\<lambda>(b, _).
            (0, k_write k3 b (le_bytes 4 (uint rd_fd) @ le_bytes 4 (uint wr_fd)))))"

fun sys_pipe :: "'h handler" where
  "sys_pipe k (Args a0 _ _ _ _ _) = sys_pipe2 k (Args a0 0 0 0 0 0)"

definition set_nonblock :: "'h kernel \<Rightarrow> resource \<Rightarrow> bool \<Rightarrow> 'h kernel" where
  "set_nonblock k r on =
     (let on_pipe = (\<lambda>p. set_pipe k p ((k_pipes k ! p)\<lparr>p_nonblock := on\<rparr>))
      in case r of
           RStdin p \<Rightarrow> on_pipe p
         | RPipeRead p \<Rightarrow> on_pipe p
         | RStdout p \<Rightarrow> on_pipe p
         | RStderr p \<Rightarrow> on_pipe p
         | RPipeWrite p \<Rightarrow> on_pipe p
         | RSocket s \<Rightarrow> set_socket k s ((k_sockets k ! s)\<lparr>s_nonblock := on\<rparr>)
         | RFile _ \<Rightarrow> k
         | REpoll _ \<Rightarrow> k
         | REventFd _ \<Rightarrow> k)"

text \<open>The \<open>F_GETFL\<close> answer for a resource.\<close>

definition getfl :: "'h kernel \<Rightarrow> resource \<Rightarrow> int" where
  "getfl k r =
     (let nb = (\<lambda>b fl. if b then fl OR O_NONBLOCK else fl)
      in case r of
           RStdin p \<Rightarrow> nb (p_nonblock (k_pipes k ! p)) O_RDONLY
         | RPipeRead p \<Rightarrow> nb (p_nonblock (k_pipes k ! p)) O_RDONLY
         | RStdout p \<Rightarrow> nb (p_nonblock (k_pipes k ! p)) O_WRONLY
         | RStderr p \<Rightarrow> nb (p_nonblock (k_pipes k ! p)) O_WRONLY
         | RPipeWrite p \<Rightarrow> nb (p_nonblock (k_pipes k ! p)) O_WRONLY
         | RFile _ \<Rightarrow> O_RDWR
         | RSocket s \<Rightarrow> nb (s_nonblock (k_sockets k ! s)) O_RDWR
         | REpoll _ \<Rightarrow> O_RDWR
         | REventFd _ \<Rightarrow> O_RDWR)"

text \<open>Cloning the resource: the \<open>Arc\<close>s are shared, epoll and eventfd are refused.\<close>

fun clone_resource :: "resource \<Rightarrow> resource res" where
  "clone_resource (REpoll _) = Inl (- EBADF)"
| "clone_resource (REventFd _) = Inl (- EBADF)"
| "clone_resource r = Inr r"

fun sys_fcntl :: "'h kernel \<Rightarrow> args \<Rightarrow> (int \<times> 'h kernel) option" where
  "sys_fcntl k (Args fd_raw cmd_raw arg _ _ _) =
     (case u32_try_from fd_raw of
        None \<Rightarrow> Some (- EBADF, k)
      | Some fd \<Rightarrow>
          let cmd = as_i32 cmd_raw
          in if cmd = F_GETFL then
               Some (case fd_get (k_fds k) fd of Inr r \<Rightarrow> (getfl k r, k) | Inl e \<Rightarrow> (e, k))
             else if cmd = F_SETFL then
               Some (case fd_get (k_fds k) fd of
                       Inr r \<Rightarrow> (0, set_nonblock k r (as_i32 arg AND O_NONBLOCK \<noteq> 0))
                     | Inl e \<Rightarrow> (e, k))
             else if cmd = F_GETFD then
               (let on = fd_get_cloexec (k_fds k) fd;
                    k' = (if arg \<noteq> 0
                          then (case guest_slice_mut (k_memory k) arg 4 of
                                  Inr (b, _) \<Rightarrow> k_write k b (le_bytes 4 (if on then 1 else 0))
                                | Inl _ \<Rightarrow> k)
                          else k)
                in Some (if on then 1 else 0, k'))
             else if cmd = F_SETFD then
               Some (0, k\<lparr>k_fds := fd_set_cloexec (k_fds k) fd (as_i32 arg AND 1 \<noteq> 0)\<rparr>)
             else if cmd = F_DUPFD \<or> cmd = F_DUPFD_CLOEXEC then
               (if as_i32 arg < 0 then Some (- EINVAL, k)
                else case res_bind (fd_get (k_fds k) fd) clone_resource of
                       Inl e \<Rightarrow> Some (e, k)
                     | Inr cloned \<Rightarrow>
                         map_option (\<lambda>(new_fd, t).
                             (uint new_fd, k\<lparr>k_fds := fd_set_cloexec t new_fd (cmd = F_DUPFD_CLOEXEC)\<rparr>))
                           (fd_insert_at_least (k_fds k) (as_u32 arg) cloned))
             else Some (- EINVAL, k))"

definition internal_dup ::
  "'h kernel \<Rightarrow> u32 \<Rightarrow> u32 option \<Rightarrow> bool \<Rightarrow> (int \<times> 'h kernel) option"
where
  "internal_dup k oldfd newfd_target want_cloexec =
     (case res_bind (fd_get (k_fds k) oldfd) clone_resource of
        Inl e \<Rightarrow> Some (e, k)
      | Inr cloned \<Rightarrow>
          (case newfd_target of
             Some target \<Rightarrow>
               let t1 = snd (fd_close (k_fds k) target)
               in (case fd_insert_at t1 target cloned of
                     (Inr fd, t2) \<Rightarrow> Some (uint fd, k\<lparr>k_fds := fd_set_cloexec t2 fd want_cloexec\<rparr>)
                   | (Inl e, t2) \<Rightarrow> Some (e, k\<lparr>k_fds := t2\<rparr>))
           | None \<Rightarrow>
               map_option (\<lambda>(fd, t). (uint fd, k\<lparr>k_fds := fd_set_cloexec t fd want_cloexec\<rparr>))
                 (fd_insert_at_least (k_fds k) (oldfd + 1) cloned)))"

fun sys_dup :: "'h kernel \<Rightarrow> args \<Rightarrow> (int \<times> 'h kernel) option" where
  "sys_dup k (Args a0 _ _ _ _ _) =
     (case u32_try_from a0 of
        None \<Rightarrow> Some (- EBADF, k)
      | Some oldfd \<Rightarrow> internal_dup k oldfd None False)"

fun sys_dup2 :: "'h kernel \<Rightarrow> args \<Rightarrow> (int \<times> 'h kernel) option" where
  "sys_dup2 k (Args a0 a1 _ _ _ _) =
     (case (u32_try_from a0, u32_try_from a1) of
        (Some oldfd, Some newfd) \<Rightarrow>
          if oldfd = newfd
          then Some (case fd_get (k_fds k) oldfd of Inr _ \<Rightarrow> (uint newfd, k) | Inl e \<Rightarrow> (e, k))
          else internal_dup k oldfd (Some newfd) False
      | _ \<Rightarrow> Some (- EBADF, k))"

fun sys_dup3 :: "'h kernel \<Rightarrow> args \<Rightarrow> (int \<times> 'h kernel) option" where
  "sys_dup3 k (Args a0 a1 a2 _ _ _) =
     (case (u32_try_from a0, u32_try_from a1) of
        (Some oldfd, Some newfd) \<Rightarrow>
          let flags = as_i32 a2
          in if flags AND NOT O_CLOEXEC \<noteq> 0 then Some (- EINVAL, k)
             else if oldfd = newfd then Some (- EINVAL, k)
             else internal_dup k oldfd (Some newfd) (flags AND O_CLOEXEC \<noteq> 0)
      | _ \<Rightarrow> Some (- EBADF, k))"

section \<open>Behaviour of the table under duplication\<close>

lemma clone_resource_Inr: "clone_resource r = Inr r' \<Longrightarrow> r' = r"
  by (cases r) auto

lemma fd_get_Inr [simp]: "fd_get t fd = Inr r \<longleftrightarrow> table t fd = Some r"
  by (cases "table t fd") (auto simp: fd_get_def)

lemma fd_get_Inl: "fd_get t fd = Inl e \<longleftrightarrow> table t fd = None \<and> e = - EBADF"
  by (cases "table t fd") (auto simp: fd_get_def)

lemma fd_close_table: "table (snd (fd_close t fd)) = (table t)(fd := None)"
  by (auto simp: fd_close_def fun_eq_iff)

lemma dup_source:
  "res_bind (fd_get (k_fds k) fd) clone_resource = Inr c \<Longrightarrow> table (k_fds k) fd = Some c"
  by (auto simp: res_bind_Inr dest: clone_resource_Inr)

lemma internal_dup_target:
  assumes "table (k_fds k) oldfd = Some r" "clone_resource r = Inr r" "oldfd \<noteq> newfd"
  shows "\<exists>k'. internal_dup k oldfd (Some newfd) ce = Some (uint newfd, k') \<and>
    table (k_fds k') = (table (k_fds k))(newfd \<mapsto> r) \<and>
    (newfd \<in> cloexec (k_fds k') \<longleftrightarrow> ce) \<and> k'\<lparr>k_fds := k_fds k\<rparr> = k"
proof -
  have g: "res_bind (fd_get (k_fds k) oldfd) clone_resource = Inr r"
    using assms by (simp add: res_bind_Inr)
  have t: "table (snd (fd_close (k_fds k) newfd)) newfd = None" by (simp add: fd_close_table)
  show ?thesis
    by (simp add: internal_dup_def g fd_insert_at_def t Let_def fd_set_cloexec_def fd_close_table)
qed

lemma internal_dup_search:
  assumes "table (k_fds k) oldfd = Some r" "clone_resource r = Inr r"
  shows "internal_dup k oldfd None ce = None \<longleftrightarrow> (\<forall>j \<ge> oldfd + 1. table (k_fds k) j \<noteq> None)"
proof -
  have g: "res_bind (fd_get (k_fds k) oldfd) clone_resource = Inr r"
    using assms by (simp add: res_bind_Inr)
  show ?thesis by (simp add: internal_dup_def g fd_insert_at_least_def find_free_None)
qed

section \<open>Properties\<close>

text \<open>
  C26: \<open>pipe2\<close> returns 0 exactly when the eight result bytes lie in guest memory; it
  then stores two different descriptors that were free, bound to the two ends of one
  new empty pipe, and disturbs no other descriptor or pipe.  Otherwise it returns an error and
  changes nothing.  The two next descriptor numbers must not wrap around.
\<close>

theorem sys_pipe2_correct:
  assumes "fdt_ok (k_fds k)" "unat (next_fd (k_fds k)) + 2 < 2 ^ 32"
  shows "case guest_slice_mut (k_memory k) ptr 8 of
      Inl e \<Rightarrow> e < 0 \<and> sys_pipe2 k (Args ptr flags x y z w) = (e, k)
    | Inr _ \<Rightarrow> \<exists>k' rd wr p. sys_pipe2 k (Args ptr flags x y z w) = (0, k') \<and>
        guest_slice (k_memory k') ptr 8 = Inr (le_bytes 4 (uint rd) @ le_bytes 4 (uint wr)) \<and>
        rd \<noteq> wr \<and> table (k_fds k) rd = None \<and> table (k_fds k) wr = None \<and>
        table (k_fds k') = (table (k_fds k))(rd \<mapsto> RPipeRead p, wr \<mapsto> RPipeWrite p) \<and>
        p = length (k_pipes k) \<and> length (k_pipes k') = p + 1 \<and> take p (k_pipes k') = k_pipes k \<and>
        p_buf (k_pipes k' ! p) = [] \<and> (p_nonblock (k_pipes k' ! p) \<longleftrightarrow> as_i32 flags AND O_NONBLOCK \<noteq> 0)"
proof (cases "guest_slice_mut (k_memory k) ptr 8")
  case (Inl e)
  moreover have "e < 0"
    using Inl by (auto simp: guest_slice_mut_def guest_range_def kernel_memory_def ok_or_def res_bind_def Let_def errno_defs
        split: if_splits option.splits memory_kind.splits)
  ultimately show ?thesis by simp
next
  case (Inr r)
  obtain b l where r: "r = (b, l)" by (cases r)
  let ?n = "next_fd (k_fds k)"
  have n: "?n \<noteq> - 1" using assms(2) unat_max32 by auto
  have free: "table (k_fds k) fd = None" if "?n \<le> fd" for fd
    using assms(1) that by (auto simp: fdt_ok_def linorder_not_less [symmetric])
  have le: "?n \<le> ?n + 1" using le_succ32 [OF n, of "?n + 1"] by simp
  have ne: "?n \<noteq> ?n + 1" by simp
  have g: "guest_range (k_memory k) ptr 8 = Inr (b, l)" using Inr r by (simp add: guest_slice_mut_def)
  have l: "l = 8" using guest_range_Inr [OF g] by auto
  note wr = guest_write_read [OF g, of "le_bytes 4 (uint ?n) @ le_bytes 4 (uint (?n + 1))", unfolded l]
  let ?k' = "snd (sys_pipe2 k (Args ptr flags x y z w))"
  have "sys_pipe2 k (Args ptr flags x y z w) = (0, ?k') \<and>
    guest_slice (k_memory ?k') ptr 8 = Inr (le_bytes 4 (uint ?n) @ le_bytes 4 (uint (?n + 1))) \<and>
    table (k_fds ?k') = (table (k_fds k))(?n \<mapsto> RPipeRead (length (k_pipes k)),
      ?n + 1 \<mapsto> RPipeWrite (length (k_pipes k))) \<and>
    length (k_pipes ?k') = length (k_pipes k) + 1 \<and> take (length (k_pipes k)) (k_pipes ?k') = k_pipes k \<and>
    p_buf (k_pipes ?k' ! length (k_pipes k)) = [] \<and>
    (p_nonblock (k_pipes ?k' ! length (k_pipes k)) \<longleftrightarrow> as_i32 flags AND O_NONBLOCK \<noteq> 0)"
    using wr by (simp add: guest_slice_mut_def g make_pipe_def fd_insert_def Let_def k_update_defs)
  with free [OF le] free [OF order_refl] ne show ?thesis unfolding Inr sum.case by blast
qed

definition demo_fds :: "unit kernel" where
  "demo_fds =
     (kernel_new_inner [] [] (replicate 32 0) \<lparr>root = [RootDir], cwd = [RootDir]\<rparr> ())
       \<lparr>k_memory := Some (Owned (replicate 64 0))\<rparr>"

lemma demo_fds_simps [simp]:
  "k_fds demo_fds = \<lparr>table = [0 \<mapsto> RStdin 0, 1 \<mapsto> RStdout 0, 2 \<mapsto> RStderr 1], next_fd = 3, cloexec = {}\<rparr>"
  "k_memory demo_fds = Some (Owned (replicate 64 0))"
  by (simp_all add: demo_fds_def kernel_new_inner_def with_buffered_stdio_def make_pipe_def Let_def)

theorem sys_pipe2_correct_witness:
  "(\<exists>k' rd wr. sys_pipe2 demo_fds (Args 16 0x800 0 0 0 0) = (0, k') \<and>
    guest_slice (k_memory k') 16 8 = Inr (le_bytes 4 (uint rd) @ le_bytes 4 (uint (wr :: u32))) \<and> rd \<noteq> wr) \<and>
   sys_pipe2 demo_fds (Args (- 1) 0 0 0 0 0) = (- EFAULT, demo_fds)"
proof -
  have "fdt_ok (k_fds demo_fds)" by (simp add: fdt_ok_def)
  moreover have "unat (next_fd (k_fds demo_fds)) + 2 < 2 ^ 32" by simp
  moreover have "guest_slice_mut (k_memory demo_fds) 16 8 = Inr (16, 8)" "guest_slice_mut (k_memory demo_fds) (- 1) 8 = Inl (- EFAULT)"
    by (simp_all add: guest_slice_mut_def guest_range_def kernel_memory_def usize_checked_add_def)
  ultimately show ?thesis
    using sys_pipe2_correct [of demo_fds 16 "0x800" 0 0 0 0] sys_pipe2_correct [of demo_fds "- 1" 0 0 0 0 0]
    by (simp del: sys_pipe2.simps) blast
qed

text \<open>
  \<open>dup2\<close> of an open descriptor that can be duplicated returns the requested
  descriptor, which then refers to the same open file description, whatever it was
  bound to before; it has no close-on-exec flag and nothing else changes.
\<close>

lemma sys_dup2_shares:
  assumes "u32_try_from a0 = Some oldfd" "u32_try_from a1 = Some newfd" "oldfd \<noteq> newfd"
    and "table (k_fds k) oldfd = Some r" "clone_resource r = Inr r"
  shows "\<exists>k'. sys_dup2 k (Args a0 a1 x y z w) = Some (a1, k') \<and>
    table (k_fds k') = (table (k_fds k))(newfd \<mapsto> r) \<and> newfd \<notin> cloexec (k_fds k') \<and>
    k'\<lparr>k_fds := k_fds k\<rparr> = k"
  using internal_dup_target [OF assms(4,5,3), of False] assms(1-3) u32_try_from_uint_inv [OF assms(2)]
  by simp

text \<open>
  \<open>dup\<close> returns unless every descriptor above \<open>oldfd\<close> is in use, and then it never
  does: its search saturates at \<open>u32::MAX\<close>.  Two \<open>dup2\<close> calls by the guest are enough
  to set this up.
\<close>

lemma sys_dup_may_hang:
  assumes "table (k_fds k) 1 = Some r" "clone_resource r = Inr r"
  shows "\<exists>k1 k2. sys_dup2 k (Args 1 4294967295 0 0 0 0) = Some (4294967295, k1) \<and>
    sys_dup2 k1 (Args 1 4294967294 0 0 0 0) = Some (4294967294, k2) \<and>
    sys_dup k2 (Args 4294967294 0 0 0 0 0) = None"
proof -
  have u: "u32_try_from 1 = Some 1" "u32_try_from 4294967295 = Some 4294967295"
    "u32_try_from 4294967294 = Some 4294967294" by (simp_all add: u32_try_from_def)
  from internal_dup_target [OF assms, of 4294967295 False] obtain k1 where
    k1: "internal_dup k 1 (Some 4294967295) False = Some (4294967295, k1)"
    "table (k_fds k1) = (table (k_fds k))(4294967295 \<mapsto> r)" by auto
  from internal_dup_target [of k1 1 r 4294967294 False] k1(2) assms obtain k2 where
    k2: "internal_dup k1 1 (Some 4294967294) False = Some (4294967294, k2)"
    "table (k_fds k2) = (table (k_fds k1))(4294967294 \<mapsto> r)" by auto
  have "(4294967294 :: u32) + 1 = - 1" by simp
  then have "\<forall>j \<ge> (4294967294 :: u32) + 1. table (k_fds k2) j \<noteq> None"
    by (simp only: le_max32) (simp add: k2(2) k1(2))
  then have "internal_dup k2 4294967294 None False = None"
    using internal_dup_search [of k2 4294967294 r False] k2(2) assms(2) by simp
  with k1(1) k2(1) u show ?thesis by simp
qed

end
