(* ===== verification/Sys_Misc.thy ===== *)
theory Sys_Misc
  imports Sys_Fd
begin

text \<open>
  Small components: \<open>ioctl\<close> (\<^verbatim>\<open>src/src/sys/ioctl.rs\<close>), \<open>getrandom\<close> (\<^verbatim>\<open>src/src/sys/random.rs\<close>; the bytes the
  generator yields next are the argument \<open>fill\<close>), and the fuel arithmetic of \<^verbatim>\<open>src/src/meter.rs\<close>.
\<close>

section \<open>ioctl\<close>

definition FIONBIO :: u32 where "FIONBIO = 0x5421"
definition FIONREAD :: u32 where "FIONREAD = 0x541B"
definition TIOCGWINSZ :: u32 where "TIOCGWINSZ = 0x5413"
definition WINSIZE_SIZE :: int where "WINSIZE_SIZE = 8"

fun sys_ioctl :: "'h handler" where
  "sys_ioctl k (Args a0 a1 arg _ _ _) =
     (let fd = as_u32 a0; op = as_u32 a1
      in if op = FIONBIO then
           try_ret (fd_get (k_fds k) fd) k (\<lambda>r.
             case r of
               RFile _ \<Rightarrow> (0, set_nonblock k r (arg \<noteq> 0))
             | RSocket _ \<Rightarrow> (0, set_nonblock k r (arg \<noteq> 0))
             | _ \<Rightarrow> (- EBADF, k))
         else if op = FIONREAD then
           (if arg \<noteq> 0
            then try_ret (guest_slice_mut (k_memory k) arg 4) k (\<lambda>(p, _). (0, k_write k p (le_bytes 4 0)))
            else (0, k))
         else if op = TIOCGWINSZ then
           (if arg = 0 then (- EINVAL, k)
            else try_ret (guest_slice_mut (k_memory k) arg WINSIZE_SIZE) k (\<lambda>(p, _).
              (0, k_write k p (le_bytes 2 24 @ le_bytes 2 80 @ le_bytes 2 0 @ le_bytes 2 0))))
         else (- ENOTTY, k))"

section \<open>getrandom\<close>

definition GRND_NONBLOCK :: u32 where "GRND_NONBLOCK = 0x01"
definition GRND_RANDOM :: u32 where "GRND_RANDOM = 0x02"
definition MAX_LEN :: nat where "MAX_LEN = 4096"

fun sys_getrandom :: "(nat \<Rightarrow> bytes) \<Rightarrow> 'h handler" where
  "sys_getrandom fill k (Args buf buflen a2 _ _ _) =
     (let flags = as_u32 a2
      in if flags AND NOT (GRND_NONBLOCK OR GRND_RANDOM) \<noteq> 0 then (- ENOSYS, k)
         else case usize_try_from buflen of
           None \<Rightarrow> (- EINVAL, k)
         | Some len \<Rightarrow>
             if len > MAX_LEN then (- EINVAL, k)
             else if len = 0 then (0, k)
             else
               try_ret (kernel_memory (k_memory k)) k (\<lambda>mem.
               try_ret (guest_slice_mut_via mem buf (int len)) k (\<lambda>(p, _).
                 (int len, k_write k p (fill len)))))"

section \<open>Metering\<close>

definition FUEL_PER_MS :: u64 where "FUEL_PER_MS = 1000000"

definition ms_to_fuel :: "u64 \<Rightarrow> u64" where
  "ms_to_fuel ms = (if ms = - 1 then - 1 else u64_saturating_mul ms FUEL_PER_MS)"

definition fuel_to_ms :: "u64 \<Rightarrow> u64" where
  "fuel_to_ms fuel = (if fuel = - 1 then - 1 else fuel div FUEL_PER_MS)"

lemma unat_max64: "unat (- 1 :: u64) = 18446744073709551615"
  by (simp add: unsigned_minus_1_eq_mask mask_eq_exp_minus_1)

lemma unat_ms_to_fuel: "unat (ms_to_fuel ms) = min (unat ms * 1000000) 18446744073709551615"
proof (cases "ms = - 1")
  case False
  then show ?thesis
    by (simp add: ms_to_fuel_def u64_saturating_mul_def FUEL_PER_MS_def unat_max64 unat_word_ariths)
qed (simp add: ms_to_fuel_def unat_max64)

lemma unat_fuel_to_ms: "fuel \<noteq> - 1 \<Longrightarrow> unat (fuel_to_ms fuel) = unat fuel div 1000000"
  by (simp add: fuel_to_ms_def FUEL_PER_MS_def unat_div)

text \<open>
  A budget in milliseconds survives the conversion to fuel and back unless the fuel saturates; then it
  reads as unbounded.  Larger budgets never give less fuel.
\<close>

lemma fuel_roundtrip:
  "fuel_to_ms (ms_to_fuel ms) = (if unat ms * 1000000 < 18446744073709551615 then ms else - 1)"
proof (cases "unat ms * 1000000 < 18446744073709551615")
  case True
  then have u: "unat (ms_to_fuel ms) = unat ms * 1000000" by (simp add: unat_ms_to_fuel)
  with True have "ms_to_fuel ms \<noteq> - 1" using unat_max64 by force
  from unat_fuel_to_ms [OF this] u True show ?thesis by (simp add: word_unat_eq_iff)
next
  case False
  then have "unat (ms_to_fuel ms) = unat (- 1 :: u64)" by (simp add: unat_ms_to_fuel unat_max64)
  then have "ms_to_fuel ms = - 1" by (simp only: word_unat_eq_iff)
  with False show ?thesis by (simp add: fuel_to_ms_def)
qed

lemma ms_to_fuel_mono: "ms \<le> ms' \<Longrightarrow> ms_to_fuel ms \<le> ms_to_fuel ms'"
  by (auto simp: word_le_nat_alt unat_ms_to_fuel)

end
