(* ===== verification/Wasm_Host.thy ===== *)
theory Wasm_Host
  imports Snapshot Sys_Misc
begin

text \<open>
  The boundary to wasmtime, a parameter of the model (the record \<open>wasm_ops\<close>), and what surrounds it: the construction of
  kernels in \<^verbatim>\<open>src/src/kernel.rs\<close>, inherited listeners, loading a module and calling \<open>_start\<close> (\<^verbatim>\<open>src/src/cli/util.rs\<close>,
  \<^verbatim>\<open>src/src/meter.rs\<close>), and running a forked child on its own thread (\<open>run_child\<close> of \<^verbatim>\<open>src/src/sys/process.rs\<close>).
\<close>

section \<open>Starting kernels\<close>

text \<open>What a process finds around it: working directory, environment and the seed the operating system draws.\<close>

record host_env =
  he_cwd :: "pathbuf option"
  he_vars :: "(bytes \<times> bytes) list"
  he_seed :: bytes

definition kernel_new :: "'h host_ops \<Rightarrow> host_env \<Rightarrow> bytes list \<Rightarrow> (bytes \<times> bytes) list \<Rightarrow> 'h \<Rightarrow> 'h kernel" where
  "kernel_new H E args env h =
     kernel_new_with_preopen H args env (he_seed E) (case he_cwd E of Some p \<Rightarrow> p | None \<Rightarrow> [RootDir]) h"

definition new_without_stdio :: "host_env \<Rightarrow> bytes list \<Rightarrow> (bytes \<times> bytes) list \<Rightarrow> 'h \<Rightarrow> 'h kernel" where
  "new_without_stdio E args env h = kernel_new_inner args env (he_seed E) \<lparr>root = [RootDir], cwd = [RootDir]\<rparr> h"

definition new_for_child ::
  "bytes list \<Rightarrow> (bytes \<times> bytes) list \<Rightarrow> bytes \<Rightarrow> vfs \<Rightarrow> process_state \<Rightarrow> int \<Rightarrow> int \<Rightarrow> 'h \<Rightarrow> 'h kernel" where
  "new_for_child args env seed v ps tid tgid h =
     (kernel_new_inner args env seed v h)\<lparr>k_tid := tid, k_tgid := tgid, k_process := ps\<rparr>"

definition attach_memory :: "bytes \<Rightarrow> 'h kernel \<Rightarrow> 'h kernel" where
  "attach_memory m k = k\<lparr>k_memory := Some (Owned m)\<rparr>"

definition attach_shared_memory :: "bytes \<Rightarrow> 'h kernel \<Rightarrow> 'h kernel" where
  "attach_shared_memory m k = k\<lparr>k_memory := Some (Shared m)\<rparr>"

text \<open>\<open>new_without_stdio\<close> has all three standard descriptors, on the root of the host's file system.\<close>

lemma new_without_stdio_has_stdio:
  "table (k_fds (new_without_stdio E args env h)) 1 = Some (RStdout 0) \<and> root (k_vfs (new_without_stdio E args env h)) = [RootDir]"
  by (simp add: new_without_stdio_def kernel_new_inner_def with_buffered_stdio_def make_pipe_def Let_def)

section \<open>Inherited listeners\<close>

text \<open>
  \<open>attach_inherited_listeners\<close>: \<open>dup\<close> gives the handle of the duplicated descriptor, or \<open>None\<close>; \<open>local_addr\<close> is asked of the listener.
\<close>

record 'h inherit_ops =
  i_dup :: "int \<Rightarrow> 'h \<Rightarrow> hsock option \<times> 'h"
  i_from_std :: "hsock \<Rightarrow> 'h \<Rightarrow> hsock io \<times> 'h"
  i_local_addr :: "hsock \<Rightarrow> 'h \<Rightarrow> sock_addr io"

definition inherit_one :: "'h inherit_ops \<Rightarrow> int \<Rightarrow> 'h \<Rightarrow> socket_inner option \<times> 'h" where
  "inherit_one I source h =
     (if source < 0 then (None, h)
      else case i_dup I source h of
        (None, h1) \<Rightarrow> (None, h1)
      | (Some d, h1) \<Rightarrow>
          (case i_from_std I d h1 of
             (Inl _, h2) \<Rightarrow> (None, h2)
           | (Inr l, h2) \<Rightarrow>
               (case i_local_addr I l h2 of
                  Inl _ \<Rightarrow> (None, h2)
                | Inr bound \<Rightarrow> (Some (from_inherited_listener l bound), h2))))"

fun attach_inherited_listeners ::
  "'h inherit_ops \<Rightarrow> (u32 \<times> int) list \<Rightarrow> 'h kernel \<Rightarrow> (u32 \<times> nat) list \<times> 'h kernel" where
  "attach_inherited_listeners I [] k = ([], k)"
| "attach_inherited_listeners I ((target, source) # fds) k =
     (case inherit_one I source (k_host k) of
        (None, h) \<Rightarrow> attach_inherited_listeners I fds (k\<lparr>k_host := h\<rparr>)
      | (Some s, h) \<Rightarrow>
          (let r = length (k_sockets k);
               k1 = k\<lparr>k_host := h, k_sockets := k_sockets k @ [s],
                       k_fds := snd (fd_insert_at (k_fds k) target (RSocket r))\<rparr>;
               (out, k2) = attach_inherited_listeners I fds k1
           in ((target, r) # out, k2)))"

lemma attach_inherited_out:
  "attach_inherited_listeners I fds k = (out, k') \<Longrightarrow>
    (\<exists>ss. k_sockets k' = k_sockets k @ ss) \<and> set (map fst out) \<subseteq> set (map fst fds) \<and>
    (\<forall>(t, r) \<in> set out. r < length (k_sockets k') \<and> s_inherited (k_sockets k' ! r) \<and> s_is_acceptor (k_sockets k' ! r))"
proof (induction I fds k arbitrary: out k' rule: attach_inherited_listeners.induct)
  case (2 I target source fds k)
  show ?case
  proof (cases "inherit_one I source (k_host k)")
    case (Pair os h)
    show ?thesis
    proof (cases os)
      case None
      with Pair "2.prems" have "attach_inherited_listeners I fds (k\<lparr>k_host := h\<rparr>) = (out, k')" by simp
      from "2.IH"(1) [OF Pair [symmetric] None this] show ?thesis by auto
    next
      case (Some s)
      let ?r = "length (k_sockets k)"
      let ?k1 = "k\<lparr>k_host := h, k_sockets := k_sockets k @ [s], k_fds := snd (fd_insert_at (k_fds k) target (RSocket ?r))\<rparr>"
      obtain out1 where o: "attach_inherited_listeners I fds ?k1 = (out1, k')" "out = (target, ?r) # out1"
        using "2.prems" Pair Some by (cases "attach_inherited_listeners I fds ?k1") (simp add: Let_def)
      from "2.IH"(2) [OF Pair [symmetric] Some refl refl o(1)] obtain ss where
        ss: "k_sockets k' = (k_sockets k @ [s]) @ ss" and
        rest: "set (map fst out1) \<subseteq> set (map fst fds)" "\<forall>(t, r) \<in> set out1. r < length (k_sockets k') \<and>
          s_inherited (k_sockets k' ! r) \<and> s_is_acceptor (k_sockets k' ! r)" by auto
      have "s_inherited s \<and> s_is_acceptor s"
        using Pair Some by (auto simp: inherit_one_def from_inherited_listener_def split: if_splits option.splits prod.splits sum.splits)
      then show ?thesis using ss rest o(2) by (auto simp: nth_append)
    qed
  qed
qed simp

section \<open>wasmtime\<close>

text \<open>An error of wasmtime: whether it is the trap \<open>OutOfFuel\<close>, its text, and the texts of its chain of sources.\<close>

record wasm_error =
  we_fuel_trap :: bool
  we_text :: bytes
  we_sources :: "bytes list"

definition contains :: "bytes \<Rightarrow> bytes \<Rightarrow> bool" where
  "contains s sub \<longleftrightarrow> sublist sub s"

definition is_out_of_fuel :: "wasm_error \<Rightarrow> bool" where
  "is_out_of_fuel e \<longleftrightarrow>
     we_fuel_trap e \<or>
     (let msg = map (of_nat \<circ> of_char) ''all fuel consumed by WebAssembly''
      in contains (we_text e) msg \<or> (\<exists>s \<in> set (we_sources e). contains s msg))"

text \<open>The three types of \<open>_start\<close> the hosts accept.\<close>

datatype start_sig = StartUnit | StartI32 | StartI64

text \<open>
  The engine: whether it can be built and the import registered, compiling and loading modules, instantiation (which may run
  code of the guest; it yields the exported memory, if any), the types \<open>_start\<close> can be called at, and a call of it with
  some fuel: the value returned or the error, and the fuel left.  \<open>None\<close> is a guest that never stops; \<open>w_drive\<close> is the same
  call cut off by a timeout.
\<close>

record ('m, 'h) wasm_ops =
  w_engine :: bool
  w_linker :: bool
  w_module_new :: "bytes \<Rightarrow> 'm option"
  w_deserialize :: "bytes \<Rightarrow> 'm option"
  w_instantiate :: "'m \<Rightarrow> 'h kernel \<Rightarrow> bytes option option \<times> 'h kernel"
  w_start :: "'m \<Rightarrow> start_sig \<Rightarrow> bool"
  w_call :: "'m \<Rightarrow> u64 \<Rightarrow> 'h kernel \<Rightarrow> ((wasm_error + int) \<times> u64 \<times> 'h kernel) option"
  w_drive :: "'m \<Rightarrow> 'h kernel \<Rightarrow> 'h kernel"

definition load_module :: "('m, 'h) wasm_ops \<Rightarrow> bytes \<Rightarrow> 'm option" where
  "load_module W bs =
     (if 4 \<le> length bs \<and> take 4 bs = [0, 0x61, 0x73, 0x6D] then w_module_new W bs else w_deserialize W bs)"

text \<open>\<open>instantiate_async\<close> and attaching the exported memory.\<close>

definition instantiate :: "('m, 'h) wasm_ops \<Rightarrow> 'm \<Rightarrow> 'h kernel \<Rightarrow> unit option \<times> 'h kernel" where
  "instantiate W m k =
     (case w_instantiate W m k of
        (None, k1) \<Rightarrow> (None, k1)
      | (Some None, k1) \<Rightarrow> (Some (), k1)
      | (Some (Some mem), k1) \<Rightarrow> (Some (), attach_memory mem k1))"

text \<open>The exports of \<open>_start\<close> in the order the command line tries them.\<close>

definition has_start :: "('m, 'h) wasm_ops \<Rightarrow> 'm \<Rightarrow> bool" where
  "has_start W m \<longleftrightarrow> w_start W m StartUnit \<or> w_start W m StartI32 \<or> w_start W m StartI64"

text \<open>\<open>build_store\<close> fills the store with this much fuel.\<close>

definition UNBOUNDED_FUEL :: u64 where "UNBOUNDED_FUEL = 0xFFFFFFFFFFFFFFFF"

datatype start_error = StartArgs | StartTrap wasm_error

definition call_start ::
  "('m, 'h) wasm_ops \<Rightarrow> 'm \<Rightarrow> 'h kernel \<Rightarrow> ((start_error + unit) \<times> 'h kernel) option" where
  "call_start W m k =
     (if has_start W m then
        map_option (\<lambda>(r, fuel, k1). (case r of Inl e \<Rightarrow> Inl (StartTrap e) | Inr _ \<Rightarrow> Inr (), k1)) (w_call W m UNBOUNDED_FUEL k)
      else Some (Inl StartArgs, k))"

section \<open>Running a forked child\<close>

definition child_reaped :: "int \<Rightarrow> child_exit_status" where
  "child_reaped code = \<lparr>ch_exit_code = code, ch_exited = True\<rparr>"

text \<open>Both exit paths write the same entry; only the failing one creates it already exited.\<close>

definition register_and_signal ::
  "int \<Rightarrow> int \<Rightarrow> (int \<times> child_exit_status) list \<Rightarrow> (int \<times> child_exit_status) list" where
  "register_and_signal pid code children =
     (case map_of children pid of
        Some e \<Rightarrow> AList.update pid (e\<lparr>ch_exited := True, ch_exit_code := code\<rparr>) children
      | None \<Rightarrow> AList.update pid (child_reaped code) children)"

text \<open>The child's kernel with the snapshot applied, or \<open>None\<close> where \<open>run_child\<close> gives up.\<close>

definition child_boot ::
  "('m, 'h) wasm_ops \<Rightarrow> 'h host_ops \<Rightarrow> 'h net_ops \<Rightarrow> (bytes \<Rightarrow> nat \<Rightarrow> bytes option) \<Rightarrow> host_env \<Rightarrow> 'm \<Rightarrow> kernel_snapshot \<Rightarrow> 'h \<Rightarrow>
   'h kernel option" where
  "child_boot W H N G E m snap h =
     (if \<not> w_linker W then None
      else case instantiate W m (new_without_stdio E (kn_args snap) (kn_env snap) h) of
        (None, _) \<Rightarrow> None
      | (Some _, k1) \<Rightarrow>
          (case apply_snapshot_kernel_state H N snap k1 of
             (Inl _, _) \<Rightarrow> None
           | (Inr _, k2) \<Rightarrow>
               (case kernel_memory (k_memory k2) of
                  Inl _ \<Rightarrow> None
                | Inr mem \<Rightarrow>
                    (case apply_snapshot_to_memory G (kn_pages snap) mem of
                       (Inl _, _) \<Rightarrow> None
                     | (Inr _, mem') \<Rightarrow> Some (k2\<lparr>k_memory := Some (Owned mem')\<rparr>)))))"

text \<open>
  The value of \<open>_start\<close>, tried as \<open>i32\<close>, \<open>i64\<close> (truncated) and unit; a trap or a missing export is an error.
  \<open>None\<close> is a guest that never stops.
\<close>

definition child_start :: "('m, 'h) wasm_ops \<Rightarrow> 'm \<Rightarrow> 'h kernel \<Rightarrow> (int option \<times> 'h kernel) option" where
  "child_start W m k =
     (if w_start W m StartI32 \<or> w_start W m StartI64 then
        map_option (\<lambda>(r, _, k1). (case r of Inr v \<Rightarrow> Some (as_i32 v) | Inl _ \<Rightarrow> None, k1)) (w_call W m UNBOUNDED_FUEL k)
      else if w_start W m StartUnit then
        map_option (\<lambda>(r, _, k1). (case r of Inr _ \<Rightarrow> Some 0 | Inl _ \<Rightarrow> None, k1)) (w_call W m UNBOUNDED_FUEL k)
      else Some (None, k))"

definition child_exit_code :: "int option \<Rightarrow> 'h kernel \<Rightarrow> int" where
  "child_exit_code r k = (case r of Some code \<Rightarrow> code | None \<Rightarrow> (case k_exit_code k of Some c \<Rightarrow> c | None \<Rightarrow> 139))"

text \<open>\<open>run_child\<close>: what it leaves in the parent's table of children.  The entry is written anew after \<open>_start\<close> has returned.\<close>

definition run_child ::
  "('m, 'h) wasm_ops \<Rightarrow> 'h host_ops \<Rightarrow> 'h net_ops \<Rightarrow> (bytes \<Rightarrow> nat \<Rightarrow> bytes option) \<Rightarrow> host_env \<Rightarrow> 'm \<Rightarrow> kernel_snapshot \<Rightarrow> int \<Rightarrow> 'h \<Rightarrow>
   (int \<times> child_exit_status) list \<Rightarrow> (int \<times> child_exit_status) list option" where
  "run_child W H N G E m snap pid h children =
     (case child_boot W H N G E m snap h of
        None \<Rightarrow> Some (register_and_signal pid 139 children)
      | Some k \<Rightarrow>
          map_option
            (\<lambda>(r, k1).
              let c1 = AList.update pid (child_new 0) children
              in case map_of c1 pid of
                   None \<Rightarrow> c1
                 | Some e \<Rightarrow> AList.update pid (e\<lparr>ch_exited := True, ch_exit_code := child_exit_code r k1\<rparr>) c1)
            (child_start W m k))"

text \<open>\<open>run_child_pub\<close> and \<open>spawn_child_thread\<close>: the runtime may fail to start; the snapshot is taken in the parent.\<close>

definition run_child_pub ::
  "bool \<Rightarrow> ('m, 'h) wasm_ops \<Rightarrow> 'h host_ops \<Rightarrow> 'h net_ops \<Rightarrow> (bytes \<Rightarrow> nat \<Rightarrow> bytes option) \<Rightarrow> host_env \<Rightarrow> 'm \<Rightarrow> kernel_snapshot \<Rightarrow> int \<Rightarrow>
   'h \<Rightarrow> (int \<times> child_exit_status) list \<Rightarrow> (int \<times> child_exit_status) list option" where
  "run_child_pub runtime W H N G E m snap pid h children =
     (if \<not> runtime then Some (register_and_signal pid 139 children) else run_child W H N G E m snap pid h children)"

definition spawn_child_thread ::
  "bool \<Rightarrow> ('m, 'h) wasm_ops \<Rightarrow> 'h host_ops \<Rightarrow> 'h net_ops \<Rightarrow> (bytes \<Rightarrow> nat \<Rightarrow> bytes option) \<Rightarrow> host_env \<Rightarrow> 'm \<Rightarrow> 'h kernel \<Rightarrow> int \<Rightarrow>
   (int \<times> child_exit_status) list \<Rightarrow> (int \<times> child_exit_status) list option" where
  "spawn_child_thread runtime W H N G E m parent pid children =
     (case try_to_snapshot N parent of
        Inl _ \<Rightarrow> Some children
      | Inr snap \<Rightarrow> run_child_pub runtime W H N G E m snap pid (k_host parent) children)"

lemma register_and_signal_entry:
  "map_of (register_and_signal pid code children) pid = Some (child_reaped code) \<and>
   (\<forall>q. q \<noteq> pid \<longrightarrow> map_of (register_and_signal pid code children) q = map_of children q)"
  by (auto simp: register_and_signal_def child_reaped_def update_conv' split: option.splits)

lemma run_child_entry:
  assumes "run_child_pub runtime W H N G E m snap pid h children = Some c"
  shows "\<exists>code. map_of c pid = Some (child_reaped code) \<and> (\<forall>q. q \<noteq> pid \<longrightarrow> map_of c q = map_of children q) \<and>
    (if \<not> runtime \<or> child_boot W H N G E m snap h = None then code = 139
     else \<exists>k r k1. child_boot W H N G E m snap h = Some k \<and> child_start W m k = Some (r, k1) \<and> code = child_exit_code r k1)"
proof (cases "\<not> runtime \<or> child_boot W H N G E m snap h = None")
  case True
  with assms have "c = register_and_signal pid 139 children" by (auto simp: run_child_pub_def run_child_def split: if_splits)
  with register_and_signal_entry [of pid 139 children] True show ?thesis by auto
next
  case False
  then obtain k where k: "child_boot W H N G E m snap h = Some k" by auto
  from assms False k obtain r k1 where r: "child_start W m k = Some (r, k1)"
    by (auto simp: run_child_pub_def run_child_def)
  with assms False k have "map_of c pid = Some (child_reaped (child_exit_code r k1))"
    "\<forall>q. q \<noteq> pid \<longrightarrow> map_of c q = map_of children q"
    by (auto simp: run_child_pub_def run_child_def Let_def update_conv' child_new_def child_reaped_def)
  with k r False show ?thesis by auto
qed

text \<open>
  C13: However a forked child ends, the parent's table then has it as exited with one definite code: 139 when its runtime,
  linker or instance cannot be built or the snapshot does not apply; otherwise the value \<open>_start\<close> returned, and where it
  trapped or is missing the code the child passed to \<open>exit\<close>, or 139 if it passed none.  No other child's entry is touched; and
  a \<open>wait4\<close> for it, blocking or not, returns it at once, takes exactly it off the table, and stores the low byte of that code
  in the second byte of the status word when it is given a pointer into memory.
\<close>
theorem forked_child_reaped:
  assumes "run_child_pub runtime W H N G E m snap (as_i32 pid) h (ps_children (k_process k)) = Some c"
    and "0 < pid" "as_i32 opts \<in> {0, WNOHANG}" "ptr = 0 \<or> guest_range (k_memory k) ptr 4 = Inr (b, 4)"
  shows "\<exists>code k'. map_of c (as_i32 pid) = Some (child_reaped code) \<and>
    (\<forall>q. q \<noteq> as_i32 pid \<longrightarrow> map_of c q = map_of (ps_children (k_process k)) q) \<and>
    (if \<not> runtime \<or> child_boot W H N G E m snap h = None then code = 139
     else \<exists>ck r ck1. child_boot W H N G E m snap h = Some ck \<and> child_start W m ck = Some (r, ck1) \<and>
       code = (case r of Some v \<Rightarrow> v | None \<Rightarrow> (case k_exit_code ck1 of Some e \<Rightarrow> e | None \<Rightarrow> 139))) \<and>
    sys_wait4 (k\<lparr>k_process := (k_process k)\<lparr>ps_children := c\<rparr>\<rparr>) (Args pid ptr opts x4 x5 x6) = (Ret (as_i32 pid), k') \<and>
    map_of (ps_children (k_process k')) = (map_of (ps_children (k_process k)))(as_i32 pid := None) \<and>
    (ptr \<noteq> 0 \<longrightarrow> guest_slice (k_memory k') ptr 4 = Inr [0, word_of_int code, 0, 0])"
proof -
  from run_child_entry [OF assms(1)] obtain code where code: "map_of c (as_i32 pid) = Some (child_reaped code)"
    "\<forall>q. q \<noteq> as_i32 pid \<longrightarrow> map_of c q = map_of (ps_children (k_process k)) q"
    "if \<not> runtime \<or> child_boot W H N G E m snap h = None then code = 139
     else \<exists>ck r ck1. child_boot W H N G E m snap h = Some ck \<and> child_start W m ck = Some (r, ck1) \<and> code = child_exit_code r ck1"
    by blast
  let ?k = "k\<lparr>k_process := (k_process k)\<lparr>ps_children := c\<rparr>\<rparr>"
  have "map_of (ps_children (k_process ?k)) (as_i32 pid) = Some (child_reaped code)" "ch_exited (child_reaped code)"
    "ptr = 0 \<or> guest_range (k_memory ?k) ptr 4 = Inr (b, 4)" "ch_exit_code (child_reaped code) = code"
    using code(1) assms(4) by (simp_all add: child_reaped_def)
  from wait4_reaps_exited [OF this(1,2) assms(2,3) this(3), of x4 x5 x6] this(4)
  obtain k' where k': "sys_wait4 ?k (Args pid ptr opts x4 x5 x6) = (Ret (as_i32 pid), k')"
    "ptr \<noteq> 0 \<longrightarrow> guest_slice (k_memory k') ptr 4 = Inr [0, word_of_int code, 0, 0]"
    "map_of (ps_children (k_process k')) = (map_of c)(as_i32 pid := None)" by auto
  have "(map_of c)(as_i32 pid := None) = (map_of (ps_children (k_process k)))(as_i32 pid := None)"
    by (rule ext) (use code(2) in simp)
  then show ?thesis
    using code(1,2) code(3) [unfolded child_exit_code_def] k' by (intro exI [of _ code] exI [of _ k'] conjI) simp_all
qed

text \<open>
  A module whose \<open>_start\<close> traps after \<open>exit(7)\<close> (cut off by a timeout, it has written three bytes of its memory and opened the
  file \<open>/w\<close> on descriptor 3), and an empty snapshot.
\<close>

definition demo_drive :: "memfs kernel \<Rightarrow> memfs kernel" where
  "demo_drive k =
     k\<lparr>k_memory := Some (Owned [5, 0, 6]),
       k_files := [\<lparr>fp_inner = 0, fp_pos = 1, fp_path = Some [RootDir, Normal [0x77]], fp_is_dir = False, fp_dir_cache = None\<rparr>],
       k_fds := (k_fds k)\<lparr>table := (table (k_fds k))(3 \<mapsto> RFile 0), next_fd := 4\<rparr>\<rparr>"

definition demo_wasm :: "(unit, memfs) wasm_ops" where
  "demo_wasm =
     \<lparr>w_engine = True, w_linker = True, w_module_new = (\<lambda>_. Some ()), w_deserialize = (\<lambda>_. None),
      w_instantiate = (\<lambda>_ k. (Some (Some [0, 0]), k)), w_start = (\<lambda>_ s. s = StartI32),
      w_call = (\<lambda>_ _ k. Some (Inl \<lparr>we_fuel_trap = False, we_text = [], we_sources = []\<rparr>, 0, k\<lparr>k_exit_code := Some 7\<rparr>)),
      w_drive = (\<lambda>_. demo_drive)\<rparr>"

definition demo_env :: host_env where
  "demo_env = \<lparr>he_cwd = None, he_vars = [], he_seed = replicate 32 0\<rparr>"

definition empty_snapshot :: kernel_snapshot where
  "empty_snapshot =
     \<lparr>kn_format_version = 1, kn_pages = [], kn_fds = \<lparr>dn_entries = [], dn_next_fd = 3, dn_cloexec = []\<rparr>,
      kn_mm = \<lparr>ln_arenas = [], ln_high_water = 0\<rparr>, kn_vfs = \<lparr>root = [RootDir], cwd = [RootDir]\<rparr>, kn_clock = 0, kn_brk = 0,
      kn_args = [], kn_env = [], kn_rng_seed = replicate 32 0, kn_signals = \<lparr>gn_actions = [], gn_mask = 0, gn_alt_stack = None\<rparr>,
      kn_exit_code = None, kn_comm = replicate 16 0, kn_futex_table = [], kn_cpu_ns = 0, kn_module_sha256 = replicate 32 0\<rparr>"

lemma demo_child:
  "\<exists>k. child_boot demo_wasm mem_host demo_net (\<lambda>_ _. None) demo_env () empty_snapshot demo_fs = Some k \<and>
    child_start demo_wasm () k = Some (None, k\<lparr>k_exit_code := Some 7\<rparr>)"
  by (simp add: child_boot_def child_start_def demo_wasm_def instantiate_def apply_snapshot_kernel_state_def empty_snapshot_def
      SNAPSHOT_FORMAT_VERSION_def attach_memory_def kernel_memory_def restore_scalars_def apply_snapshot_to_memory_def)

theorem forked_child_reaped_witness:
  "\<exists>c k'. run_child_pub True demo_wasm mem_host demo_net (\<lambda>_ _. None) demo_env () empty_snapshot 2 demo_fs [(2, child_new 0)] = Some c \<and>
    map_of c 2 = Some (child_reaped 7) \<and>
    sys_wait4 (demo_proc\<lparr>k_process := process_state_new\<lparr>ps_children := c\<rparr>\<rparr>) (Args 2 8 0 0 0 0) = (Ret 2, k') \<and>
    guest_slice (k_memory k') 8 4 = Inr [0, 7, 0, 0]"
proof -
  obtain k where k: "child_boot demo_wasm mem_host demo_net (\<lambda>_ _. None) demo_env () empty_snapshot demo_fs = Some k"
    "child_start demo_wasm () k = Some (None, k\<lparr>k_exit_code := Some 7\<rparr>)" using demo_child by blast
  let ?p = "demo_proc\<lparr>k_process := process_state_new\<lparr>ps_children := [(2, child_new 0)]\<rparr>\<rparr>"
  have c: "run_child_pub True demo_wasm mem_host demo_net (\<lambda>_ _. None) demo_env () empty_snapshot (as_i32 2) demo_fs (ps_children (k_process ?p)) =
      Some [(2, child_reaped 7)]"
    by (simp add: run_child_pub_def run_child_def k as_i32_def child_new_def child_reaped_def child_exit_code_def)
  have h: "as_i32 0 \<in> {0, WNOHANG}" "(8::int) = 0 \<or> guest_range (k_memory ?p) 8 4 = Inr (8, 4)"
    by (simp_all add: as_i32_def guest_range_def kernel_memory_def usize_checked_add_def)
  from forked_child_reaped [OF c _ h, of 0 0 0] c show ?thesis
    by (auto simp: as_i32_def child_reaped_def)
qed

end
