(* ===== verification/Cli.thy ===== *)
theory Cli
  imports Cli_Args Wasm_Host
begin

text \<open>
  The subcommands \<open>run\<close>, \<open>freeze\<close>, \<open>serve\<close>, \<open>bench\<close> and \<open>migrate\<close> of \<^verbatim>\<open>src/src/cli\<close>: what each does with the files, the
  kernel and the guest, up to its result.  Messages on the terminal are left out, except for the guest's own output.
  The properties compose them: what \<open>freeze\<close> writes, \<open>serve\<close> restores.
\<close>

section \<open>The world of a command\<close>

record ('m, 'h) cli_ops =
  c_wasm :: "('m, 'h) wasm_ops"
  c_host :: "'h host_ops"
  c_net :: "'h net_ops"
  c_inherit :: "'h inherit_ops"
  c_grow :: "bytes \<Rightarrow> nat \<Rightarrow> bytes option"
  c_postcard :: postcard
  c_sha256 :: "bytes \<Rightarrow> bytes"
  c_deny_list :: "bytes \<Rightarrow> ip_addr list"
  c_env :: host_env

text \<open>Reading the module's file and loading it; every subcommand reports a file it cannot read as an argument error.\<close>

definition read_module :: "('m, 'h) cli_ops \<Rightarrow> bytes \<Rightarrow> 'h \<Rightarrow> (bytes \<times> 'm) cli_result" where
  "read_module C wasm_path h =
     (case h_read_file (c_host C) (components wasm_path) h of
        Inl _ \<Rightarrow> Inl CliArgs
      | Inr bs \<Rightarrow> (case load_module (c_wasm C) bs of None \<Rightarrow> Inl CliWasmtime | Some m \<Rightarrow> Inr (bs, m)))"

text \<open>\<open>build_engine\<close> and \<open>add_to_linker\<close> fail with an \<open>anyhow\<close> error.\<close>

definition engine_ready :: "('m, 'h) cli_ops \<Rightarrow> bool" where
  "engine_ready C \<longleftrightarrow> w_engine (c_wasm C) \<and> w_linker (c_wasm C)"

definition operator_kernel :: "('m, 'h) cli_ops \<Rightarrow> 'h \<Rightarrow> 'h kernel" where
  "operator_kernel C h =
     attach_resolver_config (kernel_new (c_host C) (c_env C) [] [] h)
       (config_from_env (c_deny_list C) (he_vars (c_env C)))"

section \<open>run\<close>

definition drained :: "'h kernel \<Rightarrow> nat option \<Rightarrow> bytes" where
  "drained k b = (case b of None \<Rightarrow> [] | Some r \<Rightarrow> p_buf (k_pipes k ! r))"

record report =
  rep_result :: "int cli_result"
  rep_stdout :: bytes
  rep_stderr :: bytes

abbreviation failed :: "cli_error \<Rightarrow> report" where
  "failed e \<equiv> \<lparr>rep_result = Inl e, rep_stdout = [], rep_stderr = []\<rparr>"

text \<open>\<open>drive_guest\<close>; \<open>None\<close> is a guest that never stops.\<close>

definition drive_guest :: "('m, 'h) cli_ops \<Rightarrow> bytes \<Rightarrow> u64 \<Rightarrow> 'h \<Rightarrow> (report \<times> 'h) option" where
  "drive_guest C wasm_path budget_ms h =
     (if \<not> engine_ready C then Some (failed (from_anyhow None), h)
      else case read_module C wasm_path h of
        Inl e \<Rightarrow> Some (failed e, h)
      | Inr (bs, m) \<Rightarrow>
          (case instantiate (c_wasm C) m (operator_kernel C h) of
             (None, k) \<Rightarrow> Some (failed CliWasmtime, k_host k)
           | (Some _, k) \<Rightarrow>
               if \<not> has_start (c_wasm C) m then Some (failed CliArgs, k_host k)
               else map_option
                 (\<lambda>(r, fuel, k1).
                   (\<lparr>rep_result =
                       (if case r of Inl e \<Rightarrow> is_out_of_fuel e | Inr _ \<Rightarrow> False then Inl CliMetered
                        else Inr (case k_exit_code k1 of Some c \<Rightarrow> c | None \<Rightarrow> 0)),
                     rep_stdout = drained k1 (stdout_buf k), rep_stderr = drained k1 (stderr_buf k)\<rparr>, k_host k1))
                 (w_call (c_wasm C) m (ms_to_fuel budget_ms) k)))"

definition run_main :: "('m, 'h) cli_ops \<Rightarrow> bytes list \<Rightarrow> 'h \<Rightarrow> (report \<times> 'h) option" where
  "run_main C args h =
     (case parse_run_argv args of
        Inl e \<Rightarrow> Some (failed e, h)
      | Inr (wasm_path, budget_ms, script_args) \<Rightarrow> drive_guest C wasm_path budget_ms h)"

section \<open>freeze\<close>

text \<open>The guest runs until it returns or ten seconds have passed.\<close>

definition freeze_drive :: "('m, 'h) wasm_ops \<Rightarrow> 'm \<Rightarrow> 'h kernel \<Rightarrow> 'h kernel" where
  "freeze_drive W m k = (if has_start W m then w_drive W m k else k)"

definition freeze_snapshot :: "('m, 'h) cli_ops \<Rightarrow> bytes \<Rightarrow> bytes list \<Rightarrow> 'h \<Rightarrow> kernel_snapshot cli_result \<times> 'h" where
  "freeze_snapshot C wasm_path guest_args h =
     (if \<not> engine_ready C then (Inl (from_anyhow None), h)
      else case read_module C wasm_path h of
        Inl e \<Rightarrow> (Inl e, h)
      | Inr (bs, m) \<Rightarrow>
          (case instantiate (c_wasm C) m (kernel_new (c_host C) (c_env C) guest_args [] h) of
             (None, k) \<Rightarrow> (Inl CliWasmtime, k_host k)
           | (Some _, k) \<Rightarrow>
               (let k1 = freeze_drive (c_wasm C) m k
                in case try_to_snapshot (c_net C) k1 of
                     Inl e \<Rightarrow> (Inl (CliSnapshot e), k_host k1)
                   | Inr snap \<Rightarrow> (Inr (snap\<lparr>kn_module_sha256 := c_sha256 C bs\<rparr>), k_host k1))))"

definition freeze_main :: "('m, 'h) cli_ops \<Rightarrow> bytes list \<Rightarrow> 'h \<Rightarrow> int cli_result \<times> 'h" where
  "freeze_main C args h =
     (case parse_freeze_argv args of
        Inl e \<Rightarrow> (Inl e, h)
      | Inr (out, wasm_path, guest_args) \<Rightarrow>
          (case freeze_snapshot C wasm_path guest_args h of
             (Inl e, h1) \<Rightarrow> (Inl e, h1)
           | (Inr snap, h1) \<Rightarrow>
               (case write_snapshot_file (c_host C) (c_postcard C) (components out) snap h1 of
                  (Inl e, h2) \<Rightarrow> (Inl (CliSnapshot e), h2)
                | (Inr _, h2) \<Rightarrow> (Inr 0, h2))))"

section \<open>serve\<close>

text \<open>\<open>serve_loop\<close> up to the call of the guest: the module and the kernel it is called on.\<close>

definition serve_restore ::
  "('m, 'h) cli_ops \<Rightarrow> kernel_snapshot \<Rightarrow> bytes \<Rightarrow> (u32 \<times> int) list \<Rightarrow> 'h \<Rightarrow> 'm cli_result \<times> 'h kernel" where
  "serve_restore C snap wasm_path inherited h =
     (let k0 = operator_kernel C h
      in if \<not> engine_ready C then (Inl (from_anyhow None), k0)
         else case read_module C wasm_path h of
           Inl e \<Rightarrow> (Inl e, k0)
         | Inr (bs, m) \<Rightarrow>
             (case instantiate (c_wasm C) m k0 of
                (None, k) \<Rightarrow> (Inl CliWasmtime, k)
              | (Some _, k) \<Rightarrow>
                  (case verify_module_hash (c_sha256 C) snap bs of
                     Inl e \<Rightarrow> (Inl (CliSnapshot e), k)
                   | Inr _ \<Rightarrow>
                       (let (preattached, k1) = attach_inherited_listeners (c_inherit C) inherited k
                        in case apply_snapshot_kernel_state (c_host C) (c_net C) snap k1 of
                             (Inl e, k2) \<Rightarrow> (Inl (CliSnapshot e), k2)
                           | (Inr _, k2) \<Rightarrow>
                               (let (_, k3) = apply_snapshot_inherited_listeners snap preattached k2
                                in case kernel_memory (k_memory k3) of
                                     Inl _ \<Rightarrow> (Inl CliArgs, k3)
                                   | Inr mem \<Rightarrow>
                                       (case apply_snapshot_to_memory (c_grow C) (kn_pages snap) mem of
                                          (Inl e, mem') \<Rightarrow> (Inl (CliSnapshot e), k3\<lparr>k_memory := Some (Owned mem')\<rparr>)
                                        | (Inr _, mem') \<Rightarrow> (Inr m, k3\<lparr>k_memory := Some (Owned mem')\<rparr>)))))))"

definition serve_loop ::
  "('m, 'h) cli_ops \<Rightarrow> kernel_snapshot \<Rightarrow> bytes \<Rightarrow> (u32 \<times> int) list \<Rightarrow> 'h \<Rightarrow> (int cli_result \<times> 'h) option" where
  "serve_loop C snap wasm_path inherited h =
     (case serve_restore C snap wasm_path inherited h of
        (Inl e, k) \<Rightarrow> Some (Inl e, k_host k)
      | (Inr m, k) \<Rightarrow> map_option (\<lambda>(_, k1). (Inr 0, k_host k1)) (call_start (c_wasm C) m k))"

definition serve_main :: "('m, 'h) cli_ops \<Rightarrow> bytes list \<Rightarrow> 'h \<Rightarrow> (int cli_result \<times> 'h) option" where
  "serve_main C args h =
     (case parse_serve_argv args of
        Inl e \<Rightarrow> Some (Inl e, h)
      | Inr (port, snap_path, wasm_path) \<Rightarrow>
          (case read_snapshot_file (c_host C) (c_postcard C) (components snap_path) h of
             Inl e \<Rightarrow> Some (Inl (CliSnapshot e), h)
           | Inr snap0 \<Rightarrow>
               (case (case port of None \<Rightarrow> Inr snap0 | Some p \<Rightarrow> override_snapshot_port snap0 p) of
                  Inl e \<Rightarrow> Some (Inl e, h)
                | Inr snap \<Rightarrow>
                    (case parse_inherited_fds (he_vars (c_env C)) of
                       Inl e \<Rightarrow> Some (Inl e, h)
                     | Inr inherited \<Rightarrow> serve_loop C snap wasm_path inherited h))))"

section \<open>bench\<close>

text \<open>
  One iteration restores into a fresh kernel; \<open>elapsed\<close> is the time it is measured to take, in microseconds.  The guest is
  then called with the budget's fuel and its result ignored; \<open>None\<close> is a guest that never stops.
\<close>

definition bench_iter :: "('m, 'h) cli_ops \<Rightarrow> kernel_snapshot \<Rightarrow> bytes \<Rightarrow> u64 \<Rightarrow> 'h \<Rightarrow> (unit cli_result \<times> 'h) option" where
  "bench_iter C snap wasm_bytes budget_fuel h =
     (if \<not> w_linker (c_wasm C) then Some (Inl (from_anyhow None), h)
      else case load_module (c_wasm C) wasm_bytes of
        None \<Rightarrow> Some (Inl CliWasmtime, h)
      | Some m \<Rightarrow>
          (case w_instantiate (c_wasm C) m (kernel_new (c_host C) (c_env C) [] [] h) of
             (None, k) \<Rightarrow> Some (Inl CliWasmtime, k_host k)
           | (Some None, k) \<Rightarrow> Some (Inl CliArgs, k_host k)
           | (Some (Some mem), k) \<Rightarrow>
               (case apply_snapshot_kernel_state (c_host C) (c_net C) snap (attach_memory mem k) of
                  (Inl e, k1) \<Rightarrow> Some (Inl (CliSnapshot e), k_host k1)
                | (Inr _, k1) \<Rightarrow>
                    (case apply_snapshot_to_memory (c_grow C) (kn_pages snap) mem of
                       (Inl e, _) \<Rightarrow> Some (Inl (CliSnapshot e), k_host k1)
                     | (Inr _, mem') \<Rightarrow>
                         if has_start (c_wasm C) m
                         then map_option (\<lambda>(_, _, k2). (Inr (), k_host k2))
                                (w_call (c_wasm C) m budget_fuel (k1\<lparr>k_memory := Some (Owned mem')\<rparr>))
                         else Some (Inr (), k_host k1)))))"

fun bench_iters ::
  "('m, 'h) cli_ops \<Rightarrow> kernel_snapshot \<Rightarrow> bytes \<Rightarrow> u64 \<Rightarrow> u64 list \<Rightarrow> 'h \<Rightarrow> (u64 list cli_result \<times> 'h) option" where
  "bench_iters C snap bs fuel [] h = Some (Inr [], h)"
| "bench_iters C snap bs fuel (t # ts) h =
     (case bench_iter C snap bs fuel h of
        None \<Rightarrow> None
      | Some (Inl e, h1) \<Rightarrow> Some (Inl e, h1)
      | Some (Inr _, h1) \<Rightarrow>
          map_option (\<lambda>(r, h2). (map_sum id (Cons t) r, h2)) (bench_iters C snap bs fuel ts h1))"

text \<open>
  The percentile of sorted samples: the sample at \<open>p / 100 * (n - 1)\<close>, rounded half up.  At 50 the computation in \<open>f64\<close> is
  exact; the other percentiles are only printed.
\<close>

definition pct_index :: "nat \<Rightarrow> nat \<Rightarrow> nat" where
  "pct_index p n = (2 * p * (n - 1) + 100) div 200"

definition bench_gate :: "u64 list \<Rightarrow> int cli_result" where
  "bench_gate samples =
     (let sorted_samples = sort samples
      in if sorted_samples ! pct_index 50 (length samples) \<ge> 5000 then Inl CliBench else Inr 0)"

definition bench_main :: "('m, 'h) cli_ops \<Rightarrow> (nat \<Rightarrow> u64) \<Rightarrow> bytes list \<Rightarrow> 'h \<Rightarrow> (int cli_result \<times> 'h) option" where
  "bench_main C elapsed args h =
     (case parse_bench_argv args of
        Inl e \<Rightarrow> Some (Inl e, h)
      | Inr (iters, budget_ms, snap_path, wasm_path) \<Rightarrow>
          (case read_snapshot_file (c_host C) (c_postcard C) (components snap_path) h of
             Inl e \<Rightarrow> Some (Inl (CliSnapshot e), h)
           | Inr snap \<Rightarrow>
               (case h_read_file (c_host C) (components wasm_path) h of
                  Inl _ \<Rightarrow> Some (Inl CliArgs, h)
                | Inr bs \<Rightarrow>
                    if \<not> w_engine (c_wasm C) then Some (Inl (from_anyhow None), h)
                    else map_option
                      (\<lambda>(r, h1). (case r of Inl e \<Rightarrow> Inl e | Inr samples \<Rightarrow> bench_gate samples, h1))
                      (bench_iters C snap bs (ms_to_fuel budget_ms) (map elapsed [0..<iters]) h))))"

section \<open>migrate\<close>

text \<open>
  \<open>run_main_subprocess\<close>.  \<open>exe\<close> tells whether the program finds its own executable, \<open>spawn\<close> runs it with arguments and extra
  environment: an error when it cannot be started, otherwise whether it succeeded; \<open>None\<close> is a child that never ends.
\<close>

type_synonym 'h spawn = "bytes list \<Rightarrow> (bytes \<times> bytes) list \<Rightarrow> 'h \<Rightarrow> (bool io \<times> 'h) option"

definition migrate_serve ::
  "'h host_ops \<Rightarrow> 'h spawn \<Rightarrow> (bytes \<times> bytes) list \<Rightarrow> bytes \<Rightarrow> bytes \<Rightarrow> 'h \<Rightarrow> (int cli_result \<times> 'h) option" where
  "migrate_serve H spawn env snap_path wasm_path h =
     map_option
       (\<lambda>(status, h1).
         case status of
           Inl _ \<Rightarrow> (Inl CliArgs, h1)
         | Inr ok \<Rightarrow> (if ok then Inr 0 else Inl CliArgs, snd (h_remove_file H (components snap_path) h1)))
       (spawn (text_of ''serve'' # serve_argv wasm_path snap_path) (collect_inherit_env env) h)"

definition migrate_subprocess ::
  "'h host_ops \<Rightarrow> bool \<Rightarrow> 'h spawn \<Rightarrow> (bytes \<times> bytes) list \<Rightarrow> bytes \<Rightarrow> bytes list \<Rightarrow> 'h \<Rightarrow> (int cli_result \<times> 'h) option" where
  "migrate_subprocess H exe spawn env snap_path args h =
     (case parse_migrate_args args of
        Inl e \<Rightarrow> Some (Inl e, h)
      | Inr (wasm_path, guest_args) \<Rightarrow>
          if \<not> exe then Some (Inl CliArgs, h)
          else case spawn (text_of ''freeze'' # freeze_argv wasm_path guest_args snap_path) [] h of
            None \<Rightarrow> None
          | Some (Inl _, h1) \<Rightarrow> Some (Inl CliArgs, h1)
          | Some (Inr ok, h1) \<Rightarrow>
              if \<not> ok then Some (Inl CliArgs, snd (h_remove_file H (components snap_path) h1))
              else migrate_serve H spawn env snap_path wasm_path h1)"

text \<open>
  \<open>run_main_in_process\<close>: snapshot, encode, decode, and apply to a second instance, whose kernel is the second component; the
  third is the host afterwards.  The guest is only called when \<open>_start\<close> has the type \<open>() -> i64\<close>; its result is ignored.
\<close>

definition migrate_restore ::
  "('m, 'h) cli_ops \<Rightarrow> 'm \<Rightarrow> bytes list \<Rightarrow> kernel_snapshot \<Rightarrow> 'h \<Rightarrow> int cli_result \<times> 'h kernel option \<times> 'h" where
  "migrate_restore C m guest_args snap h =
     (case instantiate (c_wasm C) m (new_without_stdio (c_env C) guest_args [] h) of
        (None, k) \<Rightarrow> (Inl CliWasmtime, None, k_host k)
      | (Some _, k) \<Rightarrow>
          (case apply_snapshot_kernel_state (c_host C) (c_net C) snap k of
             (Inl e, k1) \<Rightarrow> (Inl (CliSnapshot e), None, k_host k1)
           | (Inr _, k1) \<Rightarrow>
               (case kernel_memory (k_memory k1) of
                  Inl _ \<Rightarrow> (Inl CliArgs, None, k_host k1)
                | Inr mem \<Rightarrow>
                    (case apply_snapshot_to_memory (c_grow C) (kn_pages snap) mem of
                       (Inl e, _) \<Rightarrow> (Inl (CliSnapshot e), None, k_host k1)
                     | (Inr _, mem') \<Rightarrow> (Inr 0, Some (k1\<lparr>k_memory := Some (Owned mem')\<rparr>), k_host k1)))))"

definition migrate_image ::
  "('m, 'h) cli_ops \<Rightarrow> 'm \<Rightarrow> bytes list \<Rightarrow> 'h kernel \<Rightarrow> int cli_result \<times> 'h kernel option \<times> 'h" where
  "migrate_image C m guest_args k =
     (case try_to_snapshot (c_net C) k of
        Inl e \<Rightarrow> (Inl (CliSnapshot e), None, k_host k)
      | Inr snap \<Rightarrow>
          (case encode_snapshot (c_postcard C) snap of
             Inl e \<Rightarrow> (Inl (CliSnapshot e), None, k_host k)
           | Inr bs \<Rightarrow>
               (case decode_snapshot (c_postcard C) bs of
                  Inl e \<Rightarrow> (Inl (CliSnapshot e), None, k_host k)
                | Inr snap1 \<Rightarrow> migrate_restore C m guest_args snap1 (k_host k))))"

definition migrate_in_process ::
  "('m, 'h) cli_ops \<Rightarrow> bytes list \<Rightarrow> 'h \<Rightarrow> (int cli_result \<times> 'h kernel option \<times> 'h) option" where
  "migrate_in_process C args h =
     (case parse_migrate_args args of
        Inl e \<Rightarrow> Some (Inl e, None, h)
      | Inr (wasm_path, guest_args) \<Rightarrow>
          if \<not> engine_ready C then Some (Inl (from_anyhow None), None, h)
          else case (case h_read_file (c_host C) (components wasm_path) h of Inl _ \<Rightarrow> None | Inr bs \<Rightarrow> w_module_new (c_wasm C) bs) of
            None \<Rightarrow> Some (Inl CliWasmtime, None, h)
          | Some m \<Rightarrow>
              (case instantiate (c_wasm C) m (new_without_stdio (c_env C) guest_args [] h) of
                 (None, k) \<Rightarrow> Some (Inl CliWasmtime, None, k_host k)
               | (Some _, k) \<Rightarrow>
                   map_option (migrate_image C m guest_args)
                     (if w_start (c_wasm C) m StartI64
                      then map_option (\<lambda>(_, _, k1). k1) (w_call (c_wasm C) m UNBOUNDED_FUEL k) else Some k)))"

text \<open>The environment variable \<open>MIGRATE_IN_PROCESS\<close> selects the second way.\<close>

definition migrate_main ::
  "('m, 'h) cli_ops \<Rightarrow> bool \<Rightarrow> 'h spawn \<Rightarrow> bytes \<Rightarrow> bytes list \<Rightarrow> 'h \<Rightarrow> (int cli_result \<times> 'h) option" where
  "migrate_main C exe spawn snap_path args h =
     (if text_of ''MIGRATE_IN_PROCESS'' \<in> fst ` set (he_vars (c_env C))
      then map_option (\<lambda>(r, _, h1). (r, h1)) (migrate_in_process C args h)
      else migrate_subprocess (c_host C) exe spawn (he_vars (c_env C)) snap_path args h)"

section \<open>What freeze writes, serve restores\<close>

lemma apply_ignores_hash:
  "apply_snapshot_kernel_state H N (snap\<lparr>kn_module_sha256 := x\<rparr>) k = apply_snapshot_kernel_state H N snap k"
  by (simp add: apply_snapshot_kernel_state_def restore_scalars_def split: prod.split sum.split)

lemma no_listeners: "apply_snapshot_inherited_listeners snap [] k = (Inr (), k)"
  by (simp add: apply_snapshot_inherited_listeners_def)

text \<open>
  A listener passed by the parent lands at its descriptor when the snapshot flags that descriptor as inherited; it is dropped
  otherwise, which is the case for every listener a guest opened itself before it was frozen.
\<close>

lemma listeners_dropped:
  "\<forall>(fd, rs) \<in> set (dn_entries (kn_fds snap)). \<not> is_inherited rs \<Longrightarrow> apply_snapshot_inherited_listeners snap ls k = (Inr (), k)"
proof -
  assume "\<forall>(fd, rs) \<in> set (dn_entries (kn_fds snap)). \<not> is_inherited rs"
  then have "filter (\<lambda>(fd, rs). is_inherited rs) (dn_entries (kn_fds snap)) = []" by (auto simp: filter_empty_conv)
  moreover have "fold (\<lambda>(fd, s) k. k) ls k = k" for k :: "'a kernel" by (induction ls) auto
  ultimately show ?thesis by (simp add: apply_snapshot_inherited_listeners_def)
qed

lemma listeners_land:
  assumes "(fd, rs) \<in> set (dn_entries (kn_fds snap))" "is_inherited rs" "(fd, s) \<in> set ls" "distinct (map fst ls)"
    and "table (k_fds k) fd = None"
  shows "table (k_fds (snd (apply_snapshot_inherited_listeners snap ls k))) fd = Some (RSocket s)"
proof -
  define F where "F = map fst (filter (\<lambda>(fd, rs). is_inherited rs) (dn_entries (kn_fds snap)))"
  let ?step = "\<lambda>(fd, s) k. if fd \<in> set F then k\<lparr>k_fds := snd (fd_insert_at (k_fds k) fd (RSocket s))\<rparr> else k"
  have in_F: "fd \<in> set F" using assms(1,2) by (force simp: F_def)
  have frame: "fd \<notin> fst ` set xs \<Longrightarrow> table (k_fds (fold ?step xs k)) fd = table (k_fds k) fd" for xs k
    by (induction xs arbitrary: k) (auto simp: fd_insert_at_def split: if_splits)
  have "table (k_fds (fold ?step ls k)) fd = Some (RSocket s)" using assms(3-5)
  proof (induction ls arbitrary: k)
    case (Cons x xs)
    show ?case
    proof (cases "x = (fd, s)")
      case True
      then have "fd \<notin> fst ` set xs" using Cons.prems(2) by auto
      moreover have "table (k_fds (?step x k)) fd = Some (RSocket s)" using True in_F Cons.prems(3) by (simp add: fd_insert_at_def)
      ultimately show ?thesis using frame [of xs "?step x k"] by simp
    next
      case False
      then have m: "(fd, s) \<in> set xs" using Cons.prems(1) by auto
      moreover have "fst x \<noteq> fd" using Cons.prems(2) m by (auto simp: image_iff)
      ultimately show ?thesis using Cons.prems(2,3) frame [of "[x]" k] Cons.IH [of "?step x k"] by simp
    qed
  qed simp
  then show ?thesis by (simp add: apply_snapshot_inherited_listeners_def F_def Let_def)
qed

text \<open>The file \<open>freeze\<close> leaves behind.\<close>

lemma freeze_writes:
  assumes "freeze_main C fargs h = (Inr 0, h1)" "parse_freeze_argv fargs = Inr (out, wasm, gargs)"
    and "postcard_ok (c_postcard C)" "files_ok (c_host C)"
    and "read_module C wasm h = Inr (bs, m)"
    and "instantiate (c_wasm C) m (kernel_new (c_host C) (c_env C) gargs [] h) = (Some (), k0)"
    and "kernel_memory_kind (k_memory (freeze_drive (c_wasm C) m k0)) = Inr mk"
  shows "engine_ready C \<and>
    read_snapshot_file (c_host C) (c_postcard C) (components out) h1 =
      Inr ((build_kernel_snapshot (c_net C) (freeze_drive (c_wasm C) m k0) (collect_pages (memory_bytes mk)))
        \<lparr>kn_module_sha256 := c_sha256 C bs\<rparr>)"
proof -
  let ?snap = "(build_kernel_snapshot (c_net C) (freeze_drive (c_wasm C) m k0) (collect_pages (memory_bytes mk)))
    \<lparr>kn_module_sha256 := c_sha256 C bs\<rparr>"
  have e: "engine_ready C" using assms(1,2) by (auto simp: freeze_main_def freeze_snapshot_def split: if_splits)
  then have "freeze_snapshot C wasm gargs h = (Inr ?snap, k_host (freeze_drive (c_wasm C) m k0))"
    using assms(5-7) by (simp add: freeze_snapshot_def try_to_snapshot_def Let_def)
  with assms(1,2) obtain enc where enc: "fst (c_postcard C) ?snap = Some enc"
    "h_write_file (c_host C) (components out) enc (k_host (freeze_drive (c_wasm C) m k0)) = (Inr (), h1)"
    by (auto simp: freeze_main_def write_snapshot_file_def encode_snapshot_def split: option.splits prod.splits sum.splits)
  have "snd (c_postcard C) enc = Some ?snap" using assms(3) enc(1) by (auto simp: postcard_ok_def)
  moreover have "h_exists (c_host C) (components out) h1" "h_read_file (c_host C) (components out) h1 = Inr enc"
    using assms(4) enc(2) unfolding files_ok_def by blast+
  ultimately show ?thesis using e by (simp add: read_snapshot_file_def decode_snapshot_def)
qed

text \<open>What a restore achieves: the kernel \<open>kk\<close> has the snapshot of \<open>k\<close>, and its memory is the saved one laid over its own.\<close>

definition restored_as :: "'h net_ops \<Rightarrow> 'h kernel \<Rightarrow> bytes \<Rightarrow> bytes \<Rightarrow> bytes \<Rightarrow> 'h kernel \<Rightarrow> bool" where
  "restored_as N k saved initial mem' kk \<longleftrightarrow>
     (\<forall>pages. build_kernel_snapshot N kk pages = build_kernel_snapshot N k pages) \<and>
     k_memory kk = Some (Owned mem') \<and> (\<forall>i < length mem'. mem' ! i = restored_byte saved initial i)"

lemma restore_guest:
  assumes "\<forall>fd r. table (k_fds k) fd = Some r \<longrightarrow> restorable k r"
    and "distinct (map fst (sig_actions (k_signals k)))" "distinct (map fst (k_futex k))"
    and "length saved \<le> 2 ^ 32" "grows_zeroed G" "grow_request saved initial = 0 \<or> G initial (grow_request saved initial) \<noteq> None"
    and "k_memory k1 = Some (Owned initial)" "reopens H (open_files k) (k_host k1)"
  shows "\<exists>k2 mem'. apply_snapshot_kernel_state H N (build_kernel_snapshot N k (collect_pages saved)) k1 = (Inr (), k2) \<and>
    k_memory k2 = Some (Owned initial) \<and> apply_snapshot_to_memory G (collect_pages saved) initial = (Inr (), mem') \<and>
    restored_as N k saved initial mem' (k2\<lparr>k_memory := Some (Owned mem')\<rparr>)"
proof -
  obtain k2 where k2: "apply_snapshot_kernel_state H N (build_kernel_snapshot N k (collect_pages saved)) k1 = (Inr (), k2)"
    "k_memory k2 = k_memory k1" "\<forall>qs. build_kernel_snapshot N k2 qs = build_kernel_snapshot N k qs"
    using restore_image [OF assms(1-3,8), of N "collect_pages saved"] by blast
  obtain mem' where mem': "apply_snapshot_to_memory G (collect_pages saved) initial = (Inr (), mem')"
    "\<forall>i < length mem'. mem' ! i = restored_byte saved initial i"
    using apply_collected_any [OF assms(4-6)] by blast
  let ?kk = "k2\<lparr>k_memory := Some (Owned mem')\<rparr>"
  have "snapshot_resource N ?kk r = snapshot_resource N k2 r" for r by (cases r) simp_all
  then have "build_kernel_snapshot N ?kk qs = build_kernel_snapshot N k2 qs" for qs by (simp add: build_kernel_snapshot_def)
  with k2 mem' show ?thesis by (auto simp: restored_as_def assms(7))
qed

text \<open>The in-process migration hands the guest's state to the second instance.\<close>

lemma migrate_image_restores:
  assumes "\<forall>fd r. table (k_fds k) fd = Some r \<longrightarrow> restorable k r"
    and "distinct (map fst (sig_actions (k_signals k)))" "distinct (map fst (k_futex k))"
    and "kernel_memory_kind (k_memory k) = Inr mk" "length (memory_bytes mk) \<le> 2 ^ 32"
    and "grows_zeroed (c_grow C)" "grow_request (memory_bytes mk) initial = 0 \<or> c_grow C initial (grow_request (memory_bytes mk) initial) \<noteq> None"
    and "postcard_ok (c_postcard C)" "fst (c_postcard C) (build_kernel_snapshot (c_net C) k (collect_pages (memory_bytes mk))) = Some enc"
    and "instantiate (c_wasm C) m (new_without_stdio (c_env C) gargs [] (k_host k)) = (Some (), k1)" "k_memory k1 = Some (Owned initial)"
    and "reopens (c_host C) (open_files k) (k_host k1)"
  shows "\<exists>kk mem'. migrate_image C m gargs k = (Inr 0, Some kk, k_host kk) \<and> restored_as (c_net C) k (memory_bytes mk) initial mem' kk"
proof -
  let ?snap = "build_kernel_snapshot (c_net C) k (collect_pages (memory_bytes mk))"
  have "snd (c_postcard C) enc = Some ?snap" using assms(8,9) by (auto simp: postcard_ok_def)
  moreover have "kn_pages ?snap = collect_pages (memory_bytes mk)" by (simp add: build_kernel_snapshot_def)
  ultimately show ?thesis
    using restore_guest [OF assms(1-3,5-7,11,12), of "c_net C"] assms(4,9,10)
    by (auto simp: migrate_image_def migrate_restore_def try_to_snapshot_def encode_snapshot_def decode_snapshot_def kernel_memory_def)
qed

text \<open>\<open>serve\<close> refuses a module other than the frozen one before it touches the kernel.\<close>

lemma serve_refuses_other_module:
  assumes "engine_ready C" "read_module C wasm h = Inr (bs, m)" "instantiate (c_wasm C) m (operator_kernel C h) = (Some (), k)"
    and "kn_module_sha256 snap \<noteq> replicate 32 0" "c_sha256 C bs \<noteq> kn_module_sha256 snap"
  shows "serve_loop C snap wasm inherited h = Some (Inl (CliSnapshot (ModuleHashMismatch (kn_module_sha256 snap) (c_sha256 C bs))), k_host k)"
  using assms by (simp add: serve_loop_def serve_restore_def verify_module_hash_def Let_def)

text \<open>A guest that traps for another reason than its budget leaves \<open>run\<close> with exit code 0.\<close>

lemma run_trap_exits_zero:
  assumes "engine_ready C" "read_module C wasm h = Inr (bs, m)" "instantiate (c_wasm C) m (operator_kernel C h) = (Some (), k)"
    and "has_start (c_wasm C) m" "w_call (c_wasm C) m (ms_to_fuel b) k = Some (Inl e, f, k1)"
    and "\<not> is_out_of_fuel e" "k_exit_code k1 = None"
  shows "\<exists>rep. drive_guest C wasm b h = Some (rep, k_host k1) \<and> exit_code_of (rep_result rep) = 0"
  using assms by (simp add: drive_guest_def)

section \<open>The gate of bench\<close>

lemma pct_index_median: "0 < n \<Longrightarrow> pct_index 50 n = n div 2"
  by (simp add: pct_index_def diff_mult_distrib2)

lemma pct_index_bound:
  assumes "0 < n" "p \<le> 100"
  shows "pct_index p n < n"
proof -
  have "2 * p * (n - 1) \<le> 200 * (n - 1)" using assms(2) by (intro mult_le_mono1) simp
  then have "2 * p * (n - 1) + 100 < n * 200" using assms(1) by linarith
  then show ?thesis unfolding pct_index_def by (simp add: div_less_iff_less_mult)
qed

lemma sorted_nth_less:
  fixes xs :: "'a :: linorder list"
  assumes "sorted xs" "i < length xs"
  shows "xs ! i < c \<longleftrightarrow> i < length (filter (\<lambda>x. x < c) xs)"
  using assms
proof (induction xs arbitrary: i)
  case (Cons x xs)
  show ?case
  proof (cases "x < c")
    case True
    with Cons show ?thesis by (cases i) simp_all
  next
    case False
    then have ge: "\<forall>y \<in> set (x # xs). \<not> y < c" using Cons.prems(1) by auto
    then have "filter (\<lambda>x. x < c) (x # xs) = []" by (simp add: filter_empty_conv)
    moreover have "\<not> (x # xs) ! i < c" using ge nth_mem [OF Cons.prems(2)] by blast
    ultimately show ?thesis by simp
  qed
qed simp

text \<open>The gate passes exactly when more than half of the samples, rounded down, lie under 5000 microseconds.\<close>

lemma bench_gate_median:
  assumes "samples \<noteq> []"
  shows "bench_gate samples = (if length samples div 2 < length (filter (\<lambda>t. t < 5000) samples) then Inr 0 else Inl CliBench)"
proof -
  let ?n = "length samples"
  have "?n div 2 < length (sort samples)" using assms by simp
  then have "sort samples ! (?n div 2) < 5000 \<longleftrightarrow> ?n div 2 < length (filter (\<lambda>t. t < 5000) (sort samples))"
    by (intro sorted_nth_less) simp_all
  moreover have "length (filter (\<lambda>t. t < 5000) (sort samples)) = length (filter (\<lambda>t. t < 5000) samples)"
    by (metis mset_filter mset_sort size_mset)
  ultimately show ?thesis using assms by (auto simp: bench_gate_def pct_index_median linorder_not_less [symmetric])
qed

section \<open>freeze, then serve\<close>

lemma serve_after_freeze:
  assumes "freeze_main C fargs h = (Inr 0, h1)" "parse_freeze_argv fargs = Inr (out, wasm, gargs)"
    and "postcard_ok (c_postcard C)" "files_ok (c_host C)"
    and "read_module C wasm h = Inr (bs, m)" "read_module C wasm h1 = Inr (bs, m)"
    and "instantiate (c_wasm C) m (kernel_new (c_host C) (c_env C) gargs [] h) = (Some (), k0)"
    and "instantiate (c_wasm C) m (operator_kernel C h1) = (Some (), k1)" "k_memory k1 = Some (Owned initial)"
    and "k = freeze_drive (c_wasm C) m k0"
    and "\<forall>fd r. table (k_fds k) fd = Some r \<longrightarrow> restorable k r"
    and "distinct (map fst (sig_actions (k_signals k)))" "distinct (map fst (k_futex k))"
    and "kernel_memory_kind (k_memory k) = Inr mk" "length (memory_bytes mk) \<le> 2 ^ 32"
    and "grows_zeroed (c_grow C)" "grow_request (memory_bytes mk) initial = 0 \<or> c_grow C initial (grow_request (memory_bytes mk) initial) \<noteq> None"
    and "reopens (c_host C) (open_files k) (k_host k1)"
    and "parse_serve_argv sargs = Inr (None, out, wasm)" "parse_inherited_fds (he_vars (c_env C)) = Inr []"
  shows "\<exists>kk mem'. serve_main C sargs h1 = map_option (\<lambda>(_, k2). (Inr 0, k_host k2)) (call_start (c_wasm C) m kk) \<and>
    restored_as (c_net C) k (memory_bytes mk) initial mem' kk"
proof -
  let ?pages = "collect_pages (memory_bytes mk)"
  let ?snap = "(build_kernel_snapshot (c_net C) k ?pages)\<lparr>kn_module_sha256 := c_sha256 C bs\<rparr>"
  note w = freeze_writes [OF assms(1-5,7) assms(14) [unfolded assms(10)], folded assms(10)]
  obtain k2 mem' where r: "apply_snapshot_kernel_state (c_host C) (c_net C) ?snap k1 = (Inr (), k2)" "k_memory k2 = Some (Owned initial)"
    "apply_snapshot_to_memory (c_grow C) ?pages initial = (Inr (), mem')"
    and kk: "restored_as (c_net C) k (memory_bytes mk) initial mem' (k2\<lparr>k_memory := Some (Owned mem')\<rparr>)"
    using restore_guest [OF assms(11-13,15-17,9,18), of "c_net C"] unfolding apply_ignores_hash by auto
  have "verify_module_hash (c_sha256 C) ?snap bs = Inr ()" by (simp add: verify_module_hash_def Let_def)
  moreover have "kn_pages ?snap = ?pages" by (simp add: build_kernel_snapshot_def)
  ultimately have "serve_restore C ?snap wasm [] h1 = (Inr m, k2\<lparr>k_memory := Some (Owned mem')\<rparr>)"
    using w r by (simp add: serve_restore_def assms(6,8) no_listeners kernel_memory_def Let_def)
  then have "serve_main C sargs h1 =
      map_option (\<lambda>(_, k2). (Inr 0, k_host k2)) (call_start (c_wasm C) m (k2\<lparr>k_memory := Some (Owned mem')\<rparr>))"
    using w by (simp add: serve_main_def serve_loop_def assms(19,20))
  with kk show ?thesis by blast
qed


text \<open>A host with the module \<open>/w\<close>, frozen to \<open>/s\<close>.\<close>

definition demo_module_fs :: memfs where
  "demo_module_fs = \<lparr>nodes = [([RootDir, Normal [0x77]], Some [0, 0x61, 0x73, 0x6D])], handles = []\<rparr>"

definition demo_started :: "memfs kernel" where
  "demo_started = attach_memory [0, 0] (kernel_new mem_host demo_env [] [] demo_module_fs)"

definition demo_frozen :: "memfs kernel" where
  "demo_frozen = demo_drive demo_started"

definition demo_frozen_image :: kernel_snapshot where
  "demo_frozen_image = (build_kernel_snapshot demo_net demo_frozen (collect_pages [5, 0, 6]))\<lparr>kn_module_sha256 := replicate 32 1\<rparr>"

definition demo_cli :: "(unit, memfs) cli_ops" where
  "demo_cli =
     \<lparr>c_wasm = demo_wasm, c_host = mem_host, c_net = demo_net,
      c_inherit = \<lparr>i_dup = (\<lambda>_ h. (None, h)), i_from_std = (\<lambda>_ h. (Inl OtherKind, h)), i_local_addr = (\<lambda>_ _. Inl OtherKind)\<rparr>,
      c_grow = demo_grow,
      c_postcard = ((\<lambda>s. if s = demo_frozen_image then Some [1, 2, 3] else None), (\<lambda>bs. if bs = [1, 2, 3] then Some demo_frozen_image else None)),
      c_sha256 = (\<lambda>_. replicate 32 1), c_deny_list = (\<lambda>_. []), c_env = demo_env\<rparr>"

lemma demo_cli_simps [simp]:
  "c_wasm demo_cli = demo_wasm" "c_host demo_cli = mem_host" "c_net demo_cli = demo_net" "c_grow demo_cli = demo_grow"
  "c_env demo_cli = demo_env" "c_sha256 demo_cli = (\<lambda>_. replicate 32 1)"
  "c_postcard demo_cli = ((\<lambda>s. if s = demo_frozen_image then Some [1, 2, 3] else None), (\<lambda>bs. if bs = [1, 2, 3] then Some demo_frozen_image else None))"
  by (simp_all add: demo_cli_def)

lemma demo_instantiate [simp]: "instantiate demo_wasm () k = (Some (), attach_memory [0, 0] k)"
  by (simp add: instantiate_def demo_wasm_def)

lemma demo_started_fields:
  "sig_actions (k_signals demo_started) = []" "k_futex demo_started = []"
  "table (k_fds demo_started) = [0 \<mapsto> RStdin 0, 1 \<mapsto> RStdout 0, 2 \<mapsto> RStderr 1]" "k_host demo_started = demo_module_fs"
  by (simp_all add: demo_started_def attach_memory_def kernel_new_def kernel_new_with_preopen_def kernel_new_inner_def
      with_buffered_stdio_def make_pipe_def signal_state_new_def process_state_new_def Let_def)

lemma demo_frozen_fields:
  "k_memory demo_frozen = Some (Owned [5, 0, 6])" "sig_actions (k_signals demo_frozen) = []" "k_futex demo_frozen = []"
  "table (k_fds demo_frozen) = [0 \<mapsto> RStdin 0, 1 \<mapsto> RStdout 0, 2 \<mapsto> RStderr 1, 3 \<mapsto> RFile 0]" "k_host demo_frozen = demo_module_fs"
  "k_files demo_frozen = [\<lparr>fp_inner = 0, fp_pos = 1, fp_path = Some [RootDir, Normal [0x77]], fp_is_dir = False, fp_dir_cache = None\<rparr>]"
  using demo_started_fields by (simp_all add: demo_frozen_def demo_drive_def)

lemma demo_frozen_drive: "demo_frozen = freeze_drive (c_wasm demo_cli) () demo_started"
  by (simp add: demo_frozen_def freeze_drive_def demo_wasm_def has_start_def)

lemma demo_frozen_boot:
  "instantiate (c_wasm demo_cli) () (kernel_new (c_host demo_cli) (c_env demo_cli) [] [] demo_module_fs) = (Some (), demo_started)"
  by (simp add: demo_started_def)

lemma demo_live_frozen: "live_pages [5, 0, 6] = [0]"
  by (simp add: live_pages_def page_of_def slice_def is_zero_page_def PAGE_SIZE_BYTES_def)

definition demo_saved_fs :: memfs where
  "demo_saved_fs = mfs_put [RootDir, Normal [0x73]] (Some [1, 2, 3]) demo_module_fs"

lemma demo_paths: "components [0x2F, 0x77] = [RootDir, Normal [0x77]]" "components [0x2F, 0x73] = [RootDir, Normal [0x73]]"
  by code_simp+

lemma demo_read_module:
  "read_module demo_cli [0x2F, 0x77] demo_module_fs = Inr ([0, 0x61, 0x73, 0x6D], ())"
  "read_module demo_cli [0x2F, 0x77] demo_saved_fs = Inr ([0, 0x61, 0x73, 0x6D], ())"
  by (simp_all add: read_module_def demo_paths demo_saved_fs_def demo_module_fs_def mem_host_def mfs_put_def load_module_def demo_wasm_def)

lemma demo_freeze: "freeze_main demo_cli (freeze_argv [0x2F, 0x77] [] [0x2F, 0x73]) demo_module_fs = (Inr 0, demo_saved_fs)"
proof -
  have "parse_freeze_argv (freeze_argv [0x2F, 0x77] [] [0x2F, 0x73]) = Inr ([0x2F, 0x73], [0x2F, 0x77], [])"
    by (simp add: freeze_argv_def parse_freeze_argv_def guest_args_of_def)
  moreover have "engine_ready demo_cli" by (simp add: engine_ready_def demo_wasm_def)
  moreover have "try_to_snapshot demo_net demo_frozen = Inr (build_kernel_snapshot demo_net demo_frozen (collect_pages [5, 0, 6]))"
    by (simp add: try_to_snapshot_def demo_frozen_fields kernel_memory_kind_def ok_or_def)
  ultimately have "freeze_snapshot demo_cli [0x2F, 0x77] [] demo_module_fs = (Inr demo_frozen_image, demo_module_fs)"
    using demo_frozen_drive demo_frozen_boot
    by (simp add: freeze_snapshot_def demo_read_module demo_frozen_image_def demo_frozen_fields Let_def)
  with \<open>parse_freeze_argv _ = _\<close> show ?thesis
    by (simp add: freeze_main_def write_snapshot_file_def encode_snapshot_def demo_paths mem_host_def demo_saved_fs_def)
qed

lemma demo_hyps:
  "postcard_ok (c_postcard demo_cli)" "files_ok (c_host demo_cli)"
  "instantiate (c_wasm demo_cli) () (operator_kernel demo_cli demo_saved_fs) = (Some (), attach_memory [0, 0] (operator_kernel demo_cli demo_saved_fs))"
  "k_memory (attach_memory [0, 0] (operator_kernel demo_cli demo_saved_fs)) = Some (Owned [0, 0])"
  "\<forall>fd r. table (k_fds demo_frozen) fd = Some r \<longrightarrow> restorable demo_frozen r"
  "distinct (map fst (sig_actions (k_signals demo_frozen)))" "distinct (map fst (k_futex demo_frozen))"
  "kernel_memory_kind (k_memory demo_frozen) = Inr (Owned [5, 0, 6])" "length (memory_bytes (Owned [5, 0, 6])) \<le> 2 ^ 32"
  "grows_zeroed (c_grow demo_cli)"
  "grow_request (memory_bytes (Owned [5, 0, 6])) [0, 0] = 0 \<or>
     c_grow demo_cli [0, 0] (grow_request (memory_bytes (Owned [5, 0, 6])) [0, 0]) \<noteq> None"
  using demo_hosts(2) demo_grow_zeroed
  by (auto simp: postcard_ok_def attach_memory_def demo_frozen_fields kernel_memory_kind_def ok_or_def grow_request_def
      demo_live_frozen demo_grow_def PAGE_SIZE_BYTES_def split: if_splits)

lemma demo_reopens:
  "reopens (c_host demo_cli) (open_files demo_frozen) (k_host (attach_memory [0, 0] (operator_kernel demo_cli demo_saved_fs)))"
proof -
  have "open_files demo_frozen = [([RootDir, Normal [0x77]], 1)]"
    by (simp add: open_files_def fds_sorted_def demo_frozen_fields word_le_nat_alt)
  moreover have "k_host (attach_memory [0, 0] (operator_kernel demo_cli demo_saved_fs)) = demo_saved_fs"
    by (simp add: attach_memory_def operator_kernel_def attach_resolver_config_def put_resolver_def kernel_new_def kernel_new_with_preopen_def
        kernel_new_inner_def with_buffered_stdio_def make_pipe_def Let_def)
  ultimately show ?thesis
    by (simp add: reopen_one_def reopen_options_def mem_host_defs demo_saved_fs_def demo_module_fs_def)
qed


end
