(* ===== verification/Eventfd.thy ===== *)
theory Eventfd
  imports Kernel_State
begin

text \<open>
  The event counters of \<^verbatim>\<open>src/src/sys/eventfd.rs\<close>: a \<open>u64\<close> that \<open>write\<close> adds to, saturating,
  and \<open>read\<close> drains.
\<close>

definition EFD_NONBLOCK :: int where "EFD_NONBLOCK = 0x800"

fun sys_eventfd2 :: "'h handler" where
  "sys_eventfd2 k (Args initval flags _ _ _ _) =
     (let inner = \<lparr>ev_counter = as_u64 initval,
                   ev_nonblock = (as_i32 flags AND EFD_NONBLOCK \<noteq> 0)\<rparr>;
          (fd, t) = fd_insert (k_fds k) (REventFd inner)
      in (uint fd, k\<lparr>k_fds := t\<rparr>))"

definition sys_eventfd :: "'h handler" where
  "sys_eventfd k a = sys_eventfd2 k a"

definition eventfd_read :: "eventfd_inner \<Rightarrow> u64 res \<times> eventfd_inner" where
  "eventfd_read e =
     (let v = ev_counter e
      in if v = 0 then (if ev_nonblock e then (Inl (- EAGAIN), e) else (Inr 0, e))
         else (Inr v, e\<lparr>ev_counter := 0\<rparr>))"

text \<open>\<open>checked_add(addend).unwrap_or(u64::MAX)\<close>.\<close>

definition eventfd_write :: "eventfd_inner \<Rightarrow> u64 \<Rightarrow> u64 \<times> eventfd_inner" where
  "eventfd_write e addend =
     (let new = (if unat (ev_counter e) + unat addend < 2 ^ 64 then ev_counter e + addend else - 1)
      in (new, e\<lparr>ev_counter := new\<rparr>))"

definition require_u64_buf :: "int \<Rightarrow> unit res" where
  "require_u64_buf buf_len = (if buf_len < 8 then Inl (- EINVAL) else Inr ())"

text \<open>The stand-alone read and write entry points.\<close>

definition eventfd_read_compat :: "'h kernel \<Rightarrow> u32 \<Rightarrow> int \<Rightarrow> int \<Rightarrow> int \<times> 'h kernel" where
  "eventfd_read_compat k fd buf_ptr buf_len =
     try_ret (require_u64_buf buf_len) k (\<lambda>_.
       (case fd_get (k_fds k) fd of
          Inr (REventFd e) \<Rightarrow>
            (let (r, e') = eventfd_read e; k1 = k\<lparr>k_fds := fd_put (k_fds k) fd (REventFd e')\<rparr>
             in try_ret r k1 (\<lambda>val.
                  try_ret (guest_slice_mut (k_memory k1) buf_ptr 8) k1 (\<lambda>(b, _).
                    (8, k_write k1 b (le_bytes 8 (uint val))))))
        | Inr _ \<Rightarrow> (- EBADF, k)
        | Inl e \<Rightarrow> (e, k)))"

definition eventfd_write_compat :: "'h kernel \<Rightarrow> u32 \<Rightarrow> int \<Rightarrow> int \<Rightarrow> int \<times> 'h kernel" where
  "eventfd_write_compat k fd buf_ptr buf_len =
     try_ret (require_u64_buf buf_len) k (\<lambda>_.
       try_ret (guest_slice (k_memory k) buf_ptr 8) k (\<lambda>buf.
         (case fd_get (k_fds k) fd of
            Inr (REventFd e) \<Rightarrow>
              (8, k\<lparr>k_fds := fd_put (k_fds k) fd (REventFd (snd (eventfd_write e (word_of_int (le_uint buf)))))\<rparr>)
          | Inr _ \<Rightarrow> (- EBADF, k)
          | Inl e \<Rightarrow> (e, k))))"

section \<open>Counting\<close>

lemma eventfd_write_unat:
  "unat (ev_counter (snd (eventfd_write e v))) = min (unat (ev_counter e) + unat v) (2 ^ 64 - 1)"
proof (cases "unat (ev_counter e) + unat v < 2 ^ 64")
  case True
  then show ?thesis by (simp add: eventfd_write_def Let_def unat_word_ariths)
next
  case False
  have "unat (- 1 :: u64) = 2 ^ 64 - 1" by (simp add: unsigned_minus_1_eq_mask mask_eq_exp_minus_1)
  with False show ?thesis by (simp add: eventfd_write_def Let_def)
qed

lemma eventfd_fold_unat:
  "unat (ev_counter (fold (\<lambda>v e. snd (eventfd_write e v)) vs e)) =
     min (unat (ev_counter e) + sum_list (map unat vs)) (2 ^ 64 - 1)"
proof (induction vs arbitrary: e)
  case Nil
  have "unat (ev_counter e) < 2 ^ 64" using unsigned_less [of "ev_counter e"] by simp
  then show ?case by simp
next
  case (Cons v vs)
  show ?case using Cons.IH [of "snd (eventfd_write e v)"] by (simp add: eventfd_write_unat)
qed

text \<open>
  C40: However many values are written to an event counter, a following read returns
  their sum with the initial count, capped at \<open>u64::MAX\<close>, and leaves the counter at
  zero.
\<close>

theorem eventfd_sums:
  assumes "0 < unat (ev_counter e) + sum_list (map unat vs)"
  shows "\<exists>v e'. eventfd_read (fold (\<lambda>v e. snd (eventfd_write e v)) vs e) = (Inr v, e') \<and>
    unat v = min (unat (ev_counter e) + sum_list (map unat vs)) (2 ^ 64 - 1) \<and> ev_counter e' = 0"
proof -
  define f where "f = fold (\<lambda>v e. snd (eventfd_write e v)) vs e"
  have f: "unat (ev_counter f) = min (unat (ev_counter e) + sum_list (map unat vs)) (2 ^ 64 - 1)"
    unfolding f_def by (rule eventfd_fold_unat)
  with assms have "ev_counter f \<noteq> 0" by (auto simp: unat_eq_zero)
  with f show ?thesis unfolding f_def [symmetric] by (simp add: eventfd_read_def Let_def)
qed

text \<open>A count of 5, raised by 7, and by a value that takes it past \<open>u64::MAX\<close>.\<close>

theorem eventfd_sums_witness:
  "\<exists>v e'. eventfd_read (fold (\<lambda>v e. snd (eventfd_write e v)) [7, 0xFFFFFFFFFFFFFFFE] \<lparr>ev_counter = 5, ev_nonblock = True\<rparr>) = (Inr v, e') \<and>
    unat v = 2 ^ 64 - 1 \<and> ev_counter e' = 0"
proof -
  have "0 < unat (ev_counter \<lparr>ev_counter = 5, ev_nonblock = True\<rparr>) + sum_list (map unat [7, 0xFFFFFFFFFFFFFFFE :: u64])" by simp
  from eventfd_sums [OF this] show ?thesis by simp
qed

end
