(* ===== verification/Sys_Rw.thy ===== *)
theory Sys_Rw
  imports Eventfd Mem_Host
begin

text \<open>
  The descriptor I/O of \<^verbatim>\<open>src/src/sys/file.rs\<close>: \<open>read\<close>, \<open>write\<close>, \<open>readv\<close>, \<open>writev\<close>, \<open>lseek\<close>, \<open>fstat\<close>,
  \<open>getdents64\<close>, \<open>getcwd\<close>, \<open>ftruncate\<close> and \<open>fchmod\<close>.  On a socket, \<open>read\<close> and \<open>write\<close> hand over to
  \<open>recvfrom\<close> and \<open>sendto\<close>, which are arguments here.
\<close>

section \<open>read\<close>

text \<open>Popping up to \<open>n\<close> bytes off a pipe, and pushing bytes onto it.\<close>

definition pipe_pull :: "nat \<Rightarrow> pipe \<Rightarrow> bytes \<times> pipe" where
  "pipe_pull n q = (take n (p_buf q), q\<lparr>p_buf := drop n (p_buf q)\<rparr>)"

definition pipe_push :: "bytes \<Rightarrow> pipe \<Rightarrow> pipe" where
  "pipe_push bs q = q\<lparr>p_buf := p_buf q @ bs\<rparr>"

text \<open>The tail of \<open>read\<close>: deliver what was collected, or report that there is nothing.\<close>

definition read_finish :: "'h kernel \<Rightarrow> int \<Rightarrow> nat \<Rightarrow> bytes \<Rightarrow> bool \<Rightarrow> int \<times> 'h kernel" where
  "read_finish k buf_ptr len tmp eof =
     (if eof then (0, k)
      else if tmp = [] then (- EAGAIN, k)
      else try_ret (guest_slice_mut (k_memory k) buf_ptr (int len)) k (\<lambda>(b, _).
             (int (length tmp), k_write k b tmp)))"

definition read_pipe :: "'h kernel \<Rightarrow> nat \<Rightarrow> int \<Rightarrow> nat \<Rightarrow> int \<times> 'h kernel" where
  "read_pipe k p buf_ptr len =
     (let (tmp, q) = pipe_pull len (k_pipes k ! p);
          k1 = set_pipe k p q;
          eof = (tmp = [] \<and> p_closed q)
      in if tmp = [] \<and> \<not> eof \<and> p_nonblock q then (- EAGAIN, k1)
         else read_finish k1 buf_ptr len tmp eof)"

text \<open>
  The chunked host read: 4096 bytes at a time until \<open>len\<close> bytes are there or the host
  reports end of file; \<open>None\<close> is a host error.
\<close>

function read_loop :: "'h host_ops \<Rightarrow> hfile \<Rightarrow> nat \<Rightarrow> bytes \<Rightarrow> 'h \<Rightarrow> bytes option \<times> 'h" where
  "read_loop H f len got h =
     (case hf_read H f 4096 h of
        (Inl _, h') \<Rightarrow> (None, h')
      | (Inr bs, h') \<Rightarrow>
          if bs = [] then (Some got, h')
          else
            let remaining = len - length got
            in if length bs > remaining then (Some (got @ take remaining bs), h')
               else if length (got @ bs) \<ge> len then (Some (got @ bs), h')
               else read_loop H f len (got @ bs) h')"
  by pat_completeness auto
termination by (relation "measure (\<lambda>(H, f, len, got, h). len - length got)") (auto simp flip: length_greater_0_conv)

declare read_loop.simps [simp del]

definition read_file :: "'h host_ops \<Rightarrow> 'h kernel \<Rightarrow> nat \<Rightarrow> int \<Rightarrow> nat \<Rightarrow> int \<times> 'h kernel" where
  "read_file H k r buf_ptr len =
     (let fp = k_files k ! r;
          (_, h1) = hf_seek H (fp_inner fp) (SeekStart (fp_pos fp)) (k_host k)
      in case read_loop H (fp_inner fp) len [] h1 of
           (None, h2) \<Rightarrow> (- EACCES, k\<lparr>k_host := h2\<rparr>)
         | (Some got, h2) \<Rightarrow>
             read_finish (set_file (k\<lparr>k_host := h2\<rparr>) r (fp\<lparr>fp_pos := fp_pos fp + of_nat (length got)\<rparr>))
               buf_ptr len got False)"

definition read_eventfd :: "'h kernel \<Rightarrow> u32 \<Rightarrow> eventfd_inner \<Rightarrow> int \<Rightarrow> int \<Rightarrow> int \<times> 'h kernel" where
  "read_eventfd k fd e buf_ptr buf_len_raw =
     try_ret (require_u64_buf buf_len_raw) k (\<lambda>_.
       let (r, e') = eventfd_read e; k1 = k\<lparr>k_fds := fd_put (k_fds k) fd (REventFd e')\<rparr>
       in try_ret r k1 (\<lambda>val.
            if val = 0 then (0, k1)
            else try_ret (guest_slice_mut (k_memory k1) buf_ptr 8) k1 (\<lambda>(b, _).
                   (8, k_write k1 b (le_bytes 8 (uint val))))))"

fun sys_read :: "'h host_ops \<Rightarrow> 'h handler \<Rightarrow> 'h handler" where
  "sys_read H recvfrom k (Args a0 buf_ptr buf_len_raw _ _ _) =
     (case u32_try_from a0 of
        None \<Rightarrow> (- EBADF, k)
      | Some fd \<Rightarrow>
          try_ret (guest_slice_mut (k_memory k) buf_ptr buf_len_raw) k (\<lambda>_.
            case usize_try_from buf_len_raw of
              None \<Rightarrow> (- EFAULT, k)
            | Some len \<Rightarrow>
                if len = 0 then (0, k)
                else try_ret (fd_get (k_fds k) fd) k (\<lambda>res.
                  case res of
                    RStdin p \<Rightarrow> read_pipe k p buf_ptr len
                  | RPipeRead p \<Rightarrow> read_pipe k p buf_ptr len
                  | RFile r \<Rightarrow> read_file H k r buf_ptr len
                  | REventFd e \<Rightarrow> read_eventfd k fd e buf_ptr buf_len_raw
                  | RSocket _ \<Rightarrow> recvfrom k (Args a0 buf_ptr buf_len_raw 0 0 0)
                  | _ \<Rightarrow> (- EBADF, k))))"

section \<open>write\<close>

definition write_file :: "'h host_ops \<Rightarrow> 'h kernel \<Rightarrow> nat \<Rightarrow> bytes \<Rightarrow> int \<times> 'h kernel" where
  "write_file H k r bs =
     (let fp = k_files k ! r
      in case hf_write H (fp_inner fp) bs (k_host k) of
           (Inr n, h) \<Rightarrow>
             (int n, set_file (k\<lparr>k_host := h\<rparr>) r (fp\<lparr>fp_pos := fp_pos fp + of_nat n\<rparr>))
         | (Inl _, h) \<Rightarrow> (- EIO, k\<lparr>k_host := h\<rparr>))"

definition write_eventfd :: "'h kernel \<Rightarrow> u32 \<Rightarrow> eventfd_inner \<Rightarrow> bytes \<Rightarrow> int \<Rightarrow> int \<times> 'h kernel" where
  "write_eventfd k fd e bs len_raw =
     try_ret (require_u64_buf len_raw) k (\<lambda>_.
       let addend = word_of_int (le_uint (take 8 bs)); (_, e') = eventfd_write e addend
       in (8, k\<lparr>k_fds := fd_put (k_fds k) fd (REventFd e')\<rparr>))"

definition write_pipe :: "'h kernel \<Rightarrow> nat \<Rightarrow> bytes \<Rightarrow> int \<times> 'h kernel" where
  "write_pipe k p bs = (int (length bs), set_pipe k p (pipe_push bs (k_pipes k ! p)))"

fun sys_write :: "'h host_ops \<Rightarrow> 'h handler \<Rightarrow> 'h handler" where
  "sys_write H sendto k (Args a0 a1 a2 _ _ _) =
     (case u32_try_from a0 of
        None \<Rightarrow> (- EBADF, k)
      | Some fd \<Rightarrow>
          try_ret (guest_slice (k_memory k) a1 a2) k (\<lambda>bs.
            if length bs = 0 then (0, k)
            else try_ret (fd_get (k_fds k) fd) k (\<lambda>res.
              case res of
                RStdout p \<Rightarrow> write_pipe k p bs
              | RStderr p \<Rightarrow> write_pipe k p bs
              | RPipeWrite p \<Rightarrow> write_pipe k p bs
              | RFile r \<Rightarrow> write_file H k r bs
              | REventFd e \<Rightarrow> write_eventfd k fd e bs a2
              | RSocket _ \<Rightarrow> sendto k (Args a0 a1 a2 0 0 0)
              | _ \<Rightarrow> (- EBADF, k))))"

section \<open>Vectored I/O\<close>

text \<open>The \<open>iovec\<close> array: 8-byte entries of a base and a length.\<close>

fun iov_entries :: "bytes \<Rightarrow> (int \<times> int) list" where
  "iov_entries (b0 # b1 # b2 # b3 # b4 # b5 # b6 # b7 # bs) =
     (le_uint [b0, b1, b2, b3], le_uint [b4, b5, b6, b7]) # iov_entries bs"
| "iov_entries _ = []"

text \<open>One call per entry, stopping at an error or a short transfer.\<close>

fun iov_loop :: "('k \<Rightarrow> args \<Rightarrow> int \<times> 'k) \<Rightarrow> int \<Rightarrow> (int \<times> int) list \<Rightarrow> int \<Rightarrow> 'k \<Rightarrow> int \<times> 'k" where
  "iov_loop f fd [] acc k = (acc, k)"
| "iov_loop f fd ((base, len) # es) acc k =
     (if len = 0 then iov_loop f fd es acc k
      else case f k (Args fd base len 0 0 0) of
             (r, k') \<Rightarrow>
               if r < 0 then (if acc = 0 then r else acc, k')
               else if r < len then (acc + r, k')
               else iov_loop f fd es (acc + r) k')"

definition i64_checked_mul8 :: "nat \<Rightarrow> int option" where
  "i64_checked_mul8 n = (let p = as_i64 (of_nat n) * 8 in if - (2 ^ 63) \<le> p \<and> p < 2 ^ 63 then Some p else None)"

definition iov_call :: "('h kernel \<Rightarrow> args \<Rightarrow> int \<times> 'h kernel) \<Rightarrow> 'h kernel \<Rightarrow> int \<Rightarrow> int \<Rightarrow> int \<Rightarrow> int \<times> 'h kernel" where
  "iov_call f k fd iov_ptr count_raw =
     (case usize_try_from count_raw of
        None \<Rightarrow> (- EINVAL, k)
      | Some iov_count \<Rightarrow>
          (case i64_checked_mul8 iov_count of
             Some total_len \<Rightarrow>
               if total_len \<ge> 0
               then try_ret (guest_slice (k_memory k) iov_ptr total_len) k (\<lambda>iovs.
                      iov_loop f fd (iov_entries iovs) 0 k)
               else (- EFAULT, k)
           | None \<Rightarrow> (- EFAULT, k)))"

fun sys_readv :: "'h host_ops \<Rightarrow> 'h handler \<Rightarrow> 'h handler" where
  "sys_readv H recvfrom k (Args fd iov_ptr count_raw _ _ _) =
     iov_call (sys_read H recvfrom) k fd iov_ptr count_raw"

fun sys_writev :: "'h host_ops \<Rightarrow> 'h handler \<Rightarrow> 'h handler" where
  "sys_writev H sendto k (Args fd iov_ptr count_raw _ _ _) =
     iov_call (sys_write H sendto) k fd iov_ptr count_raw"

section \<open>Position and metadata\<close>

definition i64_wrap :: "int \<Rightarrow> int" where
  "i64_wrap x = signed_take_bit 63 x"

fun sys_lseek :: "'h host_ops \<Rightarrow> 'h handler" where
  "sys_lseek H k (Args a0 offset whence _ _ _) =
     (case u32_try_from a0 of
        None \<Rightarrow> (- EBADF, k)
      | Some fd \<Rightarrow>
          try_ret (fd_get (k_fds k) fd) k (\<lambda>res.
            case res of
              RFile r \<Rightarrow>
                let fp = k_files k ! r
                in if fp_is_dir fp
                   then (if whence = 0 \<and> offset = 0 then (0, set_file k r (fp\<lparr>fp_pos := 0\<rparr>))
                         else (- ESPIPE, k))
                   else try_ret
                     (if whence = 0 then Inr (SeekStart (word_of_int (max offset 0)))
                      else if whence = 1 then Inr (SeekCurrent offset)
                      else if whence = 2 then
                        (let len = (case hf_metadata H (fp_inner fp) (k_host k) of
                                      Inr m \<Rightarrow> as_i64 (md_len m) | Inl _ \<Rightarrow> 0)
                         in Inr (SeekStart (word_of_int (max (i64_wrap (len + offset)) 0))))
                      else Inl (- EINVAL)) k
                     (\<lambda>from.
                       case hf_seek H (fp_inner fp) from (k_host k) of
                         (Inr p, h) \<Rightarrow> (as_i64 p, set_file (k\<lparr>k_host := h\<rparr>) r (fp\<lparr>fp_pos := p\<rparr>))
                       | (Inl _, h) \<Rightarrow> (- EINVAL, k\<lparr>k_host := h\<rparr>))
            | _ \<Rightarrow> (- ESPIPE, k)))"

definition write_stat :: "'h kernel \<Rightarrow> stat \<Rightarrow> int \<Rightarrow> int \<times> 'h kernel" where
  "write_stat k s ptr =
     (case stat_write_to_guest s (k_memory k) ptr of
        (Inr _, m) \<Rightarrow> (0, k\<lparr>k_memory := m\<rparr>)
      | (Inl e, m) \<Rightarrow> (e, k\<lparr>k_memory := m\<rparr>))"

fun sys_fstat :: "'h host_ops \<Rightarrow> 'h handler" where
  "sys_fstat H k (Args a0 statbuf_ptr _ _ _ _) =
     (case u32_try_from a0 of
        None \<Rightarrow> (- EBADF, k)
      | Some fd \<Rightarrow>
          try_ret (fd_get (k_fds k) fd) k (\<lambda>res.
            write_stat k
              (case res of
                 RFile r \<Rightarrow>
                   (case hf_metadata H (fp_inner (k_files k ! r)) (k_host k) of
                      Inr meta \<Rightarrow> stat_from_metadata meta
                    | Inl _ \<Rightarrow> synth_char)
               | _ \<Rightarrow> synth_char) statbuf_ptr))"

fun sys_getdents64 :: "'h host_ops \<Rightarrow> 'h handler" where
  "sys_getdents64 H k (Args a0 buf_ptr buf_len_raw _ _ _) =
     (case u32_try_from a0 of
        None \<Rightarrow> (- EBADF, k)
      | Some fd \<Rightarrow>
          try_ret (guest_slice_mut (k_memory k) buf_ptr buf_len_raw) k (\<lambda>_.
            case usize_try_from buf_len_raw of
              None \<Rightarrow> (- EINVAL, k)
            | Some len \<Rightarrow>
                if len = 0 then (- EINVAL, k)
                else try_ret (fd_get (k_fds k) fd) k (\<lambda>res.
                  case res of
                    RFile r \<Rightarrow>
                      let fp = k_files k ! r
                      in if \<not> fp_is_dir fp then (- ENOTDIR, k)
                         else (case fp_path fp of
                           None \<Rightarrow> (- EBADF, k)
                         | Some path \<Rightarrow>
                             try_ret (case fp_dir_cache fp of
                                        Some c \<Rightarrow> Inr c
                                      | None \<Rightarrow> readdir_all H path (k_host k)) k
                               (\<lambda>cache.
                                 let k1 = set_file k r (fp\<lparr>fp_dir_cache := Some cache\<rparr>);
                                     start = unat (fp_pos fp)
                                 in if start \<ge> length cache then (0, k1)
                                    else
                                      let e = min (start + len) (length cache);
                                          s = slice start (e - start) cache;
                                          k2 = set_file k r (fp\<lparr>fp_dir_cache := Some cache, fp_pos := of_nat e\<rparr>)
                                      in try_ret (guest_slice_mut (k_memory k2) buf_ptr (int (length s))) k2
                                           (\<lambda>(b, _). (int (length s), k_write k2 b s))))
                  | _ \<Rightarrow> (- ENOTDIR, k))))"

fun sys_getcwd :: "'h handler" where
  "sys_getcwd k (Args buf_ptr len_raw _ _ _ _) =
     (case usize_try_from len_raw of
        None \<Rightarrow> (- EFAULT, k)
      | Some buf_len \<Rightarrow>
          let cwd_bytes = path_str (cwd (k_vfs k)); needed = length cwd_bytes + 1
          in if buf_len < needed then (- ERANGE, k)
             else try_ret (guest_slice_mut (k_memory k) buf_ptr (int needed)) k (\<lambda>(b, _).
                    (int (length cwd_bytes), k_write k b (cwd_bytes @ [0]))))"

text \<open>Cloning the host handle of a file descriptor, for \<open>ftruncate\<close> and \<open>fchmod\<close>.\<close>

definition clone_handle :: "'h host_ops \<Rightarrow> 'h kernel \<Rightarrow> u32 \<Rightarrow> hfile res \<times> 'h kernel" where
  "clone_handle H k fd =
     (case fd_get (k_fds k) fd of
        Inr (RFile r) \<Rightarrow>
          (case hf_try_clone H (fp_inner (k_files k ! r)) (k_host k) of
             (Inr f, h) \<Rightarrow> (Inr f, k\<lparr>k_host := h\<rparr>)
           | (Inl e, h) \<Rightarrow> (Inl (- io_to_errno e), k\<lparr>k_host := h\<rparr>))
      | Inr _ \<Rightarrow> (Inl (- EBADF), k)
      | Inl e \<Rightarrow> (Inl e, k))"

fun sys_ftruncate :: "'h host_ops \<Rightarrow> 'h handler" where
  "sys_ftruncate H k (Args a0 len_raw _ _ _ _) =
     (case u32_try_from a0 of
        None \<Rightarrow> (- EBADF, k)
      | Some fd \<Rightarrow>
          if len_raw < 0 then (- EINVAL, k)
          else let (c, k1) = clone_handle H k fd
               in try_ret c k1 (\<lambda>f. host_ret k1 (hf_set_len H f (word_of_int len_raw) (k_host k1))))"

fun sys_fchmod :: "'h host_ops \<Rightarrow> 'h handler" where
  "sys_fchmod H k (Args a0 a1 _ _ _ _) =
     (let fd = as_u32 a0; mode = as_u32 a1 AND 0xFFF; (c, k1) = clone_handle H k fd
      in try_ret c k1 (\<lambda>f.
           case hf_metadata H f (k_host k1) of
             Inl e \<Rightarrow> (- io_to_errno e, k1)
           | Inr _ \<Rightarrow> host_ret k1 (hf_set_permissions H f mode (k_host k1))))"

section \<open>Pipes are byte queues\<close>

datatype 'b queue_op = Push "'b list" | Pull nat

fun queue_run ::
  "('b list \<Rightarrow> 'q \<Rightarrow> 'q) \<Rightarrow> (nat \<Rightarrow> 'q \<Rightarrow> 'b list \<times> 'q) \<Rightarrow> 'q \<Rightarrow> 'b queue_op list \<Rightarrow> 'b list \<times> 'q"
where
  "queue_run push pull q [] = ([], q)"
| "queue_run push pull q (Push bs # ops) = queue_run push pull (push bs q) ops"
| "queue_run push pull q (Pull n # ops) =
     (let (out, q') = pull n q; (outs, q'') = queue_run push pull q' ops in (out @ outs, q''))"

fun pushed :: "'b queue_op list \<Rightarrow> 'b list" where
  "pushed [] = []"
| "pushed (Push bs # ops) = bs @ pushed ops"
| "pushed (Pull n # ops) = pushed ops"

locale byte_queue =
  fixes contents :: "'q \<Rightarrow> 'b list"
    and push :: "'b list \<Rightarrow> 'q \<Rightarrow> 'q"
    and pull :: "nat \<Rightarrow> 'q \<Rightarrow> 'b list \<times> 'q"
  assumes push_contents: "contents (push bs q) = contents q @ bs"
    and pull_split: "pull n q = (out, q') \<Longrightarrow> out @ contents q' = contents q"
    and pull_length: "pull n q = (out, q') \<Longrightarrow> length out = min n (length (contents q))"
begin

lemma fifo:
  "queue_run push pull q ops = (outs, q') \<Longrightarrow> outs @ contents q' = contents q @ pushed ops"
proof (induction ops arbitrary: q outs)
  case (Cons op ops)
  show ?case
  proof (cases op)
    case (Push bs)
    with Cons show ?thesis by (simp add: push_contents)
  next
    case (Pull n)
    with Cons.prems obtain out q1 outs1 where st: "pull n q = (out, q1)"
      "queue_run push pull q1 ops = (outs1, q')" "outs = out @ outs1"
      by (auto split: prod.splits)
    from Cons.IH [OF st(2)] pull_split [OF st(1)] Pull st(3) show ?thesis
      by (metis append.assoc pushed.simps(3))
  qed
qed simp

lemma pull_nonempty: "pull n q = (out, q') \<Longrightarrow> 0 < n \<Longrightarrow> out = [] \<longleftrightarrow> contents q = []"
  using pull_length [of n q out q'] by (cases "contents q") auto

end

interpretation pipe_queue: byte_queue p_buf pipe_push pipe_pull
  by unfold_locales (auto simp: pipe_push_def pipe_pull_def)

text \<open>The same, through the handlers.\<close>

lemma sys_write_pipe:
  assumes "u32_try_from wr = Some w" "table (k_fds k) w = Some (RPipeWrite p)"
    and "sys_write H sendto k (Args wr ptr n x y z) = (r, k')"
  shows "(r \<le> 0 \<and> k' = k) \<or>
    (\<exists>bs. guest_slice (k_memory k) ptr n = Inr bs \<and> r = int (length bs) \<and>
          k' = set_pipe k p (pipe_push bs (k_pipes k ! p)))"
proof (cases "guest_slice (k_memory k) ptr n")
  case (Inl e)
  then have "e < 0"
    using guest_range_Inl [of "k_memory k" ptr n] 
    by (auto simp: guest_slice_def res_bind_def errno_defs kernel_memory_def
        split: sum.splits option.splits memory_kind.splits)
  with Inl assms show ?thesis by auto
next
  case (Inr bs)
  with assms show ?thesis by (auto simp: fd_get_def write_pipe_def split: if_splits)
qed

lemma sys_read_pipe:
  assumes "u32_try_from rd = Some w" "table (k_fds k) w = Some (RPipeRead p)" "p < length (k_pipes k)"
    and "sys_read H recvfrom k (Args rd ptr n x y z) = (r, k')"
  shows "k_fds k' = k_fds k \<and> length (k_pipes k') = length (k_pipes k) \<and>
    (\<exists>out. pipe_pull (nat n) (k_pipes k ! p) = (out, k_pipes k' ! p) \<and>
      (if r \<le> 0 then out = [] else guest_slice (k_memory k') ptr r = Inr out)) \<or> (r \<le> 0 \<and> k' = k)"
proof (cases "guest_range (k_memory k) ptr n")
  case (Inl e)
  then have "e < 0" using guest_range_Inl [of "k_memory k" ptr n] by (auto simp: errno_defs)
  with Inl assms show ?thesis by (auto simp: guest_slice_mut_def)
next
  case (Inr pl)
  then obtain b where g: "guest_range (k_memory k) ptr n = Inr (b, nat n)" "0 \<le> n"
    by (cases pl) (auto dest: guest_range_Inr)
  let ?out = "take (nat n) (p_buf (k_pipes k ! p))"
  show ?thesis
  proof (cases "nat n = 0 \<or> ?out = []")
    case True
    then show ?thesis
      using assms g
      by (auto simp: guest_slice_mut_def usize_try_from_def fd_get_def read_pipe_def pipe_pull_def
          read_finish_def set_pipe_def Let_def errno_defs split: if_splits)
  next
    case False
    have "guest_slice (mem_write (k_memory k) b ?out) ptr (int (length ?out)) = Inr ?out"
      using guest_write_read_prefix [OF g(1), of ?out] by simp
    moreover have "min (length (p_buf (k_pipes k ! p))) (nat n) \<noteq> 0" using False by auto
    ultimately show ?thesis using False assms g
      by (auto simp: guest_slice_mut_def usize_try_from_def fd_get_def read_pipe_def pipe_pull_def
          read_finish_def set_pipe_def k_write_def Let_def min_def split: if_splits)
  qed
qed

text \<open>A sequence of \<open>read\<close>s and \<open>write\<close>s on the two ends of a pipe, with the bytes transferred.\<close>

datatype pipe_call = PWrite int int | PRead int int

fun pipe_calls ::
  "'h host_ops \<Rightarrow> 'h handler \<Rightarrow> 'h handler \<Rightarrow> int \<Rightarrow> int \<Rightarrow> 'h kernel \<Rightarrow> pipe_call list \<Rightarrow>
    bytes \<times> bytes \<times> 'h kernel"
where
  "pipe_calls H rf st rd wr k [] = ([], [], k)"
| "pipe_calls H rf st rd wr k (PWrite ptr n # cs) =
     (let (r, k1) = sys_write H st k (Args wr ptr n 0 0 0);
          bs = (case guest_slice (k_memory k) ptr r of Inr bs \<Rightarrow> bs | Inl _ \<Rightarrow> []);
          (sent, got, k2) = pipe_calls H rf st rd wr k1 cs
      in (bs @ sent, got, k2))"
| "pipe_calls H rf st rd wr k (PRead ptr n # cs) =
     (let (r, k1) = sys_read H rf k (Args rd ptr n 0 0 0);
          bs = (case guest_slice (k_memory k1) ptr r of Inr bs \<Rightarrow> bs | Inl _ \<Rightarrow> []);
          (sent, got, k2) = pipe_calls H rf st rd wr k1 cs
      in (sent, bs @ got, k2))"

text \<open>The bytes a call that returned \<open>r\<close> transferred at \<open>ptr\<close>.\<close>

definition moved :: "'h kernel \<Rightarrow> int \<Rightarrow> int \<Rightarrow> bytes" where
  "moved k ptr r = (case guest_slice (k_memory k) ptr r of Inr bs \<Rightarrow> bs | Inl _ \<Rightarrow> [])"

lemma moved_nonpos: "r \<le> 0 \<Longrightarrow> moved k ptr r = []"
  by (auto simp: moved_def slice_def split: sum.split dest!: guest_slice_Inr)

lemma guest_slice_own_length: "guest_slice mem ptr n = Inr bs \<Longrightarrow> guest_slice mem ptr (int (length bs)) = Inr bs"
  using guest_slice_length [of mem ptr n bs] guest_slice_Inr [of mem ptr n bs] by auto

lemma write_pipe_step:
  assumes "u32_try_from wr = Some fw" "table (k_fds k) fw = Some (RPipeWrite p)" "p < length (k_pipes k)"
    and c: "sys_write H st k (Args wr ptr n 0 0 0) = (r, k1)"
  shows "k_fds k1 = k_fds k \<and> length (k_pipes k1) = length (k_pipes k) \<and>
    p_buf (k_pipes k1 ! p) = p_buf (k_pipes k ! p) @ moved k ptr r"
  using sys_write_pipe [OF assms(1,2) c]
proof (elim disjE exE conjE)
  fix bs
  assume bs: "guest_slice (k_memory k) ptr n = Inr bs" "r = int (length bs)" "k1 = set_pipe k p (pipe_push bs (k_pipes k ! p))"
  then show ?thesis
    using assms(3) pipe_queue.push_contents guest_slice_own_length [OF bs(1)] by (simp add: set_pipe_def moved_def)
qed (simp add: moved_nonpos)

lemma read_pipe_step:
  assumes "u32_try_from rd = Some fr" "table (k_fds k) fr = Some (RPipeRead p)" "p < length (k_pipes k)"
    and c: "sys_read H rf k (Args rd ptr n 0 0 0) = (r, k1)"
  shows "k_fds k1 = k_fds k \<and> length (k_pipes k1) = length (k_pipes k) \<and>
    p_buf (k_pipes k ! p) = moved k1 ptr r @ p_buf (k_pipes k1 ! p)"
  using sys_read_pipe [OF assms]
proof (elim disjE conjE exE)
  fix out
  assume o: "pipe_pull (nat n) (k_pipes k ! p) = (out, k_pipes k1 ! p)"
    "if r \<le> 0 then out = [] else guest_slice (k_memory k1) ptr r = Inr out"
  then have "moved k1 ptr r = out" by (cases "r \<le> 0") (simp_all add: moved_nonpos, simp add: moved_def)
  moreover assume "k_fds k1 = k_fds k" "length (k_pipes k1) = length (k_pipes k)"
  ultimately show ?thesis using pipe_queue.pull_split [OF o(1)] by simp
qed (simp add: moved_nonpos)

section \<open>Properties of pipes\<close>

text \<open>
  C8: Through any sequence of \<open>write\<close> syscalls on the write end and \<open>read\<close> syscalls on
  the read end, the bytes delivered into guest memory, followed by those still
  buffered, are the bytes first buffered followed by those taken from guest memory:
  no byte is lost, duplicated or reordered.
\<close>

theorem pipe_fifo:
  assumes "u32_try_from rd = Some fr" "table (k_fds k) fr = Some (RPipeRead p)"
    and "u32_try_from wr = Some fw" "table (k_fds k) fw = Some (RPipeWrite p)" "p < length (k_pipes k)"
    and "pipe_calls H rf st rd wr k cs = (sent, got, k')"
  shows "got @ p_buf (k_pipes k' ! p) = p_buf (k_pipes k ! p) @ sent"
  using assms
proof (induction cs arbitrary: k sent got)
  case (Cons c cs)
  show ?case
  proof (cases c)
    case (PWrite ptr n)
    obtain r k1 where c: "sys_write H st k (Args wr ptr n 0 0 0) = (r, k1)" by fastforce
    note w = write_pipe_step [OF Cons.prems(3-5) c]
    obtain sent1 got1 where rest: "pipe_calls H rf st rd wr k1 cs = (sent1, got1, k')"
      "sent = moved k ptr r @ sent1" "got = got1" using Cons.prems(6) PWrite c by (auto simp: moved_def split: prod.splits)
    with Cons.IH [of k1] Cons.prems(1-5) w show ?thesis by simp
  next
    case (PRead ptr n)
    obtain r k1 where c: "sys_read H rf k (Args rd ptr n 0 0 0) = (r, k1)" by fastforce
    note w = read_pipe_step [OF Cons.prems(1,2,5) c]
    obtain sent1 got1 where rest: "pipe_calls H rf st rd wr k1 cs = (sent1, got1, k')"
      "sent = sent1" "got = moved k1 ptr r @ got1" using Cons.prems(6) PRead c by (auto simp: moved_def split: prod.splits)
    with Cons.IH [of k1] Cons.prems(1-5) w show ?thesis by simp
  qed
qed simp

text \<open>A kernel over the in-memory host with a pipe at 3 and 4 and the file \<open>/p/b\<close> open at 5.\<close>

definition demo_io :: "memfs kernel" where
  "demo_io =
     (kernel_new_inner [] [] (replicate 32 0) \<lparr>root = demo_root, cwd = demo_root\<rparr> (demo_fs\<lparr>handles := [(demo_root @ [Normal [98]], 0)]\<rparr>))
       \<lparr>k_memory := Some (Owned [10, 11, 12, 13, 14, 15, 16, 17, 9, 0, 0, 0]),
        k_pipes := [\<lparr>p_buf = [], p_closed = False, p_nonblock = False\<rparr>],
        k_files := [with_path 0 (demo_root @ [Normal [98]])],
        k_fds := \<lparr>table = [3 \<mapsto> RPipeRead 0, 4 \<mapsto> RPipeWrite 0, 5 \<mapsto> RFile 0], next_fd = 6, cloexec = {}\<rparr>\<rparr>"

definition no_socket :: "'h handler" where
  "no_socket k a = (- 107, k)"

lemma demo_io_simps [simp]:
  "k_memory demo_io = Some (Owned [10, 11, 12, 13, 14, 15, 16, 17, 9, 0, 0, 0])"
  "k_pipes demo_io = [\<lparr>p_buf = [], p_closed = False, p_nonblock = False\<rparr>]"
  "k_files demo_io = [with_path 0 (demo_root @ [Normal [98]])]"
  "k_fds demo_io = \<lparr>table = [3 \<mapsto> RPipeRead 0, 4 \<mapsto> RPipeWrite 0, 5 \<mapsto> RFile 0], next_fd = 6, cloexec = {}\<rparr>"
  "k_vfs demo_io = \<lparr>root = demo_root, cwd = demo_root\<rparr>"
  "k_host demo_io = demo_fs\<lparr>handles := [(demo_root @ [Normal [98]], 0)]\<rparr>"
  by (simp_all add: demo_io_def kernel_new_inner_def with_buffered_stdio_def make_pipe_def Let_def)

theorem pipe_fifo_witness:
  "case pipe_calls mem_host no_socket no_socket 3 4 demo_io [PWrite 0 3, PRead 9 2, PWrite 4 2] of
     (sent, got, k') \<Rightarrow> got @ p_buf (k_pipes k' ! 0) = sent"
proof -
  obtain sent got k' where c:
    "pipe_calls mem_host no_socket no_socket 3 4 demo_io [PWrite 0 3, PRead 9 2, PWrite 4 2] = (sent, got, k')"
    by (metis prod_cases3)
  have "u32_try_from 3 = Some 3" "table (k_fds demo_io) 3 = Some (RPipeRead 0)"
    "u32_try_from 4 = Some 4" "table (k_fds demo_io) 4 = Some (RPipeWrite 0)" "0 < length (k_pipes demo_io)"
    by (simp_all add: u32_try_from_def)
  from pipe_fifo [OF this c] show ?thesis unfolding c by simp
qed

section \<open>Reading regular files\<close>

text \<open>
  What a host file promises: reads return a non-empty piece at the offset until end
  of file and advance the offset; an absolute seek sets it.
\<close>

definition host_file_spec ::
  "'h host_ops \<Rightarrow> ('h \<Rightarrow> hfile \<Rightarrow> bytes) \<Rightarrow> ('h \<Rightarrow> hfile \<Rightarrow> nat) \<Rightarrow> bool"
where
  "host_file_spec H content offset \<longleftrightarrow>
     (\<forall>f n h bs h'. hf_read H f n h = (Inr bs, h') \<longrightarrow>
        bs = take (length bs) (drop (offset h f) (content h f)) \<and> length bs \<le> n \<and>
        (bs = [] \<longrightarrow> n = 0 \<or> length (content h f) \<le> offset h f) \<and>
        offset h' f = offset h f + length bs \<and> content h' f = content h f) \<and>
     (\<forall>f p h q h'. hf_seek H f (SeekStart p) h = (Inr q, h') \<longrightarrow>
        offset h' f = unat p \<and> content h' f = content h f)"

lemma host_file_read:
  assumes "host_file_spec H content offset" "hf_read H f n h = (Inr bs, h')"
  shows "bs = take (length bs) (drop (offset h f) (content h f))"
    "bs = [] \<Longrightarrow> n = 0 \<or> length (content h f) \<le> offset h f"
    "offset h' f = offset h f + length bs" "content h' f = content h f"
  using assms unfolding host_file_spec_def by blast+

lemma read_loop_spec:
  "host_file_spec H content offset \<Longrightarrow> read_loop H f len got h = (Some out, h') \<Longrightarrow> length got \<le> len \<Longrightarrow>
    out = got @ take (len - length got) (drop (offset h f) (content h f))"
proof (induction H f len got h rule: read_loop.induct)
  case (1 H f len got h)
  obtain r h1 where r: "hf_read H f 4096 h = (r, h1)" by fastforce
  then obtain bs where bs: "r = Inr bs"
    using "1.prems"(2) by (cases r) (auto simp: read_loop.simps [of H f len got h])
  let ?rest = "drop (offset h f) (content h f)"
  have sp: "bs = take (length bs) ?rest" "bs = [] \<longrightarrow> length (content h f) \<le> offset h f"
    "offset h1 f = offset h f + length bs" "content h1 f = content h f"
    using host_file_read [OF "1.prems"(1) r [unfolded bs]] by auto
  show ?case
  proof (cases "bs = [] \<or> len \<le> length got + length bs")
    case True
    have "take (len - length got) bs = take (len - length got) ?rest" if "len \<le> length got + length bs"
      using that sp(1) by (metis le_diff_conv add.commute min.absorb2 take_take min.commute)
    then show ?thesis using True "1.prems"(2) r bs sp(2)
      by (auto simp: read_loop.simps [of H f len got h] Let_def split: if_splits)
  next
    case False
    then have "read_loop H f len (got @ bs) h1 = (Some out, h')"
      using "1.prems"(2) r bs by (auto simp: read_loop.simps [of H f len got h] Let_def split: if_splits)
    with False "1.IH" [OF r [symmetric] bs] "1.prems"(1)
    have "out = got @ bs @ take (len - length (got @ bs)) (drop (offset h1 f) (content h1 f))"
      by auto
    also have "\<dots> = got @ take (len - length got) ?rest"
      using False sp(1,3,4) take_add [of "length bs" "len - length got - length bs" ?rest]
      by (simp add: add.commute)
    finally show ?thesis .
  qed
qed

text \<open>Host states reached by reading on in the file; and when the loop fails.\<close>

inductive host_reads :: "'h host_ops \<Rightarrow> hfile \<Rightarrow> 'h \<Rightarrow> 'h \<Rightarrow> bool" for H f where
  hr_here: "host_reads H f h h"
| hr_next: "hf_read H f 4096 h = (Inr bs, h1) \<Longrightarrow> bs \<noteq> [] \<Longrightarrow> host_reads H f h1 s \<Longrightarrow> host_reads H f h s"

lemma host_reads_offset: "host_reads H f h s \<Longrightarrow> host_file_spec H content offset \<Longrightarrow> offset h f \<le> offset s f"
proof (induction rule: host_reads.induct)
  case (hr_next h bs h1 s)
  then show ?case using host_file_read(3) [OF hr_next.prems hr_next.hyps(1)] by simp
qed simp

lemma read_loop_fails:
  "host_file_spec H content offset \<Longrightarrow> length got < len \<Longrightarrow>
    fst (read_loop H f len got h) = None \<longleftrightarrow>
      (\<exists>s e s'. host_reads H f h s \<and> offset s f < offset h f + (len - length got) \<and> hf_read H f 4096 s = (Inl e, s'))"
proof (induction H f len got h rule: read_loop.induct)
  case (1 H f len got h)
  obtain r h1 where r: "hf_read H f 4096 h = (r, h1)" by fastforce
  show ?case
  proof (cases r)
    case (Inl e)
    with r "1.prems"(2) show ?thesis by (auto simp: read_loop.simps [of H f len got h] intro: hr_here)
  next
    case (Inr bs)
    note rd = r [unfolded Inr]
    have "host_reads H f h s \<longleftrightarrow> s = h \<or> bs \<noteq> [] \<and> host_reads H f h1 s" for s
      by (subst host_reads.simps) (use rd in auto)
    then have on: "host_reads H f h s \<and> hf_read H f 4096 s = (Inl e, s') \<longleftrightarrow>
        bs \<noteq> [] \<and> host_reads H f h1 s \<and> hf_read H f 4096 s = (Inl e, s')" for s e s'
      using rd by auto
    have off: "offset h1 f = offset h f + length bs" by (rule host_file_read(3) [OF "1.prems"(1) rd])
    show ?thesis
    proof (cases "bs \<noteq> [] \<and> length got + length bs < len")
      case True
      then have "fst (read_loop H f len (got @ bs) h1) = None \<longleftrightarrow>
          (\<exists>s e s'. host_reads H f h1 s \<and> offset s f < offset h1 f + (len - length (got @ bs)) \<and> hf_read H f 4096 s = (Inl e, s'))"
        by (intro "1.IH" [OF rd [symmetric] refl _ refl]) (use "1.prems" in auto)
      with True on off rd show ?thesis by (auto simp: read_loop.simps [of H f len got h] Let_def)
    next
      case False
      then have "fst (read_loop H f len got h) \<noteq> None" using rd by (auto simp: read_loop.simps [of H f len got h] Let_def)
      moreover have "\<not> (host_reads H f h s \<and> offset s f < offset h f + (len - length got) \<and> hf_read H f 4096 s = (Inl e, s'))" for s e s'
        using on [of s e s'] False off host_reads_offset [OF _ "1.prems"(1), of f h1 s] by auto
      ultimately show ?thesis by blast
    qed
  qed
qed

text \<open>
  C20: On a regular file whose seek succeeds, \<open>read\<close> into a buffer in guest memory transfers exactly the bytes of the file from the
  descriptor's position, up to the requested length, and advances the position by that many; at end of file it returns \<open>-EAGAIN\<close>,
  not 0.  It returns \<open>-EACCES\<close> exactly when one of the host's reads that are needed for this fails.
\<close>

theorem sys_read_file_exact:
  assumes "host_file_spec H content offset"
    and "u32_try_from a0 = Some fd" "table (k_fds k) fd = Some (RFile r)" "r < length (k_files k)"
    and "guest_slice_mut (k_memory k) ptr n = Inr (b, l)" "0 < n"
    and "hf_seek H (fp_inner (k_files k ! r)) (SeekStart (fp_pos (k_files k ! r))) (k_host k) = (Inr q, h1)"
    and "sys_read H rf k (Args a0 ptr n x y z) = (ret, k')"
  shows "let fp = k_files k ! r; data = take (nat n) (drop (unat (fp_pos fp)) (content (k_host k) (fp_inner fp)))
    in if \<exists>s e s'. host_reads H (fp_inner fp) h1 s \<and> offset s (fp_inner fp) < unat (fp_pos fp) + nat n \<and>
            hf_read H (fp_inner fp) 4096 s = (Inl e, s')
       then ret = - EACCES
       else if data = [] then ret = - EAGAIN
       else ret = int (length data) \<and> guest_slice (k_memory k') ptr ret = Inr data \<and>
            fp_pos (k_files k' ! r) = fp_pos fp + of_nat (length data)"
proof -
  define fp where "fp = k_files k ! r"
  define data where "data = take (nat n) (drop (unat (fp_pos fp)) (content (k_host k) (fp_inner fp)))"
  have g: "guest_range (k_memory k) ptr n = Inr (b, l)" using assms(5) by (simp add: guest_slice_mut_def)
  then have l: "l = nat n" using guest_range_Inr by blast
  have h1: "offset h1 (fp_inner fp) = unat (fp_pos fp)" "content h1 (fp_inner fp) = content (k_host k) (fp_inner fp)"
    using assms(1,7) by (auto simp: host_file_spec_def fp_def)
  have call: "sys_read H rf k (Args a0 ptr n x y z) = read_file H k r ptr (nat n)"
    using assms(2,3,5,6) by (simp add: usize_try_from_def fd_get_def)
  note ret = assms(8) [unfolded call]
  obtain o' h2 where rl: "read_loop H (fp_inner fp) (nat n) [] h1 = (o', h2)" by fastforce
  have fails: "o' = None \<longleftrightarrow> (\<exists>s e s'. host_reads H (fp_inner fp) h1 s \<and> offset s (fp_inner fp) < unat (fp_pos fp) + nat n \<and>
            hf_read H (fp_inner fp) 4096 s = (Inl e, s'))"
    using read_loop_fails [OF assms(1), of "[]" "nat n" "fp_inner fp" h1] assms(6) rl h1(1) by simp
  have "ret = - EACCES" if "o' = None"
    using that assms(7) ret rl by (simp add: read_file_def fp_def Let_def)
  moreover have "if data = [] then ret = - EAGAIN
        else ret = int (length data) \<and> guest_slice (k_memory k') ptr ret = Inr data \<and>
             fp_pos (k_files k' ! r) = fp_pos fp + of_nat (length data)" if "o' = Some out" for out
  proof -
    have out: "out = data" using read_loop_spec [OF assms(1) rl [unfolded that]] h1 by (simp add: data_def)
    have "length data \<le> l" by (simp add: data_def l)
    note w = guest_write_read_prefix [OF g this]
    have ld: "data \<noteq> [] \<Longrightarrow> \<not> length data = 0" by simp
    show ?thesis
      using assms(4,7) ret rl that w g guest_range_shrink [OF g, of l] l \<open>0 < n\<close>
      by (auto simp: read_file_def fp_def [symmetric] Let_def out read_finish_def guest_slice_mut_def
          set_file_def k_write_def)
  qed
  ultimately show ?thesis
    unfolding Let_def fp_def [symmetric] data_def [symmetric] fails [symmetric] by (cases o') simp_all
qed

definition mfs_file :: "memfs \<Rightarrow> hfile \<Rightarrow> bytes" where
  "mfs_file s f = mfs_contents (fst (handles s ! f)) s"

definition mfs_offset :: "memfs \<Rightarrow> hfile \<Rightarrow> nat" where
  "mfs_offset s f = snd (handles s ! f)"

lemma mem_host_file_spec: "host_file_spec mem_host mfs_file mfs_offset"
  unfolding host_file_spec_def
proof (intro conjI allI impI)
  fix f n s bs s'
  assume "hf_read mem_host f n s = (Inr bs, s')"
  then have f: "f < length (handles s)" and bs: "bs = take n (drop (mfs_offset s f) (mfs_file s f))"
    and s': "s' = s\<lparr>handles := (handles s)[f := (fst (handles s ! f), mfs_offset s f + length bs)]\<rparr>"
    by (auto simp: mem_host_defs mfs_file_def mfs_offset_def Let_def split: if_splits prod.splits)
  show "bs = take (length bs) (drop (mfs_offset s f) (mfs_file s f))" "length bs \<le> n"
    by (auto simp: bs min_def)
  show "n = 0 \<or> length (mfs_file s f) \<le> mfs_offset s f" if "bs = []" using that by (simp add: bs)
  show "mfs_offset s' f = mfs_offset s f + length bs" "mfs_file s' f = mfs_file s f"
    using f by (simp_all add: s' mfs_offset_def mfs_file_def mfs_contents_def)
next
  fix f p s q s'
  assume "hf_seek mem_host f (SeekStart p) s = (Inr q, s')"
  then have f: "f < length (handles s)" and s': "s' = s\<lparr>handles := (handles s)[f := (fst (handles s ! f), unat p)]\<rparr>"
    by (auto simp: mem_host_defs Let_def split: if_splits prod.splits)
  show "mfs_offset s' f = unat p" "mfs_file s' f = mfs_file s f"
    using f by (simp_all add: s' mfs_offset_def mfs_file_def mfs_contents_def)
qed

lemma demo_read:
  "sys_read mem_host no_socket demo_io (Args 5 9 2 0 0 0) =
     (2, demo_io\<lparr>k_memory := Some (Owned [10, 11, 12, 13, 14, 15, 16, 17, 9, 1, 2, 0]),
         k_files := [(with_path 0 (demo_root @ [Normal [98]]))\<lparr>fp_pos := 2\<rparr>],
         k_host := demo_fs\<lparr>handles := [(demo_root @ [Normal [98]], 3)]\<rparr>\<rparr>)"
  by (simp add: u32_try_from_def usize_try_from_def guest_slice_mut_def guest_range_def kernel_memory_def
      usize_checked_add_def fd_get_def read_file_def read_loop.simps read_finish_def mem_host_defs demo_fs_def
      demo_root_def with_path_def k_update_defs splice_def Let_def)

theorem sys_read_file_exact_witness:
  "\<exists>k'. sys_read mem_host no_socket demo_io (Args 5 9 2 0 0 0) = (2, k') \<and>
    guest_slice (k_memory k') 9 2 = Inr [1, 2]"
proof -
  obtain k' where k': "sys_read mem_host no_socket demo_io (Args 5 9 2 0 0 0) = (2, k')"
    using demo_read by blast
  have hyps: "u32_try_from 5 = Some 5" "table (k_fds demo_io) 5 = Some (RFile 0)" "0 < length (k_files demo_io)"
    "guest_slice_mut (k_memory demo_io) 9 2 = Inr (9, 2)" "(0 :: int) < 2"
    by (simp_all add: u32_try_from_def guest_slice_mut_def guest_range_def kernel_memory_def usize_checked_add_def)
  obtain q h1 where sk: "hf_seek mem_host (fp_inner (k_files demo_io ! 0))
      (SeekStart (fp_pos (k_files demo_io ! 0))) (k_host demo_io) = (Inr q, h1)"
    by (simp add: mem_host_defs with_path_def Let_def)
  have d: "fp_inner (k_files demo_io ! 0) = 0" "fp_pos (k_files demo_io ! 0) = 0" "mfs_file (k_host demo_io) 0 = [1, 2, 3]"
    by (simp_all add: with_path_def mfs_file_def mfs_contents_def demo_fs_def demo_root_def)
  have n: "take (nat 2) (drop (unat (0 :: u64)) [1, 2, 3 :: u8]) = [1, 2]" "(2 :: int) \<noteq> - EACCES" by (simp_all add: errno_defs)
  from sys_read_file_exact [OF mem_host_file_spec hyps sk k'] have "guest_slice (k_memory k') 9 2 = Inr [1, 2]"
    unfolding Let_def d n by (metis n(2) list.distinct(1))
  with k' show ?thesis by blast
qed

text \<open>
  \<open>write\<close> does not seek to the descriptor's position, and \<open>read\<close> leaves the host
  offset behind its last 4096-byte chunk.  After reading 2 of the 3 bytes of \<open>/p/b\<close>,
  the descriptor is at position 2, but writing one byte appends it at offset 3
  instead of overwriting the third byte.
\<close>

lemma write_after_read_misplaced:
  "case sys_read mem_host no_socket demo_io (Args 5 9 2 0 0 0) of (r, k1) \<Rightarrow>
     r = 2 \<and> fp_pos (k_files k1 ! 0) = 2 \<and>
     (case sys_write mem_host no_socket k1 (Args 5 8 1 0 0 0) of (w, k2) \<Rightarrow>
        w = 1 \<and> fp_pos (k_files k2 ! 0) = 3 \<and>
        mfs_contents (demo_root @ [Normal [98]]) (k_host k2) = [1, 2, 3, 9])"
  unfolding demo_read
  by (simp add: u32_try_from_def guest_slice_def guest_range_def kernel_memory_def usize_checked_add_def
      fd_get_def write_file_def mem_host_defs demo_fs_def demo_root_def with_path_def k_update_defs slice_def
      Let_def)

section \<open>Directory streams\<close>

text \<open>
  C21: A successful \<open>getdents64\<close> on a directory whose listing is cached hands the guest
  the next bytes of the listing from the descriptor's position, as many as fit, and
  advances the position past them; it returns 0 exactly at the end.
\<close>

theorem getdents64_stream:
  assumes "u32_try_from a0 = Some fd" "table (k_fds k) fd = Some (RFile r)" "r < length (k_files k)"
    and "k_files k ! r = fp" "fp_is_dir fp" "fp_path fp = Some path" "fp_dir_cache fp = Some cache"
    and "guest_slice_mut (k_memory k) ptr n = Inr (b, l)" "0 < n" "length cache < 2 ^ 63"
  shows "\<exists>k' out. sys_getdents64 H k (Args a0 ptr n x y z) = (int (length out), k') \<and>
    out = take (nat n) (drop (unat (fp_pos fp)) cache) \<and>
    guest_slice (k_memory k') ptr (int (length out)) = Inr out \<and>
    unat (fp_pos (k_files k' ! r)) = unat (fp_pos fp) + length out"
proof -
  define out where "out = take (nat n) (drop (unat (fp_pos fp)) cache)"
  have g: "guest_range (k_memory k) ptr n = Inr (b, l)" using assms(8) by (simp add: guest_slice_mut_def)
  then have l: "l = nat n" using guest_range_Inr by blast
  have lo: "length out \<le> l" by (simp add: out_def l)
  note g' = guest_range_shrink [OF g lo] and w = guest_write_read_prefix [OF g lo]
  show ?thesis
  proof (cases "length cache \<le> unat (fp_pos fp)")
    case True
    then have "out = []" by (simp add: out_def)
    moreover have "guest_slice (k_memory k) ptr 0 = Inr []"
      using guest_range_shrink [OF g, of 0] guest_range_Inr [OF g]
      by (auto simp: guest_slice_def kernel_memory_def slice_def)
    ultimately show ?thesis
      using True assms by (simp add: usize_try_from_def fd_get_def Let_def out_def set_file_def)
  next
    case False
    define e where "e = min (unat (fp_pos fp) + nat n) (length cache)"
    have e: "unat (fp_pos fp) + length out = e" "slice (unat (fp_pos fp)) (e - unat (fp_pos fp)) cache = out"
      using False by (auto simp: e_def out_def slice_def min_def)
    have "e < 2 ^ 64" using assms(10) by (simp add: e_def)
    then have "unat (of_nat e :: u64) = e" by (simp add: unat_of_nat)
    with False assms e w g' show ?thesis
      by (simp add: usize_try_from_def fd_get_def Let_def out_def [symmetric] set_file_def k_write_def
          guest_slice_mut_def e_def [symmetric])
  qed
qed

theorem getdents64_stream_witness:
  "\<exists>k'. sys_getdents64 mem_host
      (demo_io\<lparr>k_files := [\<lparr>fp_inner = 0, fp_pos = 1, fp_path = Some demo_root, fp_is_dir = True,
                          fp_dir_cache = Some [5, 6, 7, 8]\<rparr>]\<rparr>) (Args 5 4 2 0 0 0) = (2, k') \<and>
    guest_slice (k_memory k') 4 2 = Inr [6, 7]"
proof -
  let ?fp = "\<lparr>fp_inner = 0, fp_pos = 1, fp_path = Some demo_root, fp_is_dir = True,
      fp_dir_cache = Some [5, 6, 7, 8]\<rparr> :: file_pos"
  let ?k = "demo_io\<lparr>k_files := [?fp]\<rparr>"
  have "u32_try_from 5 = Some 5" "table (k_fds ?k) 5 = Some (RFile 0)" "0 < length (k_files ?k)"
    "k_files ?k ! 0 = ?fp" "fp_is_dir ?fp" "fp_path ?fp = Some demo_root" "fp_dir_cache ?fp = Some [5, 6, 7, 8]"
    "guest_slice_mut (k_memory ?k) 4 2 = Inr (4, 2)" "(0 :: int) < 2" "length [5, 6, 7, 8 :: u8] < 2 ^ 63"
    by (simp_all add: u32_try_from_def guest_slice_mut_def guest_range_def kernel_memory_def usize_checked_add_def)
  from getdents64_stream [OF this, of mem_host 0 0 0] show ?thesis
    by (elim exE) (auto simp del: sys_getdents64.simps)
qed

end
