(* ===== verification/Sys_Path.thy ===== *)
theory Sys_Path
  imports Sys_Rw
begin

text \<open>
  The path syscalls of \<^verbatim>\<open>src/src/sys/file.rs\<close>.  Each reads its path from guest memory, routes it
  through \<open>path::resolve\<close> and makes one or two host calls on the result.  \<open>utimensat\<close>
  has an option result: \<open>None\<close> is the host panic of an overflowing \<open>SystemTime\<close> addition.
\<close>

section \<open>Shared prefixes\<close>

text \<open>Reading a path argument of at most 4096 bytes.\<close>

definition str_arg :: "'h kernel \<Rightarrow> int \<Rightarrow> (bytes \<Rightarrow> int \<times> 'h kernel) \<Rightarrow> int \<times> 'h kernel" where
  "str_arg k ptr f = try_ret (guest_str (k_memory k) ptr 4096) k f"

text \<open>Read the path, refuse the empty one, resolve it.\<close>

definition path_arg ::
  "'h kernel \<Rightarrow> int \<Rightarrow> int \<Rightarrow> (pathbuf \<Rightarrow> int \<times> 'h kernel) \<Rightarrow> int \<times> 'h kernel"
where
  "path_arg k dirfd ptr f =
     str_arg k ptr (\<lambda>path.
       if path = [] then (- ENOENT, k) else try_ret (sys_resolve k dirfd path) k f)"

text \<open>Two paths, both read before either is resolved.\<close>

definition two_path_args ::
  "'h kernel \<Rightarrow> int \<Rightarrow> int \<Rightarrow> int \<Rightarrow> int \<Rightarrow> (pathbuf \<Rightarrow> pathbuf \<Rightarrow> int \<times> 'h kernel) \<Rightarrow> int \<times> 'h kernel"
where
  "two_path_args k olddirfd old_ptr newdirfd new_ptr f =
     str_arg k old_ptr (\<lambda>old. str_arg k new_ptr (\<lambda>new.
       if old = [] \<or> new = [] then (- ENOENT, k)
       else try_ret (sys_resolve k olddirfd old) k (\<lambda>old_abs.
              try_ret (sys_resolve k newdirfd new) k (\<lambda>new_abs. f old_abs new_abs))))"

section \<open>Opening and status\<close>

fun sys_openat :: "'h host_ops \<Rightarrow> 'h handler" where
  "sys_openat H k (Args dirfd path_ptr flags_raw mode_raw _ _) =
     str_arg k path_ptr (\<lambda>path.
       try_ret (sys_resolve k dirfd path) k (\<lambda>apath.
         let (o', h1) = vfs_open H apath (as_i32 flags_raw) (k_host k);
             k1 = k\<lparr>k_host := h1\<rparr>
         in try_ret o' k1 (\<lambda>file.
              let isd = (case h_metadata H apath h1 of Inr m \<Rightarrow> is_dir m | Inl _ \<Rightarrow> False);
                  fp = (with_path file apath)\<lparr>fp_is_dir := isd\<rparr>;
                  (fd, t) = fd_insert (k_fds k1) (RFile (length (k_files k1)))
              in (uint fd, k1\<lparr>k_files := k_files k1 @ [fp], k_fds := t\<rparr>))))"

fun sys_open :: "'h host_ops \<Rightarrow> 'h handler" where
  "sys_open H k (Args path_ptr flags mode _ _ _) = sys_openat H k (Args (- 100) path_ptr flags mode 0 0)"

fun sys_newfstatat :: "'h host_ops \<Rightarrow> 'h handler" where
  "sys_newfstatat H k (Args dirfd path_ptr statbuf_ptr flags_raw _ _) =
     str_arg k path_ptr (\<lambda>path.
       if as_i32 flags_raw AND 0x1000 \<noteq> 0 \<and> path = []
       then sys_fstat H k (Args dirfd statbuf_ptr 0 0 0 0)
       else if path = [] then (- ENOENT, k)
       else try_ret (sys_resolve k dirfd path) k (\<lambda>apath.
              try_ret (vfs_stat H apath (k_host k)) k (\<lambda>s. write_stat k s statbuf_ptr)))"

fun sys_stat :: "'h host_ops \<Rightarrow> 'h handler" where
  "sys_stat H k (Args path_ptr statbuf_ptr _ _ _ _) =
     sys_newfstatat H k (Args (- 100) path_ptr statbuf_ptr 0 0 0)"

fun sys_lstat :: "'h host_ops \<Rightarrow> 'h handler" where
  "sys_lstat H k (Args path_ptr statbuf_ptr _ _ _ _) =
     sys_newfstatat H k (Args (- 100) path_ptr statbuf_ptr 0x100 0 0)"

definition AT_EMPTY_PATH :: int where "AT_EMPTY_PATH = 0x1000"
definition AT_NO_AUTOMOUNT :: int where "AT_NO_AUTOMOUNT = 0x800"
definition AT_SYMLINK_NOFOLLOW :: int where "AT_SYMLINK_NOFOLLOW = 0x100"

text \<open>The \<open>Stat\<close> that \<open>statx\<close> projects: of the descriptor, or of the resolved path.\<close>

definition statx_stat :: "'h host_ops \<Rightarrow> 'h kernel \<Rightarrow> int \<Rightarrow> int \<Rightarrow> bytes \<Rightarrow> stat res" where
  "statx_stat H k dirfd flags path =
     (if flags AND AT_EMPTY_PATH \<noteq> 0 \<and> path = []
      then (case u32_try_from dirfd of
              None \<Rightarrow> Inl (- EBADF)
            | Some fd \<Rightarrow>
                (case fd_get (k_fds k) fd of
                   Inr (RFile r) \<Rightarrow>
                     (case hf_metadata H (fp_inner (k_files k ! r)) (k_host k) of
                        Inr meta \<Rightarrow> Inr (stat_from_metadata meta)
                      | Inl _ \<Rightarrow> Inl (- EACCES))
                 | Inr _ \<Rightarrow> Inr synth_char
                 | Inl e \<Rightarrow> Inl e))
      else if path = [] then Inl (- ENOENT)
      else res_bind (sys_resolve k dirfd path) (\<lambda>apath. vfs_stat H apath (k_host k)))"

fun sys_statx :: "'h host_ops \<Rightarrow> 'h handler" where
  "sys_statx H k (Args dirfd path_ptr flags_raw mask_raw buf_ptr _) =
     (let flags = as_i32 flags_raw
      in if flags AND NOT (AT_EMPTY_PATH OR AT_NO_AUTOMOUNT OR AT_SYMLINK_NOFOLLOW) \<noteq> 0
         then (- EINVAL, k)
         else try_ret (guest_slice_mut (k_memory k) buf_ptr (int STATX_SIZE)) k (\<lambda>_.
           str_arg k path_ptr (\<lambda>path.
             try_ret (statx_stat H k dirfd flags path) k (\<lambda>s.
               try_ret (guest_slice_mut (k_memory k) buf_ptr (int STATX_SIZE)) k (\<lambda>(b, _).
                 (0, k_write k b (statx_encode (statx_from_stat s))))))))"

section \<open>Directories, removal, renaming\<close>

fun sys_mkdir :: "'h host_ops \<Rightarrow> 'h handler" where
  "sys_mkdir H k (Args path_ptr mode _ _ _ _) =
     path_arg k (- 100) path_ptr (\<lambda>apath. host_ret k (h_create_dir H apath (k_host k)))"

fun sys_mkdirat :: "'h host_ops \<Rightarrow> 'h handler" where
  "sys_mkdirat H k (Args dirfd path_ptr mode _ _ _) =
     path_arg k dirfd path_ptr (\<lambda>apath. host_ret k (h_create_dir H apath (k_host k)))"

fun sys_rmdir :: "'h host_ops \<Rightarrow> 'h handler" where
  "sys_rmdir H k (Args path_ptr _ _ _ _ _) =
     path_arg k (- 100) path_ptr (\<lambda>apath. host_ret k (h_remove_dir H apath (k_host k)))"

fun sys_unlink :: "'h host_ops \<Rightarrow> 'h handler" where
  "sys_unlink H k (Args path_ptr _ _ _ _ _) =
     path_arg k (- 100) path_ptr (\<lambda>apath. host_ret k (h_remove_file H apath (k_host k)))"

definition AT_REMOVEDIR :: int where "AT_REMOVEDIR = 0x200"

fun sys_unlinkat :: "'h host_ops \<Rightarrow> 'h handler" where
  "sys_unlinkat H k (Args dirfd path_ptr flags_raw _ _ _) =
     path_arg k dirfd path_ptr (\<lambda>apath.
       host_ret k
         (if as_i32 flags_raw AND AT_REMOVEDIR \<noteq> 0
          then h_remove_dir H apath (k_host k) else h_remove_file H apath (k_host k)))"

definition RENAME_NOREPLACE :: int where "RENAME_NOREPLACE = 1"
definition RENAME_EXCHANGE :: int where "RENAME_EXCHANGE = 2"
definition RENAME_WHITEOUT :: int where "RENAME_WHITEOUT = 4"

fun sys_renameat :: "'h host_ops \<Rightarrow> 'h handler" where
  "sys_renameat H k (Args olddirfd old_ptr newdirfd new_ptr flags_raw _) =
     two_path_args k olddirfd old_ptr newdirfd new_ptr (\<lambda>old_abs new_abs.
       let flags = as_i32 flags_raw
       in if flags AND NOT (RENAME_NOREPLACE OR RENAME_EXCHANGE OR RENAME_WHITEOUT) \<noteq> 0 then (- EINVAL, k)
          else if flags AND RENAME_WHITEOUT \<noteq> 0 then (- EINVAL, k)
          else if flags AND RENAME_NOREPLACE \<noteq> 0 \<and> \<not> isl (h_metadata H new_abs (k_host k)) then (- EEXIST, k)
          else host_ret k (h_rename H old_abs new_abs (k_host k)))"

fun sys_rename :: "'h host_ops \<Rightarrow> 'h handler" where
  "sys_rename H k (Args a0 a1 _ _ _ _) = sys_renameat H k (Args (- 100) a0 (- 100) a1 0 0)"

definition sys_renameat2 :: "'h host_ops \<Rightarrow> 'h handler" where
  "sys_renameat2 H k a = sys_renameat H k a"

text \<open>\<open>OpenOptions::new().write(true).create(c).open(path)\<close>.\<close>

definition write_options :: "bool \<Rightarrow> open_options" where
  "write_options c =
     \<lparr>oo_read = False, oo_write = True, oo_create = c, oo_create_new = False,
      oo_truncate = False, oo_append = False\<rparr>"

fun sys_truncate :: "'h host_ops \<Rightarrow> 'h handler" where
  "sys_truncate H k (Args path_ptr len_raw _ _ _ _) =
     str_arg k path_ptr (\<lambda>path.
       if path = [] then (- ENOENT, k)
       else if len_raw < 0 then (- EINVAL, k)
       else try_ret (sys_resolve k (- 100) path) k (\<lambda>apath.
         (case h_open H apath (write_options True) (k_host k) of
            (Inl e, h) \<Rightarrow> (- io_to_errno e, k\<lparr>k_host := h\<rparr>)
          | (Inr f, h) \<Rightarrow> host_ret k (hf_set_len H f (word_of_int len_raw) h))))"

section \<open>Links\<close>

fun sys_readlinkat :: "'h host_ops \<Rightarrow> 'h handler" where
  "sys_readlinkat H k (Args dirfd path_ptr buf_ptr len_raw _ _) =
     (case usize_try_from len_raw of
        None \<Rightarrow> (- EINVAL, k)
      | Some buf_len \<Rightarrow>
          path_arg k dirfd path_ptr (\<lambda>apath.
            case h_read_link H apath (k_host k) of
              Inl e \<Rightarrow> (- io_to_errno e, k)
            | Inr target \<Rightarrow>
                if length target > buf_len then (- ENAMETOOLONG, k)
                else try_ret (guest_slice_mut (k_memory k) buf_ptr (int (length target))) k (\<lambda>(b, _).
                       (int (length target), k_write k b target))))"

fun sys_readlink :: "'h host_ops \<Rightarrow> 'h handler" where
  "sys_readlink H k (Args a0 a1 a2 _ _ _) = sys_readlinkat H k (Args (- 100) a0 a1 a2 0 0)"

fun sys_symlinkat :: "'h host_ops \<Rightarrow> 'h handler" where
  "sys_symlinkat H k (Args target_ptr dirfd path_ptr _ _ _) =
     str_arg k target_ptr (\<lambda>target.
       path_arg k dirfd path_ptr (\<lambda>apath. host_ret k (h_symlink H target apath (k_host k))))"

fun sys_symlink :: "'h host_ops \<Rightarrow> 'h handler" where
  "sys_symlink H k (Args a0 a1 _ _ _ _) = sys_symlinkat H k (Args a0 (- 100) a1 0 0 0)"

fun sys_linkat :: "'h host_ops \<Rightarrow> 'h handler" where
  "sys_linkat H k (Args olddirfd old_ptr newdirfd new_ptr flags _) =
     two_path_args k olddirfd old_ptr newdirfd new_ptr (\<lambda>old_abs new_abs.
       host_ret k (h_hard_link H old_abs new_abs (k_host k)))"

fun sys_link :: "'h host_ops \<Rightarrow> 'h handler" where
  "sys_link H k (Args a0 a1 _ _ _ _) = sys_linkat H k (Args (- 100) a0 (- 100) a1 0 0)"

section \<open>Times, permissions, working directory\<close>

text \<open>
  \<open>UNIX_EPOCH + from_secs(sec) + from_nanos(nsec)\<close>: the seconds of a \<open>SystemTime\<close> are an
  \<open>i64\<close>, and the addition panics (\<open>None\<close>) when they overflow.
\<close>

definition timespec_from_bytes :: "bytes \<Rightarrow> system_time option" where
  "timespec_from_bytes b =
     (let sec = le_sint64 (slice 0 8 b); nsec = le_sint64 (slice 8 8 b)
      in if sec < 0 \<or> nsec < 0 then Some UNIX_EPOCH
         else if sec + nsec div 1000000000 < 2 ^ 63 then Some (sec * 1000000000 + nsec)
         else None)"

text \<open>The pair (atime, mtime) of \<open>utimensat\<close>: two clock readings, or two timespecs from the guest.\<close>

definition utimens_times ::
  "'h host_ops \<Rightarrow> 'h kernel \<Rightarrow> int \<Rightarrow> (int + system_time option \<times> system_time option) \<times> 'h kernel"
where
  "utimens_times H k times_ptr =
     (if times_ptr = 0
      then (let (at, h1) = h_now H (k_host k); (mt, h2) = h_now H h1
            in (Inr (Some at, Some mt), k\<lparr>k_host := h2\<rparr>))
      else (case guest_slice (k_memory k) times_ptr 32 of
              Inl e \<Rightarrow> (Inl e, k)
            | Inr bs \<Rightarrow>
                (Inr (timespec_from_bytes (slice 0 16 bs), timespec_from_bytes (slice 16 16 bs)), k)))"

fun sys_utimensat :: "'h host_ops \<Rightarrow> 'h kernel \<Rightarrow> args \<Rightarrow> (int \<times> 'h kernel) option" where
  "sys_utimensat H k (Args dirfd path_ptr times_ptr flags _ _) =
     (case guest_str (k_memory k) path_ptr 4096 of
        Inl e \<Rightarrow> Some (e, k)
      | Inr path \<Rightarrow>
          if path = [] then Some (- ENOENT, k)
          else (case sys_resolve k dirfd path of
             Inl e \<Rightarrow> Some (e, k)
           | Inr apath \<Rightarrow>
               (case utimens_times H k times_ptr of
                  (Inl e, k1) \<Rightarrow> Some (e, k1)
                | (Inr (Some at, Some mt), k1) \<Rightarrow>
                    Some (case h_open H apath (write_options False) (k_host k1) of
                            (Inl e, h) \<Rightarrow> (- io_to_errno e, k1\<lparr>k_host := h\<rparr>)
                          | (Inr f, h) \<Rightarrow> host_ret k1 (hf_set_modified H f mt h))
                | (Inr _, k1) \<Rightarrow> None)))"

fun sys_fchmodat :: "'h host_ops \<Rightarrow> 'h handler" where
  "sys_fchmodat H k (Args dirfd path_ptr mode_raw flags _ _) =
     path_arg k dirfd path_ptr (\<lambda>apath.
       host_ret k (h_set_permissions H apath (as_u32 mode_raw AND 0xFFF) (k_host k)))"

fun sys_chmod :: "'h host_ops \<Rightarrow> 'h handler" where
  "sys_chmod H k (Args a0 a1 _ _ _ _) = sys_fchmodat H k (Args (- 100) a0 a1 0 0 0)"

definition access_check :: "metadata \<Rightarrow> int \<Rightarrow> int" where
  "access_check meta mode =
     (let m = md_perm meta; readonly = (m AND 0x92 = 0)
      in if mode = 0 then 0
         else if mode AND 4 \<noteq> 0 \<and> m AND 0x124 = 0 then - EACCES
         else if mode AND 2 \<noteq> 0 \<and> (readonly \<or> m AND 0x92 = 0) then - EACCES
         else if mode AND 1 \<noteq> 0 \<and> m AND 0x49 = 0 then - EACCES
         else 0)"

fun sys_faccessat2 :: "'h host_ops \<Rightarrow> 'h handler" where
  "sys_faccessat2 H k (Args dirfd path_ptr mode_raw flags _ _) =
     path_arg k dirfd path_ptr (\<lambda>apath.
       case h_metadata H apath (k_host k) of
         Inl e \<Rightarrow> (- io_to_errno e, k)
       | Inr meta \<Rightarrow> (access_check meta (as_i32 mode_raw), k))"

definition sys_faccessat :: "'h host_ops \<Rightarrow> 'h handler" where
  "sys_faccessat H k a = sys_faccessat2 H k a"

text \<open>The kernel after an operation on its \<open>Vfs\<close>.\<close>

definition vfs_ret :: "'h kernel \<Rightarrow> unit res \<times> vfs \<Rightarrow> int \<times> 'h kernel" where
  "vfs_ret k r = (case r of (Inr _, v) \<Rightarrow> (0, k\<lparr>k_vfs := v\<rparr>) | (Inl e, v) \<Rightarrow> (e, k\<lparr>k_vfs := v\<rparr>))"

fun sys_chdir :: "'h host_ops \<Rightarrow> 'h handler" where
  "sys_chdir H k (Args path_ptr _ _ _ _ _) =
     path_arg k (- 100) path_ptr (\<lambda>apath. vfs_ret k (vfs_chdir H (k_vfs k) apath (k_host k)))"

fun sys_chroot :: "'h host_ops \<Rightarrow> 'h handler" where
  "sys_chroot H k (Args path_ptr _ _ _ _ _) =
     path_arg k (- 100) path_ptr (\<lambda>apath. vfs_ret k (vfs_chroot H (k_vfs k) apath (k_host k)))"

end
