(* ===== verification/Sys_Memory.thy ===== *)
theory Sys_Memory
  imports Kernel_State
begin

text \<open>
  The memory syscalls of \<^verbatim>\<open>src/src/sys/memory.rs\<close>.  Growing linear memory is
  wasmtime's \<open>Memory::grow\<close>, a parameter \<open>G\<close> that returns the grown memory or fails.
\<close>

section \<open>Handlers\<close>

definition MREMAP_MAYMOVE :: int where "MREMAP_MAYMOVE = 1"
definition MREMAP_FIXED :: int where "MREMAP_FIXED = 2"

definition mem_size :: "'h kernel \<Rightarrow> nat" where
  "mem_size k = (case kernel_memory (k_memory k) of Inr m \<Rightarrow> length m | Inl _ \<Rightarrow> 0)"

text \<open>Zero-filling the returned range, when it lies inside memory.\<close>

definition zero_fill :: "'h kernel \<Rightarrow> nat \<Rightarrow> nat \<Rightarrow> 'h kernel" where
  "zero_fill k start len =
     (if start + len \<le> mem_size k then k_write k start (replicate len 0) else k)"

fun sys_mmap :: "(bytes \<Rightarrow> nat \<Rightarrow> bytes option) \<Rightarrow> 'h handler" where
  "sys_mmap G k (Args addr_hint len_raw prot_raw flags_raw fd off) =
     (case usize_try_from len_raw of
        None \<Rightarrow> (- EINVAL, k)
      | Some len \<Rightarrow>
          if len = 0 then (- EINVAL, k)
          else
            let prot = as_i32 prot_raw; flags = as_i32 flags_raw
            in try_ret (kernel_memory (k_memory k)) k (\<lambda>mem.
              let (decision, mm1) = mm_mmap (k_mm k) (mem_size k) len prot flags fd off;
                  k1 = k\<lparr>k_mm := mm1\<rparr>
              in case (case decision of
                         NeedGrow pages \<Rightarrow>
                           map_option (\<lambda>m'. k1\<lparr>k_memory := Some (Owned m')\<rparr>) (G mem pages)
                       | _ \<Rightarrow> Some k1) of
                   None \<Rightarrow> (- ENOMEM, k1)
                 | Some k2 \<Rightarrow>
                     (case mm_mmap (k_mm k2) (mem_size k2) len prot flags fd off of
                        (MmapOk addr, mm2) \<Rightarrow>
                          (uint addr, zero_fill (k2\<lparr>k_mm := mm2\<rparr>) (unat addr) len)
                      | (MmapErr e, mm2) \<Rightarrow> (e, k2\<lparr>k_mm := mm2\<rparr>)
                      | (NeedGrow _, mm2) \<Rightarrow> (- ENOMEM, k2\<lparr>k_mm := mm2\<rparr>))))"

fun sys_munmap :: "'h handler" where
  "sys_munmap k (Args addr_raw len_raw _ _ _ _) =
     (case (u32_try_from addr_raw, usize_try_from len_raw) of
        (Some addr, Some len) \<Rightarrow>
          (let (r, mm') = mm_munmap (k_mm k) addr len in (r, k\<lparr>k_mm := mm'\<rparr>))
      | _ \<Rightarrow> (- EINVAL, k))"

definition sys_mprotect :: "'h handler" where
  "sys_mprotect k a = (0, k)"

definition sys_madvise :: "'h handler" where
  "sys_madvise k a = (0, k)"

definition sys_brk :: "'h handler" where
  "sys_brk k a = (uint (mm_brk (k_mm k)), k)"

fun sys_mremap :: "'h handler" where
  "sys_mremap k (Args old_raw old_len_raw new_len_raw flags_raw new_addr_raw _) =
     (case (u32_try_from old_raw, usize_try_from old_len_raw, usize_try_from new_len_raw) of
        (Some old, Some old_len, Some new_len) \<Rightarrow>
          if old_len = 0 \<or> new_len = 0 then (- EINVAL, k)
          else if as_i32 flags_raw AND (MREMAP_MAYMOVE OR MREMAP_FIXED) \<noteq> 0 then (- ENOSYS, k)
          else if as_u32 new_addr_raw \<noteq> 0 then (- ENOSYS, k)
          else if new_len \<le> old_len then (uint old, k)
          else (case grow_in_place (k_mm k) old old_len new_len of
                  (Inr addr, mm') \<Rightarrow> (uint addr, k\<lparr>k_mm := mm'\<rparr>)
                | (Inl e, mm') \<Rightarrow> (e, k\<lparr>k_mm := mm'\<rparr>))
      | _ \<Rightarrow> (- EINVAL, k))"

section \<open>Linear memory and the allocator together\<close>

text \<open>\<open>Memory::grow\<close> appends zeroed pages, when it succeeds.\<close>

definition grow_spec :: "(bytes \<Rightarrow> nat \<Rightarrow> bytes option) \<Rightarrow> bool" where
  "grow_spec G \<longleftrightarrow>
     (\<forall>m n m'. G m n = Some m' \<longrightarrow> m' = m @ replicate (n * PAGE_SIZE) 0)"

definition mm_inv :: "'h kernel \<Rightarrow> block list \<Rightarrow> bool" where
  "mm_inv k live \<longleftrightarrow>
     la_ok (k_mm k) live \<and>
     (\<exists>m. k_memory k = Some (Owned m) \<and> length m < 2 ^ 32 \<and>
          (arenas (k_mm k) \<noteq> [] \<longrightarrow> unat (high_water (k_mm k)) \<le> length m))"

lemma mem_size_Owned [simp]: "k_memory k = Some (Owned m) \<Longrightarrow> mem_size k = length m"
  by (simp add: mem_size_def kernel_memory_def)

lemma mm_mmap_bound:
  assumes "mm_mmap la cur len prot flags fd off = (MmapOk p, la')"
    "arenas la \<noteq> [] \<longrightarrow> unat (high_water la) \<le> cur"
  shows "unat (high_water la) \<le> cur"
  using assms by (cases "arenas la") (auto simp: mm_mmap_def Let_def split: if_splits)

lemma mm_mmap_arenas: "mm_mmap la cur len prot flags fd off = (MmapOk p, la') \<Longrightarrow> arenas la' \<noteq> []"
  by (auto simp: mm_mmap_def Let_def split: if_splits option.splits prod.splits
      dest!: alloc_existing_nth)

lemma mm_inv_mmap:
  assumes inv: "mm_inv k live"
    and mm: "mm_mmap (k_mm k) (mem_size k) len prot flags fd off = (MmapOk p, mm')"
  shows "mm_inv (k\<lparr>k_mm := mm'\<rparr>) ((unat p, len) # live)"
    "\<exists>m. k_memory k = Some (Owned m) \<and> unat p + len \<le> length m"
    "in_block (unat p, len) x \<Longrightarrow> occ live x = 0"
proof -
  from inv obtain m where m: "k_memory k = Some (Owned m)" "length m < 2 ^ 32"
    "arenas (k_mm k) \<noteq> [] \<longrightarrow> unat (high_water (k_mm k)) \<le> length m" "la_ok (k_mm k) live"
    by (auto simp: mm_inv_def)
  note mm' = mm [unfolded mem_size_Owned [OF m(1)]]
  note ok = mm_mmap_ok [OF m(4) mm_mmap_bound [OF mm' m(3)] m(2) mm']
  show "mm_inv (k\<lparr>k_mm := mm'\<rparr>) ((unat p, len) # live)" using ok m by (auto simp: mm_inv_def)
  show "\<exists>m. k_memory k = Some (Owned m) \<and> unat p + len \<le> length m" using ok m by auto
  show "in_block (unat p, len) x \<Longrightarrow> occ live x = 0" using la_ok_occ [OF ok(1), of x] by simp
qed

lemma mm_inv_cong:
  "k_mm k' = k_mm k \<Longrightarrow> k_memory k' = k_memory k \<Longrightarrow> mm_inv k' live = mm_inv k live"
  by (simp add: mm_inv_def)

text \<open>What the first decision and a possible grow leave behind.\<close>

lemma mm_inv_grow:
  assumes inv: "mm_inv k live" and G: "grow_spec G" and m: "k_memory k = Some (Owned m)"
    and g: "G m n = Some m'" and small: "length m' < 2 ^ 32"
  shows "mm_inv (k\<lparr>k_memory := Some (Owned m')\<rparr>) live" "m' = m @ replicate (n * PAGE_SIZE) 0"
proof -
  show m': "m' = m @ replicate (n * PAGE_SIZE) 0" using G g by (simp add: grow_spec_def)
  show "mm_inv (k\<lparr>k_memory := Some (Owned m')\<rparr>) live"
    using inv m m' small by (auto simp: mm_inv_def)
qed

lemma zero_fill_inv: "mm_inv (zero_fill k p n) live = mm_inv k live" if "k_memory k = Some (Owned m)"
  using that by (auto simp: zero_fill_def mm_inv_def k_write_def)

lemma zero_fill_size: "mem_size (zero_fill k p n) = mem_size k"
  by (cases "k_memory k"; cases "the (k_memory k)") (auto simp: zero_fill_def mem_size_def k_write_def kernel_memory_def)

lemma zero_fill_memory:
  assumes "k_memory k = Some (Owned m)" "p + n \<le> length m"
  shows "k_memory (zero_fill k p n) = Some (Owned (splice p (replicate n 0) m))"
  using assms by (simp add: zero_fill_def k_write_def)

lemma mm_mmap_err: "mm_mmap la cur len prot flags fd off = (MmapErr e, la') \<Longrightarrow> e < 0"
  by (auto simp: mm_mmap_def Let_def errno_defs split: if_splits option.splits prod.splits)

text \<open>A successful \<open>mmap\<close>: what the first decision leaves, then the placement.\<close>

definition first_step ::
  "(bytes \<Rightarrow> nat \<Rightarrow> bytes option) \<Rightarrow> 'h kernel \<Rightarrow> nat \<Rightarrow> int \<Rightarrow> int \<Rightarrow> int \<Rightarrow> int \<Rightarrow> 'h kernel \<Rightarrow> bool"
where
  "first_step G k len prot flags fd off k2 \<longleftrightarrow>
     (case mm_mmap (k_mm k) (mem_size k) len prot flags fd off of
        (MmapOk a, mm1) \<Rightarrow> k2 = k\<lparr>k_mm := mm1\<rparr>
      | (NeedGrow n, mm1) \<Rightarrow>
          (\<exists>m m'. k_memory k = Some (Owned m) \<and> G m n = Some m' \<and>
                  k2 = k\<lparr>k_mm := mm1, k_memory := Some (Owned m')\<rparr>)
      | (MmapErr e, mm1) \<Rightarrow> k2 = k\<lparr>k_mm := mm1\<rparr>)"

lemma sys_mmap_success:
  assumes "sys_mmap G k (Args hint len_raw prot flags fd off) = (ret, k')" "0 \<le> ret"
  shows "\<exists>k2 addr mm2. first_step G k (nat len_raw) (as_i32 prot) (as_i32 flags) fd off k2 \<and>
    mm_mmap (k_mm k2) (mem_size k2) (nat len_raw) (as_i32 prot) (as_i32 flags) fd off = (MmapOk addr, mm2) \<and>
    ret = uint addr \<and> k' = zero_fill (k2\<lparr>k_mm := mm2\<rparr>) (unat addr) (nat len_raw)"
proof -
  obtain len where len: "usize_try_from len_raw = Some len" "len = nat len_raw" "len \<noteq> 0"
    using assms by (auto simp: errno_defs usize_try_from_def split: option.splits if_splits)
  obtain m where m: "k_memory k = Some (Owned m)"
    using assms len by (auto simp: kernel_memory_def errno_defs split: option.splits memory_kind.splits)
  obtain d mm1 where d: "mm_mmap (k_mm k) (mem_size k) len (as_i32 prot) (as_i32 flags) fd off = (d, mm1)"
    by fastforce
  obtain k2 where k2: "first_step G k len (as_i32 prot) (as_i32 flags) fd off k2"
    "(case mm_mmap (k_mm k2) (mem_size k2) len (as_i32 prot) (as_i32 flags) fd off of
        (MmapOk addr, mm2) \<Rightarrow> (uint addr, zero_fill (k2\<lparr>k_mm := mm2\<rparr>) (unat addr) len)
      | (MmapErr e, mm2) \<Rightarrow> (e, k2\<lparr>k_mm := mm2\<rparr>)
      | (NeedGrow _, mm2) \<Rightarrow> (- ENOMEM, k2\<lparr>k_mm := mm2\<rparr>)) = (ret, k')"
    using assms len m d
    by (cases d) (auto simp: first_step_def kernel_memory_def errno_defs Let_def split: option.splits)
  obtain d2 mm2 where d2: "mm_mmap (k_mm k2) (mem_size k2) len (as_i32 prot) (as_i32 flags) fd off = (d2, mm2)"
    by fastforce
  from k2(2) assms(2) d2 mm_mmap_err have "\<exists>addr. d2 = MmapOk addr"
    by (cases d2) (force simp: errno_defs)+
  with k2 d2 len(2) show ?thesis by auto
qed

lemma first_step_inv:
  assumes inv: "mm_inv k live" and G: "grow_spec G"
    and st: "first_step G k len prot flags fd off k2" and m: "k_memory k = Some (Owned m)"
    and small: "mem_size k2 < 2 ^ 32"
  shows "\<exists>leaked n. mm_inv k2 (leaked @ live) \<and> k_memory k2 = Some (Owned (m @ replicate n 0))"
proof -
  obtain d mm1 where d: "mm_mmap (k_mm k) (mem_size k) len prot flags fd off = (d, mm1)" by fastforce
  show ?thesis
  proof (cases d)
    case (MmapOk a)
    with mm_inv_mmap(1) [OF inv d [unfolded MmapOk]] st d m
    have "mm_inv k2 ([(unat a, len)] @ live) \<and> k_memory k2 = Some (Owned (m @ replicate 0 0))"
      by (simp add: first_step_def)
    then show ?thesis by blast
  next
    case (NeedGrow n)
    with mm_mmap_not_ok [OF d] have mm1: "mm1 = k_mm k" by simp
    from st d NeedGrow m mm1 obtain m' where m': "G m n = Some m'" "k2 = k\<lparr>k_memory := Some (Owned m')\<rparr>"
      by (auto simp: first_step_def)
    have "length m' < 2 ^ 32" using small m'(2) by simp
    from mm_inv_grow [OF inv G m m'(1) this] m'(2)
    have "mm_inv k2 ([] @ live) \<and> k_memory k2 = Some (Owned (m @ replicate (n * PAGE_SIZE) 0))" by simp
    then show ?thesis by blast
  next
    case (MmapErr e)
    with mm_mmap_not_ok [OF d] st d m inv
    have "mm_inv k2 ([] @ live) \<and> k_memory k2 = Some (Owned (m @ replicate 0 0))"
      by (simp add: first_step_def)
    then show ?thesis by blast
  qed
qed

section \<open>Properties\<close>

text \<open>
  C7: A successful \<open>mmap\<close> syscall returns a block that lies inside the (possibly
  grown) linear memory, overlaps no live block and is zeroed; every other byte of
  the old memory is unchanged, and allocator and memory stay consistent with the new
  block live.  Growing appends zeroed pages or fails, and the memory is below 4 GiB after the call: at exactly
  4 GiB the high-water mark wraps.
\<close>

theorem sys_mmap_correct:
  assumes "mm_inv k live" "grow_spec G" "k_memory k = Some (Owned m)"
    and "sys_mmap G k (Args hint len prot flags fd off) = (ret, k')" "0 \<le> ret" "mem_size k' < 2 ^ 32"
  shows "\<exists>m' leaked. k_memory k' = Some (Owned m') \<and> mm_inv k' ((nat ret, nat len) # leaked @ live) \<and>
    length m \<le> length m' \<and> nat ret + nat len \<le> length m' \<and>
    slice (nat ret) (nat len) m' = replicate (nat len) 0 \<and>
    (\<forall>x. in_block (nat ret, nat len) x \<longrightarrow> occ live x = 0) \<and>
    (\<forall>x < length m. \<not> in_block (nat ret, nat len) x \<longrightarrow> m' ! x = m ! x)"
proof -
  from sys_mmap_success [OF assms(4,5)] obtain k2 addr mm2 where
    st: "first_step G k (nat len) (as_i32 prot) (as_i32 flags) fd off k2"
    and mm: "mm_mmap (k_mm k2) (mem_size k2) (nat len) (as_i32 prot) (as_i32 flags) fd off = (MmapOk addr, mm2)"
    and r: "ret = uint addr" "k' = zero_fill (k2\<lparr>k_mm := mm2\<rparr>) (unat addr) (nat len)" by blast
  have ret: "nat ret = unat addr" by (simp add: r(1))
  have small: "mem_size k2 < 2 ^ 32" using assms(6) by (simp add: r(2) zero_fill_size) (simp add: mem_size_def)
  from first_step_inv [OF assms(1,2) st assms(3) small] obtain leaked n where
    inv2: "mm_inv k2 (leaked @ live)" and m2: "k_memory k2 = Some (Owned (m @ replicate n 0))" by blast
  note p = mm_inv_mmap [OF inv2 mm]
  from p(2) m2 have b: "unat addr + nat len \<le> length (m @ replicate n 0)" by simp
  define m' where "m' = splice (unat addr) (replicate (nat len) 0) (m @ replicate n 0)"
  have km: "k_memory k' = Some (Owned m')"
    using zero_fill_memory [of "k2\<lparr>k_mm := mm2\<rparr>"] m2 b by (simp add: r(2) m'_def)
  have inv': "mm_inv k' ((unat addr, nat len) # leaked @ live)"
    using p(1) zero_fill_inv [of "k2\<lparr>k_mm := mm2\<rparr>"] m2 by (simp add: r(2))
  have disj: "occ live x = 0" if "in_block (unat addr, nat len) x" for x
    using p(3) [OF that] by (simp add: occ_append)
  have frame: "m' ! x = m ! x" if "x < length m" "\<not> in_block (unat addr, nat len) x" for x
    using that b unfolding m'_def by (subst nth_splice) (auto simp: nth_append)
  have "length m' = length (m @ replicate n 0)" "slice (unat addr) (nat len) m' = replicate (nat len) 0"
    using b by (simp_all add: m'_def)
  then show ?thesis unfolding ret using km inv' disj frame b by (intro exI conjI) auto
qed

text \<open>A kernel with 1 MiB of zeroed linear memory and nothing mapped, and a memory that grows up to 2 MiB.\<close>

definition demo_kernel :: "unit kernel" where
  "demo_kernel =
     (kernel_new_inner [] [] (replicate 32 0) \<lparr>root = [RootDir], cwd = [RootDir]\<rparr> ())
       \<lparr>k_memory := Some (Owned (replicate 0x100000 0))\<rparr>"

definition demo_mem_grow :: "bytes \<Rightarrow> nat \<Rightarrow> bytes option" where
  "demo_mem_grow m n = (if length m + n * PAGE_SIZE \<le> 0x200000 then Some (m @ replicate (n * PAGE_SIZE) 0) else None)"

lemma demo_kernel_mm [simp]: "k_mm demo_kernel = la_new"
  "k_memory demo_kernel = Some (Owned (replicate 0x100000 0))"
  by (simp_all add: demo_kernel_def kernel_new_inner_def with_buffered_stdio_def make_pipe_def Let_def)

lemma demo_kernel_inv: "mm_inv demo_kernel []"
  by (simp add: mm_inv_def la_new_ok) (simp add: la_new_def)

lemma demo_grow_spec: "grow_spec demo_mem_grow"
  by (simp add: grow_spec_def demo_mem_grow_def)

text \<open>A first \<open>mmap\<close> of 100 bytes: the first decision asks for four pages, the second places the block.\<close>

lemma demo_mmap_first: "mm_mmap la_new 0x100000 100 3 0x22 (- 1) 0 = (NeedGrow 4, la_new)"
  by (simp add: mm_mmap_def la_new_def FIRST_ARENA_BASE_def ARENA_SIZE_def MAP_ANONYMOUS_def
      MAP_PRIVATE_def div_ceil_def PAGE_SIZE_def Let_def)

lemma demo_mmap_second:
  "mm_mmap la_new 0x140000 100 3 0x22 (- 1) 0 =
     (MmapOk 0x100000, \<lparr>arenas = [\<lparr>a_base = 0x100000, a_used = 100, free_list = []\<rparr>], high_water = 0x140000\<rparr>)"
  by (simp add: mm_mmap_def la_new_def FIRST_ARENA_BASE_def ARENA_SIZE_def MAP_ANONYMOUS_def
      MAP_PRIVATE_def arena_alloc_def arena_new_def align_up_def Let_def)

lemma demo_mmap:
  "\<exists>k'. sys_mmap demo_mem_grow demo_kernel (Args 0 100 3 0x22 (- 1) 0) = (0x100000, k') \<and> mem_size k' = 0x140000"
  by (simp add: usize_try_from_def as_i32_def kernel_memory_def demo_mmap_first demo_mmap_second demo_mem_grow_def PAGE_SIZE_def
      zero_fill_size Let_def)

theorem sys_mmap_correct_witness:
  "\<exists>k' m'. sys_mmap demo_mem_grow demo_kernel (Args 0 100 3 0x22 (- 1) 0) = (0x100000, k') \<and> mem_size k' = 0x140000 \<and>
    k_memory k' = Some (Owned m') \<and> slice 0x100000 100 m' = replicate 100 0"
proof -
  obtain k' where k': "sys_mmap demo_mem_grow demo_kernel (Args 0 100 3 0x22 (- 1) 0) = (0x100000, k')" "mem_size k' = 0x140000"
    using demo_mmap by blast
  from sys_mmap_correct [OF demo_kernel_inv demo_grow_spec demo_kernel_mm(2) k'(1)] k'(2)
  obtain m' where "k_memory k' = Some (Owned m')" "slice 0x100000 100 m' = replicate 100 0" by auto
  with k' show ?thesis by blast
qed

text \<open>
  When the first placement decision already succeeds, the handler takes a second
  block for the same request: both blocks become live in the allocator, only the
  second address is returned, and no later \<open>munmap\<close> of it frees the first.
\<close>

lemma sys_mmap_takes_two:
  assumes "mm_inv k live"
    and "mm_mmap (k_mm k) (mem_size k) (nat len) (as_i32 prot) (as_i32 flags) fd off = (MmapOk a, mm1)"
    and "sys_mmap G k (Args hint len prot flags fd off) = (ret, k')" "0 \<le> ret"
  shows "nat ret \<noteq> unat a \<and> mm_inv k' ((nat ret, nat len) # (unat a, nat len) # live)"
proof -
  from sys_mmap_success [OF assms(3,4)] obtain k2 addr mm2 where
    st: "first_step G k (nat len) (as_i32 prot) (as_i32 flags) fd off k2"
    and mm: "mm_mmap (k_mm k2) (mem_size k2) (nat len) (as_i32 prot) (as_i32 flags) fd off = (MmapOk addr, mm2)"
    and r: "ret = uint addr" "k' = zero_fill (k2\<lparr>k_mm := mm2\<rparr>) (unat addr) (nat len)" by blast
  have ret: "nat ret = unat addr" by (simp add: r(1))
  have k2: "k2 = k\<lparr>k_mm := mm1\<rparr>" using st assms(2) by (simp add: first_step_def)
  have inv2: "mm_inv k2 ((unat a, nat len) # live)" using mm_inv_mmap(1) [OF assms(1,2)] by (simp add: k2)
  note p = mm_inv_mmap [OF inv2 mm]
  have "0 < nat len" using assms(2) by (auto simp: mm_mmap_def split: if_splits)
  then have "unat addr \<noteq> unat a" using p(3) [of "unat addr"] by auto
  moreover have "mm_inv k' ((unat addr, nat len) # (unat a, nat len) # live)"
    using p(1) p(2) zero_fill_inv [of "k2\<lparr>k_mm := mm2\<rparr>"] by (auto simp: r(2))
  ultimately show ?thesis by (simp add: ret)
qed

text \<open>
  \<open>mremap\<close> of a live block that succeeds returns the block's own address, and the
  allocator stays consistent with the block at its new length when it grew.
\<close>

lemma sys_mremap_in_place:
  assumes "mm_inv k live" "(nat old, nat old_len) \<in> set live" "nat old_len < nat new_len"
    and "sys_mremap k (Args old old_len new_len flags new_addr x) = (ret, k')" "0 \<le> ret"
  shows "ret = old \<and> mm_inv k' ((nat old, nat new_len) # remove1 (nat old, nat old_len) live) \<and>
    k_memory k' = k_memory k"
proof -
  obtain p mm' where p: "u32_try_from old = Some p"
    and g: "grow_in_place (k_mm k) p (nat old_len) (nat new_len) = (Inr (word_of_int ret), mm')"
    and k': "k' = k\<lparr>k_mm := mm'\<rparr>" and ret: "ret = uint (word_of_int ret :: u32)"
    using assms(3,4,5)
    by (auto simp: errno_defs usize_try_from_def grow_in_place_def split: option.splits if_splits prod.splits sum.splits)
  have old: "old = uint p" using u32_try_from_uint_inv [OF p] by simp
  then have old_nat: "nat old = unat p" by simp
  from assms(1) have ok: "la_ok (k_mm k) live" by (simp add: mm_inv_def)
  from grow_in_place_ok [OF ok _ assms(3) g] assms(2) old_nat
  have "word_of_int ret = p" "la_ok mm' ((nat old, nat new_len) # remove1 (nat old, nat old_len) live)" by simp_all
  with assms(1) ret old g show ?thesis
    by (auto simp: mm_inv_def k' grow_in_place_def split: if_splits option.splits)
qed

end
