(* ===== verification/Evolution.thy ===== *)
theory Evolution
  imports Sys_Path Sys_Fd Sys_Memory
begin

text \<open>
  How a kernel may change in a syscall: the relation \<open>evolved\<close> (heap extension).  The root of the \<open>Vfs\<close> moves only downwards
  and the working directory stays below it, open files keep their paths and new ones lie below the root, the shared
  objects only grow in number, every resource in the descriptor table was there before or refers to an object that exists,
  and the thread, the process, the counter of ids and, except for children that are reaped, the children stay what they were.
  One lemma per handler shows that it evolves the kernel; invariants (confinement to a directory, validity of the
  resources) need only be closed under \<open>evolved\<close>.
\<close>

section \<open>The relation\<close>

definition kernel_ids :: "'h kernel \<Rightarrow> int \<times> int \<times> int" where
  "kernel_ids k = (k_tid k, k_tgid k, ps_next_pid (k_process k))"

definition child_pids :: "'h kernel \<Rightarrow> int set" where
  "child_pids k = fst ` set (ps_children (k_process k))"

definition evolved :: "'h kernel \<Rightarrow> 'h kernel \<Rightarrow> bool" where
  "evolved k0 k \<longleftrightarrow>
     prefix (root (k_vfs k0)) (root (k_vfs k)) \<and>
     (k_vfs k = k_vfs k0 \<or> prefix (root (k_vfs k)) (cwd (k_vfs k))) \<and>
     (\<exists>ps. map fp_path (k_files k) = map fp_path (k_files k0) @ map Some ps \<and> (\<forall>p \<in> set ps. prefix (root (k_vfs k0)) p)) \<and>
     length (k_pipes k0) \<le> length (k_pipes k) \<and> length (k_sockets k0) \<le> length (k_sockets k) \<and>
     (\<forall>fd r. table (k_fds k) fd = Some r \<longrightarrow> resource_ok k r \<or> r \<in> ran (table (k_fds k0))) \<and>
     kernel_ids k = kernel_ids k0 \<and> child_pids k \<subseteq> child_pids k0"

lemma evolved_refl: "evolved k k"
  by (auto simp: evolved_def ran_def)

text \<open>Only these fields matter.\<close>

lemma resource_ok_cong:
  "length (k_pipes k') = length (k_pipes k) \<Longrightarrow> length (k_files k') = length (k_files k) \<Longrightarrow>
    length (k_sockets k') = length (k_sockets k) \<Longrightarrow> resource_ok k' r = resource_ok k r"
  by (cases r) simp_all

lemma resource_ok_mono:
  "length (k_pipes k) \<le> length (k_pipes k') \<Longrightarrow> length (k_files k) \<le> length (k_files k') \<Longrightarrow>
    length (k_sockets k) \<le> length (k_sockets k') \<Longrightarrow> resource_ok k r \<Longrightarrow> resource_ok k' r"
  by (cases r) simp_all

lemma resource_ok_updates [simp]:
  "resource_ok (k\<lparr>k_fds := t\<rparr>) r = resource_ok k r" "resource_ok (k\<lparr>k_vfs := v\<rparr>) r = resource_ok k r"
  by (rule resource_ok_cong; simp)+

lemma evolved_frame:
  assumes "k_vfs k' = k_vfs k" "k_fds k' = k_fds k" "map fp_path (k_files k') = map fp_path (k_files k)"
    "length (k_pipes k') = length (k_pipes k)" "length (k_sockets k') = length (k_sockets k)"
    "kernel_ids k' = kernel_ids k" "child_pids k' = child_pids k"
  shows "evolved k0 k' = evolved k0 k"
proof -
  have "resource_ok k' = resource_ok k"
    using assms(4,5) map_eq_imp_length_eq [OF assms(3)] by (intro ext resource_ok_cong)
  with assms show ?thesis by (simp add: evolved_def)
qed

lemma evolved_updates [simp]:
  "evolved k0 (k\<lparr>k_host := h\<rparr>) = evolved k0 k" "evolved k0 (k\<lparr>k_memory := m\<rparr>) = evolved k0 k"
  "evolved k0 (k\<lparr>k_mm := mm\<rparr>) = evolved k0 k" "evolved k0 (k\<lparr>k_signals := sg\<rparr>) = evolved k0 k"
  "evolved k0 (k\<lparr>k_exit_code := ec\<rparr>) = evolved k0 k" "evolved k0 (k\<lparr>k_comm := cm\<rparr>) = evolved k0 k"
  "evolved k0 (k_write k b bs) = evolved k0 k"
  "evolved k0 (set_pipe k p q) = evolved k0 k" "evolved k0 (set_socket k s i) = evolved k0 k"
  by (rule evolved_frame; simp add: k_update_defs kernel_ids_def child_pids_def)+

lemma evolved_process_update [simp]:
  "ps_next_pid pst = ps_next_pid (k_process k) \<Longrightarrow> fst ` set (ps_children pst) = fst ` set (ps_children (k_process k)) \<Longrightarrow>
    evolved k0 (k\<lparr>k_process := pst\<rparr>) = evolved k0 k"
  by (rule evolved_frame) (simp_all add: kernel_ids_def child_pids_def)

lemma evolved_fewer_children:
  assumes "evolved k0 k" "ps_next_pid pst = ps_next_pid (k_process k)"
    "fst ` set (ps_children pst) \<subseteq> fst ` set (ps_children (k_process k))"
  shows "evolved k0 (k\<lparr>k_process := pst\<rparr>)"
proof -
  have "resource_ok (k\<lparr>k_process := pst\<rparr>) = resource_ok k" by (intro ext resource_ok_cong) simp_all
  with assms(1,2) subset_trans [OF assms(3)] show ?thesis by (simp add: evolved_def kernel_ids_def child_pids_def)
qed

lemma evolved_set_file:
  assumes "evolved k0 k" "fp_path fp = fp_path (k_files k ! r)"
  shows "evolved k0 (set_file k r fp)"
proof -
  have "map fp_path ((k_files k)[r := fp]) = map fp_path (k_files k)"
    using assms(2) by (cases "r < length (k_files k)") (simp_all add: map_update list_update_same_conv list_update_beyond)
  then have "evolved k0 (set_file k r fp) = evolved k0 k"
    by (intro evolved_frame) (simp_all add: set_file_def kernel_ids_def child_pids_def)
  with assms(1) show ?thesis by simp
qed

lemma evolved_trans:
  assumes "evolved k0 k1" "evolved k1 k2"
  shows "evolved k0 k2"
proof -
  obtain ps qs where
    p: "map fp_path (k_files k1) = map fp_path (k_files k0) @ map Some ps" "\<forall>p \<in> set ps. prefix (root (k_vfs k0)) p" and
    q: "map fp_path (k_files k2) = map fp_path (k_files k1) @ map Some qs" "\<forall>p \<in> set qs. prefix (root (k_vfs k1)) p"
    using assms unfolding evolved_def by blast
  have "map fp_path (k_files k2) = map fp_path (k_files k0) @ map Some (ps @ qs)" using p(1) q(1) by simp
  moreover have "\<forall>p \<in> set (ps @ qs). prefix (root (k_vfs k0)) p"
    using p(2) q(2) assms(1) by (auto simp: evolved_def intro: prefix_order.trans)
  ultimately have files: "\<exists>ps. map fp_path (k_files k2) = map fp_path (k_files k0) @ map Some ps \<and>
      (\<forall>p \<in> set ps. prefix (root (k_vfs k0)) p)" by blast
  have "length (k_files k1) \<le> length (k_files k2)"
    using arg_cong [OF q(1), of length] by simp
  then have ok: "resource_ok k1 r \<Longrightarrow> resource_ok k2 r" for r
    using assms(2) by (auto simp: evolved_def elim!: resource_ok_mono [rotated 3])
  have tab: "resource_ok k2 r \<or> r \<in> ran (table (k_fds k0))" if "table (k_fds k2) fd = Some r" for fd r
  proof -
    from that assms(2) have "resource_ok k2 r \<or> (\<exists>fd. table (k_fds k1) fd = Some r)" by (auto simp: evolved_def ran_def)
    with assms(1) ok show ?thesis by (auto simp: evolved_def)
  qed
  have v: "prefix (root (k_vfs k0)) (root (k_vfs k2))" "k_vfs k2 = k_vfs k0 \<or> prefix (root (k_vfs k2)) (cwd (k_vfs k2))"
    using assms by (auto simp: evolved_def intro: prefix_order.trans)
  from assms have "length (k_pipes k0) \<le> length (k_pipes k2)" "length (k_sockets k0) \<le> length (k_sockets k2)"
    "kernel_ids k2 = kernel_ids k0" "child_pids k2 \<subseteq> child_pids k0"
    by (auto simp: evolved_def)
  with v files tab show ?thesis by (auto simp: evolved_def)
qed

text \<open>
  What \<open>fork\<close> and \<open>clone\<close> do before they evolve the kernel: one id is taken from the counter, which wraps at 32 bits, and
  one child is registered under it.
\<close>

definition spawns :: "'h kernel \<Rightarrow> 'h kernel \<Rightarrow> bool" where
  "spawns k k' \<longleftrightarrow>
     (\<exists>pst. evolved (k\<lparr>k_process := pst\<rparr>) k' \<and>
        ps_next_pid pst \<in> {ps_next_pid (k_process k), as_i32 (ps_next_pid (k_process k) + 1)} \<and>
        fst ` set (ps_children pst) \<subseteq> insert (ps_next_pid (k_process k)) (child_pids k))"

lemma evolved_spawns: "evolved k k' \<Longrightarrow> spawns k k'"
  unfolding spawns_def by (rule exI [of _ "k_process k"]) (auto simp: child_pids_def)

text \<open>The same for any number of times, whatever becomes of the ids.\<close>

definition grown :: "'h kernel \<Rightarrow> 'h kernel \<Rightarrow> bool" where
  "grown k0 k \<longleftrightarrow> (\<exists>pst. evolved (k0\<lparr>k_process := pst\<rparr>) k)"

lemma evolved_grown: "evolved k0 k \<Longrightarrow> grown k0 k"
  unfolding grown_def by (rule exI [of _ "k_process k0"]) simp

lemma spawns_grown: "spawns k k' \<Longrightarrow> grown k k'"
  by (auto simp: spawns_def grown_def)

lemma evolved_same_process:
  assumes "evolved k0 k"
  shows "evolved (k0\<lparr>k_process := pst\<rparr>) (k\<lparr>k_process := pst\<rparr>)"
proof -
  have "resource_ok (k\<lparr>k_process := pst\<rparr>) = resource_ok k" by (intro ext resource_ok_cong) simp_all
  with assms show ?thesis by (simp add: evolved_def kernel_ids_def child_pids_def)
qed

lemma grown_trans: "grown k0 k1 \<Longrightarrow> grown k1 k2 \<Longrightarrow> grown k0 k2"
  unfolding grown_def using evolved_same_process [of "k0\<lparr>k_process := _\<rparr>" k1] by (auto intro: evolved_trans)

text \<open>Resources that may enter the table.\<close>

definition known :: "'h kernel \<Rightarrow> resource \<Rightarrow> bool" where
  "known k x \<longleftrightarrow> resource_ok k x \<or> x \<in> ran (table (k_fds k))"

lemma known_simps [simp]: "known k (REventFd e)" "known k (REpoll ep)"
  by (simp_all add: known_def)

lemma known_table: "table (k_fds k) fd = Some x \<Longrightarrow> known k x"
  by (auto simp: known_def ran_def)

lemma evolved_fds:
  assumes "evolved k0 k" "\<And>fd x. table t fd = Some x \<Longrightarrow> known k x"
  shows "evolved k0 (k\<lparr>k_fds := t\<rparr>)"
proof -
  have "resource_ok k x \<or> x \<in> ran (table (k_fds k0))" if "table t fd = Some x" for fd x
    using assms(2) [OF that] assms(1) by (auto simp: known_def evolved_def ran_def)
  with assms(1) show ?thesis by (simp add: evolved_def kernel_ids_def child_pids_def)
qed

lemma evolved_table_upd:
  assumes "evolved k0 k" "known k x" "table t = (table u)(fd \<mapsto> x)" "\<And>fd y. table u fd = Some y \<Longrightarrow> known k y"
  shows "evolved k0 (k\<lparr>k_fds := t\<rparr>)"
  using assms(2-4) by (intro evolved_fds [OF assms(1)]) (auto split: if_splits)

text \<open>New objects.\<close>

lemma evolved_grow:
  assumes "evolved k0 k" "k_vfs k' = k_vfs k" "k_fds k' = k_fds k"
    "map fp_path (k_files k') = map fp_path (k_files k) @ map Some ps" "\<forall>p \<in> set ps. prefix (root (k_vfs k)) p"
    "length (k_pipes k) \<le> length (k_pipes k')" "length (k_sockets k) \<le> length (k_sockets k')"
    "kernel_ids k' = kernel_ids k" "child_pids k' \<subseteq> child_pids k"
  shows "evolved k0 k'"
proof (rule evolved_trans [OF assms(1)])
  show "evolved k k'" using assms(2-) by (auto simp: evolved_def ran_def)
qed

lemma evolved_make_pipe: "make_pipe k = (p, k1) \<Longrightarrow> evolved k0 k \<Longrightarrow> evolved k0 k1 \<and> p < length (k_pipes k1)"
  by (auto simp: make_pipe_def kernel_ids_def child_pids_def elim: evolved_grow [where ps = "[]"])

lemma evolved_root: "evolved k0 k \<Longrightarrow> prefix (root (k_vfs k)) p \<Longrightarrow> prefix (root (k_vfs k0)) p"
  by (auto simp: evolved_def intro: prefix_order.trans)

lemma evolved_resolve: "evolved k0 k \<Longrightarrow> sys_resolve k d s = Inr p \<Longrightarrow> prefix (root (k_vfs k0)) p"
  by (rule evolved_root [OF _ sys_resolve_confined])

section \<open>Combinators\<close>

lemma evolved_try_ret:
  "evolved k0 k \<Longrightarrow> (\<And>x. r = Inr x \<Longrightarrow> evolved k0 (snd (f x))) \<Longrightarrow> evolved k0 (snd (try_ret r k f))"
  by (rule try_ret_inv)

lemma evolved_str_arg:
  "evolved k0 k \<Longrightarrow> (\<And>s. evolved k0 (snd (f s))) \<Longrightarrow> evolved k0 (snd (str_arg k ptr f))"
  unfolding str_arg_def by (rule evolved_try_ret)

lemma evolved_path_arg:
  assumes "evolved k0 k" "\<And>p. prefix (root (k_vfs k0)) p \<Longrightarrow> prefix (root (k_vfs k)) p \<Longrightarrow> evolved k0 (snd (f p))"
  shows "evolved k0 (snd (path_arg k d ptr f))"
  unfolding path_arg_def
proof (rule evolved_str_arg [OF assms(1)])
  fix s
  have "evolved k0 (snd (try_ret (sys_resolve k d s) k f))"
    by (rule evolved_try_ret [OF assms(1)])
      (rule assms(2), (rule evolved_resolve [OF assms(1)] sys_resolve_confined, assumption)+)
  with assms(1) show "evolved k0 (snd (if s = [] then (- ENOENT, k) else try_ret (sys_resolve k d s) k f))"
    by simp
qed

lemma evolved_two_path_args:
  assumes "evolved k0 k" "\<And>p q. evolved k0 (snd (f p q))"
  shows "evolved k0 (snd (two_path_args k d ptr d' ptr' f))"
  unfolding two_path_args_def using assms
  by (auto intro!: evolved_str_arg evolved_try_ret split: if_split)

lemma evolved_host_ret [simp]: "evolved k0 (snd (host_ret k r)) = evolved k0 k"
  using host_ret_snd [of k r] by auto

section \<open>Descriptor I/O\<close>

lemma evolved_read_finish: "evolved k0 k \<Longrightarrow> evolved k0 (snd (read_finish k ptr n bs e))"
  by (auto simp: read_finish_def intro!: evolved_try_ret split: if_split)

lemma evolved_fd_put: "evolved k0 k \<Longrightarrow> known k x \<Longrightarrow> evolved k0 (k\<lparr>k_fds := fd_put (k_fds k) fd x\<rparr>)"
  by (rule evolved_fds) (auto simp: fd_put_def known_table split: if_splits)

lemma evolved_read:
  assumes C: "evolved k0 k" and R: "\<And>k a. evolved k0 k \<Longrightarrow> evolved k0 (snd (rf k a))"
  shows "evolved k0 (snd (sys_read H rf k a))"
proof -
  have "evolved k0 (snd (read_pipe k p ptr n))" for p ptr n
    using C by (auto simp: read_pipe_def pipe_pull_def Let_def intro!: evolved_read_finish)
  moreover have "evolved k0 (snd (read_file H k r ptr n))" for r ptr n
    using C by (auto simp: read_file_def Let_def intro!: evolved_read_finish evolved_set_file split: prod.split option.split)
  moreover have "evolved k0 (snd (read_eventfd k fd e ptr n))" for fd e ptr n
    using C by (auto simp: read_eventfd_def Let_def intro!: evolved_try_ret evolved_fd_put split: prod.split)
  ultimately show ?thesis
    using C by (cases a) (auto intro!: evolved_try_ret R split: option.split resource.split)
qed

lemma evolved_write:
  assumes C: "evolved k0 k" and S: "\<And>k a. evolved k0 k \<Longrightarrow> evolved k0 (snd (st k a))"
  shows "evolved k0 (snd (sys_write H st k a))"
proof -
  have "evolved k0 (snd (write_pipe k p bs))" for p bs
    using C by (simp add: write_pipe_def)
  moreover have "evolved k0 (snd (write_file H k r bs))" for r bs
    using C by (auto simp: write_file_def Let_def intro!: evolved_set_file split: prod.split sum.split)
  moreover have "evolved k0 (snd (write_eventfd k fd e bs n))" for fd e bs n
    using C by (auto simp: write_eventfd_def Let_def intro!: evolved_try_ret evolved_fd_put split: prod.split)
  ultimately show ?thesis
    using C by (cases a) (auto intro!: evolved_try_ret S split: option.split resource.split)
qed

lemma evolved_iov_loop:
  "evolved k0 k \<Longrightarrow> (\<And>k a. evolved k0 k \<Longrightarrow> evolved k0 (snd (f k a))) \<Longrightarrow>
    evolved k0 (snd (iov_loop f fd es acc k))"
proof (induction f fd es acc k rule: iov_loop.induct)
  case (2 f fd base len es acc k)
  obtain r k' where c: "f k (Args fd base len 0 0 0) = (r, k')" by fastforce
  then have "evolved k0 k'" using "2.prems"(2) [OF "2.prems"(1), of "Args fd base len 0 0 0"] by simp
  with "2.IH" "2.prems" c show ?case by auto
qed simp

lemma evolved_iov_call:
  assumes "evolved k0 k" "\<And>k a. evolved k0 k \<Longrightarrow> evolved k0 (snd (f k a))"
  shows "evolved k0 (snd (iov_call f k fd ptr n))"
  using assms
  by (auto simp: iov_call_def intro!: evolved_try_ret evolved_iov_loop split: option.split if_split)

lemma evolved_write_stat: "evolved k0 (snd (write_stat k s ptr)) = evolved k0 k"
  by (auto simp: write_stat_def split: prod.split sum.split)

lemma evolved_clone_handle: "evolved k0 (snd (clone_handle H k fd)) = evolved k0 k"
  by (auto simp: clone_handle_def split: prod.split sum.split resource.split)

lemma evolved_lseek: "evolved k0 k \<Longrightarrow> evolved k0 (snd (sys_lseek H k a))"
  by (cases a)
    (auto simp: Let_def intro!: evolved_try_ret evolved_set_file split: option.split resource.split prod.split sum.split if_split)

lemma evolved_fstat: "evolved k0 k \<Longrightarrow> evolved k0 (snd (sys_fstat H k a))"
  by (cases a) (auto simp: evolved_write_stat intro!: evolved_try_ret split: option.split)

lemma evolved_getdents64: "evolved k0 k \<Longrightarrow> evolved k0 (snd (sys_getdents64 H k a))"
  by (cases a)
    (auto simp: Let_def intro!: evolved_try_ret evolved_set_file split: option.split resource.split if_split)

lemma evolved_getcwd: "evolved k0 k \<Longrightarrow> evolved k0 (snd (sys_getcwd k a))"
  by (cases a) (auto simp: Let_def intro!: evolved_try_ret split: option.split if_split)

lemma evolved_ftruncate: "evolved k0 k \<Longrightarrow> evolved k0 (snd (sys_ftruncate H k a))"
  by (cases a)
    (auto simp: Let_def intro!: evolved_try_ret split: option.split prod.split,
      (metis evolved_clone_handle snd_conv)+)

lemma evolved_fchmod: "evolved k0 k \<Longrightarrow> evolved k0 (snd (sys_fchmod H k a))"
  by (cases a)
    (auto simp: Let_def intro!: evolved_try_ret split: sum.split prod.split,
      (metis evolved_clone_handle snd_conv)+)

section \<open>The descriptor table\<close>

lemma evolved_close: "evolved k0 k \<Longrightarrow> evolved k0 (snd (sys_close k a))"
  by (cases a)
    (auto simp: fd_close_def known_table intro!: evolved_fds split: option.split if_splits)

lemma evolved_eventfd2: "evolved k0 k \<Longrightarrow> evolved k0 (snd (sys_eventfd2 k a))"
  by (cases a) (auto simp: fd_insert_def Let_def known_table intro!: evolved_table_upd [where u = "k_fds k"])

lemma evolved_pipe2: "evolved k0 k \<Longrightarrow> evolved k0 (snd (sys_pipe2 k a))"
proof (cases a)
  case (Args ptr fl c d e f)
  assume C: "evolved k0 k"
  obtain p k1 where m: "make_pipe k = (p, k1)" by fastforce
  define k2 where "k2 = (if as_i32 fl AND O_NONBLOCK \<noteq> 0 then set_pipe k1 p ((k_pipes k1 ! p)\<lparr>p_nonblock := True\<rparr>) else k1)"
  have k2: "evolved k0 k2" "known k2 (RPipeRead p)" "known k2 (RPipeWrite p)"
    using evolved_make_pipe [OF m C] by (simp_all add: k2_def known_def set_pipe_def [THEN arg_cong [of _ _ k_pipes]])
  have "evolved k0 (k2\<lparr>k_fds := snd (fd_insert (snd (fd_insert (k_fds k2) (RPipeRead p))) (RPipeWrite p))\<rparr>)"
    using k2 by (intro evolved_fds) (auto simp: fd_insert_def Let_def known_table split: if_splits)
  then show ?thesis
    unfolding Args k2_def by (auto simp: m Let_def case_prod_beta intro!: evolved_try_ret C split: if_splits)
qed

lemma evolved_set_nonblock: "evolved k0 (set_nonblock k r on) = evolved k0 k"
  by (simp add: set_nonblock_def Let_def split: resource.split)

lemma evolved_insert_at_least:
  assumes "evolved k0 k" "fd_insert_at_least (k_fds k) mn x = Some (fd, t)" "known k x"
  shows "evolved k0 (k\<lparr>k_fds := fd_set_cloexec t fd ce\<rparr>)"
  using assms by (intro evolved_table_upd [where u = "k_fds k" and fd = fd])
    (auto simp: fd_insert_at_least_def known_table)

lemma evolved_internal_dup:
  assumes "evolved k0 k" "internal_dup k old target ce = Some (r, k')"
  shows "evolved k0 k'"
proof (cases "res_bind (fd_get (k_fds k) old) clone_resource")
  case (Inl e)
  with assms show ?thesis by (simp add: internal_dup_def)
next
  case (Inr c)
  from known_table [OF dup_source [OF Inr]] have c: "known k c" .
  show ?thesis
  proof (cases target)
    case None
    with assms Inr evolved_insert_at_least [OF assms(1) _ c] show ?thesis by (auto simp: internal_dup_def)
  next
    case (Some tg)
    have "table (snd (fd_close (k_fds k) tg)) fd = Some y \<Longrightarrow> known k y" for fd y
      by (auto simp: fd_close_table known_table split: if_splits)
    then show ?thesis
      using assms Inr Some c
      by (auto simp: internal_dup_def fd_insert_at_def fd_close_table Let_def split: if_splits
          intro!: evolved_table_upd [where u = "snd (fd_close (k_fds k) tg)" and fd = tg and x = c])
  qed
qed

lemma evolved_dup:
  assumes "evolved k0 k"
  shows "sys_dup k a = Some (r, k') \<Longrightarrow> evolved k0 k'" "sys_dup2 k a = Some (r, k') \<Longrightarrow> evolved k0 k'"
    "sys_dup3 k a = Some (r, k') \<Longrightarrow> evolved k0 k'"
  using assms
  by (cases a; auto simp: Let_def split: option.splits if_splits sum.splits intro: evolved_internal_dup)+

lemma evolved_fcntl:
  assumes "evolved k0 k" "sys_fcntl k a = Some (r, k')"
  shows "evolved k0 k'"
proof -
  have dup: "evolved k0 (k\<lparr>k_fds := fd_set_cloexec t fd ce\<rparr>)"
    if "fd_insert_at_least (k_fds k) mn c = Some (fd, t)"
      "res_bind (fd_get (k_fds k) old) clone_resource = Inr c" for mn c fd t old ce
    by (rule evolved_insert_at_least [OF assms(1) that(1) known_table [OF dup_source [OF that(2)]]])
  have cl: "evolved k0 (k\<lparr>k_fds := fd_set_cloexec (k_fds k) fd on\<rparr>)" for fd on
    using assms(1) by (intro evolved_fds) (auto intro: known_table)
  show ?thesis
    using assms
    by (cases a) (auto simp: Let_def evolved_set_nonblock cl intro: dup
        split: option.splits if_splits sum.splits prod.splits)
qed

section \<open>Path syscalls\<close>

lemma evolved_new_file:
  assumes "evolved k0 k" "k_vfs k' = k_vfs k" "k_files k' = k_files k @ [fp]" "fp_path fp = Some p"
    "prefix (root (k_vfs k)) p" "k_pipes k' = k_pipes k" "k_sockets k' = k_sockets k"
    "kernel_ids k' = kernel_ids k" "child_pids k' = child_pids k"
    "table (k_fds k') = (table (k_fds k))(fd \<mapsto> RFile (length (k_files k)))"
  shows "evolved k0 k'"
proof (rule evolved_trans [OF assms(1)])
  have "map fp_path (k_files k') = map fp_path (k_files k) @ map Some [p]" using assms(3,4) by simp
  with assms(5) have "\<exists>ps. map fp_path (k_files k') = map fp_path (k_files k) @ map Some ps \<and> (\<forall>p \<in> set ps. prefix (root (k_vfs k)) p)"
    by (intro exI [of _ "[p]"]) simp
  then show "evolved k k'" using assms(2-) by (auto simp: evolved_def ran_def)
qed

lemma evolved_openat: "evolved k0 k \<Longrightarrow> evolved k0 (snd (sys_openat H k a))"
proof (cases a)
  case (Args d ptr fl mo x y)
  assume C: "evolved k0 k"
  show ?thesis
    unfolding Args sys_openat.simps
  proof (intro evolved_str_arg evolved_try_ret C)
    fix s p
    assume "sys_resolve k d s = Inr p"
    then have "prefix (root (k_vfs k)) p" by (rule sys_resolve_confined)
    then show "evolved k0 (snd (let (o', h1) = vfs_open H p (as_i32 fl) (k_host k); k1 = k\<lparr>k_host := h1\<rparr>
        in try_ret o' k1 (\<lambda>file.
              let isd = (case h_metadata H p h1 of Inr m \<Rightarrow> is_dir m | Inl _ \<Rightarrow> False);
                  fp = (with_path file p)\<lparr>fp_is_dir := isd\<rparr>;
                  (fd, t) = fd_insert (k_fds k1) (RFile (length (k_files k1)))
              in (uint fd, k1\<lparr>k_files := k_files k1 @ [fp], k_fds := t\<rparr>))))"
      using C
      by (auto simp: Let_def split_beta with_path_def fd_insert_def kernel_ids_def child_pids_def intro!: evolved_try_ret
          intro: evolved_new_file [OF C, where p = p])
  qed
qed

lemma evolved_newfstatat: "evolved k0 k \<Longrightarrow> evolved k0 (snd (sys_newfstatat H k a))"
  by (cases a) (auto simp: evolved_write_stat simp del: sys_fstat.simps
      intro!: evolved_str_arg evolved_try_ret evolved_fstat)

lemma evolved_statx: "evolved k0 k \<Longrightarrow> evolved k0 (snd (sys_statx H k a))"
  by (cases a) (auto simp: Let_def intro!: evolved_str_arg evolved_try_ret)

lemma evolved_chdir: "evolved k0 k \<Longrightarrow> evolved k0 (snd (sys_chdir H k a))"
proof (cases a)
  case (Args ptr _ _ _ _ _)
  assume "evolved k0 k"
  then show ?thesis unfolding Args sys_chdir.simps
    by (intro evolved_path_arg)
      (auto simp: vfs_ret_def vfs_chdir_def evolved_def kernel_ids_def child_pids_def split: sum.split if_split)
qed

lemma evolved_chroot: "evolved k0 k \<Longrightarrow> evolved k0 (snd (sys_chroot H k a))"
proof (cases a)
  case (Args ptr _ _ _ _ _)
  assume "evolved k0 k"
  then show ?thesis unfolding Args sys_chroot.simps
    by (intro evolved_path_arg)
      (auto simp: vfs_ret_def vfs_chroot_def evolved_def kernel_ids_def child_pids_def split: sum.split if_split)
qed

lemma evolved_path_calls:
  assumes "evolved k0 k"
  shows "evolved k0 (snd (sys_mkdir H k a))" "evolved k0 (snd (sys_mkdirat H k a))"
    "evolved k0 (snd (sys_rmdir H k a))" "evolved k0 (snd (sys_unlink H k a))"
    "evolved k0 (snd (sys_unlinkat H k a))" "evolved k0 (snd (sys_renameat H k a))"
    "evolved k0 (snd (sys_readlinkat H k a))" "evolved k0 (snd (sys_symlinkat H k a))"
    "evolved k0 (snd (sys_linkat H k a))" "evolved k0 (snd (sys_fchmodat H k a))"
    "evolved k0 (snd (sys_faccessat2 H k a))" "evolved k0 (snd (sys_truncate H k a))"
  using assms
  by (cases a; auto simp: Let_def split: option.split sum.split prod.split if_split
      intro!: evolved_path_arg evolved_two_path_args evolved_str_arg evolved_try_ret)+

lemma evolved_utimensat:
  assumes "evolved k0 k" "sys_utimensat H k a = Some (r, k')"
  shows "evolved k0 k'"
proof -
  have t: "evolved k0 k1" if "utimens_times H k ptr = (x, k1)" for ptr x k1
    using that assms(1) by (auto simp: utimens_times_def Let_def split: if_splits sum.splits prod.splits)
  have hr: "evolved k0 k2" if "host_ret k1 y = (r, k2)" "evolved k0 k1" for k1 k2 y
    using that evolved_host_ret [of k0 k1 y] by simp
  show ?thesis
    using assms
    by (cases a) (auto split: sum.splits if_splits prod.splits option.splits intro: hr t dest: t)
qed

end
