(* ===== verification/Sys_Epoll.thy ===== *)
theory Sys_Epoll
  imports Sys_Process
begin

text \<open>
  \<^verbatim>\<open>src/src/sys/epoll.rs\<close>: epoll instances, registration, readiness and waiting.  An \<open>epoll_wait\<close> that has
  to sleep returns \<open>Park\<close>; \<open>epoll_resume\<close> is the code after the sleep.  The wake-up primitives of the
  entries are not part of the state; \<open>wait_any_done\<close> says for which notifications the wait on them ends.
\<close>

section \<open>Constants\<close>

definition EPOLL_CTL_ADD :: int where "EPOLL_CTL_ADD = 1"
definition EPOLL_CTL_DEL :: int where "EPOLL_CTL_DEL = 2"
definition EPOLL_CTL_MOD :: int where "EPOLL_CTL_MOD = 3"
definition EPOLLIN :: u32 where "EPOLLIN = 0x001"
definition EPOLLOUT :: u32 where "EPOLLOUT = 0x004"
definition EPOLLERR :: u32 where "EPOLLERR = 0x008"
definition EPOLLHUP :: u32 where "EPOLLHUP = 0x010"
definition EPOLL_EVENT_SIZE :: nat where "EPOLL_EVENT_SIZE = 12"

lemmas epoll_consts = EPOLLIN_def EPOLLOUT_def EPOLLERR_def EPOLLHUP_def EPOLL_EVENT_SIZE_def
  EPOLL_CTL_ADD_def EPOLL_CTL_DEL_def EPOLL_CTL_MOD_def

section \<open>Registration\<close>

definition sys_epoll_create1 :: "'h handler" where
  "sys_epoll_create1 k a =
     (let (fd, t) = fd_insert (k_fds k) (REpoll \<lparr>ep_entries = [], ep_self_event_fd = None\<rparr>)
      in (uint fd, k\<lparr>k_fds := t\<rparr>))"

text \<open>\<open>struct epoll_event\<close>: mask and data word.\<close>

definition event_of :: "u32 \<Rightarrow> bytes \<Rightarrow> epoll_entry" where
  "event_of fd event =
     \<lparr>ee_fd = fd, ee_events = word_of_int (le_uint (slice 0 4 event)), ee_data = word_of_int (le_uint (slice 4 8 event))\<rparr>"

definition put_entries :: "'h kernel \<Rightarrow> u32 \<Rightarrow> epoll_inner \<Rightarrow> (u32 \<times> epoll_entry) list \<Rightarrow> 'h kernel" where
  "put_entries k epfd e es = k\<lparr>k_fds := fd_put (k_fds k) epfd (REpoll (e\<lparr>ep_entries := es\<rparr>))\<rparr>"

fun sys_epoll_ctl :: "'h handler" where
  "sys_epoll_ctl k (Args a0 a1 a2 event_ptr _ _) =
     (case u32_try_from a0 of
        None \<Rightarrow> (- EBADF, k)
      | Some epfd \<Rightarrow>
          (case u32_try_from a2 of
             None \<Rightarrow> (- EBADF, k)
           | Some fd \<Rightarrow>
               (case fd_get (k_fds k) epfd of
                  Inl e \<Rightarrow> (e, k)
                | Inr (REpoll e) \<Rightarrow>
                    let op = as_i32 a1; contains_fd = (map_of (ep_entries e) fd \<noteq> None)
                    in if op = EPOLL_CTL_ADD then
                         try_ret (guest_slice (k_memory k) event_ptr (int EPOLL_EVENT_SIZE)) k (\<lambda>event.
                           if contains_fd then (- EEXIST, k)
                           else (0, put_entries k epfd e (AList.update fd (event_of fd event) (ep_entries e))))
                       else if op = EPOLL_CTL_MOD then
                         try_ret (guest_slice (k_memory k) event_ptr (int EPOLL_EVENT_SIZE)) k (\<lambda>event.
                           if \<not> contains_fd then (- ENOENT, k)
                           else (0, put_entries k epfd e (AList.update fd (event_of fd event) (ep_entries e))))
                       else if op = EPOLL_CTL_DEL then
                         (if \<not> contains_fd then (- ENOENT, k)
                          else (0, put_entries k epfd e (AList.delete fd (ep_entries e))))
                       else (- EINVAL, k)
                | Inr _ \<Rightarrow> (- EBADF, k))))"

section \<open>Readiness\<close>

definition want :: "bool \<Rightarrow> u32 \<Rightarrow> u32" where
  "want b bits = (if b then bits else 0)"

fun resource_revents :: "'h kernel \<Rightarrow> resource \<Rightarrow> u32 \<Rightarrow> u32" where
  "resource_revents k (RSocket r) requested =
     (let s = k_sockets k ! r; has_stream = (s_stream s \<noteq> None)
      in want (requested AND EPOLLIN \<noteq> 0) (if has_stream then EPOLLIN else if is_listening s then EPOLLIN else EPOLLERR)
         OR want (requested AND EPOLLOUT \<noteq> 0) (if has_stream then EPOLLOUT else EPOLLERR))"
| "resource_revents k (RPipeRead r) requested =
     want (requested AND EPOLLIN \<noteq> 0 \<and> (p_buf (k_pipes k ! r) \<noteq> [] \<or> p_closed (k_pipes k ! r))) EPOLLIN"
| "resource_revents k (RPipeWrite r) requested = want (requested AND EPOLLOUT \<noteq> 0) EPOLLOUT"
| "resource_revents k (RStdin r) requested =
     want (requested AND EPOLLIN \<noteq> 0 \<and> (p_buf (k_pipes k ! r) \<noteq> [] \<or> p_closed (k_pipes k ! r))) EPOLLIN"
| "resource_revents k (RStdout r) requested = want (requested AND EPOLLOUT \<noteq> 0) EPOLLOUT"
| "resource_revents k (RStderr r) requested = want (requested AND EPOLLOUT \<noteq> 0) EPOLLOUT"
| "resource_revents k (RFile r) requested =
     want (requested AND EPOLLIN \<noteq> 0) EPOLLIN OR want (requested AND EPOLLOUT \<noteq> 0) EPOLLOUT"
| "resource_revents k (REventFd e) requested = want (requested AND EPOLLIN \<noteq> 0) EPOLLIN"
| "resource_revents k (REpoll e) requested = EPOLLERR"

definition compute_revents :: "'h kernel \<Rightarrow> u32 \<Rightarrow> u32 \<Rightarrow> u32" where
  "compute_revents k fd requested =
     (case fd_get (k_fds k) fd of
        Inl _ \<Rightarrow> EPOLLERR OR EPOLLHUP
      | Inr res \<Rightarrow> resource_revents k res requested)"

definition snapshot_readiness :: "'h kernel \<Rightarrow> (u32 \<times> epoll_entry) list \<Rightarrow> (epoll_entry \<times> u32) list" where
  "snapshot_readiness k entries =
     filter (\<lambda>(e, revents). revents \<noteq> 0)
       (map (\<lambda>(_, e). (e, compute_revents k (ee_fd e) (ee_events e))) entries)"

definition event_bytes :: "epoll_entry \<times> u32 \<Rightarrow> bytes" where
  "event_bytes x = le_bytes 4 (uint (snd x)) @ le_bytes 8 (uint (ee_data (fst x)))"

text \<open>The records are stored one after the other from the start of the buffer.\<close>

definition pack_events :: "'h kernel \<Rightarrow> int \<Rightarrow> nat \<Rightarrow> (epoll_entry \<times> u32) list \<Rightarrow> int \<times> 'h kernel" where
  "pack_events k events_ptr maxevents ready =
     (let count = min (length ready) maxevents
      in try_ret (guest_slice_mut (k_memory k) events_ptr (int (count * EPOLL_EVENT_SIZE))) k (\<lambda>(p, _).
           (int count, k_write k p (concat (map event_bytes (take count ready))))))"

section \<open>Waiting\<close>

text \<open>A wait with no registration only sleeps; the others remember the entries, the buffer and the timeout.\<close>

datatype epoll_park = EpSleep int | EpWait "(u32 \<times> epoll_entry) list" int nat int

fun sys_epoll_wait :: "'h kernel \<Rightarrow> args \<Rightarrow> epoll_park outcome \<times> 'h kernel" where
  "sys_epoll_wait k (Args a0 events_ptr a2 timeout_ms _ _) =
     (case u32_try_from a0 of
        None \<Rightarrow> (Ret (- EBADF), k)
      | Some epfd \<Rightarrow>
          (case usize_try_from a2 of
             None \<Rightarrow> (Ret (- EINVAL), k)
           | Some maxevents \<Rightarrow>
               if maxevents = 0 then (Ret (- EINVAL), k)
               else
                 (case guest_slice_mut (k_memory k) events_ptr (wrap_i64 (int (maxevents * EPOLL_EVENT_SIZE))) of
                    Inl e \<Rightarrow> (Ret e, k)
                  | Inr _ \<Rightarrow>
                      (case fd_get (k_fds k) epfd of
                         Inl e \<Rightarrow> (Ret e, k)
                       | Inr (REpoll e) \<Rightarrow>
                           (if ep_entries e = []
                            then (if timeout_ms > 0 then Park (EpSleep timeout_ms) else Ret 0, k)
                            else
                              let immediate = snapshot_readiness k (ep_entries e)
                              in if immediate \<noteq> []
                                 then (case pack_events k events_ptr maxevents immediate of (r, k1) \<Rightarrow> (Ret r, k1))
                                 else (Park (EpWait (ep_entries e) events_ptr maxevents timeout_ms), k))
                       | Inr _ \<Rightarrow> (Ret (- EBADF), k)))))"

fun epoll_resume :: "'h kernel \<Rightarrow> epoll_park \<Rightarrow> int \<times> 'h kernel" where
  "epoll_resume k (EpSleep _) = (0, k)"
| "epoll_resume k (EpWait entries events_ptr maxevents _) =
     pack_events k events_ptr maxevents (snapshot_readiness k entries)"

text \<open>
  \<open>wait_any\<close> over the notifications with numbers in \<open>fired\<close>: up to four race; a larger set is taken four
  at a time, and each group is awaited in turn.
\<close>

function groups_done :: "nat set \<Rightarrow> nat \<Rightarrow> nat \<Rightarrow> bool" where
  "groups_done fired idx len =
     (if idx < len
      then list_ex (\<lambda>i. i \<in> fired) [idx..<idx + min 4 (len - idx)] \<and> groups_done fired (idx + min 4 (len - idx)) len
      else True)"
  by pat_completeness auto
termination
  by (relation "measure (\<lambda>(fired, idx, len). len - idx)") auto

declare groups_done.simps [simp del]

definition wait_any_done :: "nat set \<Rightarrow> nat \<Rightarrow> bool" where
  "wait_any_done fired n =
     (if n = 0 then False
      else if n \<le> 4 then list_ex (\<lambda>i. i \<in> fired) [0..<n]
      else groups_done fired 0 n)"

text \<open>The \<open>struct timespec\<close> timeouts of \<open>epoll_pwait\<close> and \<open>ppoll\<close>, in milliseconds.\<close>

definition timespec_ms :: "memory_kind option \<Rightarrow> int \<Rightarrow> int res" where
  "timespec_ms mem tsp =
     (if tsp = 0 then Inr (- 1)
      else res_bind (guest_slice mem tsp 16) (\<lambda>bs.
        let sec = le_sint64 (slice 0 8 bs); nsec = le_sint64 (slice 8 8 bs)
        in if sec < 0 \<or> nsec < 0 \<or> \<not> (0 \<le> nsec \<and> nsec < 1000000000) then Inl (- EINVAL)
           else Inr (wrap_i64 (i64_saturating_mul sec 1000 + nsec div 1000000))))"

fun sys_epoll_pwait :: "'h kernel \<Rightarrow> args \<Rightarrow> epoll_park outcome \<times> 'h kernel" where
  "sys_epoll_pwait k (Args a0 events_ptr a2 tsp _ _) =
     (case u32_try_from a0 of
        None \<Rightarrow> (Ret (- EBADF), k)
      | Some epfd \<Rightarrow>
          (case usize_try_from a2 of
             None \<Rightarrow> (Ret (- EINVAL), k)
           | Some maxevents \<Rightarrow>
               if maxevents = 0 then (Ret (- EINVAL), k)
               else
                 (case timespec_ms (k_memory k) tsp of
                    Inl e \<Rightarrow> (Ret e, k)
                  | Inr timeout_ms \<Rightarrow>
                      sys_epoll_wait k (Args (uint epfd) events_ptr (int maxevents) timeout_ms 0 0))))"

section \<open>Registration as a map\<close>

text \<open>An epoll set seen as the map from watched descriptors to masks and data words, and \<open>epoll_ctl\<close> on it.\<close>

definition epoll_map :: "epoll_inner \<Rightarrow> u32 \<rightharpoonup> u32 \<times> u64" where
  "epoll_map e fd = map_option (\<lambda>x. (ee_events x, ee_data x)) (map_of (ep_entries e) fd)"

definition ctl_spec :: "int \<Rightarrow> u32 \<Rightarrow> u32 \<times> u64 \<Rightarrow> (u32 \<rightharpoonup> u32 \<times> u64) \<Rightarrow> int \<times> (u32 \<rightharpoonup> u32 \<times> u64)" where
  "ctl_spec op fd ev m =
     (if op = EPOLL_CTL_ADD then (if m fd \<noteq> None then (- EEXIST, m) else (0, m(fd \<mapsto> ev)))
      else if op = EPOLL_CTL_MOD then (if m fd = None then (- ENOENT, m) else (0, m(fd \<mapsto> ev)))
      else if op = EPOLL_CTL_DEL then (if m fd = None then (- ENOENT, m) else (0, m(fd := None)))
      else (- EINVAL, m))"

lemma epoll_map_update:
  "epoll_map (e\<lparr>ep_entries := AList.update fd x (ep_entries e)\<rparr>) = (epoll_map e)(fd \<mapsto> (ee_events x, ee_data x))"
  "epoll_map (e\<lparr>ep_entries := AList.delete fd (ep_entries e)\<rparr>) = (epoll_map e)(fd := None)"
  by (auto simp: epoll_map_def update_conv' delete_conv' fun_eq_iff)

lemma put_entries_table:
  "table (k_fds (put_entries k epfd e es)) = (table (k_fds k))(epfd \<mapsto> REpoll (e\<lparr>ep_entries := es\<rparr>))"
  by (simp add: put_entries_def fd_put_def)

text \<open>Every epoll set of a kernel is a map whose entries know their descriptor.\<close>

definition epoll_inner_ok :: "epoll_inner \<Rightarrow> bool" where
  "epoll_inner_ok e \<longleftrightarrow> distinct (map fst (ep_entries e)) \<and> (\<forall>(fd, x) \<in> set (ep_entries e). ee_fd x = fd)"

lemma in_set_update: "x \<in> set (AList.update n v al) \<Longrightarrow> x = (n, v) \<or> x \<in> set al"
  by (induction al) (auto split: if_splits)

lemma in_set_delete: "x \<in> set (AList.delete n al) \<Longrightarrow> x \<in> set al"
  by (induction al) (auto split: if_splits)

lemma epoll_inner_ok_update:
  "epoll_inner_ok e \<Longrightarrow> epoll_inner_ok (e\<lparr>ep_entries := AList.update fd (event_of fd ev) (ep_entries e)\<rparr>)"
  "epoll_inner_ok e \<Longrightarrow> epoll_inner_ok (e\<lparr>ep_entries := AList.delete fd (ep_entries e)\<rparr>)"
  by (auto simp: epoll_inner_ok_def event_of_def distinct_update distinct_delete dest!: in_set_update in_set_delete)

definition epoll_ok :: "'h kernel \<Rightarrow> bool" where
  "epoll_ok k \<longleftrightarrow> (\<forall>fd e. table (k_fds k) fd = Some (REpoll e) \<longrightarrow> epoll_inner_ok e)"

lemma epoll_ok_put: "epoll_ok k \<Longrightarrow> epoll_inner_ok (e\<lparr>ep_entries := es\<rparr>) \<Longrightarrow> epoll_ok (put_entries k epfd e es)"
  by (auto simp: epoll_ok_def put_entries_table)

lemma epoll_create1_ok: "epoll_ok k \<Longrightarrow> epoll_ok (snd (sys_epoll_create1 k a))"
  by (auto simp: epoll_ok_def sys_epoll_create1_def fd_insert_def epoll_inner_ok_def Let_def)

lemma epoll_ctl_ok:
  assumes "epoll_ok k"
  shows "epoll_ok (snd (sys_epoll_ctl k a))"
proof (cases a)
  case (Args a0 a1 a2 a3 a4 a5)
  have e: "epoll_inner_ok e" if "fd_get (k_fds k) fd = Inr (REpoll e)" for fd e
    using assms that by (auto simp: epoll_ok_def fd_get_def ok_or_def split: option.splits)
  show ?thesis
    unfolding Args sys_epoll_ctl.simps
    by (auto intro!: try_ret_inv [of epoll_ok] epoll_ok_put epoll_inner_ok_update assms dest!: e simp: Let_def
        split: option.split sum.split resource.split)
qed

section \<open>Properties\<close>

text \<open>
  C33: \<open>epoll_ctl\<close> implements the map operations ADD, MOD and DEL with their errors: it returns
  \<open>-EEXIST\<close>, \<open>-ENOENT\<close>, \<open>-EINVAL\<close> or 0 as the abstract operation does, leaves the epoll set with exactly the
  abstract result, and touches no other descriptor.
\<close>

theorem epoll_ctl_refines:
  assumes "table (k_fds k) epfd = Some (REpoll e)"
    and "guest_slice (k_memory k) event_ptr 12 = Inr event"
    and "ctl_spec (as_i32 op) fd (ee_events (event_of fd event), ee_data (event_of fd event)) (epoll_map e) = (r, m)"
  shows "\<exists>k' e'. sys_epoll_ctl k (Args (uint epfd) op (uint fd) event_ptr 0 0) = (r, k') \<and>
    table (k_fds k') = (table (k_fds k))(epfd \<mapsto> REpoll e') \<and> epoll_map e' = m"
proof -
  have get: "fd_get (k_fds k) epfd = Inr (REpoll e)" by (simp add: fd_get_def ok_or_def assms(1))
  have same: "(table (k_fds k))(epfd \<mapsto> REpoll e) = table (k_fds k)" using assms(1) by auto
  have none: "map_of (ep_entries e) fd = None \<longleftrightarrow> epoll_map e fd = None" by (simp add: epoll_map_def)
  have slice: "guest_slice (k_memory k) event_ptr (int EPOLL_EVENT_SIZE) = Inr event"
    using assms(2) by (simp add: EPOLL_EVENT_SIZE_def)
  consider (upd) "sys_epoll_ctl k (Args (uint epfd) op (uint fd) event_ptr 0 0) =
        (r, put_entries k epfd e (AList.update fd (event_of fd event) (ep_entries e)))"
      "m = (epoll_map e)(fd \<mapsto> (ee_events (event_of fd event), ee_data (event_of fd event)))"
    | (del) "sys_epoll_ctl k (Args (uint epfd) op (uint fd) event_ptr 0 0) =
        (r, put_entries k epfd e (AList.delete fd (ep_entries e)))" "m = (epoll_map e)(fd := None)"
    | (err) "sys_epoll_ctl k (Args (uint epfd) op (uint fd) event_ptr 0 0) = (r, k)" "m = epoll_map e"
    using assms(3) by (auto simp: get slice none ctl_spec_def Let_def split: if_splits)
  then show ?thesis
  proof cases
    case upd
    then show ?thesis using put_entries_table epoll_map_update(1) by blast
  next
    case del
    then show ?thesis using put_entries_table epoll_map_update(2) by blast
  next
    case err
    then show ?thesis using same by metis
  qed
qed

text \<open>A kernel with an epoll set at 3 that watches the non-empty pipe end 4, and a record at address 0.\<close>

definition demo_epoll :: "unit kernel" where
  "demo_epoll = (kernel_new_inner [] [] (replicate 32 0) \<lparr>root = [], cwd = []\<rparr> ())
     \<lparr>k_memory := Some (Owned ([1, 0, 0, 0, 7, 0, 0, 0, 0, 0, 0, 0] @ replicate 20 0)),
      k_pipes := [\<lparr>p_buf = [5], p_closed = False, p_nonblock = False\<rparr>],
      k_fds := \<lparr>table = [3 \<mapsto> REpoll \<lparr>ep_entries = [], ep_self_event_fd = None\<rparr>, 4 \<mapsto> RPipeRead 0],
                next_fd = 5, cloexec = {}\<rparr>\<rparr>"

lemma demo_epoll_simps [simp]:
  "table (k_fds demo_epoll) = [3 \<mapsto> REpoll \<lparr>ep_entries = [], ep_self_event_fd = None\<rparr>, 4 \<mapsto> RPipeRead 0]"
  "k_memory demo_epoll = Some (Owned ([1, 0, 0, 0, 7, 0, 0, 0, 0, 0, 0, 0] @ replicate 20 0))"
  "k_pipes demo_epoll = [\<lparr>p_buf = [5], p_closed = False, p_nonblock = False\<rparr>]"
  by (simp_all add: demo_epoll_def)

lemma demo_epoll_event: "guest_slice (k_memory demo_epoll) 0 12 = Inr [1, 0, 0, 0, 7, 0, 0, 0, 0, 0, 0, 0]"
  by (simp add: guest_slice_def guest_range_def kernel_memory_def usize_checked_add_def slice_def ok_or_def res_bind_def)

lemma demo_event_of: "event_of 4 [1, 0, 0, 0, 7, 0, 0, 0, 0, 0, 0, 0] = \<lparr>ee_fd = 4, ee_events = 1, ee_data = 7\<rparr>"
  by (simp add: event_of_def slice_def)

theorem epoll_ctl_refines_witness:
  "\<exists>k' e'. sys_epoll_ctl demo_epoll (Args 3 1 4 0 0 0) = (0, k') \<and> table (k_fds k') 3 = Some (REpoll e') \<and>
    epoll_map e' = [4 \<mapsto> (1, 7)]"
proof -
  have "epoll_map \<lparr>ep_entries = [], ep_self_event_fd = None\<rparr> = Map.empty" by (simp add: epoll_map_def fun_eq_iff)
  then have c: "ctl_spec (as_i32 1) 4 (ee_events (event_of 4 [1, 0, 0, 0, 7, 0, 0, 0, 0, 0, 0, 0]),
      ee_data (event_of 4 [1, 0, 0, 0, 7, 0, 0, 0, 0, 0, 0, 0])) (epoll_map \<lparr>ep_entries = [], ep_self_event_fd = None\<rparr>) =
      (0, [4 \<mapsto> (1, 7)])"
    by (simp add: ctl_spec_def as_i32_def EPOLL_CTL_ADD_def demo_event_of)
  have t: "table (k_fds demo_epoll) 3 = Some (REpoll \<lparr>ep_entries = [], ep_self_event_fd = None\<rparr>)" by simp
  have u: "uint (3 :: u32) = 3" "uint (4 :: u32) = 4" by simp_all
  from epoll_ctl_refines [OF t demo_epoll_event c] show ?thesis unfolding u by (metis fun_upd_same)
qed

lemma slice_concat:
  assumes "\<And>x. x \<in> set xs \<Longrightarrow> length (f x) = n" "i < length xs"
  shows "slice (i * n) n (concat (map f xs)) = f (xs ! i)"
  using assms
proof (induction xs arbitrary: i)
  case (Cons x xs)
  then show ?case by (cases i) (auto simp: slice_def add.commute)
qed simp

lemma length_event_bytes [simp]: "length (event_bytes x) = 12"
  by (simp add: event_bytes_def)

lemma event_of_bytes: "event_of fd (event_bytes x) = \<lparr>ee_fd = fd, ee_events = snd x, ee_data = ee_data (fst x)\<rparr>"
  using le_u32_roundtrip [of "snd x"] le_u64_roundtrip [of "ee_data (fst x)"]
  by (simp add: event_of_def event_bytes_def slice_def)

lemma length_concat_events: "length (concat (map event_bytes xs)) = length xs * 12"
  by (induction xs) simp_all

text \<open>
  C34: On a set with registrations and a valid buffer, \<open>epoll_wait\<close> sleeps exactly when no watched
  descriptor is ready.  Otherwise it returns the number of ready ones, at most \<open>maxevents\<close>, and the
  guest's array holds, for each in turn, the events that are ready and the data word registered for it.
\<close>

theorem epoll_wait_reports:
  assumes "table (k_fds k) epfd = Some (REpoll e)" "ep_entries e \<noteq> []"
    and "0 < maxevents" "maxevents < 2 ^ 32" "guest_slice_mut (k_memory k) ptr (int (maxevents * 12)) = Inr b"
  defines "ready \<equiv> snapshot_readiness k (ep_entries e)"
  defines "n \<equiv> min (length ready) maxevents"
  shows "if ready = []
    then sys_epoll_wait k (Args (uint epfd) ptr (int maxevents) timeout 0 0) = (Park (EpWait (ep_entries e) ptr maxevents timeout), k)
    else \<exists>k' bs. sys_epoll_wait k (Args (uint epfd) ptr (int maxevents) timeout 0 0) = (Ret (int n), k') \<and> 0 < n \<and>
      guest_slice (k_memory k') ptr (int (n * 12)) = Inr bs \<and>
      (\<forall>i < n. event_of (ee_fd (fst (ready ! i))) (slice (i * 12) 12 bs) =
         \<lparr>ee_fd = ee_fd (fst (ready ! i)), ee_events = snd (ready ! i), ee_data = ee_data (fst (ready ! i))\<rparr>)"
proof -
  have get: "fd_get (k_fds k) epfd = Inr (REpoll e)" by (simp add: fd_get_def ok_or_def assms(1))
  have w: "wrap_i64 (int maxevents * 12) = int maxevents * 12"
    using assms(4) by (simp add: wrap_i64_def signed_take_bit_int_eq_self)
  have m: "usize_try_from (int maxevents) = Some maxevents" by (simp add: usize_try_from_def)
  have out: "sys_epoll_wait k (Args (uint epfd) ptr (int maxevents) timeout 0 0) =
      (if ready \<noteq> [] then (case pack_events k ptr maxevents ready of (r, k1) \<Rightarrow> (Ret r, k1))
       else (Park (EpWait (ep_entries e) ptr maxevents timeout), k))"
    using assms(2,3,5) by (simp add: get w m ready_def EPOLL_EVENT_SIZE_def)
  show ?thesis
  proof (cases "ready = []")
    case False
    obtain p l where b: "b = (p, l)" by (cases b)
    from guest_range_Inr [OF assms(5) [unfolded guest_slice_mut_def b]] have l: "l = maxevents * 12" by auto
    have r: "guest_range (k_memory k) ptr (int (n * 12)) = Inr (p, n * 12)"
      by (rule guest_range_shrink [OF assms(5) [unfolded guest_slice_mut_def b]]) (simp add: l n_def)
    define bs where "bs = concat (map event_bytes (take n ready))"
    have len: "length bs = n * 12" by (simp add: bs_def length_concat_events n_def)
    have pk: "pack_events k ptr maxevents ready = (int n, k_write k p bs)"
      using r by (simp add: pack_events_def guest_slice_mut_def EPOLL_EVENT_SIZE_def n_def [symmetric] bs_def Let_def)
    have mem: "guest_slice (k_memory (k_write k p bs)) ptr (int (n * 12)) = Inr bs"
      using guest_write_read [OF r len] by (simp add: k_write_def)
    have "slice (i * 12) 12 bs = event_bytes (ready ! i)" if "i < n" for i
      using that slice_concat [of "take n ready" event_bytes 12 i] by (simp add: bs_def n_def)
    then have "\<forall>i < n. event_of (ee_fd (fst (ready ! i))) (slice (i * 12) 12 bs) =
        \<lparr>ee_fd = ee_fd (fst (ready ! i)), ee_events = snd (ready ! i), ee_data = ee_data (fst (ready ! i))\<rparr>"
      by (simp add: event_of_bytes)
    moreover have "0 < n" using False assms(3) by (simp add: n_def)
    ultimately show ?thesis unfolding out pk using False mem by simp
  qed (simp add: out del: sys_epoll_wait.simps)
qed

theorem epoll_wait_reports_witness:
  "\<exists>k k' bs. sys_epoll_ctl demo_epoll (Args 3 1 4 0 0 0) = (0, k) \<and>
    sys_epoll_wait k (Args 3 16 1 (- 1) 0 0) = (Ret 1, k') \<and> guest_slice (k_memory k') 16 12 = Inr bs \<and>
    event_of 4 bs = \<lparr>ee_fd = 4, ee_events = 1, ee_data = 7\<rparr>"
proof -
  let ?e = "\<lparr>ep_entries = [(4, \<lparr>ee_fd = 4, ee_events = 1, ee_data = 7\<rparr>)], ep_self_event_fd = None\<rparr>"
  define k where "k = demo_epoll\<lparr>k_fds := fd_put (k_fds demo_epoll) 3 (REpoll ?e)\<rparr>"
  have c: "sys_epoll_ctl demo_epoll (Args 3 1 4 0 0 0) = (0, k)"
    using demo_epoll_event
    by (simp add: u32_try_from_def fd_get_def ok_or_def as_i32_def EPOLL_CTL_ADD_def EPOLL_EVENT_SIZE_def demo_event_of
        put_entries_def k_def)
  have t: "table (k_fds k) 3 = Some (REpoll ?e)" by (simp add: k_def fd_put_def)
  have b: "guest_slice_mut (k_memory k) 16 (int (1 * 12)) = Inr (16, 12)"
    by (simp add: k_def guest_slice_mut_def guest_range_def kernel_memory_def usize_checked_add_def ok_or_def res_bind_def)
  have r: "snapshot_readiness k [(4, \<lparr>ee_fd = 4, ee_events = 1, ee_data = 7\<rparr>)] = [(\<lparr>ee_fd = 4, ee_events = 1, ee_data = 7\<rparr>, 1)]"
    by (simp add: snapshot_readiness_def compute_revents_def fd_get_def ok_or_def k_def fd_put_def want_def EPOLLIN_def)
  have u: "uint (3 :: u32) = 3" by simp
  from epoll_wait_reports [OF t _ _ _ b, of "- 1"] obtain k' bs where
    w: "sys_epoll_wait k (Args 3 16 1 (- 1) 0 0) = (Ret 1, k')" "guest_slice (k_memory k') 16 12 = Inr bs"
      "event_of 4 (slice 0 12 bs) = \<lparr>ee_fd = 4, ee_events = 1, ee_data = 7\<rparr>"
    by (auto simp: u r simp del: sys_epoll_wait.simps)
  have "slice 0 12 bs = bs" using guest_slice_length [OF w(2)] by (simp add: slice_def)
  with w c show ?thesis by metis
qed

text \<open>
  A wait on five or more notifications does not end when one fires, but when one of every four
  consecutive ones has.
\<close>

lemma wait_any_waits_for_all_groups: "wait_any_done {0} 4" "\<not> wait_any_done {0} 5" "wait_any_done {0, 4} 5"
  by (simp_all add: wait_any_done_def groups_done.simps upt_conv_Cons)

end
