(* ===== verification/Sys_Poll.thy ===== *)
theory Sys_Poll
  imports Sys_Epoll
begin

text \<open>
  \<^verbatim>\<open>src/src/sys/poll.rs\<close>: \<open>poll\<close>, \<open>ppoll\<close> and \<open>select\<close>.  A call that has to sleep returns \<open>Park\<close> with the
  entries it polls; \<open>poll_resume\<close> and \<open>select_resume\<close> continue it, told whether the timer fired.
  Event masks are \<open>i16\<close> bit patterns.
\<close>

section \<open>Readiness\<close>

definition POLLIN :: u16 where "POLLIN = 0x0001"
definition POLLOUT :: u16 where "POLLOUT = 0x0004"
definition POLLERR :: u16 where "POLLERR = 0x0008"
definition POLLNVAL :: u16 where "POLLNVAL = 0x0020"
definition POLLFD_SIZE :: nat where "POLLFD_SIZE = 8"

lemmas poll_consts = POLLIN_def POLLOUT_def POLLERR_def POLLNVAL_def POLLFD_SIZE_def

definition ready_pipe_read :: "u16 \<Rightarrow> bool \<Rightarrow> u16" where
  "ready_pipe_read events has_data_or_eof =
     (if has_data_or_eof \<and> events AND POLLIN \<noteq> 0 then POLLIN else 0) OR
     (if events AND POLLOUT \<noteq> 0 then POLLERR else 0)"

definition ready_socket :: "u16 \<Rightarrow> socket_inner \<Rightarrow> u16" where
  "ready_socket events s =
     (let is_listener = is_listening s; has_stream = (s_stream s \<noteq> None); has_bound = (s_bound s \<noteq> None)
      in (if events AND POLLIN \<noteq> 0 then (if has_stream then POLLIN else if is_listener then POLLNVAL else 0) else 0) OR
         (if events AND POLLOUT \<noteq> 0 then (if has_stream then POLLOUT else if has_bound then POLLNVAL else 0) else 0))"

fun poll_resource :: "'h kernel \<Rightarrow> u16 \<Rightarrow> resource \<Rightarrow> u16" where
  "poll_resource k events (RStdin r) =
     ready_pipe_read events (\<not> p_closed (k_pipes k ! r) \<or> p_buf (k_pipes k ! r) \<noteq> [])"
| "poll_resource k events (RStdout r) = POLLOUT AND events"
| "poll_resource k events (RStderr r) = POLLOUT AND events"
| "poll_resource k events (RFile r) = POLLIN OR POLLOUT"
| "poll_resource k events (RPipeRead r) =
     ready_pipe_read events (p_buf (k_pipes k ! r) \<noteq> [] \<or> p_closed (k_pipes k ! r))"
| "poll_resource k events (RPipeWrite r) = POLLOUT AND events"
| "poll_resource k events (RSocket r) = ready_socket events (k_sockets k ! r)"
| "poll_resource k events (REpoll e) = POLLNVAL"
| "poll_resource k events (REventFd e) = POLLNVAL"

definition poll_one :: "'h kernel \<Rightarrow> int \<Rightarrow> u16 \<Rightarrow> u16" where
  "poll_one k fd events =
     (case u32_try_from fd of
        None \<Rightarrow> POLLNVAL
      | Some fd_u \<Rightarrow>
          (case fd_get (k_fds k) fd_u of
             Inl _ \<Rightarrow> POLLNVAL
           | Inr res \<Rightarrow> poll_resource k events res))"

section \<open>poll\<close>

text \<open>The \<open>(fd, events)\<close> pairs read from the guest's array.\<close>

definition pollfd_at :: "memory_kind option \<Rightarrow> int \<Rightarrow> nat \<Rightarrow> int \<times> u16" where
  "pollfd_at mem fds_ptr i =
     (case guest_slice mem (fds_ptr + int (i * POLLFD_SIZE)) (int POLLFD_SIZE) of
        Inl _ \<Rightarrow> (0, POLLNVAL)
      | Inr e \<Rightarrow> (signed_take_bit 31 (le_uint (slice 0 4 e)), word_of_int (le_uint (slice 4 2 e))))"

definition poll_scan :: "'h kernel \<Rightarrow> (int \<times> u16) list \<Rightarrow> u16 list" where
  "poll_scan k entries = map (\<lambda>(fd, events). poll_one k fd events) entries"

text \<open>The \<open>revents\<close> field of every array element, from element \<open>i\<close> on.\<close>

fun put_revents :: "nat \<Rightarrow> nat \<Rightarrow> u16 list \<Rightarrow> 'h kernel \<Rightarrow> 'h kernel" where
  "put_revents p i [] k = k"
| "put_revents p i (r # rs) k = put_revents p (i + 1) rs (k_write k (p + i * POLLFD_SIZE + 6) (le_bytes 2 (uint r)))"

definition write_revents :: "'h kernel \<Rightarrow> int \<Rightarrow> u16 list \<Rightarrow> int \<times> 'h kernel" where
  "write_revents k fds_ptr readiness =
     try_ret (guest_slice_mut (k_memory k) fds_ptr (int (length readiness * POLLFD_SIZE))) k (\<lambda>(p, _).
       (int (length (filter (\<lambda>r. r \<noteq> 0) readiness)), put_revents p 0 readiness k))"

datatype poll_park = PollPark int "(int \<times> u16) list" int

fun poll_step :: "'h kernel \<Rightarrow> poll_park \<Rightarrow> poll_park outcome \<times> 'h kernel" where
  "poll_step k (PollPark fds_ptr entries timeout_ms) =
     (let readiness = poll_scan k entries
      in if list_ex (\<lambda>r. r \<noteq> 0) readiness \<or> timeout_ms = 0
         then (case write_revents k fds_ptr readiness of (r, k1) \<Rightarrow> (Ret r, k1))
         else (Park (PollPark fds_ptr entries timeout_ms), k))"

fun poll_resume :: "'h kernel \<Rightarrow> poll_park \<Rightarrow> bool \<Rightarrow> poll_park outcome \<times> 'h kernel" where
  "poll_resume k (PollPark fds_ptr entries timeout_ms) timed_out =
     (if timed_out
      then (case write_revents k fds_ptr (poll_scan k entries) of (r, k1) \<Rightarrow> (Ret r, k1))
      else poll_step k (PollPark fds_ptr entries timeout_ms))"

fun sys_poll :: "'h kernel \<Rightarrow> args \<Rightarrow> poll_park outcome \<times> 'h kernel" where
  "sys_poll k (Args fds_ptr nfds_raw timeout_ms _ _ _) =
     (case usize_try_from nfds_raw of
        None \<Rightarrow> (Ret (- EINVAL), k)
      | Some nfds \<Rightarrow>
          if nfds = 0 then (Ret 0, k)
          else if nfds * POLLFD_SIZE \<ge> 2 ^ 64 then (Ret (- EINVAL), k)
          else
            (case guest_slice_mut (k_memory k) fds_ptr (wrap_i64 (int (nfds * POLLFD_SIZE))) of
               Inl e \<Rightarrow> (Ret e, k)
             | Inr _ \<Rightarrow>
                 poll_step k (PollPark fds_ptr (map (pollfd_at (k_memory k) fds_ptr) [0..<nfds]) timeout_ms)))"

fun sys_ppoll :: "'h kernel \<Rightarrow> args \<Rightarrow> poll_park outcome \<times> 'h kernel" where
  "sys_ppoll k (Args fds_ptr nfds_raw tsp _ _ _) =
     (case usize_try_from nfds_raw of
        None \<Rightarrow> (Ret (- EINVAL), k)
      | Some nfds \<Rightarrow>
          if nfds = 0 then (Ret 0, k)
          else (case timespec_ms (k_memory k) tsp of
                  Inl e \<Rightarrow> (Ret e, k)
                | Inr timeout_ms \<Rightarrow> sys_poll k (Args fds_ptr nfds_raw timeout_ms 0 0 0)))"

section \<open>select\<close>

definition FD_SET_LONGS :: nat where "FD_SET_LONGS = 16"

definition in_mask :: "bytes option \<Rightarrow> nat \<Rightarrow> bool" where
  "in_mask m fd =
     (case m of None \<Rightarrow> False | Some b \<Rightarrow> bit (le_uint (slice (fd div 64 * 8) 8 b)) (fd mod 64))"

definition mask_of :: "memory_kind option \<Rightarrow> int \<Rightarrow> bytes option" where
  "mask_of mem ptr =
     (if ptr \<noteq> 0 then (case guest_slice mem ptr (int (FD_SET_LONGS * 8)) of Inr b \<Rightarrow> Some b | Inl _ \<Rightarrow> None) else None)"

text \<open>The descriptors below \<open>nfds\<close> in either set, with the events to poll for.\<close>

definition select_entries :: "memory_kind option \<Rightarrow> nat \<Rightarrow> int \<Rightarrow> int \<Rightarrow> (int \<times> u16) list" where
  "select_entries mem nfds readfds writefds =
     (let rm = mask_of mem readfds; wm = mask_of mem writefds
      in map (\<lambda>fd. (int fd, (if in_mask rm fd then POLLIN else 0) OR (if in_mask wm fd then POLLOUT else 0)))
           (filter (\<lambda>fd. fd div 64 < FD_SET_LONGS \<and> (in_mask rm fd \<or> in_mask wm fd)) [0..<nfds]))"

definition pollfd_bytes :: "int \<times> u16 \<Rightarrow> bytes" where
  "pollfd_bytes x = le_bytes 4 (fst x) @ le_bytes 2 (uint (snd x)) @ le_bytes 2 0"

definition SELECT_SCRATCH :: int where "SELECT_SCRATCH = 8192"

definition timeval_ms :: "memory_kind option \<Rightarrow> int \<Rightarrow> int res" where
  "timeval_ms mem ptr =
     (if ptr = 0 then Inr (- 1)
      else res_bind (guest_slice mem ptr 16) (\<lambda>t.
        let sec = le_sint64 (slice 0 8 t); usec = le_sint64 (slice 8 8 t)
        in if sec < 0 \<or> usec < 0 then Inl (- EINVAL) else Inr (wrap_i64 (sec * 1000 + usec div 1000))))"

definition set_fd_bit :: "'h kernel \<Rightarrow> int \<Rightarrow> int \<Rightarrow> 'h kernel" where
  "set_fd_bit k fdset fd =
     (let word = nat fd div 64; b = nat fd mod 64
      in if word \<ge> FD_SET_LONGS then k
         else case guest_slice (k_memory k) (fdset + int (word * 8)) 8 of
                Inl _ \<Rightarrow> k
              | Inr bs \<Rightarrow> k_write k (nat (fdset + int (word * 8))) (le_bytes 8 (le_uint bs OR push_bit b 1)))"

definition clear_fd_set :: "'h kernel \<Rightarrow> int \<Rightarrow> 'h kernel" where
  "clear_fd_set k fdset =
     (case guest_slice_mut (k_memory k) fdset (int (FD_SET_LONGS * 8)) of
        Inl _ \<Rightarrow> k
      | Inr (p, l) \<Rightarrow> k_write k p (replicate l 0))"

definition mark_ready :: "int \<Rightarrow> int \<Rightarrow> int \<times> u16 \<times> u16 \<Rightarrow> 'h kernel \<Rightarrow> 'h kernel" where
  "mark_ready readfds writefds x k =
     (case x of (fd, ev, revents) \<Rightarrow>
        let k1 = (if revents AND POLLIN \<noteq> 0 \<and> ev AND POLLIN \<noteq> 0 \<and> readfds \<noteq> 0 then set_fd_bit k readfds fd else k)
        in if revents AND POLLOUT \<noteq> 0 \<and> ev AND POLLOUT \<noteq> 0 \<and> writefds \<noteq> 0 then set_fd_bit k1 writefds fd else k1)"

text \<open>After \<open>poll\<close>: the \<open>revents\<close> are read back from the scratch array and the sets rewritten.\<close>

definition select_finish :: "int \<Rightarrow> int \<Rightarrow> (int \<times> u16) list \<Rightarrow> int \<Rightarrow> 'h kernel \<Rightarrow> int \<times> 'h kernel" where
  "select_finish readfds writefds entries r k =
     (if r < 0 then (r, k)
      else try_ret (guest_slice (k_memory k) SELECT_SCRATCH (int (length entries * POLLFD_SIZE))) k (\<lambda>bs.
        let revents_list = map (\<lambda>i. (fst (entries ! i), snd (entries ! i),
                word_of_int (le_uint (slice (i * POLLFD_SIZE + 6) 2 bs)))) [0..<length entries];
            k1 = (if readfds \<noteq> 0 then clear_fd_set k readfds else k);
            k2 = (if writefds \<noteq> 0 then clear_fd_set k1 writefds else k1)
        in (r, fold (mark_ready readfds writefds) revents_list k2)))"

datatype select_park = SelectPark int int "(int \<times> u16) list" poll_park

definition select_cont ::
  "int \<Rightarrow> int \<Rightarrow> (int \<times> u16) list \<Rightarrow> poll_park outcome \<times> 'h kernel \<Rightarrow> select_park outcome \<times> 'h kernel" where
  "select_cont readfds writefds entries out =
     (case out of
        (Ret r, k) \<Rightarrow> (case select_finish readfds writefds entries r k of (r', k') \<Rightarrow> (Ret r', k'))
      | (Park p, k) \<Rightarrow> (Park (SelectPark readfds writefds entries p), k))"

fun sys_select :: "'h kernel \<Rightarrow> args \<Rightarrow> select_park outcome \<times> 'h kernel" where
  "sys_select k (Args nfds_raw readfds writefds _ timeout_ptr _) =
     (if \<not> (0 \<le> nfds_raw \<and> nfds_raw < 2 ^ 31) then (Ret (- EINVAL), k)
      else if nfds_raw = 0 then (Ret 0, k)
      else
        let entries = select_entries (k_memory k) (nat nfds_raw) readfds writefds
        in if entries = [] then (Ret 0, k)
           else
             (case guest_slice_mut (k_memory k) SELECT_SCRATCH (int (length entries * POLLFD_SIZE)) of
                Inl e \<Rightarrow> (Ret e, k)
              | Inr (p, _) \<Rightarrow>
                  let k1 = k_write k p (concat (map pollfd_bytes entries))
                  in case timeval_ms (k_memory k1) timeout_ptr of
                       Inl e \<Rightarrow> (Ret e, k1)
                     | Inr timeout_ms \<Rightarrow>
                         select_cont readfds writefds entries
                           (sys_poll k1 (Args SELECT_SCRATCH (int (length entries)) timeout_ms 0 0 0))))"

fun select_resume :: "'h kernel \<Rightarrow> select_park \<Rightarrow> bool \<Rightarrow> select_park outcome \<times> 'h kernel" where
  "select_resume k (SelectPark readfds writefds entries p) timed_out =
     select_cont readfds writefds entries (poll_resume k p timed_out)"

section \<open>What poll writes\<close>

text \<open>The two bytes of a \<open>revents\<close> field, and the bytes of an array that are none of these.\<close>

definition revents_pos :: "nat \<Rightarrow> nat \<Rightarrow> nat" where
  "revents_pos p i = p + i * POLLFD_SIZE + 6"

definition not_revents :: "nat \<Rightarrow> nat \<Rightarrow> nat \<Rightarrow> bool" where
  "not_revents p n x \<longleftrightarrow> (\<forall>i < n. x \<noteq> revents_pos p i \<and> x \<noteq> revents_pos p i + 1)"

lemma put_revents_mem:
  assumes "k_memory k = Some (Owned m)" "p + (i + length rs) * POLLFD_SIZE \<le> length m"
  shows "\<exists>m'. k_memory (put_revents p i rs k) = Some (Owned m') \<and> length m' = length m \<and>
    (\<forall>j < length rs. slice (revents_pos p (i + j)) 2 m' = le_bytes 2 (uint (rs ! j))) \<and>
    (\<forall>x < length m. (\<forall>j < length rs. x \<noteq> revents_pos p (i + j) \<and> x \<noteq> revents_pos p (i + j) + 1) \<longrightarrow> m' ! x = m ! x)"
  using assms
proof (induction rs arbitrary: i k m)
  case (Cons r rs)
  let ?q = "revents_pos p i" and ?b = "le_bytes 2 (uint r)"
  let ?k = "k_write k ?q ?b" and ?m = "splice ?q ?b m"
  have fit: "?q + length ?b \<le> length m" using Cons.prems(2) by (simp add: revents_pos_def POLLFD_SIZE_def)
  have mem: "k_memory ?k = Some (Owned ?m)" by (simp add: k_write_def Cons.prems(1))
  have len: "p + (Suc i + length rs) * POLLFD_SIZE \<le> length ?m" using Cons.prems(2) fit by simp
  from Cons.IH [OF mem len] obtain m' where
    m': "k_memory (put_revents p (Suc i) rs ?k) = Some (Owned m')" "length m' = length ?m"
      "\<forall>j < length rs. slice (revents_pos p (Suc i + j)) 2 m' = le_bytes 2 (uint (rs ! j))"
      "\<forall>x < length ?m. (\<forall>j < length rs. x \<noteq> revents_pos p (Suc i + j) \<and> x \<noteq> revents_pos p (Suc i + j) + 1) \<longrightarrow> m' ! x = ?m ! x"
    by blast
  have frame: "m' ! x = ?m ! x" if "x < ?q + 2" for x
    using m'(4) that fit by (simp add: revents_pos_def POLLFD_SIZE_def)
  have first: "slice ?q 2 m' = ?b"
  proof (rule nth_equalityI)
    show "length (slice ?q 2 m') = length ?b" using fit m'(2) by simp
    fix x assume "x < length (slice ?q 2 m')"
    then have x: "x < 2" by (simp add: slice_def)
    then have "slice ?q 2 m' ! x = ?m ! (?q + x)" using fit m'(2) frame by (simp add: slice_nth)
    then show "slice ?q 2 m' ! x = ?b ! x" using x fit by (simp add: nth_splice)
  qed
  have step: "put_revents p i (r # rs) k = put_revents p (Suc i) rs ?k" by (simp add: revents_pos_def)
  have "slice (revents_pos p (i + j)) 2 m' = le_bytes 2 (uint ((r # rs) ! j))" if "j < length (r # rs)" for j
    using that first m'(3) by (cases j) auto
  moreover have "m' ! x = m ! x"
    if "x < length m" "\<forall>j < length (r # rs). x \<noteq> revents_pos p (i + j) \<and> x \<noteq> revents_pos p (i + j) + 1" for x
  proof -
    have "x \<noteq> ?q" "x \<noteq> ?q + 1" using that(2) by force+
    moreover have "\<forall>j < length rs. x \<noteq> revents_pos p (Suc i + j) \<and> x \<noteq> revents_pos p (Suc i + j) + 1"
      using that(2) by force
    ultimately show ?thesis using m'(4) that(1) fit by (auto simp: nth_splice)
  qed
  ultimately show ?case unfolding step using m'(1,2) fit by auto
qed simp

section \<open>Properties\<close>

text \<open>
  C35: \<open>poll\<close> on a valid array sleeps exactly when nothing is ready and the timeout is not zero.  Otherwise it
  returns the number of entries with a non-zero result, every entry's \<open>revents\<close> holds that entry's
  readiness, and no other byte of guest memory changes.
\<close>

theorem poll_reports:
  assumes "k_memory k = Some (Owned m)" "0 < nfds" "nfds < 2 ^ 32"
    and "guest_slice_mut (k_memory k) ptr (int (nfds * 8)) = Inr (p, l)"
  defines "entries \<equiv> map (pollfd_at (k_memory k) ptr) [0..<nfds]"
  defines "rs \<equiv> poll_scan k entries"
  shows "if (\<forall>r \<in> set rs. r = 0) \<and> timeout \<noteq> 0
    then sys_poll k (Args ptr (int nfds) timeout 0 0 0) = (Park (PollPark ptr entries timeout), k)
    else \<exists>k' m'. sys_poll k (Args ptr (int nfds) timeout 0 0 0) = (Ret (int (length (filter (\<lambda>r. r \<noteq> 0) rs))), k') \<and>
      k_memory k' = Some (Owned m') \<and> length m' = length m \<and>
      (\<forall>i < nfds. slice (revents_pos p i) 2 m' = le_bytes 2 (uint (rs ! i))) \<and>
      (\<forall>x < length m. not_revents p nfds x \<longrightarrow> m' ! x = m ! x)"
proof -
  have w: "wrap_i64 (int nfds * 8) = int nfds * 8"
    using assms(3) by (simp add: wrap_i64_def signed_take_bit_int_eq_self)
  have small: "\<not> 2 ^ 64 \<le> nfds * POLLFD_SIZE" using assms(3) by (simp add: POLLFD_SIZE_def)
  have start: "sys_poll k (Args ptr (int nfds) timeout 0 0 0) = poll_step k (PollPark ptr entries timeout)"
    using assms(2,4) small by (simp add: usize_try_from_def entries_def w POLLFD_SIZE_def del: poll_step.simps)
  have n: "length rs = nfds" by (simp add: rs_def poll_scan_def entries_def)
  have ex: "list_ex (\<lambda>r. r \<noteq> 0) rs \<longleftrightarrow> \<not> (\<forall>r \<in> set rs. r = 0)" by (auto simp: list_ex_iff)
  show ?thesis
  proof (cases "(\<forall>r \<in> set rs. r = 0) \<and> timeout \<noteq> 0")
    case True
    then show ?thesis unfolding start by (simp add: rs_def [symmetric] ex)
  next
    case False
    from guest_range_Inr [OF assms(4) [unfolded guest_slice_mut_def]] assms(1)
    have fit: "p + (0 + length rs) * POLLFD_SIZE \<le> length m" by (auto simp: n POLLFD_SIZE_def)
    have "write_revents k ptr rs = (int (length (filter (\<lambda>r. r \<noteq> 0) rs)), put_revents p 0 rs k)"
      using assms(4) by (simp add: write_revents_def n POLLFD_SIZE_def)
    then have "poll_step k (PollPark ptr entries timeout) =
        (Ret (int (length (filter (\<lambda>r. r \<noteq> 0) rs))), put_revents p 0 rs k)"
      using False by (auto simp: rs_def [symmetric] ex)
    with put_revents_mem [OF assms(1) fit] False show ?thesis unfolding start by (auto simp: n not_revents_def)
  qed
qed

text \<open>Two entries at address 0: descriptor 0 for input and the unknown descriptor 9.\<close>

definition demo_poll :: "unit kernel" where
  "demo_poll = (kernel_new_inner [] [] (replicate 32 0) \<lparr>root = [], cwd = []\<rparr> ())
     \<lparr>k_memory := Some (Owned [0, 0, 0, 0, 1, 0, 0, 0, 9, 0, 0, 0, 1, 0, 0, 0])\<rparr>"

theorem poll_reports_witness:
  "\<exists>k' m'. sys_poll demo_poll (Args 0 2 (- 1) 0 0 0) = (Ret 2, k') \<and> k_memory k' = Some (Owned m') \<and>
    slice 6 2 m' = [1, 0] \<and> slice 14 2 m' = [0x20, 0]"
proof -
  let ?m = "[0, 0, 0, 0, 1, 0, 0, 0, 9, 0, 0, 0, 1, 0, 0, 0]"
  have m: "k_memory demo_poll = Some (Owned ?m)" by (simp add: demo_poll_def)
  have b: "guest_slice_mut (k_memory demo_poll) 0 (int (2 * 8)) = Inr (0, 16)"
    by (simp add: m guest_slice_mut_def guest_range_def kernel_memory_def usize_checked_add_def ok_or_def res_bind_def)
  have tab: "table (k_fds demo_poll) 0 = Some (RStdin 0)" "table (k_fds demo_poll) 9 = None" "k_pipes demo_poll ! 0 = \<lparr>p_buf = [], p_closed = False, p_nonblock = False\<rparr>"
    by (simp_all add: demo_poll_def kernel_new_inner_def with_buffered_stdio_def make_pipe_def Let_def)
  have "map (pollfd_at (k_memory demo_poll) 0) [0..<2] = [(0, 1), (9, 1)]"
    by (simp add: upt_conv_Cons m pollfd_at_def guest_slice_def guest_range_def kernel_memory_def usize_checked_add_def
        ok_or_def res_bind_def slice_def POLLFD_SIZE_def)
  then have rs: "poll_scan demo_poll (map (pollfd_at (k_memory demo_poll) 0) [0..<2]) = [1, 0x20]"
    by (simp add: poll_scan_def poll_one_def u32_try_from_def fd_get_def ok_or_def tab ready_pipe_read_def poll_consts)
  from poll_reports [OF m _ _ b, of "- 1"] obtain k' m' where
    w: "sys_poll demo_poll (Args 0 2 (- 1) 0 0 0) = (Ret 2, k')" "k_memory k' = Some (Owned m')"
      "\<forall>i < 2. slice (revents_pos 0 i) 2 m' = le_bytes 2 (uint ([1, 0x20 :: u16] ! i))"
    by (auto simp: rs simp del: sys_poll.simps)
  have le: "le_bytes 2 1 = [1, 0]" "le_bytes 2 0x20 = [0x20, 0]"
    by code_simp+
  from w(3) [rule_format, of 0] w(3) [rule_format, of 1]
  have "slice 6 2 m' = [1, 0]" "slice 14 2 m' = [0x20, 0]"
    by (simp_all add: revents_pos_def POLLFD_SIZE_def le)
  with w show ?thesis by blast
qed

lemma length_pollfds: "length (concat (map pollfd_bytes xs)) = length xs * POLLFD_SIZE"
  by (induction xs) (simp_all add: pollfd_bytes_def POLLFD_SIZE_def)

lemma sys_poll_Park: "sys_poll k a = (Park w, k') \<Longrightarrow> k' = k"
  by (cases a) (auto simp: Let_def split: option.splits if_splits sum.splits prod.splits)

text \<open>
  \<open>select\<close> builds its poll array in the guest's own memory, at address 8192: when it goes to sleep, the
  bytes there are the array, whatever the guest kept in them.
\<close>

lemma select_overwrites_guest:
  assumes "sys_select k (Args nfds readfds writefds ex timeout a5) = (Park w, k')"
  defines "entries \<equiv> select_entries (k_memory k) (nat nfds) readfds writefds"
  shows "entries \<noteq> [] \<and>
    guest_slice (k_memory k') 8192 (int (length entries * 8)) = Inr (concat (map pollfd_bytes entries))"
proof -
  let ?bs = "concat (map pollfd_bytes entries)"
  from assms(1) obtain p l t where ne: "entries \<noteq> []"
    and r: "guest_slice_mut (k_memory k) SELECT_SCRATCH (int (length entries * POLLFD_SIZE)) = Inr (p, l)"
    and c: "select_cont readfds writefds entries
        (sys_poll (k_write k p ?bs) (Args SELECT_SCRATCH (int (length entries)) t 0 0 0)) = (Park w, k')"
    by (auto simp: Let_def entries_def [symmetric] simp del: sys_poll.simps split: if_splits sum.splits prod.splits)
  from c have "k' = k_write k p ?bs"
    by (auto simp: select_cont_def simp del: sys_poll.simps dest: sys_poll_Park split: prod.splits outcome.splits)
  moreover have "guest_slice (mem_write (k_memory k) p ?bs) SELECT_SCRATCH (int (length entries * POLLFD_SIZE)) = Inr ?bs"
    using r guest_range_Inr [OF r [unfolded guest_slice_mut_def]]
    by (intro guest_write_read [where l = l]) (auto simp: guest_slice_mut_def length_pollfds nat_mult_distrib)
  ultimately show ?thesis using ne by (simp add: k_write_def SELECT_SCRATCH_def POLLFD_SIZE_def)
qed

end
