(* ===== verification/Sys_Time.thy ===== *)
theory Sys_Time
  imports Sys_Process "HOL-Library.Signed_Division"
begin

text \<open>
  \<^verbatim>\<open>src/src/sys/time.rs\<close>.  The host's clocks are an argument of the handlers: what \<open>Utc::now()\<close> and
  \<open>started_at.elapsed()\<close> return at the call.  A sleep is \<open>Park\<close> with its duration in nanoseconds;
  \<open>sleep_resume\<close> is the code after it.
\<close>

section \<open>Clocks\<close>

record clocks =
  utc_sec :: int
  utc_nsec :: int
  elapsed_ns :: nat

definition timestamp_micros :: "clocks \<Rightarrow> int" where
  "timestamp_micros c = utc_sec c * 1000000 + utc_nsec c div 1000"

definition SYSINFO_SIZE :: int where "SYSINFO_SIZE = 128"
definition TMS_SIZE :: int where "TMS_SIZE = 32"
definition TIMER_ABSTIME :: int where "TIMER_ABSTIME = 1"
definition CLOCK_REALTIME :: int where "CLOCK_REALTIME = 0"
definition CLOCK_MONOTONIC :: int where "CLOCK_MONOTONIC = 1"
definition CLOCK_PROCESS_CPUTIME_ID :: int where "CLOCK_PROCESS_CPUTIME_ID = 2"
definition CLOCK_THREAD_CPUTIME_ID :: int where "CLOCK_THREAD_CPUTIME_ID = 3"
definition CLOCK_MONOTONIC_RAW :: int where "CLOCK_MONOTONIC_RAW = 4"

lemmas clock_consts = CLOCK_REALTIME_def CLOCK_MONOTONIC_def CLOCK_PROCESS_CPUTIME_ID_def CLOCK_THREAD_CPUTIME_ID_def
  CLOCK_MONOTONIC_RAW_def

definition is_monotonic :: "int \<Rightarrow> bool" where
  "is_monotonic clockid \<longleftrightarrow>
     clockid \<in> {CLOCK_MONOTONIC, CLOCK_MONOTONIC_RAW, CLOCK_PROCESS_CPUTIME_ID, CLOCK_THREAD_CPUTIME_ID}"

definition known_clock :: "int \<Rightarrow> bool" where
  "known_clock clockid \<longleftrightarrow> clockid = CLOCK_REALTIME \<or> is_monotonic clockid"

definition compute_time :: "clocks \<Rightarrow> int \<Rightarrow> (int \<times> int) option" where
  "compute_time c clockid =
     (if clockid = CLOCK_REALTIME then Some (utc_sec c, utc_nsec c)
      else if is_monotonic clockid
      then Some (wrap_i64 (int (elapsed_ns c div 1000000000)), int (elapsed_ns c mod 1000000000))
      else None)"

text \<open>Storing a \<open>struct timespec\<close> or \<open>struct timeval\<close>.\<close>

definition put_pair :: "'h kernel \<Rightarrow> int \<Rightarrow> int \<Rightarrow> int \<Rightarrow> int \<times> 'h kernel" where
  "put_pair k tp x y =
     try_ret (guest_slice_mut (k_memory k) tp 16) k (\<lambda>(p, _). (0, k_write k p (le_bytes 8 x @ le_bytes 8 y)))"

fun sys_clock_gettime :: "clocks \<Rightarrow> 'h handler" where
  "sys_clock_gettime c k (Args clockid tp _ _ _ _) =
     (case compute_time c clockid of
        None \<Rightarrow> (- EINVAL, k)
      | Some (sec, nsec) \<Rightarrow> put_pair k tp sec nsec)"

fun sys_clock_getres :: "'h handler" where
  "sys_clock_getres k (Args clockid tp _ _ _ _) =
     (if \<not> known_clock clockid then (- EINVAL, k)
      else if tp = 0 then (0, k)
      else put_pair k tp 0 1)"

fun sys_gettimeofday :: "clocks \<Rightarrow> 'h handler" where
  "sys_gettimeofday c k (Args tp _ _ _ _ _) =
     (let total_us = elapsed_ns c div 1000;
          epoch = timestamp_micros c;
          sec = epoch sdiv 1000000;
          usec = epoch smod 1000000 + int (total_us mod 1000000);
          sec1 = (if usec \<ge> 1000000 then sec + 1 else sec);
          usec1 = usec smod 1000000
      in put_pair k tp sec1 usec1)"

section \<open>Sleeping\<close>

text \<open>What the sleeper does when it wakes: store a zero remainder at an address, or nothing.\<close>

datatype sleep_park = Sleep u64 int

definition sleep_resume :: "'h kernel \<Rightarrow> sleep_park \<Rightarrow> int \<times> 'h kernel" where
  "sleep_resume k w = (case w of Sleep _ rem \<Rightarrow> if rem \<noteq> 0 then put_pair k rem 0 0 else (0, k))"

definition timespec_at :: "memory_kind option \<Rightarrow> int \<Rightarrow> (int \<times> int) res" where
  "timespec_at mem req =
     res_bind (guest_slice mem req 16) (\<lambda>bs.
       let sec = le_sint64 (slice 0 8 bs); nsec = le_sint64 (slice 8 8 bs)
       in if nsec < 0 \<or> \<not> (0 \<le> nsec \<and> nsec < 1000000000) \<or> sec < 0 then Inl (- EINVAL) else Inr (sec, nsec))"

text \<open>The duration: the seconds saturate, the nanoseconds are added with wrap-around.\<close>

definition sleep_ns :: "int \<Rightarrow> int \<Rightarrow> u64" where
  "sleep_ns sec nsec = u64_saturating_mul (word_of_int sec) 1000000000 + word_of_int nsec"

fun sys_nanosleep :: "'h kernel \<Rightarrow> args \<Rightarrow> sleep_park outcome \<times> 'h kernel" where
  "sys_nanosleep k (Args req rem _ _ _ _) =
     (case timespec_at (k_memory k) req of
        Inl e \<Rightarrow> (Ret e, k)
      | Inr (sec, nsec) \<Rightarrow> (Park (Sleep (sleep_ns sec nsec) rem), k))"

text \<open>Times are compared as \<open>u128\<close>; the current second, if negative, becomes a huge unsigned value there.\<close>

definition total_ns :: "int \<times> int \<Rightarrow> int" where
  "total_ns t = ((fst t mod 2 ^ 128) * 1000000000 + snd t mod 2 ^ 128) mod 2 ^ 128"

fun sys_clock_nanosleep :: "clocks \<Rightarrow> 'h kernel \<Rightarrow> args \<Rightarrow> sleep_park outcome \<times> 'h kernel" where
  "sys_clock_nanosleep c k (Args clockid flags_raw req rem _ _) =
     (if \<not> known_clock clockid then (Ret (- EINVAL), k)
      else
        (case timespec_at (k_memory k) req of
           Inl e \<Rightarrow> (Ret e, k)
         | Inr (sec, nsec) \<Rightarrow>
             if as_i32 flags_raw AND TIMER_ABSTIME \<noteq> 0 then
               (case compute_time c clockid of
                  None \<Rightarrow> (Ret (- EINVAL), k)
                | Some cur \<Rightarrow>
                    if total_ns (sec, nsec) \<le> total_ns cur then (Ret 0, k)
                    else (Park (Sleep (word_of_int (total_ns (sec, nsec) - total_ns cur)) 0), k))
             else (Park (Sleep (sleep_ns sec nsec) rem), k)))"

section \<open>Stubs\<close>

fun sys_sysinfo :: "'h handler" where
  "sys_sysinfo k (Args info _ _ _ _ _) =
     (if info = 0 then (- EFAULT, k)
      else try_ret (guest_slice_mut (k_memory k) info SYSINFO_SIZE) k (\<lambda>(p, l).
        let z = replicate l 0;
            z1 = splice 0 (le_bytes 8 1) z;
            z2 = splice 32 (le_bytes 8 (2 ^ 30)) z1;
            z3 = splice 40 (le_bytes 8 (2 ^ 30)) z2;
            z4 = splice 104 (le_bytes 8 1) z3
        in (0, k_write k p z4)))"

fun sys_times :: "'h handler" where
  "sys_times k (Args buf _ _ _ _ _) =
     (if buf = 0 then (- EFAULT, k)
      else try_ret (guest_slice_mut (k_memory k) buf TMS_SIZE) k (\<lambda>(p, l). (0, k_write k p (replicate l 0))))"

section \<open>Properties\<close>

text \<open>Reading back a stored pair.\<close>

definition pair_at :: "memory_kind option \<Rightarrow> int \<Rightarrow> (int \<times> int) res" where
  "pair_at mem tp = res_bind (guest_slice mem tp 16) (\<lambda>bs. Inr (le_sint64 (slice 0 8 bs), le_sint64 (slice 8 8 bs)))"

definition i64_ok :: "int \<Rightarrow> bool" where
  "i64_ok x \<longleftrightarrow> - (2 ^ 63) \<le> x \<and> x < 2 ^ 63"

lemma le_sint64_le_bytes: "i64_ok x \<Longrightarrow> le_sint64 (le_bytes 8 x) = x"
proof -
  assume "i64_ok x"
  then have "signed_take_bit 63 (take_bit 64 x) = x"
    by (simp add: signed_take_bit_take_bit i64_ok_def signed_take_bit_int_eq_self)
  then show ?thesis by (simp add: le_sint64_def take_bit_eq_mod)
qed

lemma put_pair_stores:
  assumes "guest_slice_mut (k_memory k) tp 16 = Inr b" "i64_ok x" "i64_ok y"
  shows "\<exists>k'. put_pair k tp x y = (0, k') \<and> pair_at (k_memory k') tp = Inr (x, y)"
proof -
  obtain p l where b: "guest_range (k_memory k) tp 16 = Inr (p, l)" using assms(1) by (cases b) (simp add: guest_slice_mut_def)
  have "l = 16" using guest_range_Inr [OF b] by auto
  then have "guest_slice (mem_write (k_memory k) p (le_bytes 8 x @ le_bytes 8 y)) tp 16 = Inr (le_bytes 8 x @ le_bytes 8 y)"
    by (intro guest_write_read [OF b]) simp
  with b assms(2,3) show ?thesis
    by (simp add: put_pair_def guest_slice_mut_def pair_at_def k_write_def slice_def le_sint64_le_bytes)
qed

lemma compute_time_monotone:
  assumes "is_monotonic clockid" "elapsed_ns c \<le> elapsed_ns c'" "elapsed_ns c' < 2 ^ 63"
  shows "\<exists>s n s' n'. compute_time c clockid = Some (s, n) \<and> compute_time c' clockid = Some (s', n') \<and>
    i64_ok s \<and> i64_ok n \<and> i64_ok s' \<and> i64_ok n' \<and> 0 \<le> n \<and> n < 1000000000 \<and> s * 1000000000 + n = int (elapsed_ns c) \<and>
    s' * 1000000000 + n' = int (elapsed_ns c')"
proof -
  have e: "wrap_i64 (int (x div 1000000000)) = int (x div 1000000000)" "i64_ok (int (x div 1000000000))"
    "i64_ok (int (x mod 1000000000))" if "x < 2 ^ 63" for x :: nat
    using that div_le_dividend [of x 1000000000] mod_less_divisor [of 1000000000 x]
    by (auto simp: wrap_i64_def i64_ok_def signed_take_bit_int_eq_self simp flip: zdiv_int)
  have "int (x div 1000000000) * 1000000000 + int (x mod 1000000000) = int x" for x :: nat
    using div_mult_mod_eq [of x 1000000000] by linarith
  then show ?thesis using assms e [of "elapsed_ns c"] e [of "elapsed_ns c'"]
    by (auto simp: compute_time_def is_monotonic_def clock_consts)
qed

text \<open>
  C39: \<open>clock_gettime\<close> on any of the monotonic clocks stores a normalised time, equal to the time since the
  start of the kernel to the nanosecond; so a later reading is never smaller.
\<close>

theorem clock_gettime_monotone:
  assumes "is_monotonic clockid" "elapsed_ns c \<le> elapsed_ns c'" "elapsed_ns c' < 2 ^ 63"
    and "guest_slice_mut (k_memory k) tp 16 = Inr b" "guest_slice_mut (k_memory k') tp' 16 = Inr b'"
  shows "\<exists>k1 k2 s n s' n'. sys_clock_gettime c k (Args clockid tp 0 0 0 0) = (0, k1) \<and> pair_at (k_memory k1) tp = Inr (s, n) \<and>
    sys_clock_gettime c' k' (Args clockid tp' 0 0 0 0) = (0, k2) \<and> pair_at (k_memory k2) tp' = Inr (s', n') \<and>
    0 \<le> n \<and> n < 1000000000 \<and> s * 1000000000 + n = int (elapsed_ns c) \<and>
    s * 1000000000 + n \<le> s' * 1000000000 + n'"
proof -
  obtain s n s' n' where t: "compute_time c clockid = Some (s, n)" "compute_time c' clockid = Some (s', n')"
    "i64_ok s" "i64_ok n" "i64_ok s'" "i64_ok n'"
    "0 \<le> n" "n < 1000000000" "s * 1000000000 + n = int (elapsed_ns c)" "s' * 1000000000 + n' = int (elapsed_ns c')"
    using compute_time_monotone [OF assms(1-3)] by blast
  from put_pair_stores [OF assms(4) t(3,4)] put_pair_stores [OF assms(5) t(5,6)] t assms(2) show ?thesis
    by (fastforce simp: t(1,2))
qed

definition demo_time :: "unit kernel" where
  "demo_time = (kernel_new_inner [] [] (replicate 32 0) \<lparr>root = [], cwd = []\<rparr> ())\<lparr>k_memory := Some (Owned (replicate 32 0))\<rparr>"

lemma demo_time_buf: "guest_slice_mut (k_memory demo_time) 8 16 = Inr (8, 16)"
  by (simp add: demo_time_def guest_slice_mut_def guest_range_def kernel_memory_def usize_checked_add_def ok_or_def res_bind_def)

theorem clock_gettime_monotone_witness:
  "\<exists>k1 k2 s n s' n'.
     sys_clock_gettime \<lparr>utc_sec = 0, utc_nsec = 0, elapsed_ns = 5\<rparr> demo_time (Args 1 8 0 0 0 0) = (0, k1) \<and>
     pair_at (k_memory k1) 8 = Inr (s, n) \<and>
     sys_clock_gettime \<lparr>utc_sec = 0, utc_nsec = 0, elapsed_ns = 7\<rparr> demo_time (Args 1 8 0 0 0 0) = (0, k2) \<and>
     pair_at (k_memory k2) 8 = Inr (s', n') \<and> s * 1000000000 + n = 5 \<and> s * 1000000000 + n \<le> s' * 1000000000 + n'"
  using clock_gettime_monotone [of 1 "\<lparr>utc_sec = 0, utc_nsec = 0, elapsed_ns = 5\<rparr>" "\<lparr>utc_sec = 0, utc_nsec = 0, elapsed_ns = 7\<rparr>",
      OF _ _ _ demo_time_buf demo_time_buf]
  by (fastforce simp: is_monotonic_def clock_consts simp del: sys_clock_gettime.simps)

text \<open>
  \<open>gettimeofday\<close> runs backwards: one microsecond later on both host clocks, as the kernel completes a
  second of uptime, the guest reads a time of day almost one second earlier.
\<close>

lemma gettimeofday_backwards:
  assumes "guest_slice_mut (k_memory k) tp 16 = Inr b"
  defines "c \<equiv> \<lparr>utc_sec = 100, utc_nsec = 0, elapsed_ns = 999999000\<rparr>"
  defines "c' \<equiv> \<lparr>utc_sec = 100, utc_nsec = 1000, elapsed_ns = 1000000000\<rparr>"
  shows "\<exists>k1 k2. sys_gettimeofday c k (Args tp 0 0 0 0 0) = (0, k1) \<and> pair_at (k_memory k1) tp = Inr (100, 999999) \<and>
    sys_gettimeofday c' k (Args tp 0 0 0 0 0) = (0, k2) \<and> pair_at (k_memory k2) tp = Inr (100, 1)"
proof -
  have "sys_gettimeofday c k (Args tp 0 0 0 0 0) = put_pair k tp 100 999999"
    "sys_gettimeofday c' k (Args tp 0 0 0 0 0) = put_pair k tp 100 1"
    by (simp_all add: c_def c'_def timestamp_micros_def signed_divide_int_def signed_modulo_int_def)
  with put_pair_stores [OF assms(1), of 100 999999] put_pair_stores [OF assms(1), of 100 1] show ?thesis
    by (simp add: i64_ok_def)
qed

text \<open>The longest sleeps wrap: this one asks for 2 to the 63 seconds and does not sleep at all.\<close>

lemma longest_sleep_wraps: "sleep_ns (2 ^ 63 - 1) 1 = 0"
  by (simp add: sleep_ns_def u64_saturating_mul_def)

end
