(* ===== verification/Sys_Socket.thy ===== *)
theory Sys_Socket
  imports Resolver Net_Host
begin

text \<open>
  The control plane of \<^verbatim>\<open>src/src/sys/socket.rs\<close> and \<^verbatim>\<open>src/src/sys/udp.rs\<close>: socket creation, addresses, \<open>bind\<close>,
  \<open>listen\<close>, \<open>accept4\<close>, \<open>connect\<close>, \<open>socketpair\<close>, options, names and \<open>shutdown\<close>.  A handler that awaits the
  host returns \<open>Park\<close> with what it keeps across the await; its \<open>_resume\<close> function is the rest of the handler,
  with the awaited result as argument, run on the kernel as it is by then.  Dropping a handle closes it; the
  model leaves that to the host.  \<open>None\<close> as the result of a handler is a panic.
\<close>

section \<open>Constants\<close>

definition AF_UNIX :: int where "AF_UNIX = 1"
definition AF_INET :: int where "AF_INET = 2"
definition AF_INET6 :: int where "AF_INET6 = 10"
definition SOCK_STREAM :: int where "SOCK_STREAM = 1"
definition SOCK_DGRAM :: int where "SOCK_DGRAM = 2"
definition SOCK_NONBLOCK :: int where "SOCK_NONBLOCK = 0x800"
definition SOCKADDR_UN_SIZE :: int where "SOCKADDR_UN_SIZE = 110"
definition SOL_SOCKET :: int where "SOL_SOCKET = 1"
definition IPPROTO_TCP :: int where "IPPROTO_TCP = 6"
definition SO_REUSEADDR :: int where "SO_REUSEADDR = 2"
definition SO_KEEPALIVE :: int where "SO_KEEPALIVE = 9"
definition SO_TYPE :: int where "SO_TYPE = 3"
definition SO_ERROR :: int where "SO_ERROR = 4"
definition SO_DOMAIN :: int where "SO_DOMAIN = 39"
definition SO_ACCEPTCONN :: int where "SO_ACCEPTCONN = 30"
definition TCP_NODELAY :: int where "TCP_NODELAY = 1"
definition SHUT_RD :: int where "SHUT_RD = 0"
definition SHUT_WR :: int where "SHUT_WR = 1"
definition SHUT_RDWR :: int where "SHUT_RDWR = 2"

lemmas sock_consts = AF_UNIX_def AF_INET_def AF_INET6_def SOCK_STREAM_def SOCK_DGRAM_def SOCK_NONBLOCK_def
  SOCKADDR_UN_SIZE_def SOL_SOCKET_def IPPROTO_TCP_def SO_REUSEADDR_def SO_KEEPALIVE_def SO_TYPE_def SO_ERROR_def
  SO_DOMAIN_def SO_ACCEPTCONN_def TCP_NODELAY_def SHUT_RD_def SHUT_WR_def SHUT_RDWR_def SOCKADDR_IN_SIZE_def
  SOCKADDR_IN6_SIZE_def

section \<open>Addresses in guest memory\<close>

text \<open>\<open>u16::from_be_bytes\<close>.\<close>

definition be_u16 :: "bytes \<Rightarrow> u16" where
  "be_u16 bs = word_of_int (le_uint (rev bs))"

definition parse_sockaddr :: "memory_kind option \<Rightarrow> int \<Rightarrow> int \<Rightarrow> sock_addr res" where
  "parse_sockaddr mem addr_ptr addr_len =
     (if addr_ptr = 0 \<or> addr_len = 0 then Inl (- EDESTADDRREQ)
      else case usize_try_from addr_len of
        None \<Rightarrow> Inl (- EINVAL)
      | Some len \<Rightarrow>
          res_bind (guest_slice mem addr_ptr 2) (\<lambda>header.
            let family = le_uint header
            in if family = AF_INET then
                 if len < SOCKADDR_IN_SIZE then Inl (- EINVAL)
                 else res_bind (guest_slice mem addr_ptr (int SOCKADDR_IN_SIZE)) (\<lambda>bs.
                        Inr (V4 (be_u16 (slice 2 2 bs)) (slice 4 4 bs)))
               else if family = AF_INET6 then
                 if len < SOCKADDR_IN6_SIZE then Inl (- EINVAL)
                 else res_bind (guest_slice mem addr_ptr (int SOCKADDR_IN6_SIZE)) (\<lambda>bs.
                        Inr (V6 (be_u16 (slice 2 2 bs)) (slice 8 16 bs)))
               else if family = AF_UNIX then
                 if len < 3 then Inl (- EINVAL)
                 else res_bind (guest_slice mem addr_ptr SOCKADDR_UN_SIZE) (\<lambda>bs.
                        if bs ! 2 = 0 then Inl (- EOPNOTSUPP)
                        else let path = until_nul (slice 2 108 bs)
                             in if utf8_valid path then Inr (Unix path) else Inl (- EINVAL))
               else Inl (- EAFNOSUPPORT)))"

text \<open>The encoders of \<open>accept4\<close>, \<open>getsockname\<close> and \<open>getpeername\<close>.\<close>

definition inet_bytes :: "u16 \<Rightarrow> bytes \<Rightarrow> bytes" where
  "inet_bytes port ip = le_bytes 2 AF_INET @ be16 port @ ip @ replicate 8 0"

definition inet6_bytes :: "u16 \<Rightarrow> bytes \<Rightarrow> bytes" where
  "inet6_bytes port ip = le_bytes 2 AF_INET6 @ be16 port @ replicate 4 0 @ ip @ replicate 4 0"

text \<open>A path of 108 bytes or more puts its terminator past the 110-byte buffer: an out-of-bounds panic.\<close>

definition un_bytes :: "bytes option \<Rightarrow> bytes option" where
  "un_bytes p =
     (case p of
        None \<Rightarrow> Some (le_bytes 2 AF_UNIX @ replicate 108 0)
      | Some path \<Rightarrow>
          if length path \<ge> 108 then None
          else Some (le_bytes 2 AF_UNIX @ path @ replicate (108 - length path) 0))"

definition un_len :: "bytes option \<Rightarrow> int" where
  "un_len p = (case p of None \<Rightarrow> 2 | Some path \<Rightarrow> 2 + int (length path) + 1)"

definition to_str :: "bytes \<Rightarrow> bytes option" where
  "to_str p = (if utf8_valid p then Some p else None)"

text \<open>\<open>std::os::unix::net::SocketAddr::from_pathname\<close>.\<close>

definition from_pathname :: "bytes \<Rightarrow> bytes option" where
  "from_pathname p = (if 0 \<in> set p \<or> length p \<ge> 108 then None else Some p)"

text \<open>\<open>if let Ok(buf) = guest_slice_mut(...)\<close>, and the checks of optional result pointers.\<close>

definition poke :: "'h kernel \<Rightarrow> int \<Rightarrow> bytes \<Rightarrow> 'h kernel" where
  "poke k ptr bs = (case guest_slice_mut (k_memory k) ptr (int (length bs)) of Inl _ \<Rightarrow> k | Inr (p, _) \<Rightarrow> k_write k p bs)"

definition poke_len :: "'h kernel \<Rightarrow> int \<Rightarrow> int \<Rightarrow> 'h kernel" where
  "poke_len k ptr n = (if ptr \<noteq> 0 then poke k ptr (le_bytes 4 n) else k)"

definition opt_range :: "'h kernel \<Rightarrow> int \<Rightarrow> int \<Rightarrow> unit res" where
  "opt_range k ptr len =
     (if ptr \<noteq> 0 then res_bind (guest_slice_mut (k_memory k) ptr len) (\<lambda>_. Inr ()) else Inr ())"

section \<open>Sockets by descriptor\<close>

definition sock_ref :: "'h kernel \<Rightarrow> u32 \<Rightarrow> nat res" where
  "sock_ref k fd = (case fd_get (k_fds k) fd of Inr (RSocket r) \<Rightarrow> Inr r | Inr _ \<Rightarrow> Inl (- EBADF) | Inl e \<Rightarrow> Inl e)"

definition insert_socket :: "'h kernel \<Rightarrow> socket_inner \<Rightarrow> u32 \<times> 'h kernel" where
  "insert_socket k s =
     (let (fd, t) = fd_insert (k_fds k) (RSocket (length (k_sockets k)))
      in (fd, k\<lparr>k_sockets := k_sockets k @ [s], k_fds := t\<rparr>))"

text \<open>\<open>if let Ok(Resource::Socket(s)) = fds.get_mut(fd)\<close>.\<close>

definition upd_socket :: "'h kernel \<Rightarrow> u32 \<Rightarrow> (socket_inner \<Rightarrow> socket_inner) \<Rightarrow> 'h kernel" where
  "upd_socket k fd f = (case sock_ref k fd of Inl _ \<Rightarrow> k | Inr r \<Rightarrow> set_socket k r (f (k_sockets k ! r)))"

definition socket_kind_of :: "int \<Rightarrow> int \<Rightarrow> socket_kind res" where
  "socket_kind_of family sock_type =
     (if family = AF_INET \<or> family = AF_INET6 \<or> family = AF_UNIX then
        if sock_type = SOCK_STREAM then Inr Stream
        else if sock_type = SOCK_DGRAM then Inr Datagram else Inl (- EPROTONOSUPPORT)
      else Inl (- EAFNOSUPPORT))"

fun sys_socket :: "'h handler" where
  "sys_socket k (Args a0 a1 _ _ _ _) =
     (let family = as_i32 a0; type_and_flags = as_i32 a1;
          nonblock = (type_and_flags AND SOCK_NONBLOCK \<noteq> 0)
      in try_ret (socket_kind_of family (type_and_flags AND 0xf)) k (\<lambda>kind.
           let s = (if family = AF_UNIX then socket_new_unix kind nonblock
                    else if family = AF_INET6
                    then (socket_new kind nonblock)\<lparr>s_family_v6 := True, s_ipv6_v6only := True\<rparr>
                    else socket_new kind nonblock);
               (fd, k1) = insert_socket k s
           in (uint fd, k1)))"

section \<open>UDP state\<close>

definition RECV_QUEUE_CAP :: nat where "RECV_QUEUE_CAP = 4096"

definition udp_new :: "bool \<Rightarrow> bool \<Rightarrow> bool \<Rightarrow> udp_socket_state" where
  "udp_new family_v6 ipv6_v6only so_reuseaddr =
     \<lparr>ud_socket = None, ud_recv_queue = [], ud_bound_addr = None, ud_peer_addr = None, ud_family_v6 = family_v6,
      ud_ipv6_v6only = ipv6_v6only, ud_so_reuseaddr = so_reuseaddr, ud_shutdown_flags = 0, ud_pump = False,
      ud_pump_cancel = False\<rparr>"

definition has_pending :: "udp_socket_state \<Rightarrow> bool" where
  "has_pending u \<longleftrightarrow> ud_recv_queue u \<noteq> []"

definition try_dequeue :: "udp_socket_state \<Rightarrow> (bytes \<times> sock_addr) option \<times> udp_socket_state" where
  "try_dequeue u =
     (case ud_recv_queue u of [] \<Rightarrow> (None, u) | d # ds \<Rightarrow> (Some d, u\<lparr>ud_recv_queue := ds\<rparr>))"

definition enqueue :: "udp_socket_state \<Rightarrow> bytes \<Rightarrow> sock_addr \<Rightarrow> bool \<times> udp_socket_state" where
  "enqueue u bs addr =
     (let q = ud_recv_queue u; q' = (if length q \<ge> RECV_QUEUE_CAP then tl q else q)
      in (q = [], u\<lparr>ud_recv_queue := q' @ [(bs, addr)]\<rparr>))"

definition request_pump_cancel :: "udp_socket_state \<Rightarrow> udp_socket_state" where
  "request_pump_cancel u = u\<lparr>ud_pump_cancel := True\<rparr>"

definition bind_errno :: "io_kind \<Rightarrow> int" where
  "bind_errno e =
     (case e of AddrInUse \<Rightarrow> - EADDRINUSE | AddrNotAvailable \<Rightarrow> - EADDRNOTAVAIL | PermissionDenied \<Rightarrow> - EACCES | _ \<Rightarrow> - EIO)"

definition ensure_bound ::
  "'h sock_ops \<Rightarrow> udp_socket_state \<Rightarrow> sock_addr \<Rightarrow> 'h \<Rightarrow> sock_addr res \<times> udp_socket_state \<times> 'h" where
  "ensure_bound X u requested h =
     (case ud_socket u of
        Some s \<Rightarrow> (case x_local_addr X s h of Inl _ \<Rightarrow> Inl (- EIO) | Inr a \<Rightarrow> Inr a, u, h)
      | None \<Rightarrow>
          (case x_udp_socket X (ud_family_v6 u) h of
             (Inl e, h1) \<Rightarrow> (Inl (case e of PermissionDenied \<Rightarrow> - EACCES | _ \<Rightarrow> - EIO), u, h1)
           | (Inr s, h1) \<Rightarrow>
               let h2 = (if ud_so_reuseaddr u then x_set_reuse_address X s h1 else h1);
                   h3 = (if ud_family_v6 u then x_set_only_v6 X s (ud_ipv6_v6only u) h2 else h2)
               in (case x_udp_bind X s requested h3 of
                     (Inl e, h4) \<Rightarrow> (Inl (bind_errno e), u, h4)
                   | (Inr _, h4) \<Rightarrow>
                       (case x_udp_tokio X s h4 of
                          (Inl _, h5) \<Rightarrow> (Inl (- EIO), u, h5)
                        | (Inr _, h5) \<Rightarrow>
                            (case x_local_addr X s h5 of
                               Inl _ \<Rightarrow> (Inl (- EIO), u, h5)
                             | Inr a \<Rightarrow> (Inr a, u\<lparr>ud_socket := Some s, ud_bound_addr := Some a\<rparr>, h5))))))"

section \<open>bind and listen\<close>

definition bind_listener :: "'h sock_ops \<Rightarrow> 'h kernel \<Rightarrow> u32 \<Rightarrow> bytes \<Rightarrow> int \<times> 'h kernel" where
  "bind_listener X k fd path =
     (case x_unix_bind X path (k_host k) of
        (Inl e, h) \<Rightarrow>
          (case e of AddrInUse \<Rightarrow> - EADDRINUSE | NotFound \<Rightarrow> - ENOENT | _ \<Rightarrow> - EIO, k\<lparr>k_host := h\<rparr>)
      | (Inr l, h) \<Rightarrow>
          let k1 = k\<lparr>k_host := h\<rparr>
          in try_ret (sock_ref k1 fd) k1 (\<lambda>r.
               let s = k_sockets k1 ! r
               in (0, set_socket k1 r
                        (s\<lparr>s_bound := Some (Unix path),
                           s_unix := map_option (\<lambda>u. u\<lparr>ux_path := Some path, ux_listener := Some l\<rparr>) (s_unix s)\<rparr>))))"

definition bind_unix :: "'h sock_ops \<Rightarrow> 'h kernel \<Rightarrow> u32 \<Rightarrow> bytes \<Rightarrow> int \<times> 'h kernel" where
  "bind_unix X k fd path =
     (if \<not> (case fd_get (k_fds k) fd of Inr (RSocket r) \<Rightarrow> s_family_unix (k_sockets k ! r) | _ \<Rightarrow> False)
      then (- EOPNOTSUPP, k)
      else case x_is_socket X path (k_host k) of
        Inr True \<Rightarrow>
          (case x_remove_file X path (k_host k) of
             (Inl e, h) \<Rightarrow> (case e of NotFound \<Rightarrow> 0 | _ \<Rightarrow> - EADDRINUSE, k\<lparr>k_host := h\<rparr>)
           | (Inr _, h) \<Rightarrow> bind_listener X (k\<lparr>k_host := h\<rparr>) fd path)
      | Inr False \<Rightarrow> (- EADDRINUSE, k)
      | Inl NotFound \<Rightarrow> bind_listener X k fd path
      | Inl PermissionDenied \<Rightarrow> (- EACCES, k)
      | Inl _ \<Rightarrow> (- EIO, k))"

fun wrong_family :: "bool \<Rightarrow> sock_addr \<Rightarrow> bool" where
  "wrong_family family_v6 (V4 _ _) = family_v6"
| "wrong_family family_v6 (V6 _ _) = (\<not> family_v6)"
| "wrong_family family_v6 (Unix _) = False"

definition bind_udp :: "'h sock_ops \<Rightarrow> 'h kernel \<Rightarrow> nat \<Rightarrow> sock_addr \<Rightarrow> int \<times> 'h kernel" where
  "bind_udp X k r addr =
     (let s = k_sockets k ! r
      in if wrong_family (s_family_v6 s) addr then (- EINVAL, k)
         else
           let u = (case s_udp s of Some u \<Rightarrow> u | None \<Rightarrow> udp_new (s_family_v6 s) (s_ipv6_v6only s) (s_so_reuseaddr s));
               (res, u1, h) = ensure_bound X u addr (k_host k);
               s1 = s\<lparr>s_udp := Some u1\<rparr>; k1 = k\<lparr>k_host := h\<rparr>
           in case res of
                Inl e \<Rightarrow> (e, set_socket k1 r s1)
              | Inr _ \<Rightarrow>
                  (case ud_bound_addr u1 of
                     None \<Rightarrow> (- EIO, set_socket k1 r s1)
                   | Some actual \<Rightarrow> (0, set_socket k1 r (s1\<lparr>s_bound := Some actual\<rparr>))))"

fun sys_bind :: "'h sock_ops \<Rightarrow> 'h handler" where
  "sys_bind X k (Args a0 addr_ptr addr_len _ _ _) =
     (case u32_try_from a0 of
        None \<Rightarrow> (- EBADF, k)
      | Some fd \<Rightarrow>
          try_ret (parse_sockaddr (k_memory k) addr_ptr addr_len) k (\<lambda>addr.
            case addr of
              Unix path \<Rightarrow> bind_unix X k fd path
            | _ \<Rightarrow> try_ret (sock_ref k fd) k (\<lambda>r.
                let s = k_sockets k ! r
                in if s_kind s = Datagram then bind_udp X k r addr
                   else (0, set_socket k r (s\<lparr>s_bound := Some addr\<rparr>)))))"

fun sys_listen :: "'h handler" where
  "sys_listen k (Args a0 backlog _ _ _ _) =
     (case u32_try_from a0 of
        None \<Rightarrow> (- EBADF, k)
      | Some fd \<Rightarrow>
          if backlog < 0 then (- EINVAL, k)
          else try_ret (sock_ref k fd) k (\<lambda>r.
                 let s = k_sockets k ! r
                 in if s_bound s = None then (- EDESTADDRREQ, k)
                    else (0, set_socket k r (s\<lparr>s_listen_backlog := Some (as_i32 backlog)\<rparr>))))"

section \<open>accept4\<close>

datatype accept_park =
  AcceptTcp u32 hsock socket_kind bool int int
| AcceptUnix hsock bool int int

text \<open>The listener is taken out of the socket before the wait, or cloned for an \<open>AF_UNIX\<close> socket.\<close>

definition accept_take :: "'h kernel \<Rightarrow> u32 \<Rightarrow> nat \<Rightarrow> bool \<Rightarrow> int \<Rightarrow> int \<Rightarrow> accept_park outcome \<times> 'h kernel" where
  "accept_take k fd r nonblock addr_ptr addrlen_ptr =
     (let s = k_sockets k ! r
      in case s_listener s of
           None \<Rightarrow> (Ret (- EINVAL), k)
         | Some l \<Rightarrow>
             (Park (AcceptTcp fd l (s_kind s) (nonblock \<or> s_nonblock s) addr_ptr addrlen_ptr),
              set_socket k r (s\<lparr>s_listener := None\<rparr>)))"

definition accept4_tcp ::
  "'h sock_ops \<Rightarrow> 'h kernel \<Rightarrow> u32 \<Rightarrow> nat \<Rightarrow> bool \<Rightarrow> int \<Rightarrow> int \<Rightarrow> accept_park outcome \<times> 'h kernel" where
  "accept4_tcp X k fd r nonblock addr_ptr addrlen_ptr =
     (let s = k_sockets k ! r
      in if \<not> is_listening s then (Ret (- EINVAL), k)
         else case s_bound s of
           Some (V4 port addr) \<Rightarrow>
             (case s_listener s of
                Some _ \<Rightarrow> accept_take k fd r nonblock addr_ptr addrlen_ptr
              | None \<Rightarrow>
                  (case x_tcp_listen X (V4 port addr) (k_host k) of
                     (Inl _, h) \<Rightarrow> (Ret (- EADDRINUSE), k\<lparr>k_host := h\<rparr>)
                   | (Inr l, h) \<Rightarrow>
                       accept_take (set_socket (k\<lparr>k_host := h\<rparr>) r (s\<lparr>s_listener := Some l, s_is_acceptor := True\<rparr>))
                         fd r nonblock addr_ptr addrlen_ptr))
         | Some _ \<Rightarrow> (Ret (- EOPNOTSUPP), k)
         | None \<Rightarrow> (Ret (- EINVAL), k))"

definition accept4_unix ::
  "'h sock_ops \<Rightarrow> 'h kernel \<Rightarrow> nat \<Rightarrow> bool \<Rightarrow> int \<Rightarrow> int \<Rightarrow> accept_park outcome \<times> 'h kernel" where
  "accept4_unix X k r nonblock addr_ptr addrlen_ptr =
     (case res_bind (opt_range k addr_ptr SOCKADDR_UN_SIZE) (\<lambda>_. opt_range k addrlen_ptr 4) of
        Inl e \<Rightarrow> (Ret e, k)
      | Inr _ \<Rightarrow>
          let s = k_sockets k ! r
          in if \<not> is_listening s then (Ret (- EINVAL), k)
             else case s_unix s of
               None \<Rightarrow> (Ret (- EINVAL), k)
             | Some u \<Rightarrow>
                 (case ux_listener u of
                    None \<Rightarrow> (Ret (- EINVAL), k)
                  | Some l \<Rightarrow>
                      (case x_unix_clone X l (k_host k) of
                         (Inl _, h) \<Rightarrow>
                           (Ret (- ENOMEM),
                            set_socket (k\<lparr>k_host := h\<rparr>) r (s\<lparr>s_unix := Some (u\<lparr>ux_listener := None\<rparr>)\<rparr>))
                       | (Inr c, h) \<Rightarrow> (Park (AcceptUnix c nonblock addr_ptr addrlen_ptr), k\<lparr>k_host := h\<rparr>))))"

fun sys_accept4 :: "'h sock_ops \<Rightarrow> 'h kernel \<Rightarrow> args \<Rightarrow> accept_park outcome \<times> 'h kernel" where
  "sys_accept4 X k (Args a0 addr_ptr addrlen_ptr a3 _ _) =
     (case u32_try_from a0 of
        None \<Rightarrow> (Ret (- EBADF), k)
      | Some fd \<Rightarrow>
          let nonblock = (as_i32 a3 AND SOCK_NONBLOCK \<noteq> 0)
          in case res_bind (opt_range k addr_ptr 16) (\<lambda>_. res_bind (opt_range k addrlen_ptr 4) (\<lambda>_. sock_ref k fd)) of
               Inl e \<Rightarrow> (Ret e, k)
             | Inr r \<Rightarrow>
                 if s_family_unix (k_sockets k ! r) then accept4_unix X k r nonblock addr_ptr addrlen_ptr
                 else accept4_tcp X k fd r nonblock addr_ptr addrlen_ptr)"

fun sys_accept :: "'h sock_ops \<Rightarrow> 'h kernel \<Rightarrow> args \<Rightarrow> accept_park outcome \<times> 'h kernel" where
  "sys_accept X k (Args a0 a1 a2 _ _ _) = sys_accept4 X k (Args a0 a1 a2 0 0 0)"

text \<open>After the wait: a TCP connection with its peer, or an \<open>AF_UNIX\<close> one with its peer's path if it has one.\<close>

definition accept_tcp_resume ::
  "'h kernel \<Rightarrow> u32 \<Rightarrow> hsock \<Rightarrow> socket_kind \<Rightarrow> bool \<Rightarrow> int \<Rightarrow> int \<Rightarrow> (hsock \<times> sock_addr) io \<Rightarrow> int \<times> 'h kernel" where
  "accept_tcp_resume k fd l kind nonblock addr_ptr addrlen_ptr result =
     (case result of
        Inl _ \<Rightarrow> (- EIO, k)
      | Inr (stream, peer) \<Rightarrow>
          try_ret
            (if addr_ptr = 0 then Inr k
             else case guest_slice_mut (k_memory k) addr_ptr 16 of
               Inl _ \<Rightarrow> Inr k
             | Inr (p, _) \<Rightarrow> (case peer of V4 port ip \<Rightarrow> Inr (k_write k p (inet_bytes port ip)) | _ \<Rightarrow> Inl (- EOPNOTSUPP)))
            k (\<lambda>k1.
              let k2 = poke_len k1 addrlen_ptr 16;
                  k3 = upd_socket k2 fd (\<lambda>s. if s_listener s = None then s\<lparr>s_listener := Some l\<rparr> else s);
                  (new_fd, k4) = insert_socket k3 ((from_accepted stream kind nonblock)\<lparr>s_peer_addr := Some peer\<rparr>)
              in (uint new_fd, k4)))"

definition accept_unix_resume ::
  "'h kernel \<Rightarrow> bool \<Rightarrow> int \<Rightarrow> int \<Rightarrow> (hsock \<times> bytes option) io \<Rightarrow> (int \<times> 'h kernel) option" where
  "accept_unix_resume k nonblock addr_ptr addrlen_ptr result =
     (case result of
        Inl _ \<Rightarrow> Some (- EIO, k)
      | Inr (stream, peer) \<Rightarrow>
          let name = Option.bind peer to_str
          in Option.bind
               (if addr_ptr = 0 then Some k
                else case guest_slice_mut (k_memory k) addr_ptr SOCKADDR_UN_SIZE of
                  Inl _ \<Rightarrow> Some k
                | Inr (p, _) \<Rightarrow> map_option (k_write k p) (un_bytes name))
               (\<lambda>k1.
                 let k2 = poke_len k1 addrlen_ptr (un_len name);
                     s = (socket_new_unix Stream nonblock)
                           \<lparr>s_stream_unix := Some stream, s_peer_addr_unix := Option.bind peer from_pathname\<rparr>;
                     (new_fd, k3) = insert_socket k2 s
                 in Some (uint new_fd, k3)))"

section \<open>connect and socketpair\<close>

datatype connect_park = ConnectUnix u32 bytes | ConnectTcp u32 sock_addr

fun sys_connect :: "'h kernel \<Rightarrow> args \<Rightarrow> connect_park outcome" where
  "sys_connect k (Args a0 addr_ptr addr_len _ _ _) =
     (case u32_try_from a0 of
        None \<Rightarrow> Ret (- EBADF)
      | Some fd \<Rightarrow>
          (case parse_sockaddr (k_memory k) addr_ptr addr_len of
             Inl e \<Rightarrow> Ret e
           | Inr (Unix path) \<Rightarrow>
               (case sock_ref k fd of
                  Inl e \<Rightarrow> Ret e
                | Inr r \<Rightarrow>
                    let s = k_sockets k ! r
                    in if \<not> s_family_unix s then Ret (- EOPNOTSUPP)
                       else if s_stream_unix s \<noteq> None then Ret (- EISCONN)
                       else Park (ConnectUnix fd path))
           | Inr (V6 _ _) \<Rightarrow> Ret (- EOPNOTSUPP)
           | Inr (V4 port addr) \<Rightarrow>
               (case sock_ref k fd of
                  Inl e \<Rightarrow> Ret e
                | Inr r \<Rightarrow>
                    if s_stream (k_sockets k ! r) \<noteq> None then Ret (- EISCONN) else Park (ConnectTcp fd (V4 port addr)))))"

definition connect_errno :: "io_kind \<Rightarrow> int" where
  "connect_errno e =
     (case e of ConnectionRefused \<Rightarrow> ECONNREFUSED | AddrInUse \<Rightarrow> EADDRINUSE | TimedOut \<Rightarrow> ETIMEDOUT | _ \<Rightarrow> EIO)"

fun connect_resume :: "'h kernel \<Rightarrow> connect_park \<Rightarrow> hsock io \<Rightarrow> int \<times> 'h kernel" where
  "connect_resume k (ConnectUnix fd path) result =
     (case result of
        Inl e \<Rightarrow> (case e of NotFound \<Rightarrow> - ECONNREFUSED | _ \<Rightarrow> - EIO, k)
      | Inr stream \<Rightarrow>
          try_ret (sock_ref k fd) k (\<lambda>r.
            let s = (k_sockets k ! r)\<lparr>s_bound := Some (Unix path), s_stream_unix := Some stream\<rparr>
            in (0, set_socket k r
                     (case from_pathname path of None \<Rightarrow> s | Some p \<Rightarrow> s\<lparr>s_peer_addr_unix := Some p\<rparr>))))"
| "connect_resume k (ConnectTcp fd target) result =
     (case result of
        Inl e \<Rightarrow> (- connect_errno e, upd_socket k fd (\<lambda>s. s\<lparr>s_last_error := connect_errno e\<rparr>))
      | Inr stream \<Rightarrow>
          try_ret (sock_ref k fd) k (\<lambda>r.
            (0, set_socket k r ((k_sockets k ! r)\<lparr>s_stream := Some stream, s_peer_addr := Some target\<rparr>))))"

fun sys_socketpair :: "'h sock_ops \<Rightarrow> 'h handler" where
  "sys_socketpair X k (Args a0 a1 _ sv_ptr _ _) =
     (let sock_type = as_i32 a1 AND 0xf
      in if as_i32 a0 \<noteq> AF_UNIX then (- EAFNOSUPPORT, k)
         else if sock_type \<noteq> SOCK_STREAM \<and> sock_type \<noteq> SOCK_DGRAM then (- EPROTONOSUPPORT, k)
         else if sv_ptr = 0 then (- EFAULT, k)
         else try_ret (guest_slice_mut (k_memory k) sv_ptr 8) k (\<lambda>_.
                case x_unix_pair X (k_host k) of
                  (Inl _, h) \<Rightarrow> (- EIO, k\<lparr>k_host := h\<rparr>)
                | (Inr (a, b), h) \<Rightarrow>
                    let kind = (if sock_type = SOCK_DGRAM then Datagram else Stream);
                        (a_fd, k1) = insert_socket (k\<lparr>k_host := h\<rparr>) ((socket_new_unix kind False)\<lparr>s_stream_unix := Some a\<rparr>);
                        (b_fd, k2) = insert_socket k1 ((socket_new_unix kind False)\<lparr>s_stream_unix := Some b\<rparr>)
                    in (0, poke k2 sv_ptr (le_bytes 4 (uint a_fd) @ le_bytes 4 (uint b_fd)))))"

section \<open>Options\<close>

definition set_option :: "int \<Rightarrow> int \<Rightarrow> socket_inner \<Rightarrow> socket_inner" where
  "set_option level optname s =
     (if level = SOL_SOCKET \<and> optname = SO_REUSEADDR then s\<lparr>s_so_reuseaddr := True\<rparr>
      else if level = SOL_SOCKET \<and> optname = SO_KEEPALIVE then s\<lparr>s_so_keepalive := True\<rparr>
      else if level = IPPROTO_TCP \<and> optname = TCP_NODELAY then s\<lparr>s_tcp_nodelay := True\<rparr>
      else s)"

fun sys_setsockopt :: "'h handler" where
  "sys_setsockopt k (Args a0 a1 a2 optval_ptr optlen _) =
     (case u32_try_from a0 of
        None \<Rightarrow> (- EBADF, k)
      | Some fd \<Rightarrow>
          try_ret (if optval_ptr \<noteq> 0 \<and> optlen > 0 then guest_slice (k_memory k) optval_ptr optlen else Inr []) k (\<lambda>_.
            try_ret (sock_ref k fd) k (\<lambda>r.
              (0, set_socket k r (set_option (as_i32 a1) (as_i32 a2) (k_sockets k ! r))))))"

text \<open>The value of an option and the socket afterwards: reading \<open>SO_ERROR\<close> clears it.\<close>

definition get_option :: "int \<Rightarrow> int \<Rightarrow> socket_inner \<Rightarrow> int \<times> socket_inner" where
  "get_option level optname s =
     (if level = SOL_SOCKET \<and> optname = SO_TYPE then (1, s)
      else if level = SOL_SOCKET \<and> optname = SO_DOMAIN then (2, s)
      else if level = SOL_SOCKET \<and> optname = SO_ERROR then (s_last_error s, s\<lparr>s_last_error := 0\<rparr>)
      else if level = SOL_SOCKET \<and> optname = SO_ACCEPTCONN then (of_bool (s_is_acceptor s), s)
      else if level = SOL_SOCKET \<and> optname = SO_REUSEADDR then (of_bool (s_so_reuseaddr s), s)
      else if level = SOL_SOCKET \<and> optname = SO_KEEPALIVE then (of_bool (s_so_keepalive s), s)
      else if level = IPPROTO_TCP \<and> optname = TCP_NODELAY then (of_bool (s_tcp_nodelay s), s)
      else (0, s))"

fun sys_getsockopt :: "'h handler" where
  "sys_getsockopt k (Args a0 a1 a2 optval_ptr optlen_ptr _) =
     (case u32_try_from a0 of
        None \<Rightarrow> (- EBADF, k)
      | Some fd \<Rightarrow>
          if optval_ptr = 0 then (- EFAULT, k)
          else case sock_ref k fd of
            Inl _ \<Rightarrow> (- EBADF, k)
          | Inr r \<Rightarrow>
              let (value, s) = get_option (as_i32 a1) (as_i32 a2) (k_sockets k ! r); k1 = set_socket k r s
              in try_ret (guest_slice_mut (k_memory k1) optval_ptr 4) k1 (\<lambda>(p, _).
                   (0, poke_len (k_write k1 p (le_bytes 4 value)) optlen_ptr 4)))"

section \<open>Names\<close>

fun addr_bytes :: "sock_addr \<Rightarrow> bytes" where
  "addr_bytes (V4 port ip) = inet_bytes port ip"
| "addr_bytes (V6 port ip) = inet6_bytes port ip"
| "addr_bytes (Unix _) = []"

definition name_unix ::
  "'h kernel \<Rightarrow> int \<Rightarrow> int \<Rightarrow> bytes option res \<Rightarrow> (int \<times> 'h kernel) option" where
  "name_unix k addr_ptr addrlen_ptr name =
     (case res_bind (guest_slice_mut (k_memory k) addr_ptr SOCKADDR_UN_SIZE) (\<lambda>_.
             res_bind (opt_range k addrlen_ptr 4) (\<lambda>_. name)) of
        Inl e \<Rightarrow> Some (e, k)
      | Inr nm \<Rightarrow> map_option (\<lambda>bs. (0, poke_len (poke k addr_ptr bs) addrlen_ptr (un_len nm))) (un_bytes nm))"

definition bound_path :: "socket_inner \<Rightarrow> bytes option" where
  "bound_path s = (case s_bound s of Some (Unix path) \<Rightarrow> to_str path | _ \<Rightarrow> None)"

definition local_addr :: "socket_inner \<Rightarrow> sock_addr res" where
  "local_addr s =
     (case s_bound s of
        Some (Unix _) \<Rightarrow> Inl (- EINVAL)
      | Some a \<Rightarrow> Inr a
      | None \<Rightarrow> Inr (case s_peer_addr s of Some p \<Rightarrow> p | None \<Rightarrow> V4 0 [0, 0, 0, 0]))"

fun sys_getsockname :: "'h kernel \<Rightarrow> args \<Rightarrow> (int \<times> 'h kernel) option" where
  "sys_getsockname k (Args a0 addr_ptr addrlen_ptr _ _ _) =
     (case u32_try_from a0 of
        None \<Rightarrow> Some (- EBADF, k)
      | Some fd \<Rightarrow>
          if addr_ptr = 0 then Some (- EFAULT, k)
          else case sock_ref k fd of
            Inl e \<Rightarrow> Some (e, k)
          | Inr r \<Rightarrow>
              let s = k_sockets k ! r
              in if s_family_unix s then name_unix k addr_ptr addrlen_ptr (Inr (bound_path s))
                 else Some (try_ret (guest_slice_mut (k_memory k) addr_ptr (int SOCKADDR_IN6_SIZE)) k (\<lambda>_.
                        try_ret (opt_range k addrlen_ptr 4) k (\<lambda>_.
                          try_ret (local_addr s) k (\<lambda>a.
                            (0, poke_len (poke k addr_ptr (addr_bytes a)) addrlen_ptr (int (length (addr_bytes a)))))))))"

fun sys_getpeername :: "'h kernel \<Rightarrow> args \<Rightarrow> (int \<times> 'h kernel) option" where
  "sys_getpeername k (Args a0 addr_ptr addrlen_ptr _ _ _) =
     (case u32_try_from a0 of
        None \<Rightarrow> Some (- EBADF, k)
      | Some fd \<Rightarrow>
          if addr_ptr = 0 then Some (- EFAULT, k)
          else case sock_ref k fd of
            Inl e \<Rightarrow> Some (e, k)
          | Inr r \<Rightarrow>
              let s = k_sockets k ! r
              in if s_family_unix s
                 then name_unix k addr_ptr addrlen_ptr
                        (case s_peer_addr_unix s of None \<Rightarrow> Inl (- ENOTCONN) | Some p \<Rightarrow> Inr (to_str p))
                 else Some (try_ret (guest_slice_mut (k_memory k) addr_ptr (int SOCKADDR_IN_SIZE)) k (\<lambda>_.
                        try_ret (opt_range k addrlen_ptr 4) k (\<lambda>_.
                          case s_peer_addr s of
                            None \<Rightarrow> (- ENOTCONN, k)
                          | Some (V4 port ip) \<Rightarrow> (0, poke_len (poke k addr_ptr (inet_bytes port ip)) addrlen_ptr 16)
                          | Some _ \<Rightarrow> (- EINVAL, k)))))"

section \<open>shutdown\<close>

definition shut_mask :: "int \<Rightarrow> u8 option" where
  "shut_mask how =
     (if how = SHUT_RD then Some 1 else if how = SHUT_WR then Some 2 else if how = SHUT_RDWR then Some 3 else None)"

text \<open>Closing the write side takes the TCP stream out and awaits its shutdown; it is not put back.\<close>

fun sys_shutdown :: "'h kernel \<Rightarrow> args \<Rightarrow> hsock outcome \<times> 'h kernel" where
  "sys_shutdown k (Args a0 a1 _ _ _ _) =
     (case u32_try_from a0 of
        None \<Rightarrow> (Ret (- EBADF), k)
      | Some fd \<Rightarrow>
          (case shut_mask (as_i32 a1) of
             None \<Rightarrow> (Ret (- EINVAL), k)
           | Some m \<Rightarrow>
               (case sock_ref k fd of
                  Inl e \<Rightarrow> (Ret e, k)
                | Inr r \<Rightarrow>
                    let s = (k_sockets k ! r)\<lparr>s_shutdown_flags := s_shutdown_flags (k_sockets k ! r) OR m\<rparr>
                    in if m AND 2 \<noteq> 0 then
                         case s_stream s of
                           None \<Rightarrow> (Ret 0, set_socket k r s)
                         | Some stream \<Rightarrow> (Park stream, set_socket k r (s\<lparr>s_stream := None\<rparr>))
                       else (Ret 0, set_socket k r s))))"

definition shutdown_resume :: "'h kernel \<Rightarrow> int \<times> 'h kernel" where
  "shutdown_resume k = (0, k)"

section \<open>Addresses survive the round trip through guest memory\<close>

fun addr_ok :: "sock_addr \<Rightarrow> bool" where
  "addr_ok (V4 _ ip) = (length ip = 4)"
| "addr_ok (V6 _ ip) = (length ip = 16)"
| "addr_ok (Unix _) = False"

lemma be_u16_be16 [simp]: "be_u16 (be16 port) = port"
  using le_u16_roundtrip [of port] by (simp add: be_u16_def be16_def)

lemma length_be16 [simp]: "length (be16 port) = 2"
  by (simp add: be16_def)

lemma length_addr_bytes: "addr_ok a \<Longrightarrow> length (addr_bytes a) = 16 \<or> length (addr_bytes a) = 28"
  by (cases a) (simp_all add: inet_bytes_def inet6_bytes_def)

lemma parse_sockaddr_ok:
  assumes "parse_sockaddr mem p l = Inr a" "\<nexists>path. a = Unix path"
  shows "addr_ok a"
  using assms
  by (auto simp: parse_sockaddr_def res_bind_Inr Let_def SOCKADDR_IN_SIZE_def SOCKADDR_IN6_SIZE_def
      dest!: guest_slice_length split: if_splits option.splits)

text \<open>Reading the family, and then the whole address, from what an encoder wrote.\<close>

lemma guest_slice_prefix:
  assumes "guest_slice mem p (int n) = Inr bs" "m \<le> n"
  shows "guest_slice mem p (int m) = Inr (take m bs)"
proof -
  from assms(1) obtain q l where r: "guest_range mem p (int n) = Inr (q, l)"
    by (auto simp: guest_slice_def res_bind_Inr)
  from guest_range_Inr [OF r] obtain base where b: "mem = Some (Owned base)" "l = n"
    by auto
  show ?thesis
    using assms r b guest_range_shrink [OF r, of m]
    by (auto simp: guest_slice_def kernel_memory_def slice_def min_def)
qed

lemma parse_encoded:
  assumes "addr_ok a" "guest_slice mem q (int (length (addr_bytes a))) = Inr (addr_bytes a)" "q \<noteq> 0"
  shows "parse_sockaddr mem q 28 = Inr a"
proof -
  have h: "guest_slice mem q 2 = Inr (take 2 (addr_bytes a))"
    using guest_slice_prefix [OF assms(2), of 2] length_addr_bytes [OF assms(1)] by auto
  show ?thesis
  proof (cases a)
    case (V4 port ip)
    then show ?thesis using assms h
      by (simp add: parse_sockaddr_def usize_try_from_def inet_bytes_def sock_consts slice_def)
  next
    case (V6 port ip)
    then show ?thesis using assms h
      by (simp add: parse_sockaddr_def usize_try_from_def inet6_bytes_def sock_consts slice_def)
  qed (use assms(1) in simp)
qed

lemma poke_read:
  assumes "guest_slice_mut (k_memory k) ptr len = Inr r" "length bs \<le> nat len"
  shows "guest_slice (k_memory (poke k ptr bs)) ptr (int (length bs)) = Inr bs"
proof -
  from assms obtain p l where r: "guest_range (k_memory k) ptr len = Inr (p, l)" "l = nat len"
    using guest_range_Inr [of "k_memory k" ptr len "fst r" "snd r"] by (cases r) (auto simp: guest_slice_mut_def)
  then show ?thesis
    using guest_range_shrink [OF r(1), of "length bs"] guest_write_read_prefix [OF r(1), of bs] assms(2)
    by (simp add: poke_def guest_slice_mut_def k_write_def)
qed

lemma poke_simps [simp]:
  "k_sockets (poke k ptr bs) = k_sockets k" "k_fds (poke k ptr bs) = k_fds k" "sock_ref (poke k ptr bs) fd = sock_ref k fd"
  by (simp_all add: poke_def k_write_def sock_ref_def split: sum.splits prod.splits)

text \<open>Storing a result leaves a disjoint buffer and the size of memory alone.\<close>

lemma poke_elsewhere:
  assumes "guest_slice (k_memory k) p (int n) = Inr bs" "q + int (length ws) \<le> p \<or> p + int n \<le> q"
  shows "guest_slice (k_memory (poke k q ws)) p (int n) = Inr bs"
proof (cases "guest_slice_mut (k_memory k) q (int (length ws))")
  case (Inr r)
  then obtain i l where i: "guest_range (k_memory k) q (int (length ws)) = Inr (i, l)" "r = (i, l)"
    by (cases r) (auto simp: guest_slice_mut_def)
  from guest_range_Inr [OF i(1)] obtain mem where m: "k_memory k = Some (Owned mem)" "i = nat q" "0 \<le> q"
    "i + length ws \<le> length mem" by auto
  from guest_slice_Inr [OF assms(1)] m(1) have s: "0 \<le> p" "nat p + n \<le> length mem" "bs = slice (nat p) n mem" by auto
  have "slice (nat p) n (splice i ws mem) = slice (nat p) n mem"
    using assms(2) m s by (intro slice_splice_other) auto
  moreover have "guest_range (Some (Owned (splice i ws mem))) p (int n) = guest_range (Some (Owned mem)) p (int n)"
    by (rule guest_range_length) (use m(4) in simp)
  moreover have "guest_range (Some (Owned mem)) p (int n) = Inr (nat p, n)"
    using assms(1) m(1) by (fastforce simp: guest_slice_def res_bind_Inr dest: guest_range_Inr)
  ultimately show ?thesis
    using m(1) s(3) Inr i by (simp add: poke_def k_write_def guest_slice_def kernel_memory_def)
qed (use assms(1) in \<open>simp add: poke_def\<close>)

lemma poke_range: "guest_slice_mut (k_memory (poke k q bs)) p n = guest_slice_mut (k_memory k) p n"
proof (cases "guest_slice_mut (k_memory k) q (int (length bs))")
  case (Inr r)
  then obtain i l where i: "guest_range (k_memory k) q (int (length bs)) = Inr (i, l)" "r = (i, l)"
    by (cases r) (auto simp: guest_slice_mut_def)
  then have "l = length bs" using guest_range_Inr by force
  with mem_write_size [OF i(1), of bs] obtain m m' where
    m: "k_memory k = Some (Owned m)" "mem_write (k_memory k) i bs = Some (Owned m')" "length m' = length m" by auto
  with Inr i(2) guest_range_length [OF m(3), of p n] show ?thesis
    by (simp add: poke_def k_write_def guest_slice_mut_def)
qed (simp add: poke_def)

lemma sock_ref_Inr: "sock_ref k fd = Inr r \<longleftrightarrow> fd_get (k_fds k) fd = Inr (RSocket r)"
  by (auto simp: sock_ref_def split: sum.splits resource.splits)

lemma getsockname_encodes:
  assumes "sock_ref k fd = Inr r" "\<not> s_family_unix (k_sockets k ! r)" "s_bound (k_sockets k ! r) = Some a" "addr_ok a"
    "guest_slice_mut (k_memory k) q 28 = Inr b" "q \<noteq> 0" "lp = 0 \<or> guest_slice_mut (k_memory k) lp 4 = Inr c"
  shows "sys_getsockname k (Args (uint fd) q lp x4 x5 x6) =
    Some (0, poke_len (poke k q (addr_bytes a)) lp (int (length (addr_bytes a))))"
  using assms by (cases a) (auto simp: local_addr_def SOCKADDR_IN6_SIZE_def opt_range_def)

text \<open>
  C30: A TCP socket (a stream socket of an Internet family) bound to an Internet address read from guest memory reports that same
  address: \<open>bind\<close> returns 0, and after it \<open>getsockname\<close>, given a buffer of 28 bytes in memory and either no place for the length
  or one in memory outside the buffer, returns 0 and stores bytes that parse back to exactly the address, family, port and octets
  that \<open>bind\<close> read, and the length of that address, 16 or 28.
\<close>

theorem bind_getsockname_roundtrip:
  assumes "sock_ref k fd = Inr r" "s_kind (k_sockets k ! r) = Stream" "\<not> s_family_unix (k_sockets k ! r)"
    "r < length (k_sockets k)" "parse_sockaddr (k_memory k) p l = Inr a" "\<nexists>path. a = Unix path"
    "guest_slice_mut (k_memory k) q 28 = Inr b" "q \<noteq> 0"
    "lp = 0 \<or> guest_slice_mut (k_memory k) lp 4 = Inr c \<and> (lp + 4 \<le> q \<or> q + 28 \<le> lp)"
  shows "\<exists>k1 k2. sys_bind X k (Args (uint fd) p l x4 x5 x6) = (0, k1) \<and>
    sys_getsockname k1 (Args (uint fd) q lp y4 y5 y6) = Some (0, k2) \<and> parse_sockaddr (k_memory k2) q 28 = Inr a \<and>
    (lp \<noteq> 0 \<longrightarrow> guest_slice (k_memory k2) lp 4 = Inr (le_bytes 4 (case a of V4 _ _ \<Rightarrow> 16 | _ \<Rightarrow> 28)))"
proof -
  let ?k1 = "set_socket k r ((k_sockets k ! r)\<lparr>s_bound := Some a\<rparr>)"
  let ?n = "int (length (addr_bytes a))" and ?k2 = "poke ?k1 q (addr_bytes a)"
  have ok: "addr_ok a" by (rule parse_sockaddr_ok [OF assms(5,6)])
  then have n: "?n = (case a of V4 _ _ \<Rightarrow> 16 | _ \<Rightarrow> 28)" by (cases a) (simp_all add: inet_bytes_def inet6_bytes_def)
  have bind: "sys_bind X k (Args (uint fd) p l x4 x5 x6) = (0, ?k1)"
    using assms(1,2,5,6) by (cases a) auto
  have name: "sys_getsockname ?k1 (Args (uint fd) q lp y4 y5 y6) = Some (0, poke_len ?k2 lp ?n)"
    by (rule getsockname_encodes [where r = r and b = b and c = c]) (use assms ok in \<open>auto simp: set_socket_def sock_ref_def\<close>)
  have m1: "k_memory ?k1 = k_memory k" by (simp add: set_socket_def)
  have w: "guest_slice (k_memory ?k2) q ?n = Inr (addr_bytes a)"
    by (rule poke_read [where len = 28 and r = b]) (use assms(7) length_addr_bytes [OF ok] m1 in auto)
  have "guest_slice (k_memory (poke_len ?k2 lp ?n)) q ?n = Inr (addr_bytes a)"
    using w assms(9) length_addr_bytes [OF ok] by (auto simp: poke_len_def intro!: poke_elsewhere)
  from parse_encoded [OF ok this assms(8)] have "parse_sockaddr (k_memory (poke_len ?k2 lp ?n)) q 28 = Inr a" .
  moreover have "guest_slice (k_memory (poke_len ?k2 lp ?n)) lp 4 = Inr (le_bytes 4 ?n)" if "lp \<noteq> 0"
    using that assms(9) poke_read [of ?k2 lp 4 c "le_bytes 4 ?n"] by (simp add: poke_len_def poke_range m1)
  ultimately show ?thesis using bind name unfolding n by blast
qed

text \<open>A kernel with one TCP socket, descriptor 3, and the address 127.0.0.1 port 80 at guest address 8.\<close>

definition demo_sock :: "unit kernel" where
  "demo_sock = snd (insert_socket ((kernel_new_inner [] [] (replicate 32 0) \<lparr>root = [], cwd = []\<rparr> ())
     \<lparr>k_memory := Some (Owned (replicate 8 0 @ [2, 0, 0, 80, 127, 0, 0, 1] @ replicate 48 0))\<rparr>) (socket_new Stream False))"

lemma demo_sock_facts:
  "sock_ref demo_sock 3 = Inr 0" "k_sockets demo_sock = [socket_new Stream False]"
  "k_memory demo_sock = Some (Owned (replicate 8 0 @ [2, 0, 0, 80, 127, 0, 0, 1] @ replicate 48 0))"
  by (simp_all add: demo_sock_def insert_socket_def kernel_new_inner_def with_buffered_stdio_def make_pipe_def fd_insert_def
      fd_get_def sock_ref_def Let_def split: prod.splits)

definition demo_sock_ops :: "unit sock_ops" where
  "demo_sock_ops =
     \<lparr>x_is_socket = (\<lambda>_ _. Inl NotFound), x_remove_file = (\<lambda>_ h. (Inl NotFound, h)), x_unix_bind = (\<lambda>_ h. (Inr 1, h)),
      x_unix_clone = (\<lambda>_ h. (Inr 2, h)), x_unix_pair = (\<lambda>h. (Inr (3, 4), h)), x_tcp_listen = (\<lambda>_ h. (Inr 5, h)),
      x_udp_socket = (\<lambda>_ h. (Inr 6, h)), x_set_reuse_address = (\<lambda>_ h. h), x_set_only_v6 = (\<lambda>_ _ h. h),
      x_udp_bind = (\<lambda>_ _ h. (Inr (), h)), x_udp_tokio = (\<lambda>_ h. (Inr (), h)), x_local_addr = (\<lambda>_ _. Inl OtherKind)\<rparr>"

theorem bind_getsockname_roundtrip_witness:
  "\<exists>k1 k2. sys_bind demo_sock_ops demo_sock (Args 3 8 16 0 0 0) = (0, k1) \<and>
    sys_getsockname k1 (Args 3 32 24 0 0 0) = Some (0, k2) \<and> parse_sockaddr (k_memory k2) 32 28 = Inr (V4 80 [127, 0, 0, 1]) \<and>
    guest_slice (k_memory k2) 24 4 = Inr [16, 0, 0, 0]"
proof -
  have "parse_sockaddr (k_memory demo_sock) 8 16 = Inr (V4 80 [127, 0, 0, 1])"
    unfolding demo_sock_facts
    by (simp add: parse_sockaddr_def guest_slice_def guest_range_def kernel_memory_def usize_try_from_def
        usize_checked_add_def ok_or_def slice_def sock_consts be_u16_def)
  moreover have "guest_slice_mut (k_memory demo_sock) 32 28 = Inr (32, 28)" "guest_slice_mut (k_memory demo_sock) 24 4 = Inr (24, 4)"
    unfolding demo_sock_facts
    by (simp_all add: guest_slice_mut_def guest_range_def kernel_memory_def usize_checked_add_def ok_or_def)
  moreover have "le_bytes 4 16 = [16, 0, 0, 0]" by (simp add: numeral_eq_Suc)
  ultimately show ?thesis
    using bind_getsockname_roundtrip [of demo_sock 3 0 8 16 "V4 80 [127, 0, 0, 1]" 32 "(32, 28)" 24 "(24, 4)" demo_sock_ops 0 0 0 0 0 0]
      demo_sock_facts(1,2)
    by (simp add: socket_new_def del: sys_bind.simps sys_getsockname.simps)
qed

section \<open>The queue of received datagrams\<close>

text \<open>The queue is a window on what arrived: the newest 4096 datagrams, oldest first.\<close>

lemma enqueue_window:
  assumes "length (ud_recv_queue u) \<le> RECV_QUEUE_CAP"
  shows "ud_recv_queue (foldl (\<lambda>u (bs, addr). snd (enqueue u bs addr)) u ds) =
    drop (length (ud_recv_queue u) + length ds - RECV_QUEUE_CAP) (ud_recv_queue u @ ds)"
  using assms
proof (induction ds arbitrary: u)
  case (Cons d ds)
  obtain bs addr where d: "d = (bs, addr)" by (cases d)
  let ?q = "ud_recv_queue u" and ?u1 = "snd (enqueue u bs addr)"
  have q1: "ud_recv_queue ?u1 = drop (length ?q + 1 - RECV_QUEUE_CAP) (?q @ [d])"
    using Cons.prems by (cases ?q) (auto simp: enqueue_def Let_def d RECV_QUEUE_CAP_def)
  moreover have "length (ud_recv_queue ?u1) \<le> RECV_QUEUE_CAP"
    using Cons.prems q1 by (simp add: RECV_QUEUE_CAP_def)
  ultimately show ?case
    using Cons.IH [of ?u1] Cons.prems by (cases "length ?q = 4096") (auto simp: d RECV_QUEUE_CAP_def)
qed simp

lemma try_dequeue_fifo:
  "try_dequeue u = (Some d, u') \<Longrightarrow> ud_recv_queue u = d # ud_recv_queue u'"
  by (auto simp: try_dequeue_def split: list.splits)

section \<open>Socket references\<close>

definition sockets_ok :: "'h kernel \<Rightarrow> bool" where
  "sockets_ok k \<longleftrightarrow> (\<forall>r. RSocket r \<in> ran (table (k_fds k)) \<longrightarrow> r < length (k_sockets k))"

lemma fd_get_ran: "fd_get t fd = Inr x \<Longrightarrow> x \<in> ran (table t)"
  by (auto simp: fd_get_def ran_def ok_or_def split: option.splits)

lemma sockets_okD: "sockets_ok k \<Longrightarrow> sock_ref k fd = Inr r \<Longrightarrow> r < length (k_sockets k)"
  by (auto simp: sockets_ok_def sock_ref_Inr dest: fd_get_ran)

end
