(* ===== verification/Sys_Sendrecv.thy ===== *)
theory Sys_Sendrecv
  imports Sys_Socket Sys_Rw "HOL-Library.Multiset"
begin

text \<open>
  The data path of \<^verbatim>\<open>src/src/sys/socket.rs\<close>: \<open>sendto\<close>, \<open>recvfrom\<close>, \<open>sendmsg\<close>, \<open>recvmsg\<close>.  Each takes the
  connected stream out of the socket, awaits one transfer on it and puts it back; the transfer's result (the number of
  bytes written, or the bytes read) is the host's and an argument of the \<open>_resume\<close> functions.
\<close>

section \<open>sendto and recvfrom\<close>

definition MSG_PEEK :: int where "MSG_PEEK = 0x2"
definition MSG_DONTWAIT :: int where "MSG_DONTWAIT = 0x40"
definition MSGHDR_SIZE :: int where "MSGHDR_SIZE = 32"

text \<open>Taking a stream (TCP or \<open>AF_UNIX\<close>) and putting it back when none has taken its place.\<close>

definition stream_of :: "bool \<Rightarrow> socket_inner \<Rightarrow> hsock option" where
  "stream_of unix s = (if unix then s_stream_unix s else s_stream s)"

definition with_stream :: "bool \<Rightarrow> hsock option \<Rightarrow> socket_inner \<Rightarrow> socket_inner" where
  "with_stream unix st s = (if unix then s\<lparr>s_stream_unix := st\<rparr> else s\<lparr>s_stream := st\<rparr>)"

definition put_back :: "bool \<Rightarrow> hsock \<Rightarrow> socket_inner \<Rightarrow> socket_inner" where
  "put_back unix st s = (if stream_of unix s = None then with_stream unix (Some st) s else s)"

definition take_for_write :: "'h kernel \<Rightarrow> u32 \<Rightarrow> bool \<Rightarrow> hsock res \<times> 'h kernel" where
  "take_for_write k fd unix =
     (case sock_ref k fd of
        Inl e \<Rightarrow> (Inl e, k)
      | Inr r \<Rightarrow>
          let s = k_sockets k ! r
          in if s_shutdown_flags s AND 2 \<noteq> 0 then (Inl (- EPIPE), k)
             else case stream_of unix s of
               None \<Rightarrow> (Inl (- ENOTCONN), k)
             | Some st \<Rightarrow> (Inr st, set_socket k r (with_stream unix None s)))"

text \<open>For reading, a closed read side is the early return of 0.\<close>

definition take_for_read :: "'h kernel \<Rightarrow> u32 \<Rightarrow> bool \<Rightarrow> hsock res \<times> 'h kernel" where
  "take_for_read k fd unix =
     (case sock_ref k fd of
        Inl e \<Rightarrow> (Inl e, k)
      | Inr r \<Rightarrow>
          let s = k_sockets k ! r
          in if s_shutdown_flags s AND 1 \<noteq> 0 then (Inl 0, k)
             else case stream_of unix s of
               None \<Rightarrow> (Inl (- ENOTCONN), k)
             | Some st \<Rightarrow> (Inr st, set_socket k r (with_stream unix None s)))"

record send_park =
  sp_fd :: u32
  sp_unix :: bool
  sp_stream :: hsock
  sp_bytes :: bytes
  sp_was_nonblock :: "bool option"

fun sys_sendto :: "'h kernel \<Rightarrow> args \<Rightarrow> send_park outcome \<times> 'h kernel" where
  "sys_sendto k (Args a0 buf_ptr buf_len_raw _ _ _) =
     (case u32_try_from a0 of
        None \<Rightarrow> (Ret (- EBADF), k)
      | Some fd \<Rightarrow>
          (case sock_ref k fd of
             Inl e \<Rightarrow> (Ret e, k)
           | Inr r \<Rightarrow>
               let unix = s_family_unix (k_sockets k ! r)
               in if usize_try_from buf_len_raw = None then (Ret (- EFAULT), k)
                  else case guest_slice (k_memory k) buf_ptr buf_len_raw of
                    Inl e \<Rightarrow> (Ret e, k)
                  | Inr bs \<Rightarrow>
                      (case take_for_write k fd unix of
                         (Inl e, k1) \<Rightarrow> (Ret e, k1)
                       | (Inr st, k1) \<Rightarrow>
                           (Park \<lparr>sp_fd = fd, sp_unix = unix, sp_stream = st, sp_bytes = bs, sp_was_nonblock = None\<rparr>, k1))))"

definition send_resume :: "'h kernel \<Rightarrow> send_park \<Rightarrow> nat io \<Rightarrow> int \<times> 'h kernel" where
  "send_resume k p result =
     (case result of Inl _ \<Rightarrow> - EIO | Inr n \<Rightarrow> int n,
      upd_socket k (sp_fd p) (\<lambda>s.
        let s1 = put_back (sp_unix p) (sp_stream p) s
        in case sp_was_nonblock p of None \<Rightarrow> s1 | Some prev \<Rightarrow> s1\<lparr>s_nonblock := prev\<rparr>))"

record recv_park =
  rp_fd :: u32
  rp_unix :: bool
  rp_stream :: hsock
  rp_len :: nat
  rp_buf_ptr :: int
  rp_addr_ptr :: int
  rp_addrlen_ptr :: int

fun sys_recvfrom :: "'h kernel \<Rightarrow> args \<Rightarrow> recv_park outcome \<times> 'h kernel" where
  "sys_recvfrom k (Args a0 buf_ptr buf_len_raw _ addr_ptr addrlen_ptr) =
     (case u32_try_from a0 of
        None \<Rightarrow> (Ret (- EBADF), k)
      | Some fd \<Rightarrow>
          (case sock_ref k fd of
             Inl e \<Rightarrow> (Ret e, k)
           | Inr r \<Rightarrow>
               let unix = s_family_unix (k_sockets k ! r)
               in case usize_try_from buf_len_raw of
                    None \<Rightarrow> (Ret (- EFAULT), k)
                  | Some len \<Rightarrow>
                      if len = 0 then (Ret (- EINVAL), k)
                      else case res_bind (guest_slice_mut (k_memory k) buf_ptr buf_len_raw) (\<lambda>_.
                             if unix then Inr ()
                             else res_bind (opt_range k addr_ptr 16) (\<lambda>_. opt_range k addrlen_ptr 4)) of
                        Inl e \<Rightarrow> (Ret e, k)
                      | Inr _ \<Rightarrow>
                          (case take_for_read k fd unix of
                             (Inl e, k1) \<Rightarrow> (Ret e, k1)
                           | (Inr st, k1) \<Rightarrow>
                               (Park \<lparr>rp_fd = fd, rp_unix = unix, rp_stream = st, rp_len = len, rp_buf_ptr = buf_ptr,
                                      rp_addr_ptr = addr_ptr, rp_addrlen_ptr = addrlen_ptr\<rparr>, k1))))"

definition recv_resume :: "'h kernel \<Rightarrow> recv_park \<Rightarrow> bytes io \<Rightarrow> int \<times> 'h kernel" where
  "recv_resume k p result =
     (let k1 = upd_socket k (rp_fd p) (put_back (rp_unix p) (rp_stream p))
      in case result of
           Inl _ \<Rightarrow> (- EIO, k1)
         | Inr bs \<Rightarrow>
             if rp_unix p \<and> bs = [] then (0, k1)
             else try_ret (guest_slice_mut (k_memory k1) (rp_buf_ptr p) (int (length bs))) k1 (\<lambda>(q, _).
                    let k2 = k_write k1 q bs;
                        k3 = (if rp_unix p \<or> rp_addr_ptr p = 0 then k2
                              else poke k2 (rp_addr_ptr p) (inet_bytes 0 [127, 0, 0, 1]));
                        k4 = (if rp_unix p then k3 else poke_len k3 (rp_addrlen_ptr p) 16)
                    in (int (length bs), k4)))"

section \<open>sendmsg\<close>

definition msghdr_field :: "nat \<Rightarrow> bytes \<Rightarrow> int" where
  "msghdr_field off mhdr = le_uint (slice off 4 mhdr)"

fun gather_iov :: "memory_kind option \<Rightarrow> (int \<times> int) list \<Rightarrow> bytes res" where
  "gather_iov mem [] = Inr []"
| "gather_iov mem ((base, len) # es) =
     (if base \<noteq> 0 \<and> len > 0
      then res_bind (guest_slice mem base len) (\<lambda>bs. res_bind (gather_iov mem es) (\<lambda>rest. Inr (bs @ rest)))
      else gather_iov mem es)"

definition read_msghdr_iov :: "memory_kind option \<Rightarrow> int \<Rightarrow> bytes res" where
  "read_msghdr_iov mem msghdr_ptr =
     res_bind (guest_slice mem msghdr_ptr MSGHDR_SIZE) (\<lambda>mhdr.
       let iov_ptr = msghdr_field 8 mhdr; iov_count = msghdr_field 12 mhdr
       in if iov_count \<le> 0 \<or> iov_ptr = 0 then Inr []
          else res_bind (guest_slice mem iov_ptr (iov_count * 8)) (\<lambda>iovs. gather_iov mem (iov_entries iovs)))"

text \<open>\<open>MSG_DONTWAIT\<close>: the flag is raised and its old value kept.\<close>

definition dontwait :: "'h kernel \<Rightarrow> nat \<Rightarrow> int \<Rightarrow> bool option \<times> 'h kernel" where
  "dontwait k r flags =
     (if flags AND MSG_DONTWAIT \<noteq> 0
      then (Some (s_nonblock (k_sockets k ! r)), set_socket k r ((k_sockets k ! r)\<lparr>s_nonblock := True\<rparr>))
      else (None, k))"

fun sys_sendmsg :: "'h kernel \<Rightarrow> args \<Rightarrow> send_park outcome \<times> 'h kernel" where
  "sys_sendmsg k (Args a0 msghdr_ptr a2 _ _ _) =
     (case u32_try_from a0 of
        None \<Rightarrow> (Ret (- EBADF), k)
      | Some fd \<Rightarrow>
          (case sock_ref k fd of
             Inl _ \<Rightarrow> (Ret (- EBADF), k)
           | Inr r \<Rightarrow>
               (case read_msghdr_iov (k_memory k) msghdr_ptr of
                  Inl e \<Rightarrow> (Ret e, k)
                | Inr payload \<Rightarrow>
                    if payload = [] then (Ret 0, k)
                    else let (was_nonblock, k1) = dontwait k r (as_i32 a2)
                         in case take_for_write k1 fd False of
                              (Inl e, k2) \<Rightarrow> (Ret e, k2)
                            | (Inr st, k2) \<Rightarrow>
                                (Park \<lparr>sp_fd = fd, sp_unix = False, sp_stream = st, sp_bytes = payload,
                                       sp_was_nonblock = was_nonblock\<rparr>, k2))))"

section \<open>recvmsg\<close>

fun copy_bytes_to_spans :: "'h kernel \<Rightarrow> (int \<times> int) list \<Rightarrow> bytes \<Rightarrow> 'h kernel" where
  "copy_bytes_to_spans k [] data = k"
| "copy_bytes_to_spans k ((base, len) # es) data =
     (if data = [] \<or> len = 0 then copy_bytes_to_spans k es data
      else copy_bytes_to_spans (poke k base (take (nat len) data)) es (drop (nat len) data))"

definition write_back_msghdr :: "'h kernel \<Rightarrow> int \<Rightarrow> 'h kernel" where
  "write_back_msghdr k msghdr_ptr = poke k (msghdr_ptr + 20) (le_bytes 4 0)"

definition restore_nonblock :: "'h kernel \<Rightarrow> u32 \<Rightarrow> bool option \<Rightarrow> 'h kernel" where
  "restore_nonblock k fd was_nonblock =
     (case was_nonblock of None \<Rightarrow> k | Some prev \<Rightarrow> upd_socket k fd (\<lambda>s. s\<lparr>s_nonblock := prev\<rparr>))"

record msg_park =
  mp_fd :: u32
  mp_stream :: hsock
  mp_want :: nat
  mp_spans :: "(int \<times> int) list"
  mp_msghdr :: int
  mp_peek :: bool
  mp_was_nonblock :: "bool option"

text \<open>The tail shared by the stashed and the fresh bytes: copy them out, clear \<open>msg_controllen\<close>, restore the flag.\<close>

definition deliver_msg ::
  "'h kernel \<Rightarrow> u32 \<Rightarrow> int \<Rightarrow> (int \<times> int) list \<Rightarrow> bool option \<Rightarrow> bytes \<Rightarrow> int \<times> 'h kernel" where
  "deliver_msg k fd msghdr_ptr spans was_nonblock data =
     (int (length data),
      restore_nonblock (write_back_msghdr (copy_bytes_to_spans k spans data) msghdr_ptr) fd was_nonblock)"

definition recvmsg_from ::
  "'h kernel \<Rightarrow> u32 \<Rightarrow> nat \<Rightarrow> int \<Rightarrow> int \<Rightarrow> (int \<times> int) list \<Rightarrow> nat \<Rightarrow> msg_park outcome \<times> 'h kernel" where
  "recvmsg_from k fd r msghdr_ptr flags spans total_cap =
     (let (was_nonblock, k1) = dontwait k r flags;
          s = k_sockets k1 ! r; peeked = take total_cap (s_peek_buf s);
          k2 = set_socket k1 r (s\<lparr>s_peek_buf := drop total_cap (s_peek_buf s)\<rparr>)
      in if peeked \<noteq> [] then
           let (n, k3) = deliver_msg k2 fd msghdr_ptr spans was_nonblock peeked in (Ret n, k3)
         else case take_for_read k2 fd False of
           (Inl e, k3) \<Rightarrow> (Ret e, k3)
         | (Inr st, k3) \<Rightarrow>
             (Park \<lparr>mp_fd = fd, mp_stream = st, mp_want = total_cap, mp_spans = spans, mp_msghdr = msghdr_ptr,
                    mp_peek = (flags AND MSG_PEEK \<noteq> 0), mp_was_nonblock = was_nonblock\<rparr>, k3))"

definition read_spans :: "memory_kind option \<Rightarrow> int \<Rightarrow> (int \<times> int) list res" where
  "read_spans mem msghdr_ptr =
     res_bind (guest_slice mem msghdr_ptr MSGHDR_SIZE) (\<lambda>mhdr.
       let iov_ptr = msghdr_field 8 mhdr; iov_count = msghdr_field 12 mhdr
       in if iov_count \<le> 0 \<or> iov_ptr = 0 then Inl (- EINVAL)
          else res_bind (guest_slice mem iov_ptr (iov_count * 8)) (\<lambda>iovs. Inr (iov_entries iovs)))"

fun sys_recvmsg :: "'h kernel \<Rightarrow> args \<Rightarrow> msg_park outcome \<times> 'h kernel" where
  "sys_recvmsg k (Args a0 msghdr_ptr a2 _ _ _) =
     (case u32_try_from a0 of
        None \<Rightarrow> (Ret (- EBADF), k)
      | Some fd \<Rightarrow>
          (case sock_ref k fd of
             Inl _ \<Rightarrow> (Ret (- EBADF), k)
           | Inr r \<Rightarrow>
               (case read_spans (k_memory k) msghdr_ptr of
                  Inl e \<Rightarrow> (Ret e, k)
                | Inr spans \<Rightarrow>
                    let total_cap = nat (sum_list (map snd spans))
                    in if total_cap = 0 then (Ret 0, k)
                       else recvmsg_from k fd r msghdr_ptr (as_i32 a2) spans total_cap)))"

definition recvmsg_resume :: "'h kernel \<Rightarrow> msg_park \<Rightarrow> bytes io \<Rightarrow> int \<times> 'h kernel" where
  "recvmsg_resume k p result =
     (let k1 = upd_socket k (mp_fd p) (put_back False (mp_stream p))
      in case result of
           Inl _ \<Rightarrow> (- EIO, restore_nonblock k1 (mp_fd p) (mp_was_nonblock p))
         | Inr data \<Rightarrow>
             let k2 = (if mp_peek p then upd_socket k1 (mp_fd p) (\<lambda>s. s\<lparr>s_peek_buf := s_peek_buf s @ data\<rparr>) else k1)
             in deliver_msg k2 (mp_fd p) (mp_msghdr p) (mp_spans p) (mp_was_nonblock p) data)"

section \<open>What a transfer does to the socket\<close>

lemma put_back_take: "stream_of unix s = Some st \<Longrightarrow> put_back unix st (with_stream unix None s) = s"
  by (cases unix) (simp_all add: put_back_def stream_of_def with_stream_def)

lemma upd_set_socket:
  "sock_ref k fd = Inr r \<Longrightarrow> r < length (k_sockets k) \<Longrightarrow> upd_socket (set_socket k r s) fd f = set_socket k r (f s)"
  by (simp add: upd_socket_def sock_ref_def set_socket_def)

lemma set_socket_self: "set_socket k r (k_sockets k ! r) = k"
  by (simp add: set_socket_def)

lemma take_for_write_Inr:
  assumes "take_for_write k fd unix = (Inr st, k1)"
  shows "\<exists>r. sock_ref k fd = Inr r \<and> stream_of unix (k_sockets k ! r) = Some st \<and>
    s_shutdown_flags (k_sockets k ! r) AND 2 = 0 \<and> k1 = set_socket k r (with_stream unix None (k_sockets k ! r))"
  using assms by (auto simp: take_for_write_def Let_def split: sum.splits if_splits option.splits)

lemma take_for_read_Inr:
  assumes "take_for_read k fd unix = (Inr st, k1)"
  shows "\<exists>r. sock_ref k fd = Inr r \<and> stream_of unix (k_sockets k ! r) = Some st \<and>
    s_shutdown_flags (k_sockets k ! r) AND 1 = 0 \<and> k1 = set_socket k r (with_stream unix None (k_sockets k ! r))"
  using assms by (auto simp: take_for_read_def Let_def split: sum.splits if_splits option.splits)

lemma sendto_Park:
  assumes "sys_sendto k (Args a0 buf_ptr len f x y) = (Park p, k1)"
  shows "\<exists>fd bs. u32_try_from a0 = Some fd \<and> guest_slice (k_memory k) buf_ptr len = Inr bs \<and>
    take_for_write k fd (sp_unix p) = (Inr (sp_stream p), k1) \<and> sp_fd p = fd \<and> sp_bytes p = bs \<and> sp_was_nonblock p = None"
  using assms by (auto simp: Let_def split: option.splits sum.splits if_splits prod.splits)

lemma recvfrom_Park:
  assumes "sys_recvfrom k (Args a0 buf_ptr len f x y) = (Park p, k1)"
  shows "\<exists>fd. u32_try_from a0 = Some fd \<and> take_for_read k fd (rp_unix p) = (Inr (rp_stream p), k1) \<and> rp_fd p = fd \<and>
    rp_len p = nat len \<and> 0 < len \<and> rp_buf_ptr p = buf_ptr \<and> (\<exists>b. guest_slice_mut (k_memory k) buf_ptr len = Inr b)"
  using assms
  by (auto simp: Let_def usize_try_from_def res_bind_Inr split: option.splits sum.splits if_splits prod.splits)

lemma taken_put_back:
  assumes "sock_ref k fd = Inr r" "r < length (k_sockets k)" "stream_of unix (k_sockets k ! r) = Some st"
  shows "upd_socket (set_socket k r (with_stream unix None (k_sockets k ! r))) fd (put_back unix st) = k"
  using assms by (simp add: upd_set_socket put_back_take set_socket_self)

text \<open>A send hands the host exactly the guest's bytes and leaves the kernel as it was, whatever the host reports.\<close>

lemma sendto_transfers:
  assumes "sys_sendto k (Args a0 buf_ptr len f x y) = (Park p, k1)" "sockets_ok k"
  shows "guest_slice (k_memory k) buf_ptr len = Inr (sp_bytes p)" "send_resume k1 p (Inr n) = (int n, k)"
    "send_resume k1 p (Inl e) = (- EIO, k)"
proof -
  from sendto_Park [OF assms(1)] obtain fd where p: "guest_slice (k_memory k) buf_ptr len = Inr (sp_bytes p)"
    "take_for_write k fd (sp_unix p) = (Inr (sp_stream p), k1)" "sp_fd p = fd" "sp_was_nonblock p = None" by blast
  from take_for_write_Inr [OF p(2)] obtain r where r: "sock_ref k fd = Inr r"
    "stream_of (sp_unix p) (k_sockets k ! r) = Some (sp_stream p)" "k1 = set_socket k r (with_stream (sp_unix p) None (k_sockets k ! r))"
    by blast
  have "upd_socket k1 fd (put_back (sp_unix p) (sp_stream p)) = k"
    using r assms(2) by (simp add: taken_put_back sockets_okD)
  then show "send_resume k1 p (Inr n) = (int n, k)" "send_resume k1 p (Inl e) = (- EIO, k)"
    using p by (simp_all add: send_resume_def)
qed (use sendto_Park [OF assms(1)] in blast)

lemma recvfrom_taken:
  assumes "sys_recvfrom k (Args a0 buf_ptr len f x y) = (Park p, k1)" "sockets_ok k"
  shows "upd_socket k1 (rp_fd p) (put_back (rp_unix p) (rp_stream p)) = k"
proof -
  from recvfrom_Park [OF assms(1)] have t: "take_for_read k (rp_fd p) (rp_unix p) = (Inr (rp_stream p), k1)" by blast
  from take_for_read_Inr [OF this] show ?thesis
    using assms(2) by (auto simp: taken_put_back sockets_okD)
qed

lemma guest_range_grown:
  assumes "guest_range (Some (Owned m)) p n = Inr x" "length m \<le> length m'"
  shows "guest_range (Some (Owned m')) p n = Inr x"
  using assms by (auto simp: guest_range_def kernel_memory_def res_bind_Inr Let_def split: if_splits)

lemma recv_resume_stores:
  assumes "guest_slice_mut (k_memory k) (rp_buf_ptr p) (int (length bs)) = Inr b"
    and "rp_addr_ptr p = 0 \<or> rp_addr_ptr p + 16 \<le> rp_buf_ptr p \<or> rp_buf_ptr p + int (length bs) \<le> rp_addr_ptr p"
    and "rp_addrlen_ptr p = 0 \<or> rp_addrlen_ptr p + 4 \<le> rp_buf_ptr p \<or> rp_buf_ptr p + int (length bs) \<le> rp_addrlen_ptr p"
  shows "\<exists>k2. recv_resume k p (Inr bs) = (int (length bs), k2) \<and>
    guest_slice (k_memory k2) (rp_buf_ptr p) (int (length bs)) = Inr bs \<and> k_fds k2 = k_fds k \<and>
    k_sockets k2 = k_sockets (upd_socket k (rp_fd p) (put_back (rp_unix p) (rp_stream p)))"
proof -
  define k1 where "k1 = upd_socket k (rp_fd p) (put_back (rp_unix p) (rp_stream p))"
  obtain q l where b: "b = (q, l)" by (cases b)
  have same: "k_memory k1 = k_memory k" "k_fds k1 = k_fds k"
    by (simp_all add: k1_def upd_socket_def set_socket_def split: sum.split)
  have g: "guest_range (k_memory k1) (rp_buf_ptr p) (int (length bs)) = Inr (q, l)"
    using assms(1) b same by (simp add: guest_slice_mut_def)
  then have l: "l = length bs" using guest_range_Inr by force
  have w: "guest_slice (k_memory (k_write k1 q bs)) (rp_buf_ptr p) (int (length bs)) = Inr bs"
    using guest_write_read [OF g] l by (simp add: k_write_def)
  note keeps = poke_elsewhere [of _ _ "length bs" bs]
  define k3 where "k3 = (if rp_unix p \<or> rp_addr_ptr p = 0 then k_write k1 q bs
      else poke (k_write k1 q bs) (rp_addr_ptr p) (inet_bytes 0 [127, 0, 0, 1]))"
  define k4 where "k4 = (if rp_unix p then k3 else poke_len k3 (rp_addrlen_ptr p) 16)"
  have "length (inet_bytes 0 [127, 0, 0, 1]) = 16" by (simp add: inet_bytes_def)
  with w assms(2) have "guest_slice (k_memory k3) (rp_buf_ptr p) (int (length bs)) = Inr bs"
    by (auto simp: k3_def intro!: keeps)
  with assms(3) have a: "guest_slice (k_memory k4) (rp_buf_ptr p) (int (length bs)) = Inr bs"
    by (auto simp: k4_def poke_len_def intro!: keeps)
  have e: "guest_slice (k_memory k1) (rp_buf_ptr p) 0 = Inr []" if "bs = []"
    using g that guest_range_Inr [OF g] by (auto simp: guest_slice_def kernel_memory_def slice_def)
  have "k_sockets k4 = k_sockets k1" "k_fds k4 = k_fds k"
    by (simp_all add: k4_def k3_def poke_len_def k_write_def same)
  moreover have "recv_resume k p (Inr bs) = (int (length bs), if rp_unix p \<and> bs = [] then k1 else k4)"
    using assms(1) b by (simp add: recv_resume_def Let_def same k1_def [symmetric] k4_def k3_def)
  ultimately show ?thesis using a e same by (auto simp: k1_def [symmetric])
qed

text \<open>
  C31: A \<open>recvfrom\<close> that waits has taken the stream out of its socket.  When it then goes on in whatever kernel \<open>k'\<close> the calls
  made in the meantime have left (with memory that has not shrunk) and receives bytes, no more than asked for, it stores
  exactly these bytes in the guest's buffer and returns their number, also when the address and its length are asked
  for at places outside the buffer; it leaves the descriptors alone, and of the sockets it changes only the one behind its
  descriptor, by putting the stream back.  When the host reports an error, the call returns \<open>-EIO\<close> and does nothing but that.
  With nothing in between, putting the stream back gives the kernel from before the call.
\<close>

theorem recvfrom_delivers:
  assumes "sys_recvfrom k (Args (uint fd) buf_ptr len f addr_ptr addrlen_ptr) = (Park p, k1)" "sockets_ok k"
    "k_memory k = Some (Owned m)" "k_memory k' = Some (Owned m')" "length m \<le> length m'" "length bs \<le> nat len"
    "addr_ptr = 0 \<or> addr_ptr + 16 \<le> buf_ptr \<or> buf_ptr + int (length bs) \<le> addr_ptr"
    "addrlen_ptr = 0 \<or> addrlen_ptr + 4 \<le> buf_ptr \<or> buf_ptr + int (length bs) \<le> addrlen_ptr"
  shows "\<exists>r unix st. sock_ref k fd = Inr r \<and> unix = s_family_unix (k_sockets k ! r) \<and>
    stream_of unix (k_sockets k ! r) = Some st \<and> stream_of unix (k_sockets k1 ! r) = None \<and>
    upd_socket k1 fd (put_back unix st) = k \<and>
    recv_resume k' p (Inl e) = (- EIO, upd_socket k' fd (put_back unix st)) \<and>
    (\<exists>k2. recv_resume k' p (Inr bs) = (int (length bs), k2) \<and>
       guest_slice (k_memory k2) buf_ptr (int (length bs)) = Inr bs \<and>
       k_sockets k2 = k_sockets (upd_socket k' fd (put_back unix st)) \<and> k_fds k2 = k_fds k')"
proof -
  from recvfrom_Park [OF assms(1)] obtain b where p: "take_for_read k fd (rp_unix p) = (Inr (rp_stream p), k1)" "rp_fd p = fd"
    "rp_buf_ptr p = buf_ptr" "guest_slice_mut (k_memory k) buf_ptr len = Inr b" by auto
  have ptrs: "rp_addr_ptr p = addr_ptr" "rp_addrlen_ptr p = addrlen_ptr"
    using assms(1) by (auto simp: Let_def split: option.splits sum.splits if_splits prod.splits)
  from take_for_read_Inr [OF p(1)] obtain r where r: "sock_ref k fd = Inr r"
    "stream_of (rp_unix p) (k_sockets k ! r) = Some (rp_stream p)"
    "k1 = set_socket k r (with_stream (rp_unix p) None (k_sockets k ! r))" by blast
  have u: "rp_unix p = s_family_unix (k_sockets k ! r)"
    using assms(1) r(1) by (auto simp: Let_def split: option.splits sum.splits if_splits prod.splits)
  have out: "stream_of (rp_unix p) (k_sockets k1 ! r) = None"
    using sockets_okD [OF assms(2) r(1)] by (simp add: r(3) set_socket_def stream_of_def with_stream_def)
  obtain q l where q: "guest_range (k_memory k) buf_ptr len = Inr (q, l)" "l = nat len"
    using p(4) guest_range_Inr [of "k_memory k" buf_ptr len "fst b" "snd b"] by (cases b) (auto simp: guest_slice_mut_def)
  have "guest_range (k_memory k) buf_ptr (int (length bs)) = Inr (q, length bs)"
    using guest_range_shrink [OF q(1)] q(2) assms(6) by simp
  from guest_range_grown [OF this [unfolded assms(3)] assms(5)]
  have "guest_slice_mut (k_memory k') (rp_buf_ptr p) (int (length bs)) = Inr (q, length bs)"
    by (simp add: guest_slice_mut_def assms(4) p(3))
  from recv_resume_stores [OF this] assms(7,8) obtain k2 where "recv_resume k' p (Inr bs) = (int (length bs), k2)"
    "guest_slice (k_memory k2) buf_ptr (int (length bs)) = Inr bs" "k_fds k2 = k_fds k'"
    "k_sockets k2 = k_sockets (upd_socket k' fd (put_back (rp_unix p) (rp_stream p)))"
    by (auto simp: p(2,3) ptrs)
  moreover have "recv_resume k' p (Inl e) = (- EIO, upd_socket k' fd (put_back (rp_unix p) (rp_stream p)))"
    by (simp add: recv_resume_def p(2))
  ultimately show ?thesis
    using recvfrom_taken [OF assms(1,2)] r(1,2) out p(2) u by auto
qed

section \<open>Peeking\<close>

lemma set_socket_simps [simp]:
  "k_sockets (set_socket k r s) = (k_sockets k)[r := s]" "k_fds (set_socket k r s) = k_fds k"
  "sock_ref (set_socket k r s) fd = sock_ref k fd" "k_memory (set_socket k r s) = k_memory k"
  by (simp_all add: set_socket_def sock_ref_def)

lemma copy_bytes_simps [simp]:
  "k_sockets (copy_bytes_to_spans k es d) = k_sockets k" "k_fds (copy_bytes_to_spans k es d) = k_fds k" "sock_ref (copy_bytes_to_spans k es d) fd = sock_ref k fd"
  by (induction k es d rule: copy_bytes_to_spans.induct) simp_all

lemma deliver_msg_socket:
  assumes "sock_ref k fd = Inr r" "r < length (k_sockets k)" "deliver_msg k fd m spans w d = (n, k')"
  shows "n = int (length d)" "sock_ref k' fd = Inr r" "length (k_sockets k') = length (k_sockets k)"
    "s_peek_buf (k_sockets k' ! r) = s_peek_buf (k_sockets k ! r)" "s_stream (k_sockets k' ! r) = s_stream (k_sockets k ! r)"
    "k_memory k' = k_memory (poke (copy_bytes_to_spans k spans d) (m + 20) (le_bytes 4 0))"
  using assms
  by (auto simp: deliver_msg_def restore_nonblock_def upd_socket_def write_back_msghdr_def split: option.splits)

lemma recvmsg_Park:
  assumes "sys_recvmsg k (Args (uint fd) m a2 x y z) = (Park p, k1)" "sockets_ok k"
  shows "\<exists>r st. sock_ref k fd = Inr r \<and> r < length (k_sockets k) \<and> s_peek_buf (k_sockets k ! r) = [] \<and>
    s_stream (k_sockets k ! r) = Some st \<and> mp_fd p = fd \<and> mp_stream p = st \<and> mp_msghdr p = m \<and>
    mp_peek p = (as_i32 a2 AND MSG_PEEK \<noteq> 0) \<and>
    sock_ref k1 fd = Inr r \<and> length (k_sockets k1) = length (k_sockets k) \<and> s_peek_buf (k_sockets k1 ! r) = [] \<and>
    s_stream (k_sockets k1 ! r) = None \<and> k_memory k1 = k_memory k"
  using assms sockets_okD [OF assms(2), of fd]
  by (auto simp: recvmsg_from_def dontwait_def deliver_msg_def Let_def set_socket_def stream_of_def with_stream_def
      take_for_read_def sock_ref_Inr split: sum.splits if_splits option.splits)

text \<open>A stash large enough answers at once.\<close>

lemma recvmsg_stashed:
  assumes "sock_ref k fd = Inr r" "r < length (k_sockets k)" "s_peek_buf (k_sockets k ! r) = d" "d \<noteq> []"
    "read_spans (k_memory k) m = Inr spans" "int (length d) \<le> sum_list (map snd spans)"
  shows "\<exists>s w k'. deliver_msg (set_socket k r s) fd m spans w d = (int (length d), k') \<and>
    sys_recvmsg k (Args (uint fd) m flags x y z) = (Ret (int (length d)), k') \<and> s_peek_buf s = [] \<and>
    s_stream s = s_stream (k_sockets k ! r)"
proof -
  let ?cap = "nat (sum_list (map snd spans))"
  have "?cap \<ge> length d" "length d > 0" using assms(4,6) by simp_all
  then have cap: "?cap \<noteq> 0" "take ?cap d = d" "drop ?cap d = []" by (metis not_le, auto)
  obtain w k1 where w: "dontwait k r (as_i32 flags) = (w, k1)" by fastforce
  define s where "s = (k_sockets k1 ! r)\<lparr>s_peek_buf := []\<rparr>"
  have k1: "set_socket k1 r s = set_socket k r s"
    using w assms(2) by (auto simp: dontwait_def set_socket_def split: if_splits)
  have b: "s_peek_buf (k_sockets k1 ! r) = d" "s_stream (k_sockets k1 ! r) = s_stream (k_sockets k ! r)"
    using w assms(2,3) by (auto simp: dontwait_def split: if_splits)
  have s: "s_peek_buf s = []" "s_stream s = s_stream (k_sockets k ! r)"
    using b by (simp_all add: s_def)
  obtain k' where k': "deliver_msg (set_socket k r s) fd m spans w d = (int (length d), k')" by (simp add: deliver_msg_def)
  have "recvmsg_from k fd r m (as_i32 flags) spans ?cap = (Ret (int (length d)), k')"
    unfolding recvmsg_from_def w using k' assms(4) cap b k1 by (simp add: Let_def s_def)
  with s k' show ?thesis using assms(1,5) cap(1) by auto
qed

text \<open>
  Bytes seen with \<open>recvmsg\<close> and \<open>MSG_PEEK\<close> are not lost: the next \<open>recvmsg\<close> on the socket (into one buffer large
  enough for them, disjoint from its message header) returns at once with exactly these bytes, without touching the
  stream, which is still in place; the stash is then empty.
\<close>

lemma peek_then_read:
  assumes "sys_recvmsg k (Args (uint fd) m flags 0 0 0) = (Park p, k1)" "as_i32 flags AND MSG_PEEK \<noteq> 0" "sockets_ok k"
    "recvmsg_resume k1 p (Inr data) = (n, k2)" "data \<noteq> []"
    "read_spans (k_memory k2) m' = Inr [(base, len)]" "int (length data) \<le> len"
    "guest_slice_mut (k_memory k2) base len = Inr b" "m' + 24 \<le> base \<or> base + int (length data) \<le> m' + 20"
  shows "n = int (length data) \<and> (\<exists>k3. sys_recvmsg k2 (Args (uint fd) m' flags' 0 0 0) = (Ret n, k3) \<and>
    guest_slice (k_memory k3) base n = Inr data \<and> sock_ref k3 fd = sock_ref k fd \<and>
    (\<forall>r. sock_ref k fd = Inr r \<longrightarrow> s_peek_buf (k_sockets k3 ! r) = [] \<and>
       s_stream (k_sockets k3 ! r) = s_stream (k_sockets k ! r)))"
proof -
  from recvmsg_Park [OF assms(1,3)] obtain r st where r: "sock_ref k fd = Inr r" "r < length (k_sockets k)"
    "s_stream (k_sockets k ! r) = Some st" "mp_fd p = fd" "mp_stream p = st" "mp_peek p"
    "sock_ref k1 fd = Inr r" "length (k_sockets k1) = length (k_sockets k)" "s_peek_buf (k_sockets k1 ! r) = []"
    "s_stream (k_sockets k1 ! r) = None"
    using assms(2) by blast
  define s1 where "s1 = (k_sockets k1 ! r)\<lparr>s_stream := Some st, s_peek_buf := data\<rparr>"
  have "deliver_msg (set_socket k1 r s1) fd (mp_msghdr p) (mp_spans p) (mp_was_nonblock p) data = (n, k2)"
    using assms(4) r
    by (simp add: recvmsg_resume_def upd_socket_def put_back_def stream_of_def with_stream_def s1_def set_socket_def
        sock_ref_def)
  note d1 = deliver_msg_socket [OF _ _ this, of r, simplified, OF r(7), unfolded r(8), OF r(2)]
  have sb: "s_peek_buf (k_sockets k2 ! r) = data" "s_stream (k_sockets k2 ! r) = Some st"
    using d1(4,5) r(2,8) by (simp_all add: s1_def)
  obtain s w k3 where k3: "deliver_msg (set_socket k2 r s) fd m' [(base, len)] w data = (int (length data), k3)"
    "sys_recvmsg k2 (Args (uint fd) m' flags' 0 0 0) = (Ret (int (length data)), k3)" "s_peek_buf s = []" "s_stream s = Some st"
    using recvmsg_stashed [OF d1(2) _ sb(1) assms(5,6), of flags' 0 0 0] d1(3) r(2) assms(7) sb(2) by auto
  note d2 = deliver_msg_socket(2-6) [OF _ _ k3(1), of r, simplified, OF d1(2), unfolded d1(3), OF r(2)]
  have "0 < len" using assms(5,7) by (cases data) auto
  then have "guest_slice (k_memory (poke (set_socket k2 r s) base data)) base (int (length data)) = Inr data"
    using assms(7,8) by (intro poke_read [where len = len and r = b]) auto
  then have "guest_slice (k_memory k3) base (int (length data)) = Inr data"
    using \<open>0 < len\<close> assms(5,7,9) d2(5) by (auto intro!: poke_elsewhere)
  then show ?thesis using k3 d1(1) d2 r by auto
qed

lemma poke_memory:
  "k_memory (poke k ptr bs) =
     (case guest_slice_mut (k_memory k) ptr (int (length bs)) of Inl _ \<Rightarrow> k_memory k | Inr (p, _) \<Rightarrow> mem_write (k_memory k) p bs)"
  by (simp add: poke_def k_write_def split: sum.splits prod.splits)

text \<open>A connected socket, descriptor 3, and a message header at 8 whose one buffer is the 4 bytes from 48 on.\<close>

definition demo_conn :: "unit kernel" where
  "demo_conn = (set_socket demo_sock 0 ((socket_new Stream False)\<lparr>s_stream := Some 7\<rparr>))
     \<lparr>k_memory := Some (Owned (replicate 16 0 @ [40, 0, 0, 0, 1, 0, 0, 0] @ replicate 16 0 @ [48, 0, 0, 0, 4, 0, 0, 0] @ replicate 16 0))\<rparr>"

lemma demo_conn_facts:
  "sock_ref demo_conn 3 = Inr 0" "k_sockets demo_conn = [(socket_new Stream False)\<lparr>s_stream := Some 7\<rparr>]"
  "k_memory demo_conn = Some (Owned (replicate 16 0 @ [40, 0, 0, 0, 1, 0, 0, 0] @ replicate 16 0 @ [48, 0, 0, 0, 4, 0, 0, 0] @ replicate 16 0))"
  using demo_sock_facts(1) by (simp_all add: demo_conn_def demo_sock_facts(2) sock_ref_def set_socket_def)

lemma demo_conn_ok: "sockets_ok demo_conn"
  by (auto simp: sockets_ok_def demo_conn_def set_socket_def demo_sock_def insert_socket_def kernel_new_inner_def
      with_buffered_stdio_def make_pipe_def fd_insert_def Let_def ran_def)

lemmas guest_eval = guest_slice_def guest_slice_mut_def guest_range_def kernel_memory_def usize_checked_add_def ok_or_def
  slice_def usize_try_from_def splice_def

text \<open>While the receiver sleeps, all of memory is overwritten.\<close>

theorem recvfrom_delivers_witness:
  "\<exists>p k1 k2. sys_recvfrom demo_conn (Args 3 48 4 0 8 24) = (Park p, k1) \<and>
    recv_resume (k1\<lparr>k_memory := Some (Owned (replicate 64 9))\<rparr>) p (Inr [1, 2, 3]) = (3, k2) \<and>
    guest_slice (k_memory k2) 48 3 = Inr [1, 2, 3] \<and> s_stream (k_sockets k2 ! 0) = Some 7"
proof -
  obtain p k1 where p: "sys_recvfrom demo_conn (Args 3 48 4 0 8 24) = (Park p, k1)"
    "k1 = set_socket demo_conn 0 (socket_new Stream False)" "rp_stream p = 7"
    using u32_try_from_uint [of 3] demo_conn_facts
    by (simp add: guest_eval take_for_read_def stream_of_def with_stream_def socket_new_def opt_range_def del: u32_try_from_uint)
  let ?k = "k1\<lparr>k_memory := Some (Owned (replicate 64 9))\<rparr>"
  have fd: "uint (3 :: u32) = 3" by simp
  have r: "sock_ref ?k 3 = Inr 0" "k_sockets ?k = [socket_new Stream False]"
    using demo_conn_facts by (simp_all add: p(2) set_socket_def sock_ref_def)
  have "\<exists>r unix st. sock_ref demo_conn 3 = Inr r \<and> unix = s_family_unix (k_sockets demo_conn ! r) \<and>
      stream_of unix (k_sockets demo_conn ! r) = Some st \<and>
      (\<exists>k2. recv_resume ?k p (Inr [1, 2, 3]) = (int (length [1, 2, 3 :: u8]), k2) \<and>
         guest_slice (k_memory k2) 48 (int (length [1, 2, 3 :: u8])) = Inr [1, 2, 3] \<and>
         k_sockets k2 = k_sockets (upd_socket ?k 3 (put_back unix st)))"
    using recvfrom_delivers [where fd = 3 and bs = "[1, 2, 3]" and m' = "replicate 64 9" and k' = ?k and e = OtherKind,
        unfolded fd, OF p(1) demo_conn_ok demo_conn_facts(3)]
    by simp blast
  then show ?thesis
    using p(1) r by (auto simp: demo_conn_facts upd_socket_def put_back_def stream_of_def with_stream_def set_socket_def socket_new_def
        simp del: sys_recvfrom.simps)
qed

section \<open>Who holds a stream\<close>

text \<open>
  Several calls may be in flight at once: between a \<open>Park\<close> and its resumption other fibers run.  A state is a kernel with
  the calls that wait; \<open>xfer\<close> starts or completes one of them, with any result the host may give.
\<close>

datatype pending = PSend send_park | PRecv recv_park | PMsg msg_park

fun pending_stream :: "pending \<Rightarrow> hsock" where
  "pending_stream (PSend p) = sp_stream p"
| "pending_stream (PRecv p) = rp_stream p"
| "pending_stream (PMsg p) = mp_stream p"

inductive xfer :: "'h kernel \<times> pending list \<Rightarrow> 'h kernel \<times> pending list \<Rightarrow> bool" where
  sendto: "sys_sendto k a = (Park p, k') \<Longrightarrow> xfer (k, P) (k', PSend p # P)"
| sendmsg: "sys_sendmsg k a = (Park p, k') \<Longrightarrow> xfer (k, P) (k', PSend p # P)"
| recvfrom: "sys_recvfrom k a = (Park p, k') \<Longrightarrow> xfer (k, P) (k', PRecv p # P)"
| recvmsg: "sys_recvmsg k a = (Park p, k') \<Longrightarrow> xfer (k, P) (k', PMsg p # P)"
| shutdown: "sys_shutdown k a = (oc, k') \<Longrightarrow> xfer (k, P) (k', P)"
| sent: "send_resume k p r = (n, k') \<Longrightarrow> xfer (k, xs @ PSend p # ys) (k', xs @ ys)"
| received: "recv_resume k p r = (n, k') \<Longrightarrow> xfer (k, xs @ PRecv p # ys) (k', xs @ ys)"
| received_msg: "recvmsg_resume k p r = (n, k') \<Longrightarrow> xfer (k, xs @ PMsg p # ys) (k', xs @ ys)"

definition streams :: "socket_inner \<Rightarrow> hsock multiset" where
  "streams s = (case s_stream s of None \<Rightarrow> {#} | Some st \<Rightarrow> {#st#}) + (case s_stream_unix s of None \<Rightarrow> {#} | Some st \<Rightarrow> {#st#})"

definition held :: "'h kernel \<Rightarrow> hsock multiset" where
  "held k = sum_list (map streams (k_sockets k))"

lemma held_set:
  assumes "r < length (k_sockets k)"
  shows "held (set_socket k r s) + streams (k_sockets k ! r) = held k + streams s"
proof -
  have "map streams (k_sockets k) = map streams (take r (k_sockets k)) @ streams (k_sockets k ! r) # map streams (drop (Suc r) (k_sockets k))"
    using assms by (simp flip: list.map map_append add: id_take_nth_drop [symmetric])
  then show ?thesis
    using assms by (simp add: held_def set_socket_def upd_conv_take_nth_drop)
qed

lemma held_cong: "k_sockets k' = k_sockets k \<Longrightarrow> held k' = held k"
  by (simp add: held_def)

lemma streams_update [simp]:
  "streams (s\<lparr>s_nonblock := b\<rparr>) = streams s" "streams (s\<lparr>s_peek_buf := d\<rparr>) = streams s"
  "streams (s\<lparr>s_shutdown_flags := g\<rparr>) = streams s"
  by (simp_all add: streams_def)

lemma streams_taken: "stream_of unix s = Some st \<Longrightarrow> streams (with_stream unix None s) + {#st#} = streams s"
  by (cases unix) (simp_all add: stream_of_def with_stream_def streams_def)

lemma streams_put_back: "streams (put_back unix st s) \<subseteq># add_mset st (streams s)"
  by (cases unix) (auto simp: put_back_def stream_of_def with_stream_def streams_def split: option.splits)

lemma held_same: "r < length (k_sockets k) \<Longrightarrow> streams s = streams (k_sockets k ! r) \<Longrightarrow> held (set_socket k r s) = held k"
  using held_set [of r k s] by simp

lemma held_upd:
  assumes "sockets_ok k" "\<And>s. streams (f s) \<subseteq># streams s + X"
  shows "held (upd_socket k fd f) \<subseteq># held k + X"
proof (cases "sock_ref k fd")
  case (Inr r)
  then have "held (upd_socket k fd f) + streams (k_sockets k ! r) = held k + streams (f (k_sockets k ! r))"
    using held_set [OF sockets_okD [OF assms(1) Inr]] by (simp add: upd_socket_def)
  also have "\<dots> \<subseteq># held k + X + streams (k_sockets k ! r)"
    using assms(2) [of "k_sockets k ! r"] by (simp add: add.commute add.left_commute)
  finally show ?thesis by simp
qed (simp add: upd_socket_def)

lemma sockets_ok_update [simp]:
  "sockets_ok (set_socket k r s) = sockets_ok k" "sockets_ok (upd_socket k fd f) = sockets_ok k"
  "sockets_ok (k_write k p bs) = sockets_ok k" "sockets_ok (poke k ptr bs) = sockets_ok k"
  by (simp_all add: sockets_ok_def upd_socket_def k_write_def split: sum.splits)

lemma upd_socket_simps [simp]:
  "k_fds (upd_socket k fd f) = k_fds k" "length (k_sockets (upd_socket k fd f)) = length (k_sockets k)"
  "k_memory (upd_socket k fd f) = k_memory k"
  by (simp_all add: upd_socket_def split: sum.splits)

lemma held_taken:
  assumes "r < length (k_sockets k)" "stream_of unix (k_sockets k ! r) = Some st"
  shows "add_mset st (held (set_socket k r (with_stream unix None (k_sockets k ! r)))) = held k"
proof -
  let ?T = "streams (with_stream unix None (k_sockets k ! r))"
  have "held (set_socket k r (with_stream unix None (k_sockets k ! r))) + (?T + {#st#}) = held k + ?T"
    using held_set [OF assms(1)] by (simp only: streams_taken [OF assms(2)])
  then show ?thesis by simp
qed

lemma taken_write:
  assumes "take_for_write k fd unix = (Inr st, k1)" "sockets_ok k"
  shows "held k = add_mset st (held k1)" "sockets_ok k1"
  using take_for_write_Inr [OF assms(1)] assms(2) by (auto simp: held_taken sockets_okD)

lemma taken_read:
  assumes "take_for_read k fd unix = (Inr st, k1)" "sockets_ok k"
  shows "held k = add_mset st (held k1)" "sockets_ok k1"
  using take_for_read_Inr [OF assms(1)] assms(2) by (auto simp: held_taken sockets_okD)

lemma dontwait_frame:
  assumes "dontwait k r flags = (w, k1)" "r < length (k_sockets k)"
  shows "held k1 = held k" "k_fds k1 = k_fds k" "length (k_sockets k1) = length (k_sockets k)" "sockets_ok k1 = sockets_ok k"
  using assms by (auto simp: dontwait_def held_same split: if_splits)

lemma sendto_taken:
  assumes "sys_sendto k a = (Park p, k1)" "sockets_ok k"
  shows "held k = add_mset (sp_stream p) (held k1) \<and> sockets_ok k1"
  using assms taken_write by (cases a) (auto dest!: sendto_Park simp del: sys_sendto.simps)

lemma sendmsg_taken:
  assumes "sys_sendmsg k a = (Park p, k1)" "sockets_ok k"
  shows "held k = add_mset (sp_stream p) (held k1) \<and> sockets_ok k1"
proof -
  from assms(1) obtain fd r flags w k0 where d: "sock_ref k fd = Inr r" "dontwait k r flags = (w, k0)"
    "take_for_write k0 fd False = (Inr (sp_stream p), k1)"
    by (cases a) (auto simp: Let_def split: option.splits sum.splits if_splits prod.splits)
  note f = dontwait_frame [OF d(2) sockets_okD [OF assms(2) d(1)]]
  with taken_write [OF d(3)] assms(2) show ?thesis by simp
qed

lemma recvmsg_taken:
  assumes "sys_recvmsg k a = (Park p, k1)" "sockets_ok k"
  shows "held k = add_mset (mp_stream p) (held k1) \<and> sockets_ok k1"
proof -
  from assms(1) obtain fd r flags m spans cap where d: "sock_ref k fd = Inr r"
    "recvmsg_from k fd r m flags spans cap = (Park p, k1)"
    by (cases a) (auto simp: Let_def split: option.splits sum.splits if_splits)
  obtain w k0 where w: "dontwait k r flags = (w, k0)" by fastforce
  note f = dontwait_frame [OF w sockets_okD [OF assms(2) d(1)]]
  from d(2) w obtain k2 where t: "take_for_read k2 fd False = (Inr (mp_stream p), k1)"
    "k2 = set_socket k0 r ((k_sockets k0 ! r)\<lparr>s_peek_buf := drop cap (s_peek_buf (k_sockets k0 ! r))\<rparr>)"
    by (auto simp: recvmsg_from_def deliver_msg_def Let_def split: sum.splits if_splits prod.splits)
  have "held k2 = held k0" using t(2) f(3) sockets_okD [OF assms(2) d(1)] by (simp add: held_same)
  with taken_read [OF t(1)] f t(2) assms(2) show ?thesis by simp
qed

lemma recvfrom_taken_once:
  assumes "sys_recvfrom k a = (Park p, k1)" "sockets_ok k"
  shows "held k = add_mset (rp_stream p) (held k1) \<and> sockets_ok k1"
  using assms taken_read by (cases a) (auto dest!: recvfrom_Park simp del: sys_recvfrom.simps)

text \<open>Completing a call gives back at most the stream it held.\<close>

lemma send_resume_once:
  assumes "sockets_ok k"
  shows "held (snd (send_resume k p r)) \<subseteq># add_mset (sp_stream p) (held k) \<and> sockets_ok (snd (send_resume k p r))"
proof -
  let ?f = "\<lambda>s. let s1 = put_back (sp_unix p) (sp_stream p) s
    in case sp_was_nonblock p of None \<Rightarrow> s1 | Some prev \<Rightarrow> s1\<lparr>s_nonblock := prev\<rparr>"
  have "held (upd_socket k (sp_fd p) ?f) \<subseteq># held k + {#sp_stream p#}"
    by (rule held_upd [OF assms]) (simp add: streams_put_back Let_def split: option.splits)
  then show ?thesis using assms by (simp add: send_resume_def)
qed

lemma recv_resume_once:
  assumes "sockets_ok k"
  shows "held (snd (recv_resume k p r)) \<subseteq># add_mset (rp_stream p) (held k) \<and> sockets_ok (snd (recv_resume k p r))"
proof -
  define k1 where "k1 = upd_socket k (rp_fd p) (put_back (rp_unix p) (rp_stream p))"
  have k1: "held k1 \<subseteq># add_mset (rp_stream p) (held k)" "sockets_ok k1"
    using held_upd [OF assms, of "put_back (rp_unix p) (rp_stream p)" "{#rp_stream p#}"] assms
    by (simp_all add: k1_def streams_put_back)
  have "k_sockets (snd (recv_resume k p r)) = k_sockets k1 \<and> k_fds (snd (recv_resume k p r)) = k_fds k1"
    by (cases r)
      (auto simp: recv_resume_def Let_def poke_len_def k_write_def simp flip: k1_def split: sum.splits
        intro!: try_ret_inv [where P = "\<lambda>k. k_sockets k = k_sockets k1 \<and> k_fds k = k_fds k1"])
  with k1 show ?thesis by (simp add: held_def sockets_ok_def)
qed

lemma deliver_msg_once:
  assumes "sockets_ok k"
  shows "held (snd (deliver_msg k fd m spans w d)) = held k \<and> sockets_ok (snd (deliver_msg k fd m spans w d))"
proof -
  let ?k = "write_back_msghdr (copy_bytes_to_spans k spans d) m"
  have k: "k_sockets ?k = k_sockets k" "k_fds ?k = k_fds k" by (simp_all add: write_back_msghdr_def)
  then have ok: "sockets_ok ?k" "held ?k = held k" using assms by (simp_all add: sockets_ok_def held_def)
  have "held (upd_socket ?k fd (\<lambda>s. s\<lparr>s_nonblock := b\<rparr>)) = held ?k" for b
    using sockets_okD [OF ok(1)] by (auto simp: upd_socket_def held_same split: sum.splits)
  with ok show ?thesis by (simp add: deliver_msg_def restore_nonblock_def split: option.splits)
qed

lemma recvmsg_resume_once:
  assumes "sockets_ok k"
  shows "held (snd (recvmsg_resume k p r)) \<subseteq># add_mset (mp_stream p) (held k) \<and> sockets_ok (snd (recvmsg_resume k p r))"
proof -
  define k1 where "k1 = upd_socket k (mp_fd p) (put_back False (mp_stream p))"
  have k1: "held k1 \<subseteq># add_mset (mp_stream p) (held k)" "sockets_ok k1"
    using held_upd [OF assms, of "put_back False (mp_stream p)" "{#mp_stream p#}"] assms
    by (simp_all add: k1_def streams_put_back)
  have same: "held (upd_socket k1 fd f) = held k1" if "\<And>s. streams (f s) = streams s" for fd f
    using sockets_okD [OF k1(2)] that by (auto simp: upd_socket_def held_same split: sum.splits)
  show ?thesis
    using k1 deliver_msg_once
    by (cases r) (auto simp: recvmsg_resume_def same deliver_msg_once restore_nonblock_def Let_def simp flip: k1_def split: option.splits)
qed

lemma held_set_le:
  assumes "r < length (k_sockets k)" "streams s \<subseteq># streams (k_sockets k ! r)"
  shows "held (set_socket k r s) \<subseteq># held k"
proof -
  have "held (set_socket k r s) + streams (k_sockets k ! r) \<subseteq># held k + streams (k_sockets k ! r)"
    using held_set [OF assms(1), of s] assms(2) by simp
  then show ?thesis by simp
qed

lemma streams_shut: "streams (s\<lparr>s_shutdown_flags := g, s_stream := None\<rparr>) \<subseteq># streams s"
  by (simp add: streams_def split: option.splits)

lemma shutdown_once:
  assumes "sys_shutdown k a = (oc, k')" "sockets_ok k"
  shows "held k' \<subseteq># held k \<and> sockets_ok k'"
  using assms
  by (cases a)
    (auto simp: Let_def sockets_okD intro!: held_set_le streams_shut split: option.splits sum.splits if_splits)

lemma give_back_sub:
  assumes "A \<subseteq># add_mset x B" "add_mset x (B + M) \<subseteq># S"
  shows "A + M \<subseteq># S"
  by (rule subset_mset.order_trans [OF subset_mset.add_right_mono [OF assms(1)]]) (use assms(2) in simp)

lemma shrink_sub:
  assumes "A \<subseteq># B" "B + M \<subseteq># S"
  shows "A + M \<subseteq># (S :: 'a multiset)"
  using subset_mset.add_right_mono [OF assms(1), of M] assms(2) by (rule subset_mset.order_trans)

text \<open>
  The contract every transfer keeps: starting it takes one stream out of the sockets, completing it gives at most that
  stream back.  From it follows, once for all of them, that no stream is multiplied.
\<close>

definition owned :: "hsock multiset \<Rightarrow> 'h kernel \<Rightarrow> hsock multiset \<Rightarrow> bool" where
  "owned S k M \<longleftrightarrow> sockets_ok k \<and> held k + M \<subseteq># S"

locale transfer_call =
  fixes start :: "'h kernel \<Rightarrow> args \<Rightarrow> 'p outcome \<times> 'h kernel"
    and resume :: "'h kernel \<Rightarrow> 'p \<Rightarrow> 'r io \<Rightarrow> int \<times> 'h kernel"
    and stream :: "'p \<Rightarrow> hsock"
  assumes start_takes: "start k a = (Park p, k1) \<Longrightarrow> sockets_ok k \<Longrightarrow> held k = add_mset (stream p) (held k1) \<and> sockets_ok k1"
    and resume_gives: "sockets_ok k \<Longrightarrow>
      held (snd (resume k p r)) \<subseteq># add_mset (stream p) (held k) \<and> sockets_ok (snd (resume k p r))"
begin

lemma start_owned:
  assumes "start k a = (Park p, k1)" "owned S k M"
  shows "owned S k1 (add_mset (stream p) M)"
  using start_takes [OF assms(1)] assms(2) by (simp add: owned_def)

lemma resume_owned:
  assumes "resume k p r = (n, k1)" "owned S k (add_mset (stream p) M)"
  shows "owned S k1 M"
  using resume_gives [of k p r] assms by (auto simp: owned_def intro: give_back_sub)

end

interpretation sendto: transfer_call sys_sendto send_resume sp_stream
  by unfold_locales (simp_all add: sendto_taken send_resume_once del: sys_sendto.simps)

interpretation sendmsg: transfer_call sys_sendmsg send_resume sp_stream
  by unfold_locales (simp_all add: sendmsg_taken send_resume_once del: sys_sendmsg.simps)

interpretation recvfrom: transfer_call sys_recvfrom recv_resume rp_stream
  by unfold_locales (simp_all add: recvfrom_taken_once recv_resume_once del: sys_recvfrom.simps)

interpretation recvmsg: transfer_call sys_recvmsg recvmsg_resume mp_stream
  by unfold_locales (simp_all add: recvmsg_taken recvmsg_resume_once del: sys_recvmsg.simps)

lemma xfer_owned:
  assumes "xfer (k, P) (k', P')" "owned S k (mset (map pending_stream P))"
  shows "owned S k' (mset (map pending_stream P'))"
  using assms
proof (induction "(k, P)" "(k', P')" arbitrary: k P k' P' rule: xfer.induct)
  case (shutdown k a oc k' P)
  with shutdown_once [OF shutdown(1)] show ?case by (auto simp: owned_def intro: shrink_sub simp del: sys_shutdown.simps)
qed (auto dest: sendto.start_owned sendmsg.start_owned recvfrom.start_owned recvmsg.start_owned sendto.resume_owned
    recvfrom.resume_owned recvmsg.resume_owned simp del: sys_sendto.simps sys_sendmsg.simps sys_recvfrom.simps sys_recvmsg.simps)

text \<open>
  C29: However \<open>sendto\<close>, \<open>recvfrom\<close>, \<open>sendmsg\<close>, \<open>recvmsg\<close> and \<open>shutdown\<close> calls of several fibers are started and completed,
  in any order and with any result of the host, no stream is ever held twice: if at first no two sockets hold the same
  stream, then at any later time every stream is held by at most one socket or one waiting call, so that no two transfers
  run on one stream at the same time.
\<close>

theorem streams_never_shared:
  assumes "xfer\<^sup>*\<^sup>* (k, []) (k', P)" "sockets_ok k" "\<forall>st. count (held k) st \<le> 1"
  shows "distinct (map pending_stream P) \<and> set (map pending_stream P) \<inter> set_mset (held k') = {} \<and>
    (\<forall>st. count (held k') st \<le> 1)"
proof -
  have "owned (held k) k' (mset (map pending_stream P))"
    using assms(1)
  proof (induction rule: rtranclp_induct2)
    case refl
    show ?case using assms(2) by (simp add: owned_def)
  qed (blast intro: xfer_owned)
  then have "count (held k' + mset (map pending_stream P)) st \<le> 1" for st
    using assms(3) by (auto simp: owned_def dest!: mset_subset_eq_count [of _ _ st] intro: order_trans)
  then have c: "count (held k') st + count (mset (map pending_stream P)) st \<le> 1" for st by simp
  have "distinct (map pending_stream P)"
    unfolding distinct_count_atmost_1 using c by (metis (no_types) count_mset_0_iff le_add2 le_antisym less_one not_le order_trans)
  moreover have "set (map pending_stream P) \<inter> set_mset (held k') = {}"
  proof (rule ccontr)
    assume "\<not> ?thesis"
    then obtain st where "st \<in> set (map pending_stream P)" "st \<in># held k'" by blast
    then have "0 < count (mset (map pending_stream P)) st" "0 < count (held k') st"
      unfolding count_greater_zero_iff set_mset_mset by simp_all
    with c [of st] show False by linarith
  qed
  moreover have "count (held k') st \<le> 1" for st using c [of st] by simp
  ultimately show ?thesis by blast
qed

theorem streams_never_shared_witness:
  "\<exists>p k'. xfer\<^sup>*\<^sup>* (demo_conn, []) (k', [PRecv p]) \<and> rp_stream p = 7 \<and> {7} \<inter> set_mset (held k') = {}"
proof -
  obtain p k' where p: "sys_recvfrom demo_conn (Args 3 48 4 0 0 0) = (Park p, k')" "rp_stream p = 7"
    using u32_try_from_uint [of 3] demo_conn_facts
    by (simp add: guest_eval take_for_read_def stream_of_def socket_new_def opt_range_def del: u32_try_from_uint)
  have r: "xfer\<^sup>*\<^sup>* (demo_conn, []) (k', [PRecv p])" by (rule r_into_rtranclp, rule xfer.recvfrom, rule p(1))
  have "\<forall>st. count (held demo_conn) st \<le> 1"
    by (simp add: held_def demo_conn_facts streams_def socket_new_def)
  from streams_never_shared [OF r demo_conn_ok this] r p(2) show ?thesis by auto
qed

text \<open>
  The price of taking the stream out: while one fiber waits in \<open>recvfrom\<close>, another one's \<open>sendto\<close> on the same socket
  finds no stream and fails with \<open>-ENOTCONN\<close>, although the connection is open.
\<close>

lemma send_while_receiving:
  assumes "sys_recvfrom k (Args (uint fd) buf_ptr len f x y) = (Park p, k1)" "sockets_ok k"
    "sock_ref k fd = Inr r" "s_shutdown_flags (k_sockets k ! r) = 0" "guest_slice (k_memory k) ptr n = Inr bs" "0 \<le> n" "n < 2 ^ 64"
  shows "fst (sys_sendto k1 (Args (uint fd) ptr n 0 0 0)) = Ret (- ENOTCONN)"
proof -
  from recvfrom_Park [OF assms(1)] have t: "take_for_read k fd (rp_unix p) = (Inr (rp_stream p), k1)" by auto
  have u: "rp_unix p = s_family_unix (k_sockets k ! r)"
    using assms(1,3) by (auto simp: Let_def split: option.splits sum.splits if_splits prod.splits)
  from take_for_read_Inr [OF t] assms(3) have k1: "k1 = set_socket k r (with_stream (rp_unix p) None (k_sockets k ! r))" by simp
  then show ?thesis
    using assms(3-7) sockets_okD [OF assms(2,3)] u
    by (simp add: take_for_write_def with_stream_def stream_of_def usize_try_from_def Let_def)
qed

text \<open>Closing the write side drops the whole stream: reading then fails too, with \<open>-ENOTCONN\<close>.\<close>

lemma shutdown_wr_stops_reads:
  assumes "sys_shutdown k (Args (uint fd) 1 0 0 0 0) = (oc, k1)" "sockets_ok k" "sock_ref k fd = Inr r"
    "\<not> s_family_unix (k_sockets k ! r)" "s_shutdown_flags (k_sockets k ! r) = 0" "guest_slice_mut (k_memory k) ptr n = Inr b"
    "0 < n" "n < 2 ^ 64"
  shows "fst (sys_recvfrom k1 (Args (uint fd) ptr n 0 0 0)) = Ret (- ENOTCONN)"
  using assms sockets_okD [OF assms(2,3)]
  by (auto simp: shut_mask_def sock_consts as_i32_def Let_def take_for_read_def stream_of_def opt_range_def
      usize_try_from_def split: option.splits)

end
