(* ===== verification/Async_Calls.thy ===== *)
theory Async_Calls
  imports Evolution Futex Sys_Poll Sys_Time Sys_Misc Sys_Sendrecv
begin

text \<open>
  The syscalls that wait, and those whose result depends on clocks, random bytes or the host's sockets.  \<open>async_step\<close> is one
  piece of such a call: from its start to its end or to its sleep, or from a wake-up on, with whatever the outside world
  answers.  The lemmas show that every piece evolves the kernel.
  \<open>bind\<close>, \<open>connect\<close> and \<open>snapshot\<close> are left out: they hand guest paths to the host unresolved.
\<close>

section \<open>Pieces of calls evolve the kernel\<close>

lemma evolved_insert_socket:
  assumes "evolved k0 k"
  shows "evolved k0 (snd (insert_socket k s))"
proof -
  let ?k = "k\<lparr>k_sockets := k_sockets k @ [s]\<rparr>"
  have "evolved k0 ?k" by (rule evolved_grow [OF assms, where ps = "[]"]) (simp_all add: kernel_ids_def child_pids_def)
  then have "evolved k0 (?k\<lparr>k_fds := snd (fd_insert (k_fds k) (RSocket (length (k_sockets k))))\<rparr>)"
    by (rule evolved_fds) (auto simp: fd_insert_def Let_def known_def ran_def split: if_splits)
  then show ?thesis by (simp add: insert_socket_def case_prod_beta)
qed

lemma evolved_inserted: "insert_socket k s = (fd, k1) \<Longrightarrow> evolved k0 k \<Longrightarrow> evolved k0 k1"
  using evolved_insert_socket [of k0 k s] by simp

lemma evolved_socket_updates [simp]:
  "evolved k0 (poke k ptr bs) = evolved k0 k" "evolved k0 (poke_len k ptr n) = evolved k0 k"
  "evolved k0 (upd_socket k fd f) = evolved k0 k" "evolved k0 (restore_nonblock k fd w) = evolved k0 k"
  "evolved k0 (write_back_msghdr k m) = evolved k0 k" "evolved k0 (snd (dontwait k r flags)) = evolved k0 k"
  by (auto simp: poke_def poke_len_def upd_socket_def restore_nonblock_def write_back_msghdr_def dontwait_def
      split: sum.splits prod.splits option.splits)

lemma evolved_copy_bytes [simp]: "evolved k0 (copy_bytes_to_spans k es d) = evolved k0 k"
  by (induction k es d rule: copy_bytes_to_spans.induct) simp_all

lemma evolved_put_revents [simp]: "evolved k0 (put_revents p i rs k) = evolved k0 k"
  by (induction p i rs k rule: put_revents.induct) simp_all

lemma evolved_resolver_futex [simp]:
  "evolved k0 (put_resolver k st) = evolved k0 k" "evolved k0 (put_futex k t) = evolved k0 k"
  by (simp_all add: put_resolver_def put_futex_def)

lemma evolved_fd_sets [simp]:
  "evolved k0 (set_fd_bit k fdset fd) = evolved k0 k" "evolved k0 (clear_fd_set k fdset) = evolved k0 k"
  "evolved k0 (mark_ready rd wr x k) = evolved k0 k"
  by (auto simp: set_fd_bit_def clear_fd_set_def mark_ready_def Let_def split: sum.splits prod.splits)

lemma evolved_mark_all [simp]: "evolved k0 (fold (mark_ready rd wr) xs k) = evolved k0 k"
  by (induction xs arbitrary: k) simp_all

lemma evolved_stores:
  assumes "evolved k0 k"
  shows "evolved k0 (snd (pack_events k ptr n es))" "evolved k0 (snd (write_revents k ptr rs))"
    "evolved k0 (snd (put_pair k ptr x y))" "evolved k0 (snd (select_finish rd wr ps r k))"
    "evolved k0 (snd (deliver_msg k fd m spans w d))" "evolved k0 (snd (marshal_and_return k addrs rq deny))"
  using assms
  by (auto simp: pack_events_def write_revents_def put_pair_def select_finish_def deliver_msg_def marshal_and_return_def Let_def
      intro!: evolved_try_ret split: prod.splits sum.splits)

lemma snd_case_pair [simp]: "snd (case x of (r, k1) \<Rightarrow> (f r, k1)) = snd x"
  by (cases x) simp

lemma evolved_poll_step: "evolved k0 k \<Longrightarrow> evolved k0 (snd (poll_step k p))"
  using evolved_stores(2) [of k0 k] by (cases p) (auto simp: Let_def)

lemma evolved_poll_resume: "evolved k0 k \<Longrightarrow> evolved k0 (snd (poll_resume k p t))"
  using evolved_stores(2) [of k0 k] evolved_poll_step [of k0 k]
  by (cases p) (auto simp del: poll_step.simps)

lemma evolved_poll: "evolved k0 k \<Longrightarrow> evolved k0 (snd (sys_poll k a))"
  by (cases a) (auto simp del: poll_step.simps intro!: evolved_poll_step split: option.splits sum.splits)

lemma evolved_ppoll: "evolved k0 k \<Longrightarrow> evolved k0 (snd (sys_ppoll k a))"
  by (cases a) (auto simp del: sys_poll.simps intro!: evolved_poll split: option.splits sum.splits)

lemma evolved_select_cont: "evolved k0 (snd out) \<Longrightarrow> evolved k0 (snd (select_cont rd wr es out))"
  using evolved_stores(4) [of k0 "snd out"]
  by (cases out; cases "fst out") (auto simp: select_cont_def)

lemma evolved_select: "evolved k0 k \<Longrightarrow> evolved k0 (snd (sys_select k a))"
  by (cases a)
    (auto simp: Let_def simp del: sys_poll.simps intro!: evolved_select_cont evolved_poll split: prod.splits sum.splits)

lemma evolved_select_resume: "evolved k0 k \<Longrightarrow> evolved k0 (snd (select_resume k p t))"
  by (cases p) (auto intro!: evolved_select_cont evolved_poll_resume)

lemma evolved_epoll_wait: "evolved k0 k \<Longrightarrow> evolved k0 (snd (sys_epoll_wait k a))"
  using evolved_stores(1) [of k0 k]
  by (cases a) (auto simp: Let_def split: option.splits sum.splits resource.splits)

lemma evolved_epoll_pwait: "evolved k0 k \<Longrightarrow> evolved k0 (snd (sys_epoll_pwait k a))"
  by (cases a) (auto simp del: sys_epoll_wait.simps intro!: evolved_epoll_wait split: option.splits sum.splits)

lemma evolved_epoll_resume: "evolved k0 k \<Longrightarrow> evolved k0 (snd (epoll_resume k p))"
  by (cases p) (auto intro!: evolved_stores)

lemma evolved_times:
  assumes "evolved k0 k"
  shows "evolved k0 (snd (sys_clock_gettime C k a))" "evolved k0 (snd (sys_gettimeofday C k a))"
    "evolved k0 (snd (sys_clock_getres k a))" "evolved k0 (snd (sleep_resume k p))" "evolved k0 (snd (sys_nanosleep k a))"
    "evolved k0 (snd (sys_clock_nanosleep C k a))" "evolved k0 (snd (sys_sysinfo k a))" "evolved k0 (snd (sys_times k a))"
  using assms
  by (cases a; cases p; auto simp: sleep_resume_def Let_def intro!: evolved_stores evolved_try_ret
      split: option.splits sum.splits prod.splits)+

lemma evolved_epoll:
  assumes "evolved k0 k"
  shows "evolved k0 (snd (sys_epoll_create1 k a))" "evolved k0 (snd (sys_epoll_ctl k a))"
proof -
  show "evolved k0 (snd (sys_epoll_create1 k a))"
    using assms by (auto simp: sys_epoll_create1_def fd_insert_def Let_def known_table intro!: evolved_table_upd [where u = "k_fds k"])
  have "evolved k0 (put_entries k fd e es)" for fd e es
    unfolding put_entries_def by (rule evolved_fd_put [OF assms]) simp
  with assms show "evolved k0 (snd (sys_epoll_ctl k a))"
    by (cases a) (auto simp: Let_def intro!: evolved_try_ret split: option.splits sum.splits resource.splits)
qed

lemma evolved_ioctl: "evolved k0 k \<Longrightarrow> evolved k0 (snd (sys_ioctl k a))"
  by (cases a) (auto simp: Let_def evolved_set_nonblock intro!: evolved_try_ret split: option.splits sum.splits resource.splits prod.splits)

lemma evolved_getrandom: "evolved k0 k \<Longrightarrow> evolved k0 (snd (sys_getrandom g k a))"
  by (cases a) (auto simp: Let_def intro!: evolved_try_ret split: option.splits sum.splits prod.splits)

lemma evolved_resolver:
  assumes "evolved k0 k"
  shows "evolved k0 (snd (sys_resolve_name now k a))" "evolved k0 (snd (resolve_resume now k rq res))"
  using assms
  by (auto simp: sys_resolve_name_def resolve_resume_def Let_def intro!: evolved_stores
      split: sum.splits option.splits lookup_result.splits)

lemma evolved_try_reap: "evolved k0 k \<Longrightarrow> evolved k0 (snd (try_reap k pid))"
  by (auto simp: try_reap_def Let_def AList.delete_eq intro!: evolved_fewer_children split: option.splits)

lemma evolved_wstatus: "evolved k0 k \<Longrightarrow> evolved k0 (snd (write_wstatus_and_return k c x w))"
  by (auto simp: write_wstatus_and_return_def Let_def intro!: evolved_try_ret split: prod.splits)

lemma evolved_wait4_branch:
  assumes "evolved k0 k" "try_reap k pid = (r, k1)"
  shows "evolved k0 k1" "evolved k0 (snd (write_wstatus_and_return k1 c x w))"
  using evolved_try_reap [OF assms(1), of pid] evolved_wstatus assms(2) by auto

lemma evolved_wait4:
  assumes "evolved k0 k"
  shows "evolved k0 (snd (sys_wait4 k a))" "evolved k0 (snd (wait4_resume k a))"
  using assms evolved_wait4_branch [OF assms]
  by (cases a; auto simp: Let_def split: option.split prod.split)+

lemma evolved_futex:
  assumes "evolved k0 k"
  shows "evolved k0 (snd (sys_futex k a))" "evolved k0 (snd (futex_resume k u t))"
  using assms
  by (cases a; auto simp: Let_def futex_wait_def futex_wake_def futex_resume_def split: option.splits sum.splits prod.splits)+

lemma evolved_take:
  assumes "evolved k0 k"
  shows "evolved k0 (snd (take_for_write k fd u))" "evolved k0 (snd (take_for_read k fd u))"
  using assms by (auto simp: take_for_write_def take_for_read_def Let_def split: sum.splits option.splits)

lemma evolved_taken:
  assumes "evolved k0 k"
  shows "take_for_write k fd u = (x, k1) \<Longrightarrow> evolved k0 k1" "take_for_read k fd u = (x, k1) \<Longrightarrow> evolved k0 k1"
    "dontwait k r g = (w, k1) \<Longrightarrow> evolved k0 k1"
  using evolved_take [OF assms, of fd u] evolved_socket_updates(6) [of k0 k r g] assms by auto

lemma evolved_sendto: "evolved k0 k \<Longrightarrow> evolved k0 (snd (sys_sendto k a))"
  by (cases a) (auto simp: Let_def dest: evolved_taken split: option.split sum.split prod.split)

lemma evolved_recvfrom: "evolved k0 k \<Longrightarrow> evolved k0 (snd (sys_recvfrom k a))"
  by (cases a) (auto simp: Let_def dest: evolved_taken split: option.split sum.split prod.split)

lemma evolved_sendmsg: "evolved k0 k \<Longrightarrow> evolved k0 (snd (sys_sendmsg k a))"
  by (cases a) (auto simp: Let_def dest: evolved_taken split: option.split sum.split prod.split)

lemma evolved_recvmsg_from:
  assumes "evolved k0 k"
  shows "evolved k0 (snd (recvmsg_from k fd r m flags spans cap))"
proof -
  obtain w k1 where d: "dontwait k r flags = (w, k1)" by fastforce
  let ?k2 = "set_socket k1 r ((k_sockets k1 ! r)\<lparr>s_peek_buf := drop cap (s_peek_buf (k_sockets k1 ! r))\<rparr>)"
  have c: "evolved k0 ?k2" using evolved_taken(3) [OF assms d] by simp
  obtain x k3 where t: "take_for_read ?k2 fd False = (x, k3)" by fastforce
  have "evolved k0 k3" by (rule evolved_taken(2) [OF c t])
  with evolved_stores(5) [OF c] t show ?thesis
    unfolding recvmsg_from_def d by (auto simp: Let_def split: sum.split)
qed

lemma evolved_recvmsg: "evolved k0 k \<Longrightarrow> evolved k0 (snd (sys_recvmsg k a))"
  by (cases a) (auto simp: Let_def intro: evolved_recvmsg_from split: option.split sum.split)

lemma evolved_resumed:
  assumes "evolved k0 k"
  shows "evolved k0 (snd (send_resume k sp n))" "evolved k0 (snd (recv_resume k rp bs))" "evolved k0 (snd (recvmsg_resume k mp ds))"
  using assms
  by (auto simp: send_resume_def recv_resume_def recvmsg_resume_def Let_def intro!: evolved_try_ret evolved_stores
      split: sum.split)

lemma evolved_accept_take: "evolved k0 k \<Longrightarrow> evolved k0 (snd (accept_take k fd r nb p q))"
  by (auto simp: accept_take_def Let_def split: option.split)

lemma evolved_accept4: "evolved k0 k \<Longrightarrow> evolved k0 (snd (sys_accept4 X k a))"
  by (cases a)
    (auto simp: Let_def accept4_tcp_def accept4_unix_def intro!: evolved_accept_take
      split: option.split sum.split sock_addr.split prod.split)

lemma evolved_accept_tcp_resume: "evolved k0 k \<Longrightarrow> evolved k0 (snd (accept_tcp_resume k fd l kd nb p q res))"
  by (auto simp: accept_tcp_resume_def Let_def intro!: evolved_try_ret evolved_insert_socket
      split: sum.splits prod.splits if_splits sock_addr.splits)

lemma evolved_accept_unix_resume:
  "evolved k0 k \<Longrightarrow> accept_unix_resume k nb p q res = Some (n, k') \<Longrightarrow> evolved k0 k'"
  by (auto simp: accept_unix_resume_def Let_def bind_eq_Some_conv case_prod_beta intro!: evolved_insert_socket
      split: sum.splits if_splits)

lemma evolved_name_unix: "evolved k0 k \<Longrightarrow> name_unix k p q nm = Some (n, k') \<Longrightarrow> evolved k0 k'"
  by (auto simp: name_unix_def split: sum.splits)

lemma evolved_try_Some: "Some (try_ret r k f) = Some (n, k') \<Longrightarrow> evolved k0 (snd (try_ret r k f)) \<Longrightarrow> evolved k0 k'"
  by (metis option.inject snd_conv)

lemma evolved_getsockname: "evolved k0 k \<Longrightarrow> sys_getsockname k a = Some (n, k') \<Longrightarrow> evolved k0 k'"
  by (cases a)
    (auto simp: Let_def try_ret_def dest: evolved_name_unix split: option.splits sum.splits if_splits)

lemma evolved_getpeername: "evolved k0 k \<Longrightarrow> sys_getpeername k a = Some (n, k') \<Longrightarrow> evolved k0 k'"
  by (cases a)
    (auto simp: Let_def try_ret_def dest: evolved_name_unix split: option.splits sum.splits if_splits sock_addr.splits)

lemma evolved_socketpair: "evolved k0 k \<Longrightarrow> evolved k0 (snd (sys_socketpair X k a))"
  by (cases a)
    (auto simp: Let_def case_prod_beta intro!: evolved_try_ret evolved_insert_socket split: sum.split)

lemma evolved_socket_calls:
  assumes "evolved k0 k"
  shows "evolved k0 (snd (sys_socket k a))" "evolved k0 (snd (sys_listen k a))" "evolved k0 (snd (sys_setsockopt k a))"
    "evolved k0 (snd (sys_getsockopt k a))" "evolved k0 (snd (sys_shutdown k a))"
  using assms
  by (cases a; auto simp: Let_def intro!: evolved_try_ret evolved_insert_socket split: option.split sum.split prod.split)+

section \<open>Any piece of any such call\<close>

inductive async_step :: "'h sock_ops \<Rightarrow> 'h kernel \<Rightarrow> 'h kernel \<Rightarrow> bool" for X where
  as_wait4: "async_step X k (snd (sys_wait4 k a))"
| as_wait4_resume: "async_step X k (snd (wait4_resume k a))"
| as_futex: "async_step X k (snd (sys_futex k a))"
| as_futex_resume: "async_step X k (snd (futex_resume k u t))"
| as_epoll_wait: "async_step X k (snd (sys_epoll_wait k a))"
| as_epoll_pwait: "async_step X k (snd (sys_epoll_pwait k a))"
| as_epoll_resume: "async_step X k (snd (epoll_resume k ep))"
| as_poll: "async_step X k (snd (sys_poll k a))"
| as_ppoll: "async_step X k (snd (sys_ppoll k a))"
| as_poll_resume: "async_step X k (snd (poll_resume k pp t))"
| as_select: "async_step X k (snd (sys_select k a))"
| as_select_resume: "async_step X k (snd (select_resume k sl t))"
| as_nanosleep: "async_step X k (snd (sys_nanosleep k a))"
| as_clock_nanosleep: "async_step X k (snd (sys_clock_nanosleep C k a))"
| as_sleep_resume: "async_step X k (snd (sleep_resume k sp))"
| as_clock_gettime: "async_step X k (snd (sys_clock_gettime C k a))"
| as_gettimeofday: "async_step X k (snd (sys_gettimeofday C k a))"
| as_getrandom: "async_step X k (snd (sys_getrandom g k a))"
| as_resolve: "async_step X k (snd (sys_resolve_name now k a))"
| as_resolve_resume: "async_step X k (snd (resolve_resume now k rq found))"
| as_accept4: "async_step X k (snd (sys_accept4 X k a))"
| as_accept_tcp: "async_step X k (snd (accept_tcp_resume k fd l kd nb p q conn))"
| as_accept_unix: "accept_unix_resume k nb p q uconn = Some (n, k') \<Longrightarrow> async_step X k k'"
| as_socketpair: "async_step X k (snd (sys_socketpair X k a))"
| as_getsockname: "sys_getsockname k a = Some (n, k') \<Longrightarrow> async_step X k k'"
| as_getpeername: "sys_getpeername k a = Some (n, k') \<Longrightarrow> async_step X k k'"
| as_shutdown: "async_step X k (snd (sys_shutdown k a))"
| as_sendto: "async_step X k (snd (sys_sendto k a))"
| as_sendmsg: "async_step X k (snd (sys_sendmsg k a))"
| as_sent: "async_step X k (snd (send_resume k snp w))"
| as_recvfrom: "async_step X k (snd (sys_recvfrom k a))"
| as_received: "async_step X k (snd (recv_resume k rcp bs))"
| as_recvmsg: "async_step X k (snd (sys_recvmsg k a))"
| as_received_msg: "async_step X k (snd (recvmsg_resume k mgp bs))"

lemmas async_evolved = evolved_wait4 evolved_futex evolved_epoll_wait evolved_epoll_pwait evolved_epoll_resume
  evolved_poll evolved_ppoll evolved_poll_resume evolved_select evolved_select_resume evolved_times evolved_getrandom
  evolved_resolver evolved_accept4 evolved_accept_tcp_resume evolved_socketpair evolved_socket_calls evolved_sendto
  evolved_sendmsg evolved_recvfrom evolved_recvmsg evolved_resumed

lemma async_step_evolved:
  assumes "async_step X k k'" "evolved k0 k"
  shows "evolved k0 k'"
  using assms
proof (cases rule: async_step.cases)
  case (as_accept_unix nb p q uconn n)
  then show ?thesis using assms(2) evolved_accept_unix_resume by blast
next
  case (as_getsockname a n)
  then show ?thesis using assms(2) evolved_getsockname by blast
next
  case (as_getpeername a n)
  then show ?thesis using assms(2) evolved_getpeername by blast
qed (use assms(2) in \<open>simp_all only: async_evolved\<close>)

section \<open>Socket calls awaited in place\<close>

text \<open>
  \<open>recvfrom(...).await\<close> and \<open>sendto(...).await\<close> inside \<open>read\<close> and \<open>write\<close>: both pieces in a row, with the host's answer
  \<open>ans\<close> for the transfer in between.
\<close>

definition recvfrom_await :: "('h kernel \<Rightarrow> recv_park \<Rightarrow> bytes io) \<Rightarrow> 'h handler" where
  "recvfrom_await ans k a =
     (case sys_recvfrom k a of (Ret r, k1) \<Rightarrow> (r, k1) | (Park p, k1) \<Rightarrow> recv_resume k1 p (ans k1 p))"

definition sendto_await :: "('h kernel \<Rightarrow> send_park \<Rightarrow> nat io) \<Rightarrow> 'h handler" where
  "sendto_await ans k a =
     (case sys_sendto k a of (Ret r, k1) \<Rightarrow> (r, k1) | (Park p, k1) \<Rightarrow> send_resume k1 p (ans k1 p))"

lemma evolved_await:
  assumes "evolved k0 k"
  shows "evolved k0 (snd (recvfrom_await rans k a))" "evolved k0 (snd (sendto_await sans k a))"
  using evolved_recvfrom [OF assms, of a] evolved_sendto [OF assms, of a]
  by (auto simp: recvfrom_await_def sendto_await_def intro!: evolved_resumed simp del: sys_recvfrom.simps sys_sendto.simps
      split: prod.splits outcome.splits)

end
