(* ===== verification/Confinement.thy ===== *)
theory Confinement
  imports Evolution
begin

text \<open>
  Confinement to a directory: the invariant that the root and the working directory of the \<open>Vfs\<close> and the paths of the open
  files lie below it.  It is closed under \<open>evolved\<close> and \<open>grown\<close>, so every handler keeps it; and two hosts that agree below the
  directory cannot be told apart by a handler on a confined kernel.  \<open>Dispatch\<close> puts these together.
\<close>

section \<open>The invariant\<close>

definition confined :: "pathbuf \<Rightarrow> 'h kernel \<Rightarrow> bool" where
  "confined P k \<longleftrightarrow>
     prefix P (root (k_vfs k)) \<and> prefix (root (k_vfs k)) (cwd (k_vfs k)) \<and>
     (\<forall>fp \<in> set (k_files k). \<forall>p. fp_path fp = Some p \<longrightarrow> prefix P p) \<and>
     fds_wf k"

lemma fds_wf_evolved:
  assumes "fds_wf k" "evolved k k'"
  shows "fds_wf k'"
proof -
  have "length (k_files k) \<le> length (k_files k')"
    using assms(2) by (auto simp: evolved_def dest: arg_cong [of _ _ length])
  then have ok: "resource_ok k r \<Longrightarrow> resource_ok k' r" for r
    using assms(2) by (auto simp: evolved_def elim!: resource_ok_mono [rotated 3])
  have "resource_ok k' r" if "table (k_fds k') fd = Some r" for fd r
  proof -
    from assms(2) that have "resource_ok k' r \<or> (\<exists>fd. table (k_fds k) fd = Some r)" by (simp add: evolved_def ran_def)
    with assms(1) ok show ?thesis by (auto simp: fds_wf_def)
  qed
  then show ?thesis by (simp add: fds_wf_def)
qed

lemma confined_evolved:
  assumes "confined P k" "evolved k k'"
  shows "confined P k'"
proof -
  obtain ps where ps: "map fp_path (k_files k') = map fp_path (k_files k) @ map Some ps"
    "\<forall>p \<in> set ps. prefix (root (k_vfs k)) p" using assms(2) by (auto simp: evolved_def)
  have "prefix P p" if "fp \<in> set (k_files k')" "fp_path fp = Some p" for fp p
  proof -
    have "Some p \<in> set (map fp_path (k_files k'))" using that by force
    then consider "Some p \<in> set (map fp_path (k_files k))" | "p \<in> set ps" unfolding ps(1) by auto
    then show ?thesis
      using assms(1) ps(2) by cases (auto simp: confined_def eq_commute [of "Some p"] intro: prefix_order.trans)
  qed
  moreover have "prefix P (root (k_vfs k'))" "prefix (root (k_vfs k')) (cwd (k_vfs k'))"
    using assms by (auto simp: confined_def evolved_def intro: prefix_order.trans)
  moreover have "fds_wf k'" using assms fds_wf_evolved by (auto simp: confined_def)
  ultimately show ?thesis by (simp add: confined_def)
qed

text \<open>New children make no difference.\<close>

lemma confined_process [simp]: "confined P (k\<lparr>k_process := pst\<rparr>) = confined P k" "fds_wf (k\<lparr>k_process := pst\<rparr>) = fds_wf k"
proof -
  have "resource_ok (k\<lparr>k_process := pst\<rparr>) = resource_ok k" by (intro ext resource_ok_cong) simp_all
  then show "fds_wf (k\<lparr>k_process := pst\<rparr>) = fds_wf k" by (simp add: fds_wf_def)
  then show "confined P (k\<lparr>k_process := pst\<rparr>) = confined P k" by (simp add: confined_def)
qed

lemma confined_grown: "confined P k \<Longrightarrow> grown k k' \<Longrightarrow> confined P k'"
  by (auto simp: grown_def dest!: confined_evolved [rotated])

lemma fds_wf_grown: "fds_wf k \<Longrightarrow> grown k k' \<Longrightarrow> fds_wf k'"
  by (auto simp: grown_def dest!: fds_wf_evolved [rotated])

lemma confined_resolve: "confined P k \<Longrightarrow> sys_resolve k d s = Inr p \<Longrightarrow> prefix P p"
  using sys_resolve_confined [of k d s p] by (auto simp: confined_def intro: prefix_order.trans)

lemma confined_file_path:
  assumes "confined P k" "table (k_fds k) fd = Some (RFile r)" "fp_path (k_files k ! r) = Some p"
  shows "prefix P p"
proof -
  have "resource_ok k (RFile r)" using assms(1,2) unfolding confined_def fds_wf_def by blast
  then have "r < length (k_files k)" by simp
  with assms(1,3) show ?thesis by (auto simp: confined_def)
qed

section \<open>Congruences\<close>

lemma str_arg_cong: "(\<And>s. f s = g s) \<Longrightarrow> str_arg k ptr f = str_arg k ptr g"
  unfolding str_arg_def by (rule try_ret_cong)

lemma path_arg_cong:
  assumes "confined P k" "\<And>p. prefix P p \<Longrightarrow> f p = g p"
  shows "path_arg k d ptr f = path_arg k d ptr g"
  unfolding path_arg_def
  by (rule str_arg_cong) (auto intro!: try_ret_cong assms confined_resolve [OF assms(1)])

lemma two_path_args_cong:
  assumes "confined P k" "\<And>p q. prefix P p \<Longrightarrow> prefix P q \<Longrightarrow> f p q = g p q"
  shows "two_path_args k d ptr d' ptr' f = two_path_args k d ptr d' ptr' g"
  unfolding two_path_args_def
  by (intro str_arg_cong) (auto intro!: try_ret_cong assms confined_resolve [OF assms(1)])

section \<open>Agreement of hosts\<close>

lemma read_loop_agree: "hf_read H = hf_read H' \<Longrightarrow> read_loop H f len got h = read_loop H' f len got h"
proof (induction H f len got h rule: read_loop.induct)
  case (1 H f len got h)
  obtain r h1 where "hf_read H f 4096 h = (r, h1)" by fastforce
  with 1 show ?case
    by (cases r) (auto simp: read_loop.simps [of H f len got h] read_loop.simps [of H' f len got h] Let_def)
qed

lemma io_agree:
  assumes A: "agree_below P H H'"
  shows "sys_read H rf k a = sys_read H' rf k a" "sys_write H st k a = sys_write H' st k a"
    "sys_lseek H k a = sys_lseek H' k a" "sys_fstat H k a = sys_fstat H' k a"
    "sys_ftruncate H k a = sys_ftruncate H' k a" "sys_fchmod H k a = sys_fchmod H' k a"
proof -
  note hs = agree_handles [OF A]
  have rl: "read_loop H = read_loop H'" using read_loop_agree [OF hs(2)] by (intro ext)
  have rf: "read_file H = read_file H'"
    unfolding fun_eq_iff read_file_def rl hs by (rule allI refl)+
  have wf: "write_file H = write_file H'"
    unfolding fun_eq_iff write_file_def hs by (rule allI refl)+
  have ch: "clone_handle H = clone_handle H'"
    unfolding fun_eq_iff clone_handle_def hs by (rule allI refl)+
  obtain x1 x2 x3 x4 x5 x6 where a: "a = Args x1 x2 x3 x4 x5 x6" by (cases a)
  show "sys_read H rf k a = sys_read H' rf k a" unfolding a sys_read.simps rf by (rule refl)
  show "sys_write H st k a = sys_write H' st k a" unfolding a sys_write.simps wf by (rule refl)
  show "sys_lseek H k a = sys_lseek H' k a" unfolding a sys_lseek.simps hs by (rule refl)
  show "sys_fstat H k a = sys_fstat H' k a" unfolding a sys_fstat.simps hs by (rule refl)
  show "sys_ftruncate H k a = sys_ftruncate H' k a" unfolding a sys_ftruncate.simps ch hs by (rule refl)
  show "sys_fchmod H k a = sys_fchmod H' k a" unfolding a sys_fchmod.simps ch hs by (rule refl)
qed

lemma iov_agree:
  assumes "agree_below P H H'"
  shows "sys_readv H rf k a = sys_readv H' rf k a" "sys_writev H st k a = sys_writev H' st k a"
proof -
  have "sys_read H rf = sys_read H' rf" "sys_write H st = sys_write H' st"
    using io_agree(1,2) [OF assms] by (intro ext; simp)+
  then show "sys_readv H rf k a = sys_readv H' rf k a" "sys_writev H st k a = sys_writev H' st k a"
    by (cases a; simp)+
qed

lemma getdents64_agree:
  assumes A: "agree_below P H H'" and C: "confined P k"
  shows "sys_getdents64 H k a = sys_getdents64 H' k a"
  using confined_file_path [OF C] agree_vfs(3) [OF A]
  by (cases a)
    (auto simp: Let_def intro!: try_ret_cong split: option.splits resource.splits)

lemma path_calls_agree:
  assumes A: "agree_below P H H'" and C: "confined P k"
  shows "sys_mkdir H k a = sys_mkdir H' k a" "sys_mkdirat H k a = sys_mkdirat H' k a"
    "sys_rmdir H k a = sys_rmdir H' k a" "sys_unlink H k a = sys_unlink H' k a"
    "sys_unlinkat H k a = sys_unlinkat H' k a" "sys_renameat H k a = sys_renameat H' k a"
    "sys_readlinkat H k a = sys_readlinkat H' k a" "sys_symlinkat H k a = sys_symlinkat H' k a"
    "sys_linkat H k a = sys_linkat H' k a" "sys_fchmodat H k a = sys_fchmodat H' k a"
    "sys_faccessat2 H k a = sys_faccessat2 H' k a" "sys_chdir H k a = sys_chdir H' k a"
    "sys_chroot H k a = sys_chroot H' k a"
proof -
  note p = agree_paths [OF A] and q = agree_two_paths [OF A] and v = agree_vfs [OF A]
  obtain x1 x2 x3 x4 x5 x6 where a: "a = Args x1 x2 x3 x4 x5 x6" by (cases a)
  show "sys_mkdir H k a = sys_mkdir H' k a" unfolding a sys_mkdir.simps
    by (rule path_arg_cong [OF C]) (simp only: p)
  show "sys_mkdirat H k a = sys_mkdirat H' k a" unfolding a sys_mkdirat.simps
    by (rule path_arg_cong [OF C]) (simp only: p)
  show "sys_rmdir H k a = sys_rmdir H' k a" unfolding a sys_rmdir.simps
    by (rule path_arg_cong [OF C]) (simp only: p)
  show "sys_unlink H k a = sys_unlink H' k a" unfolding a sys_unlink.simps
    by (rule path_arg_cong [OF C]) (simp only: p)
  show "sys_unlinkat H k a = sys_unlinkat H' k a" unfolding a sys_unlinkat.simps
    by (rule path_arg_cong [OF C]) (simp only: p)
  show "sys_renameat H k a = sys_renameat H' k a" unfolding a sys_renameat.simps
    by (rule two_path_args_cong [OF C]) (simp only: p q)
  show "sys_readlinkat H k a = sys_readlinkat H' k a" unfolding a sys_readlinkat.simps
    by (cases "usize_try_from x4") (simp, simp only: option.case, rule path_arg_cong [OF C], simp only: p)
  show "sys_symlinkat H k a = sys_symlinkat H' k a" unfolding a sys_symlinkat.simps
    by (rule str_arg_cong, rule path_arg_cong [OF C]) (simp only: p)
  show "sys_linkat H k a = sys_linkat H' k a" unfolding a sys_linkat.simps
    by (rule two_path_args_cong [OF C]) (simp only: q)
  show "sys_fchmodat H k a = sys_fchmodat H' k a" unfolding a sys_fchmodat.simps
    by (rule path_arg_cong [OF C]) (simp only: p)
  show "sys_faccessat2 H k a = sys_faccessat2 H' k a" unfolding a sys_faccessat2.simps
    by (rule path_arg_cong [OF C]) (simp only: p)
  show "sys_chdir H k a = sys_chdir H' k a" unfolding a sys_chdir.simps
    by (rule path_arg_cong [OF C]) (simp only: v)
  show "sys_chroot H k a = sys_chroot H' k a" unfolding a sys_chroot.simps
    by (rule path_arg_cong [OF C]) (simp only: v)
qed

lemma open_agree:
  assumes A: "agree_below P H H'" and C: "confined P k"
  shows "sys_openat H k a = sys_openat H' k a" "sys_newfstatat H k a = sys_newfstatat H' k a"
    "sys_truncate H k a = sys_truncate H' k a"
proof -
  note p = agree_paths [OF A] and v = agree_vfs [OF A] and hs = agree_handles [OF A]
  obtain x1 x2 x3 x4 x5 x6 where a: "a = Args x1 x2 x3 x4 x5 x6" by (cases a)
  show "sys_openat H k a = sys_openat H' k a" unfolding a sys_openat.simps
    by (rule str_arg_cong, rule try_ret_cong, drule confined_resolve [OF C]) (simp only: p v)
  show "sys_newfstatat H k a = sys_newfstatat H' k a" unfolding a sys_newfstatat.simps io_agree(4) [OF A]
  proof (rule str_arg_cong)
    fix s
    have "try_ret (sys_resolve k x1 s) k (\<lambda>ap. try_ret (vfs_stat H ap (k_host k)) k (\<lambda>st. write_stat k st x3)) =
      try_ret (sys_resolve k x1 s) k (\<lambda>ap. try_ret (vfs_stat H' ap (k_host k)) k (\<lambda>st. write_stat k st x3))"
      by (rule try_ret_cong, drule confined_resolve [OF C]) (simp only: v)
    then show "(if as_i32 x4 AND 0x1000 \<noteq> 0 \<and> s = [] then sys_fstat H' k (Args x1 x3 0 0 0 0)
        else if s = [] then (- ENOENT, k)
        else try_ret (sys_resolve k x1 s) k (\<lambda>ap. try_ret (vfs_stat H ap (k_host k)) k (\<lambda>st. write_stat k st x3))) =
      (if as_i32 x4 AND 0x1000 \<noteq> 0 \<and> s = [] then sys_fstat H' k (Args x1 x3 0 0 0 0)
        else if s = [] then (- ENOENT, k)
        else try_ret (sys_resolve k x1 s) k (\<lambda>ap. try_ret (vfs_stat H' ap (k_host k)) k (\<lambda>st. write_stat k st x3)))"
      by (simp only:)
  qed
  show "sys_truncate H k a = sys_truncate H' k a" unfolding a sys_truncate.simps hs
    by (rule str_arg_cong, rule if_cong [OF refl refl], rule if_cong [OF refl refl], rule try_ret_cong,
        drule confined_resolve [OF C]) (simp only: p)
qed

lemma statx_agree:
  assumes A: "agree_below P H H'" and C: "confined P k"
  shows "sys_statx H k a = sys_statx H' k a"
proof -
  have "statx_stat H k d fl s = statx_stat H' k d fl s" for d fl s
    unfolding statx_stat_def agree_handles [OF A]
    by (cases "sys_resolve k d s") (auto simp: agree_vfs [OF A] dest!: confined_resolve [OF C])
  then have "statx_stat H = statx_stat H' \<or> (\<forall>d fl s. statx_stat H k d fl s = statx_stat H' k d fl s)" by blast
  then show ?thesis by (cases a) (auto simp: Let_def intro!: try_ret_cong str_arg_cong)
qed

lemma utimensat_agree:
  assumes A: "agree_below P H H'" and C: "confined P k"
  shows "sys_utimensat H k a = sys_utimensat H' k a"
proof -
  have t: "utimens_times H k ptr = utimens_times H' k ptr" for ptr
    by (simp add: utimens_times_def agree_handles [OF A])
  show ?thesis
    by (cases a)
      (auto simp: t agree_paths [OF A] agree_handles [OF A] split: sum.split option.split prod.split
        dest!: confined_resolve [OF C])
qed

end
