(* ===== verification/Dispatch.thy ===== *)
theory Dispatch
  imports Async_Calls Confinement Snapshot
begin

text \<open>
  Confinement of the whole kernel.  \<open>handler_of\<close> is the part of the table of \<^verbatim>\<open>src/src/dispatch.rs\<close> with the handlers that
  neither wait nor depend on the outside; \<open>kruns\<close> is any sequence of them, interleaved with any pieces (\<open>async_step\<close>) of the
  other calls.  The theorems show that such a run touches the host's files only through paths below the preopen directory
  (lexically: what a symbolic link inside it points to is the host's business).  Not part of such a run are \<open>bind\<close>, \<open>connect\<close> and
  \<open>snapshot\<close>, which pass guest paths to the host as they are; \<open>kreach\<close> adds them, and shows that no call at all moves the root or
  the working directory out of the preopen directory, or leaves an open file whose path lies outside.
\<close>

section \<open>The dispatch table\<close>

text \<open>A handler that always returns.\<close>

definition total_call :: "'h handler \<Rightarrow> 'h kernel \<Rightarrow> args \<Rightarrow> (int \<times> 'h kernel) option" where
  "total_call f k a = Some (f k a)"

text \<open>\<open>arch_prctl\<close> and \<open>rseq\<close>.\<close>

definition enosys :: "'h handler" where
  "enosys k a = (to_ret ENOSYS, k)"

text \<open>
  The arms of \<open>dispatch\<close> for the syscalls that always return at once with a result that depends on the kernel
  and the host's files only.
\<close>

definition handler_table ::
  "'h host_ops \<Rightarrow> (bytes \<Rightarrow> nat \<Rightarrow> bytes option) \<Rightarrow> 'h handler \<Rightarrow> 'h handler \<Rightarrow>
    (nat \<times> ('h kernel \<Rightarrow> args \<Rightarrow> (int \<times> 'h kernel) option)) list"
where
  "handler_table H G rf st =
    [(9, total_call (sys_mmap G)), (11, total_call sys_munmap), (10, total_call sys_mprotect),
     (28, total_call sys_madvise), (12, total_call sys_brk), (25, total_call sys_mremap),
     (0, total_call (sys_read H rf)), (1, total_call (sys_write H st)), (2, total_call (sys_open H)),
     (257, total_call (sys_openat H)), (3, total_call sys_close), (4, total_call (sys_stat H)),
     (6, total_call (sys_lstat H)), (8, total_call (sys_lseek H)), (5, total_call (sys_fstat H)),
     (262, total_call (sys_newfstatat H)), (332, total_call (sys_statx H)),
     (217, total_call (sys_getdents64 H)), (22, total_call sys_pipe), (293, total_call sys_pipe2),
     (72, sys_fcntl), (32, sys_dup), (33, sys_dup2), (292, sys_dup3), (79, total_call sys_getcwd),
     (19, total_call (sys_readv H rf)), (20, total_call (sys_writev H st)),
     (83, total_call (sys_mkdir H)), (258, total_call (sys_mkdirat H)), (84, total_call (sys_rmdir H)),
     (87, total_call (sys_unlink H)), (263, total_call (sys_unlinkat H)), (82, total_call (sys_rename H)),
     (264, total_call (sys_renameat H)), (316, total_call (sys_renameat2 H)),
     (76, total_call (sys_truncate H)), (77, total_call (sys_ftruncate H)),
     (89, total_call (sys_readlink H)), (267, total_call (sys_readlinkat H)),
     (88, total_call (sys_symlink H)), (266, total_call (sys_symlinkat H)), (86, total_call (sys_link H)),
     (265, total_call (sys_linkat H)), (280, sys_utimensat H), (90, total_call (sys_chmod H)),
     (91, total_call (sys_fchmod H)), (268, total_call (sys_fchmodat H)),
     (269, total_call (sys_faccessat H)), (439, total_call (sys_faccessat2 H)),
     (80, total_call (sys_chdir H)), (161, total_call (sys_chroot H)),
     (290, total_call sys_eventfd2), (284, total_call sys_eventfd),
     (60, total_call sys_exit), (231, total_call sys_exit_group), (39, total_call sys_getpid),
     (186, total_call sys_gettid), (218, total_call sys_set_tid_address), (273, total_call sys_set_robust_list),
     (158, total_call enosys), (334, total_call enosys), (102, total_call sys_getuid),
     (107, total_call sys_geteuid), (104, total_call sys_getgid), (108, total_call sys_getegid),
     (110, total_call sys_getppid), (63, total_call sys_uname), (302, total_call sys_prlimit64),
     (97, total_call sys_getrlimit), (112, total_call sys_setsid), (124, total_call sys_getsid),
     (115, total_call sys_getgroups), (24, total_call sys_sched_yield),
     (204, total_call sys_sched_getaffinity), (157, total_call sys_prctl), (62, total_call sys_kill),
     (234, total_call sys_tgkill), (131, total_call sys_sigaltstack), (15, total_call sys_rt_sigreturn),
     (56, total_call sys_clone), (57, total_call sys_fork), (13, total_call sys_rt_sigaction),
     (14, total_call sys_rt_sigprocmask), (291, total_call sys_epoll_create1), (233, total_call sys_epoll_ctl),
     (16, total_call sys_ioctl), (229, total_call sys_clock_getres), (99, total_call sys_sysinfo),
     (100, total_call sys_times), (41, total_call sys_socket), (50, total_call sys_listen),
     (54, total_call sys_setsockopt), (55, total_call sys_getsockopt)]"

text \<open>
  The arms of the other calls: the sockets that talk to the host (41 and following, 288), \<open>poll\<close>, \<open>select\<close> and \<open>epoll\<close> waits, clocks
  and sleeps, \<open>wait4\<close>, \<open>futex\<close>, \<open>snapshot\<close>, \<open>resolve\<close> and \<open>getrandom\<close>.
\<close>

definition waiting_numbers :: "nat list" where
  "waiting_numbers =
    [49, 43, 288, 42, 44, 45, 46, 47, 51, 52, 48, 53, 7, 271, 23, 232, 281, 230, 228, 96, 35, 61, 202, 123, 400, 318]"

text \<open>Every number without an arm is answered with \<open>-ENOSYS\<close>.\<close>

definition handler_of ::
  "'h host_ops \<Rightarrow> (bytes \<Rightarrow> nat \<Rightarrow> bytes option) \<Rightarrow> 'h handler \<Rightarrow> 'h handler \<Rightarrow> nat \<Rightarrow>
    ('h kernel \<Rightarrow> args \<Rightarrow> (int \<times> 'h kernel) option) option"
where
  "handler_of H G rf st nr =
     (case map_of (handler_table H G rf st) nr of
        Some f \<Rightarrow> Some f
      | None \<Rightarrow> if nr \<in> set waiting_numbers then None else Some (total_call enosys))"

text \<open>Any sequence of these syscalls, with the numbers, arguments and results, and pieces of others in between.\<close>

inductive kruns ::
  "'h host_ops \<Rightarrow> 'h sock_ops \<Rightarrow> (bytes \<Rightarrow> nat \<Rightarrow> bytes option) \<Rightarrow> 'h handler \<Rightarrow> 'h handler \<Rightarrow>
    'h kernel \<Rightarrow> (nat \<times> args \<times> int) list \<Rightarrow> 'h kernel \<Rightarrow> bool"
  for H X G rf st
where
  kr_nil: "kruns H X G rf st k [] k"
| kr_step: "handler_of H G rf st nr = Some f \<Longrightarrow> f k a = Some (r, k1) \<Longrightarrow> kruns H X G rf st k1 tr k2 \<Longrightarrow>
    kruns H X G rf st k ((nr, a, r) # tr) k2"
| kr_async: "async_step X k k1 \<Longrightarrow> kruns H X G rf st k1 tr k2 \<Longrightarrow> kruns H X G rf st k tr k2"

text \<open>The socket handlers that \<open>read\<close> and \<open>write\<close> fall through to evolve the kernel.\<close>

definition evolves :: "'h handler \<Rightarrow> bool" where
  "evolves f \<longleftrightarrow> (\<forall>k a. evolved k (snd (f k a)))"

definition moves :: "('h kernel \<Rightarrow> args \<Rightarrow> (int \<times> 'h kernel) option) \<Rightarrow> bool" where
  "moves f \<longleftrightarrow> (\<forall>k a r k'. f k a = Some (r, k') \<longrightarrow> spawns k k')"

lemma awaits_evolve: "evolves (recvfrom_await rans)" "evolves (sendto_await sans)"
  by (simp_all add: evolves_def evolved_await evolved_refl)

lemma moves_total:
  assumes "\<And>k0 k a. evolved k0 k \<Longrightarrow> evolved k0 (snd (f k a))"
  shows "moves (total_call f)"
  unfolding moves_def total_call_def using assms [OF evolved_refl] evolved_spawns by (metis option.inject snd_conv)

lemma evolved_zero_fill [simp]: "evolved k0 (zero_fill k p n) = evolved k0 k"
  by (simp add: zero_fill_def)

lemma evolved_memory:
  assumes "evolved k0 k"
  shows "evolved k0 (snd (sys_mmap G k a))" "evolved k0 (snd (sys_munmap k a))"
    "evolved k0 (snd (sys_mremap k a))" "evolved k0 (snd (sys_mprotect k a))"
    "evolved k0 (snd (sys_madvise k a))" "evolved k0 (snd (sys_brk k a))"
  using assms
  by (cases a; auto simp: Let_def sys_mprotect_def sys_madvise_def sys_brk_def
      intro!: evolved_try_ret split: option.split prod.split mmap_result.split sum.split)+

lemma evolved_process_state [simp]:
  "evolved k0 (reap_all_children k) = evolved k0 k"
  "evolved k0 (register_tid t k) = evolved k0 k" "evolved k0 (push_signal sg k) = evolved k0 k"
  "evolved k0 (store_action k b prev) = evolved k0 k"
  by (simp_all add: reap_all_children_def image_image case_prod_beta register_tid_def push_signal_def store_action_def)

lemma evolved_signals:
  assumes "evolved k0 k"
  shows "evolved k0 (snd (sys_rt_sigaction k a))" "evolved k0 (snd (sys_rt_sigprocmask k a))"
    "evolved k0 (snd (sys_sigaltstack k a))" "evolved k0 (snd (sys_rt_sigreturn k a))"
  using assms
  by (cases a; auto simp: Let_def sys_rt_sigreturn_def intro!: evolved_try_ret split: prod.split)+

lemma spawns_clone: "spawns k (snd (sys_clone k a))"
proof -
  let ?pst = "(k_process k)\<lparr>ps_next_pid := as_i32 (ps_next_pid (k_process k) + 1)\<rparr>"
  let ?k = "k\<lparr>k_process := ?pst\<rparr>"
  obtain fl x2 pp cp x5 x6 where a: "a = Args fl x2 pp cp x5 x6" by (cases a)
  let ?bad = "fl AND NOT CLONE_SUPPORTED_V2 \<noteq> 0 \<or> fl AND (CLONE_CHILD_SETTID OR CLONE_PARENT_SETTID) = 0"
  have "evolved k (snd (sys_clone k a))" if ?bad using that by (auto simp: a evolved_refl)
  moreover have "evolved ?k (snd (sys_clone k a))" if "\<not> ?bad"
    using that by (auto simp: a Let_def alloc_pid_def intro!: evolved_try_ret evolved_refl split: prod.split)
  moreover have "spawns k k'" if "evolved ?k k'" for k'
    unfolding spawns_def using that by (intro exI [of _ ?pst]) (auto simp: child_pids_def)
  ultimately show ?thesis using evolved_spawns by blast
qed

lemma spawns_fork: "spawns k (snd (sys_fork k a))"
  unfolding spawns_def
  by (rule exI [of _ "(k_process k)\<lparr>ps_next_pid := as_i32 (ps_next_pid (k_process k) + 1),
      ps_children := AList.update (ps_next_pid (k_process k)) (child_new 0) (ps_children (k_process k))\<rparr>"])
    (auto simp: sys_fork_def alloc_pid_def Let_def child_pids_def dom_map_of_conv_image_fst [symmetric] evolved_refl update_conv'
      simp flip: dom_map_of_conv_image_fst)

lemma moves_spawn: "moves (total_call sys_clone)" "moves (total_call sys_fork)"
  unfolding moves_def total_call_def using spawns_clone spawns_fork by (metis option.inject snd_conv)+

lemma evolved_process:
  assumes "evolved k0 k"
  shows "evolved k0 (snd (sys_exit k a))" "evolved k0 (snd (sys_exit_group k a))"
    "evolved k0 (snd (sys_sched_getaffinity k a))" "evolved k0 (snd (sys_prctl k a))"
    "evolved k0 (snd (sys_kill k a))" "evolved k0 (snd (sys_tgkill k a))"
    "evolved k0 (snd (sys_uname k a))" "evolved k0 (snd (sys_prlimit64 k a))" "evolved k0 (snd (sys_getgroups k a))"
  using assms
  by (cases a; auto simp: Let_def intro!: evolved_try_ret split: prod.split)+

lemma evolved_constant:
  assumes "evolved k0 k"
  shows "evolved k0 (snd (sys_getpid k a))" "evolved k0 (snd (sys_gettid k a))" "evolved k0 (snd (enosys k a))"
    "evolved k0 (snd (sys_set_tid_address k a))" "evolved k0 (snd (sys_set_robust_list k a))"
    "evolved k0 (snd (sys_getuid k a))" "evolved k0 (snd (sys_geteuid k a))" "evolved k0 (snd (sys_getgid k a))"
    "evolved k0 (snd (sys_getegid k a))" "evolved k0 (snd (sys_getppid k a))" "evolved k0 (snd (sys_setsid k a))"
    "evolved k0 (snd (sys_getsid k a))" "evolved k0 (snd (sys_sched_yield k a))"
  using assms
  by (simp_all add: sys_getpid_def sys_gettid_def enosys_def sys_set_tid_address_def sys_set_robust_list_def
      sys_getuid_def sys_geteuid_def sys_getgid_def sys_getegid_def sys_getppid_def sys_setsid_def sys_getsid_def
      sys_sched_yield_def)

lemma evolved_getrlimit: "evolved k0 k \<Longrightarrow> evolved k0 (snd (sys_getrlimit k a))"
  by (cases a) (simp only: sys_getrlimit.simps evolved_process)

lemma evolved_wrappers:
  assumes "evolved k0 k"
  shows "evolved k0 (snd (sys_open H k a))" "evolved k0 (snd (sys_stat H k a))"
    "evolved k0 (snd (sys_lstat H k a))" "evolved k0 (snd (sys_pipe k a))"
    "evolved k0 (snd (sys_rename H k a))" "evolved k0 (snd (sys_renameat2 H k a))"
    "evolved k0 (snd (sys_readlink H k a))" "evolved k0 (snd (sys_symlink H k a))"
    "evolved k0 (snd (sys_link H k a))" "evolved k0 (snd (sys_chmod H k a))"
    "evolved k0 (snd (sys_faccessat H k a))" "evolved k0 (snd (sys_eventfd k a))"
  unfolding sys_renameat2_def sys_faccessat_def sys_eventfd_def
  using evolved_openat [OF assms, of H] evolved_newfstatat [OF assms, of H] evolved_pipe2 [OF assms]
    evolved_path_calls [OF assms, of H] evolved_eventfd2 [OF assms]
  by (cases a; simp only: sys_open.simps sys_stat.simps sys_lstat.simps sys_pipe.simps sys_rename.simps
      sys_readlink.simps sys_symlink.simps sys_link.simps sys_chmod.simps)+

lemma evolved_vectored:
  assumes "evolved k0 k"
  shows "(\<And>k a. evolved k0 k \<Longrightarrow> evolved k0 (snd (rf k a))) \<Longrightarrow> evolved k0 (snd (sys_readv H rf k a))"
    "(\<And>k a. evolved k0 k \<Longrightarrow> evolved k0 (snd (st k a))) \<Longrightarrow> evolved k0 (snd (sys_writev H st k a))"
proof -
  obtain x1 x2 x3 x4 x5 x6 where a: "a = Args x1 x2 x3 x4 x5 x6" by (cases a)
  show "evolved k0 (snd (sys_readv H rf k a))" if "\<And>k a. evolved k0 k \<Longrightarrow> evolved k0 (snd (rf k a))"
    unfolding a sys_readv.simps by (rule evolved_iov_call [OF assms], rule evolved_read) (simp_all add: that)
  show "evolved k0 (snd (sys_writev H st k a))" if "\<And>k a. evolved k0 k \<Longrightarrow> evolved k0 (snd (st k a))"
    unfolding a sys_writev.simps by (rule evolved_iov_call [OF assms], rule evolved_write) (simp_all add: that)
qed

lemma handler_table_moves:
  assumes "evolves rf" "evolves st"
  shows "list_all (\<lambda>(nr, f). moves f) (handler_table H G rf st)"
proof -
  have rf: "evolved k0 k \<Longrightarrow> evolved k0 (snd (rf k a))" and st: "evolved k0 k \<Longrightarrow> evolved k0 (snd (st k a))" for k0 k a
    using assms by (auto simp: evolves_def intro: evolved_trans)
  have io: "moves (total_call (sys_read H rf))" "moves (total_call (sys_write H st))"
    "moves (total_call (sys_readv H rf))" "moves (total_call (sys_writev H st))"
    by (rule moves_total, erule evolved_read, erule rf) (rule moves_total, erule evolved_write, erule st,
        rule moves_total, erule evolved_vectored(1), erule rf, rule moves_total, erule evolved_vectored(2), erule st)
  have opt: "moves sys_fcntl" "moves sys_dup" "moves sys_dup2" "moves sys_dup3" "moves (sys_utimensat H)"
    unfolding moves_def
    by (blast intro: evolved_spawns evolved_fcntl evolved_dup evolved_utimensat evolved_refl)+
  show ?thesis
    unfolding handler_table_def list.pred_inject split_conv
    by (intro conjI TrueI list.pred_inject(1) io opt moves_spawn moves_total evolved_memory evolved_wrappers evolved_path_calls evolved_openat
        evolved_newfstatat evolved_statx evolved_close evolved_pipe2 evolved_lseek evolved_fstat
        evolved_getdents64 evolved_getcwd evolved_ftruncate evolved_fchmod evolved_chdir evolved_chroot
        evolved_eventfd2 evolved_signals evolved_process evolved_constant evolved_getrlimit
        evolved_epoll evolved_ioctl evolved_times evolved_socket_calls)
qed

lemma handler_of_spawns:
  assumes "evolves rf" "evolves st" "handler_of H G rf st nr = Some f" "f k a = Some (r, k')"
  shows "spawns k k'"
proof -
  have "(nr, f) \<in> set (handler_table H G rf st) \<or> f = total_call enosys"
    using assms(3) by (auto simp: handler_of_def dest: map_of_SomeD split: option.splits if_splits)
  moreover have "moves (total_call enosys)" by (rule moves_total) (simp add: enosys_def)
  ultimately have "moves f" using handler_table_moves [OF assms(1,2), of H G] by (auto simp: list_all_iff)
  with assms(4) show ?thesis unfolding moves_def by blast
qed

lemma kruns_grown:
  assumes "evolves rf" "evolves st"
  shows "kruns H X G rf st k tr k' \<Longrightarrow> grown k k'"
  by (induction rule: kruns.induct)
    (blast intro: evolved_refl evolved_grown grown_trans spawns_grown handler_of_spawns [OF assms] async_step_evolved)+

text \<open>Two hosts that agree below \<open>P\<close> give the same table, entry by entry, on confined kernels.\<close>

definition same_on :: "pathbuf \<Rightarrow> ('h kernel \<Rightarrow> args \<Rightarrow> 'r) \<Rightarrow> ('h kernel \<Rightarrow> args \<Rightarrow> 'r) \<Rightarrow> bool" where
  "same_on P f g \<longleftrightarrow> (\<forall>k a. confined P k \<longrightarrow> f k a = g k a)"

lemma same_on_refl: "same_on P f f"
  by (simp add: same_on_def)

lemma same_on_total: "(\<And>k a. confined P k \<Longrightarrow> f k a = g k a) \<Longrightarrow> same_on P (total_call f) (total_call g)"
  by (simp add: same_on_def total_call_def)

lemma wrappers_agree:
  assumes A: "agree_below P H H'" and C: "confined P k"
  shows "sys_open H k a = sys_open H' k a" "sys_stat H k a = sys_stat H' k a" "sys_lstat H k a = sys_lstat H' k a"
    "sys_rename H k a = sys_rename H' k a" "sys_renameat2 H k a = sys_renameat2 H' k a"
    "sys_readlink H k a = sys_readlink H' k a" "sys_symlink H k a = sys_symlink H' k a"
    "sys_link H k a = sys_link H' k a" "sys_chmod H k a = sys_chmod H' k a"
    "sys_faccessat H k a = sys_faccessat H' k a"
  unfolding sys_renameat2_def sys_faccessat_def
  using path_calls_agree [OF A C] open_agree [OF A C]
  by (cases a; simp only: sys_open.simps sys_stat.simps sys_lstat.simps sys_rename.simps
      sys_readlink.simps sys_symlink.simps sys_link.simps sys_chmod.simps)+

lemma handler_table_agree:
  assumes A: "agree_below P H H'"
  shows "list_all2 (\<lambda>(n, f) (n', g). n = n' \<and> same_on P f g) (handler_table H G rf st) (handler_table H' G rf st)"
proof -
  have u: "same_on P (sys_utimensat H) (sys_utimensat H')"
    by (simp add: same_on_def utimensat_agree [OF A])
  show ?thesis
    unfolding handler_table_def list.rel_inject split_conv
    by (intro conjI refl list.rel_intros u same_on_refl same_on_total io_agree [OF A] iov_agree [OF A]
        getdents64_agree [OF A] path_calls_agree [OF A] open_agree [OF A] statx_agree [OF A] wrappers_agree [OF A])
qed

lemma handler_of_agree:
  assumes "agree_below P H H'" "handler_of H G rf st nr = Some f"
  shows "\<exists>g. handler_of H' G rf st nr = Some g \<and> same_on P f g"
proof -
  have "list_all2 (\<lambda>(n, f) (n', g). n = n' \<and> same_on P f g) xs ys \<Longrightarrow> map_of xs nr = Some f \<Longrightarrow>
    \<exists>g. map_of ys nr = Some g \<and> same_on P f g" for xs ys
    by (induction xs ys rule: list_all2_induct) (auto split: if_splits)
  note some = this [OF handler_table_agree [OF assms(1)], of G rf st]
  have "list_all2 (\<lambda>(n, f) (n', g). n = n' \<and> same_on P f g) xs ys \<Longrightarrow> map_of xs nr = None \<longleftrightarrow> map_of ys nr = None" for xs ys
    by (induction xs ys rule: list_all2_induct) auto
  note none = this [OF handler_table_agree [OF assms(1)], of G rf st]
  show ?thesis
  proof (cases "map_of (handler_table H G rf st) nr")
    case None
    with none assms(2) show ?thesis by (auto simp: handler_of_def same_on_refl split: if_splits)
  next
    case (Some f')
    with some assms(2) show ?thesis by (auto simp: handler_of_def)
  qed
qed

lemma kruns_agree:
  assumes "agree_below P H H'" "evolves rf" "evolves st"
  shows "kruns H X G rf st k tr k' \<Longrightarrow> confined P k \<Longrightarrow> kruns H' X G rf st k tr k'"
proof (induction rule: kruns.induct)
  case (kr_step nr f k a r k1 tr k2)
  from handler_of_agree [OF assms(1) kr_step.hyps(1)] obtain g where
    g: "handler_of H' G rf st nr = Some g" "same_on P f g" by blast
  then have "g k a = Some (r, k1)" using kr_step.hyps(2) kr_step.prems by (simp add: same_on_def)
  moreover have "confined P k1"
    by (rule confined_grown [OF kr_step.prems spawns_grown [OF handler_of_spawns [OF assms(2,3) kr_step.hyps(1,2)]]])
  ultimately show ?case using g(1) kr_step.IH by (blast intro: kruns.kr_step)
next
  case (kr_async k k1 tr k2)
  then show ?case by (blast intro: kruns.kr_async confined_evolved async_step_evolved evolved_refl)
qed (rule kr_nil)

lemma agree_sym: "agree_below P H H' \<Longrightarrow> agree_below P H' H"
  by (simp add: agree_below_def)

section \<open>Confinement of a kernel from its start\<close>

text \<open>The kernel that \<open>Kernel::new_with_preopen\<close> builds, with the guest's memory attached.\<close>

definition booted ::
  "'h host_ops \<Rightarrow> bytes list \<Rightarrow> (bytes \<times> bytes) list \<Rightarrow> bytes \<Rightarrow> pathbuf \<Rightarrow> 'h \<Rightarrow> memory_kind option \<Rightarrow> 'h kernel" where
  "booted H args env seed preopen h m = (kernel_new_with_preopen H args env seed preopen h)\<lparr>k_memory := m\<rparr>"

lemma booted_confined: "vfs_new H preopen h = Inr v \<Longrightarrow> confined (root v) (booted H args env seed preopen h m)"
  by (auto simp: booted_def kernel_new_with_preopen_def kernel_new_inner_def with_buffered_stdio_def make_pipe_def
      confined_def vfs_new_def fds_wf_def Let_def split: sum.splits if_splits)

text \<open>Runs with the three calls that hand guest paths to the host: any call of the table.\<close>

inductive kreach ::
  "'h host_ops \<Rightarrow> 'h sock_ops \<Rightarrow> 'h net_ops \<Rightarrow> postcard \<Rightarrow> (bytes \<Rightarrow> nat \<Rightarrow> bytes option) \<Rightarrow> 'h handler \<Rightarrow> 'h handler \<Rightarrow>
    'h kernel \<Rightarrow> 'h kernel \<Rightarrow> bool"
  for H X N pc G rf st
where
  kreach_refl: "kreach H X N pc G rf st k k"
| kreach_run: "kruns H X G rf st k tr k1 \<Longrightarrow> kreach H X N pc G rf st k1 k2 \<Longrightarrow> kreach H X N pc G rf st k k2"
| kreach_bind: "sys_bind X k a = (r, k1) \<Longrightarrow> kreach H X N pc G rf st k1 k2 \<Longrightarrow> kreach H X N pc G rf st k k2"
| kreach_connect: "connect_resume k p result = (r, k1) \<Longrightarrow> kreach H X N pc G rf st k1 k2 \<Longrightarrow> kreach H X N pc G rf st k k2"
| kreach_snapshot: "snapshot_syscall H N pc k a = (r, k1) \<Longrightarrow> kreach H X N pc G rf st k1 k2 \<Longrightarrow> kreach H X N pc G rf st k k2"

lemma evolved_bind: "evolved k0 k \<Longrightarrow> evolved k0 (snd (sys_bind X k a))"
  by (cases a)
    (auto simp: bind_unix_def bind_listener_def bind_udp_def Let_def case_prod_beta intro!: evolved_try_ret
      split: option.split sum.split sock_addr.split prod.split bool.split io_kind.split)

lemma evolved_connect: "evolved k0 k \<Longrightarrow> evolved k0 (snd (connect_resume k p result))"
  by (cases p) (auto simp: Let_def intro!: evolved_try_ret split: sum.split option.split)

lemma evolved_snapshot: "evolved k0 k \<Longrightarrow> evolved k0 (snd (snapshot_syscall H N pc k a))"
  by (cases a) (auto intro!: evolved_try_ret split: sum.split prod.split)

lemma kreach_grown:
  assumes "evolves rf" "evolves st"
  shows "kreach H X N pc G rf st k k' \<Longrightarrow> grown k k'"
proof (induction rule: kreach.induct)
  case (kreach_refl k)
  then show ?case by (rule evolved_grown [OF evolved_refl])
next
  case (kreach_run k tr k1 k2)
  then show ?case using kruns_grown [OF assms] grown_trans by blast
next
  case (kreach_bind k a r k1 k2)
  then show ?case using evolved_grown [OF evolved_bind [OF evolved_refl, of k X a]] grown_trans by fastforce
next
  case (kreach_connect k p result r k1 k2)
  then show ?case using evolved_grown [OF evolved_connect [OF evolved_refl, of k p result]] grown_trans by fastforce
next
  case (kreach_snapshot k a r k1 k2)
  then show ?case using evolved_grown [OF evolved_snapshot [OF evolved_refl, of k H N pc a]] grown_trans by fastforce
qed

text \<open>The root a kernel starts with: the preopen directory, or \<open>/\<close> where it cannot be resolved.\<close>

definition boot_root :: "'h host_ops \<Rightarrow> pathbuf \<Rightarrow> 'h \<Rightarrow> pathbuf" where
  "boot_root H preopen h = (case vfs_new H preopen h of Inl _ \<Rightarrow> [RootDir] | Inr v \<Rightarrow> root v)"

lemma booted_confined_root: "confined (boot_root H preopen h) (booted H args env seed preopen h m)"
  by (auto simp: boot_root_def booted_def kernel_new_with_preopen_def kernel_new_inner_def with_buffered_stdio_def make_pipe_def
      confined_def vfs_new_def fds_wf_def Let_def split: sum.splits if_splits)

text \<open>
  C2: Whatever sequence of syscalls a guest makes on a kernel started on a preopen directory, \<open>bind\<close>, \<open>connect\<close> and \<open>snapshot\<close>
  included, with calls that wait interleaved in any way and answered in any way, the root of its \<open>Vfs\<close> stays at or below the
  root it started with, the working directory stays at or below the root, and every open file carries a path below the root
  it started with.  That root is the resolved preopen directory; where it cannot be resolved it is \<open>/\<close>, and then
  the statement confines nothing.  A \<open>read\<close> or \<open>write\<close> on a socket runs \<open>recvfrom\<close> or \<open>sendto\<close>, with any answers of the host.
\<close>
theorem syscalls_confined:
  assumes "kreach H X N pc G (recvfrom_await rans) (sendto_await sans) (booted H args env seed preopen h m) k"
  shows "prefix (boot_root H preopen h) (root (k_vfs k)) \<and> prefix (root (k_vfs k)) (cwd (k_vfs k)) \<and>
    (\<forall>fp \<in> set (k_files k). \<forall>p. fp_path fp = Some p \<longrightarrow> prefix (boot_root H preopen h) p)"
  using confined_grown [OF booted_confined_root kreach_grown [OF awaits_evolve assms]] by (simp_all add: confined_def)

text \<open>
  C1: Nothing outside the preopen directory can be seen or changed by path: two hosts that behave
  alike at every path below the directory, whatever they do elsewhere, give every run of
  the kernel (\<open>bind\<close>, \<open>connect\<close> and \<open>snapshot\<close> excepted) the same results and leave the same kernel and the same host state.
\<close>
theorem host_access_confined:
  assumes "vfs_new H preopen h = Inr v" "agree_below (root v) H H'"
  shows "kruns H X G (recvfrom_await rans) (sendto_await sans) (booted H args env seed preopen h m) tr k \<longleftrightarrow>
    kruns H' X G (recvfrom_await rans) (sendto_await sans) (booted H args env seed preopen h m) tr k"
  using kruns_agree [OF assms(2) awaits_evolve _ booted_confined [OF assms(1)]]
    kruns_agree [OF agree_sym [OF assms(2)] awaits_evolve _ booted_confined [OF assms(1)]] by blast

text \<open>A host without a network.\<close>

definition demo_mem_sock :: "memfs sock_ops" where
  "demo_mem_sock =
     \<lparr>x_is_socket = (\<lambda>_ _. Inl NotFound), x_remove_file = (\<lambda>_ h. (Inl NotFound, h)), x_unix_bind = (\<lambda>_ h. (Inl OtherKind, h)),
      x_unix_clone = (\<lambda>_ h. (Inl OtherKind, h)), x_unix_pair = (\<lambda>h. (Inl OtherKind, h)), x_tcp_listen = (\<lambda>_ h. (Inl OtherKind, h)),
      x_udp_socket = (\<lambda>_ h. (Inl OtherKind, h)), x_set_reuse_address = (\<lambda>_ h. h), x_set_only_v6 = (\<lambda>_ _ h. h),
      x_udp_bind = (\<lambda>_ _ h. (Inl OtherKind, h)), x_udp_tokio = (\<lambda>_ h. (Inl OtherKind, h)), x_local_addr = (\<lambda>_ _. Inl OtherKind)\<rparr>"

text \<open>A guest that opens \<open>/p/b\<close> by the relative name \<open>b\<close>, on a host that has \<open>/s\<close> as well.\<close>

definition demo_memory :: "memory_kind option" where
  "demo_memory = Some (Owned ([98, 0] @ replicate 4094 0))"

lemma demo_path: "guest_str demo_memory 0 4096 = Inr [98]"
  by (simp add: demo_memory_def guest_str_def guest_slice_def guest_range_def kernel_memory_def slice_def
      usize_try_from_def usize_checked_add_def until_nul_def)

lemma demo_booted:
  "vfs_new mem_host demo_root demo_fs = Inr \<lparr>root = demo_root, cwd = demo_root\<rparr>"
  by (simp add: vfs_new_def mem_host_defs demo_fs_def)

lemma demo_open: "\<exists>k. kruns mem_host demo_mem_sock G rf st (booted mem_host [] [] (replicate 32 0) demo_root demo_fs demo_memory)
    [(2, Args 0 0 0 0 0 0, 3)] k"
proof -
  let ?k = "booted mem_host [] [] (replicate 32 0) demo_root demo_fs demo_memory"
  have k: "k_memory ?k = demo_memory" "k_vfs ?k = \<lparr>root = demo_root, cwd = demo_root\<rparr>" "k_host ?k = demo_fs"
    "next_fd (k_fds ?k) = 3" by (simp_all add: booted_def kernel_new_with_preopen_def demo_booted kernel_new_inner_def
      with_buffered_stdio_def make_pipe_def Let_def)
  have r: "sys_resolve ?k (- 100) [98] = Inr (demo_root @ [Normal [98]])"
    unfolding sys_resolve_def k
    by (simp add: resolve_path_def components_def is_absolute_def AT_FDCWD_def path_join_def
        normalize_def path_pop_def demo_root_def Let_def)
  have o: "vfs_open mem_host (demo_root @ [Normal [98]]) (as_i32 0) demo_fs =
      (Inr 0, demo_fs\<lparr>handles := [(demo_root @ [Normal [98]], 0)]\<rparr>)"
    by (simp add: vfs_open_def open_options_of_def O_ACCMODE_def O_RDONLY_def O_CREAT_def O_EXCL_def O_TRUNC_def O_APPEND_def O_DIRECTORY_def mem_host_defs demo_fs_def demo_root_def
        as_i32_def Let_def)
  have "fst (sys_open mem_host ?k (Args 0 0 0 0 0 0)) = 3"
    by (simp add: str_arg_def k demo_path r o fd_insert_def Let_def)
  then obtain k' where "sys_open mem_host ?k (Args 0 0 0 0 0 0) = (3, k')" by (cases "sys_open mem_host ?k (Args 0 0 0 0 0 0)") auto
  moreover have "handler_of mem_host G rf st 2 = Some (total_call (sys_open mem_host))"
    by (simp add: handler_of_def handler_table_def)
  ultimately show ?thesis by (blast intro: kr_step kr_nil total_call_def [THEN trans])
qed

text \<open>The same host without the rest of its file system.\<close>

definition blind_host :: "memfs host_ops" where
  "blind_host =
     mem_host\<lparr>h_open := (\<lambda>p opt s. if prefix demo_root p then mfs_open p opt s else (Inl PermissionDenied, s)),
              h_metadata := (\<lambda>p s. if prefix demo_root p then mfs_meta p s else Inl PermissionDenied)\<rparr>"

lemma blind_host_agrees: "agree_below demo_root mem_host blind_host"
  by (simp add: agree_below_def blind_host_def mem_host_def fun_eq_iff)

text \<open>Transfers on it fail.\<close>

abbreviation fail_recv :: "memfs handler" where "fail_recv \<equiv> recvfrom_await (\<lambda>_ _. Inl OtherKind)"
abbreviation fail_send :: "memfs handler" where "fail_send \<equiv> sendto_await (\<lambda>_ _. Inl OtherKind)"

text \<open>The guest that opens \<open>/p/b\<close>, and then asks for a snapshot with a null path.\<close>

theorem syscalls_confined_witness:
  "\<exists>k k'. kruns mem_host demo_mem_sock (\<lambda>_ _. None) fail_recv fail_send (booted mem_host [] [] (replicate 32 0) demo_root demo_fs demo_memory)
      [(2, Args 0 0 0 0 0 0, 3)] k \<and> snapshot_syscall mem_host demo_net demo_postcard k (Args 0 0 0 0 0 0) = (- EFAULT, k') \<and>
    prefix demo_root (root (k_vfs k'))"
proof -
  let ?b = "booted mem_host [] [] (replicate 32 0) demo_root demo_fs demo_memory"
  obtain k where k: "kruns mem_host demo_mem_sock (\<lambda>_ _. None) fail_recv fail_send ?b [(2, Args 0 0 0 0 0 0, 3)] k"
    using demo_open [of "\<lambda>_ _. None"] by blast
  have s: "snapshot_syscall mem_host demo_net demo_postcard k (Args 0 0 0 0 0 0) = (- EFAULT, k)" by simp
  have "kreach mem_host demo_mem_sock demo_net demo_postcard (\<lambda>_ _. None) fail_recv fail_send ?b k"
    by (rule kreach_run [OF k kreach_snapshot [OF s kreach_refl]])
  from syscalls_confined [OF this] k s show ?thesis by (auto simp: boot_root_def demo_booted)
qed

theorem host_access_confined_witness:
  "\<exists>k. kruns blind_host demo_mem_sock (\<lambda>_ _. None) fail_recv fail_send (booted mem_host [] [] (replicate 32 0) demo_root demo_fs demo_memory)
      [(2, Args 0 0 0 0 0 0, 3)] k"
  using host_access_confined [OF demo_booted, of blind_host demo_mem_sock "\<lambda>_ _. None" "\<lambda>_ _. Inl OtherKind" "\<lambda>_ _. Inl OtherKind" "[]" "[]" "replicate 32 0" demo_memory]
    demo_open [of "\<lambda>_ _. None" fail_recv fail_send] blind_host_agrees by auto

end
