(* ===== verification/Trace.thy ===== *)
theory Trace
  imports Cli Dispatch
begin

text \<open>
  The observers of \<^verbatim>\<open>src/src/dispatch.rs\<close> and the subcommand \<open>trace\<close> of \<^verbatim>\<open>src/src/cli/trace.rs\<close>: the registered import
  with the hooks around \<open>dispatch\<close>, the names of syscalls, the log a \<open>TraceObserver\<close> keeps in thread-local cells, the marker
  the conformance tests leave in memory, and the comparison with a baseline.  The lemmas show that observing changes nothing,
  that the log holds the calls made, in order, that a name stands for one syscall, and what the exit code of \<open>--diff\<close> means.
\<close>

section \<open>Names of syscalls\<close>

definition syscall_names :: "(u32 \<times> string) list" where
  "syscall_names =
    [(60, ''exit''), (231, ''exit_group''), (39, ''getpid''), (186, ''gettid''), (218, ''set_tid_address''),
     (273, ''set_robust_list''), (158, ''arch_prctl''), (334, ''rseq''), (9, ''mmap''), (11, ''munmap''),
     (10, ''mprotect''), (28, ''madvise''), (12, ''brk''), (0, ''read''), (1, ''write''), (2, ''open''), (257, ''openat''),
     (3, ''close''), (4, ''stat''), (6, ''lstat''), (8, ''lseek''), (5, ''fstat''), (262, ''newfstatat''), (332, ''statx''),
     (217, ''getdents64''), (22, ''pipe''), (293, ''pipe2''), (72, ''fcntl''), (32, ''dup''), (33, ''dup2''),
     (292, ''dup3''), (79, ''getcwd''), (19, ''readv''), (20, ''writev''), (83, ''mkdir''), (258, ''mkdirat''),
     (84, ''rmdir''), (87, ''unlink''), (263, ''unlinkat''), (82, ''rename''), (264, ''renameat''), (316, ''renameat2''),
     (76, ''truncate''), (77, ''ftruncate''), (89, ''readlink''), (267, ''readlinkat''), (88, ''symlink''),
     (266, ''symlinkat''), (86, ''link''), (265, ''linkat''), (280, ''utimensat''), (90, ''chmod''), (91, ''fchmod''),
     (268, ''fchmodat''), (269, ''faccessat''), (439, ''faccessat2''), (80, ''chdir''), (161, ''chroot''), (41, ''socket''),
     (49, ''bind''), (50, ''listen''), (43, ''accept''), (288, ''accept4''), (42, ''connect''), (44, ''sendto''),
     (45, ''recvfrom''), (46, ''sendmsg''), (47, ''recvmsg''), (54, ''setsockopt''), (55, ''getsockopt''),
     (51, ''getsockname''), (52, ''getpeername''), (48, ''shutdown''), (53, ''socketpair''), (7, ''poll''),
     (271, ''ppoll''), (23, ''select''), (291, ''epoll_create1''), (233, ''epoll_ctl''), (232, ''epoll_wait''),
     (281, ''epoll_pwait''), (290, ''eventfd2''), (284, ''eventfd''), (102, ''getuid''), (107, ''geteuid''),
     (104, ''getgid''), (108, ''getegid''), (110, ''getppid''), (63, ''uname''), (302, ''prlimit64''), (97, ''getrlimit''),
     (112, ''setsid''), (124, ''getsid''), (115, ''getgroups''), (24, ''sched_yield''), (204, ''sched_getaffinity''),
     (157, ''prctl''), (62, ''kill''), (234, ''tgkill''), (131, ''sigaltstack''), (15, ''rt_sigreturn''),
     (229, ''clock_getres''), (230, ''clock_nanosleep''), (25, ''mremap''), (16, ''ioctl''), (228, ''clock_gettime''),
     (96, ''gettimeofday''), (35, ''nanosleep''), (99, ''sysinfo''), (100, ''times''), (56, ''clone''), (57, ''fork''),
     (61, ''wait4''), (202, ''futex''), (123, ''snapshot''), (400, ''resolve''), (318, ''getrandom''),
     (13, ''rt_sigaction''), (14, ''rt_sigprocmask'')]"

definition syscall_name :: "u32 \<Rightarrow> bytes" where
  "syscall_name nr = text_of (case map_of syscall_names nr of Some s \<Rightarrow> s | None \<Rightarrow> ''?'')"

section \<open>Observers\<close>

text \<open>One traced syscall: the time of its entry, its number, name and arguments, and what it returned.\<close>

record trace_entry =
  te_ts_ns :: nat
  te_nr :: u32
  te_name :: bytes
  te_args :: args
  te_ret :: int

text \<open>The one implementation of \<open>SyscallObserver\<close>, and the thread-local cells \<open>OBSERVER\<close>, \<open>TRACE\<close> and \<open>PENDING\<close>.\<close>

datatype observer = TraceObserver

record cells =
  cl_observer :: "observer option"
  cl_trace :: "trace_entry list"
  cl_pending :: "(nat \<times> u32 \<times> args) option"

definition install_observer :: "observer option \<Rightarrow> cells \<Rightarrow> observer option \<times> cells" where
  "install_observer new c = (cl_observer c, c\<lparr>cl_observer := new\<rparr>)"

definition with_observer :: "(observer \<Rightarrow> cells \<Rightarrow> cells) \<Rightarrow> cells \<Rightarrow> cells" where
  "with_observer f c = (case cl_observer c of Some ob \<Rightarrow> f ob c | None \<Rightarrow> c)"

text \<open>\<open>now\<close> is the clock in nanoseconds since the epoch, \<open>None\<close> when it stands before it.\<close>

fun on_enter :: "nat option \<Rightarrow> u32 \<Rightarrow> args \<Rightarrow> observer \<Rightarrow> cells \<Rightarrow> cells" where
  "on_enter now nr a TraceObserver c = c\<lparr>cl_pending := Some (case now of Some t \<Rightarrow> t | None \<Rightarrow> 0, nr, a)\<rparr>"

fun on_exit :: "u32 \<Rightarrow> int \<Rightarrow> observer \<Rightarrow> cells \<Rightarrow> cells" where
  "on_exit nr ret TraceObserver c =
     (case cl_pending c of
        None \<Rightarrow> c
      | Some (ts, pending_nr, a) \<Rightarrow>
          (let c1 = c\<lparr>cl_pending := None\<rparr>
           in if pending_nr = nr
              then c1\<lparr>cl_trace := cl_trace c1 @
                [\<lparr>te_ts_ns = ts, te_nr = nr, te_name = syscall_name nr, te_args = a, te_ret = ret\<rparr>]\<rparr>
              else c1))"

text \<open>
  The import \<open>kernel.syscall\<close> that \<open>register\<close> puts into the linker: the number is the low half of the guest's 64-bit word.
  \<open>dispatched\<close> is \<open>dispatch\<close>; it yields \<open>None\<close> when the call does not return.
\<close>

definition kernel_syscall ::
  "(u32 \<Rightarrow> 'k \<Rightarrow> args \<Rightarrow> (int \<times> 'k) option) \<Rightarrow> nat option \<Rightarrow> int \<Rightarrow> args \<Rightarrow> cells \<Rightarrow> 'k \<Rightarrow> (int \<times> 'k) option \<times> cells" where
  "kernel_syscall dispatched now n a c k =
     (let nr = as_u32 n;
          c1 = with_observer (on_enter now nr a) c
      in case dispatched nr k a of
           None \<Rightarrow> (None, c1)
         | Some (ret, k1) \<Rightarrow> (Some (ret, k1), with_observer (on_exit nr ret) c1))"

section \<open>The marker\<close>

definition MARKER_ADDR :: nat where "MARKER_ADDR = 4096"
definition MARKER_LEN :: nat where "MARKER_LEN = 64"

text \<open>\<open>String::from_utf8_lossy\<close>: every maximal ill-formed piece becomes U+FFFD.\<close>

abbreviation replacement :: bytes where "replacement \<equiv> [0xEF, 0xBF, 0xBD]"

fun utf8_lossy :: "bytes \<Rightarrow> bytes" where
  "utf8_lossy [] = []"
| "utf8_lossy (b # bs) =
     (if b < 0x80 then b # utf8_lossy bs
      else if byte_in 0xC2 0xDF b then
        (case bs of
           [] \<Rightarrow> replacement
         | c # cs \<Rightarrow> if cont_byte c then b # c # utf8_lossy cs else replacement @ utf8_lossy bs)
      else if byte_in 0xE0 0xEF b then
        (case bs of
           [] \<Rightarrow> replacement
         | c # cs \<Rightarrow>
             if \<not> utf8_tail2 b c then replacement @ utf8_lossy bs
             else (case cs of
                [] \<Rightarrow> replacement
              | d # ds \<Rightarrow> if cont_byte d then b # c # d # utf8_lossy ds else replacement @ utf8_lossy cs))
      else if byte_in 0xF0 0xF4 b then
        (case bs of
           [] \<Rightarrow> replacement
         | c # cs \<Rightarrow>
             if \<not> utf8_tail2 b c then replacement @ utf8_lossy bs
             else (case cs of
                [] \<Rightarrow> replacement
              | d # ds \<Rightarrow>
                  if \<not> cont_byte d then replacement @ utf8_lossy cs
                  else (case ds of
                     [] \<Rightarrow> replacement
                   | e # es \<Rightarrow> if cont_byte e then b # c # d # e # utf8_lossy es else replacement @ utf8_lossy ds)))
      else replacement @ utf8_lossy bs)"

definition read_marker :: "memory_kind option \<Rightarrow> bytes" where
  "read_marker memory =
     (case kernel_memory memory of
        Inl _ \<Rightarrow> []
      | Inr mem \<Rightarrow>
          if length mem < MARKER_ADDR + MARKER_LEN then []
          else let buf = slice MARKER_ADDR MARKER_LEN mem;
                   reason = utf8_lossy (until_nul (drop 5 buf))
               in if take 4 buf = text_of ''PASS'' then text_of ''PASS''
                  else if take 5 buf = text_of ''FAIL:'' then text_of ''FAIL:'' @ reason
                  else if take 5 buf = text_of ''SKIP:'' then text_of ''SKIP:'' @ reason
                  else [])"

text \<open>A backslash and a double quote are escaped in the JSON line.\<close>

definition escape_marker :: "bytes \<Rightarrow> bytes" where
  "escape_marker m =
     concat (map (\<lambda>b. if b = 0x22 then [0x5C, 0x22] else [b]) (concat (map (\<lambda>b. if b = 0x5C then [0x5C, 0x5C] else [b]) m)))"

section \<open>The baseline\<close>

text \<open>\<open>str::lines\<close>: pieces ended by a newline, with one carriage return before it dropped as well; no empty last piece.\<close>

definition without_cr :: "bytes \<Rightarrow> bytes" where
  "without_cr l = (if l \<noteq> [] \<and> last l = 0x0D then butlast l else l)"

fun lines_from :: "bytes \<Rightarrow> bytes \<Rightarrow> bytes list" where
  "lines_from acc [] = (if acc = [] then [] else [acc])"
| "lines_from acc (b # bs) = (if b = 0x0A then without_cr acc # lines_from [] bs else lines_from (acc @ [b]) bs)"

definition text_lines :: "bytes \<Rightarrow> bytes list" where
  "text_lines t = lines_from [] t"

text \<open>\<open>str::trim\<close>: the white space of Unicode, in UTF-8.\<close>

definition white_chars :: "bytes list" where
  "white_chars =
     map (\<lambda>b. [b]) [0x09, 0x0A, 0x0B, 0x0C, 0x0D, 0x20] @ [[0xC2, 0x85], [0xC2, 0xA0], [0xE1, 0x9A, 0x80]] @
     map (\<lambda>b. [0xE2, 0x80, b]) [0x80, 0x81, 0x82, 0x83, 0x84, 0x85, 0x86, 0x87, 0x88, 0x89, 0x8A, 0xA8, 0xA9, 0xAF] @
     [[0xE2, 0x81, 0x9F], [0xE3, 0x80, 0x80]]"

lemma white_not_empty: "w \<in> set white_chars \<Longrightarrow> w \<noteq> []"
  by (auto simp: white_chars_def)

function strip_white :: "bytes list \<Rightarrow> bytes \<Rightarrow> bytes" where
  "strip_white ws t =
     (case find (\<lambda>w. w \<noteq> [] \<and> prefix w t) ws of None \<Rightarrow> t | Some w \<Rightarrow> strip_white ws (drop (length w) t))"
  by pat_completeness auto
termination
  by (relation "measure (\<lambda>(ws, t). length t)") (auto simp: find_Some_iff prefix_def)

declare strip_white.simps [simp del]

definition trim :: "bytes \<Rightarrow> bytes" where
  "trim t = rev (strip_white (map rev white_chars) (rev (strip_white white_chars t)))"

definition baseline_names :: "bytes \<Rightarrow> bytes list" where
  "baseline_names t = filter (\<lambda>l. l \<noteq> [] \<and> hd l \<noteq> 0x23) (map trim (text_lines t))"

section \<open>trace\<close>

text \<open>
  \<open>calls\<close> lists what the guest does at the import while it is instantiated and run on a kernel: time, number and arguments
  of every call that returned, with its result.  Each passes through the observer's hooks.
\<close>

definition observe :: "nat option \<times> int \<times> args \<times> int \<Rightarrow> cells \<Rightarrow> cells" where
  "observe e c =
     (case e of (now, n, a, ret) \<Rightarrow> with_observer (on_exit (as_u32 n) ret) (with_observer (on_enter now (as_u32 n) a) c))"

definition trace_guest ::
  "('m, 'h) cli_ops \<Rightarrow> ('m \<Rightarrow> 'h kernel \<Rightarrow> (nat option \<times> int \<times> args \<times> int) list) \<Rightarrow> bytes \<Rightarrow> 'h \<Rightarrow> cells \<Rightarrow>
    ((trace_entry list \<times> bytes) cli_result \<times> 'h \<times> cells) option" where
  "trace_guest C calls wasm_path h c =
     (if \<not> engine_ready C then Some (Inl (from_anyhow None), h, c)
      else let (prev, c1) = install_observer (Some TraceObserver) c;
               k0 = kernel_new (c_host C) (c_env C) [] [] h
      in case read_module C wasm_path h of
           Inl e \<Rightarrow> Some (Inl e, h, c1)
         | Inr (bs, m) \<Rightarrow>
             (let c2 = fold observe (calls m k0) c1
              in case instantiate (c_wasm C) m k0 of
                   (None, k) \<Rightarrow> Some (Inl CliWasmtime, k_host k, c2)
                 | (Some _, k) \<Rightarrow>
                     map_option (\<lambda>k1. (Inr (cl_trace c2, read_marker (k_memory k1)), k_host k1, snd (install_observer prev c2)))
                       (if has_start (c_wasm C) m then map_option (\<lambda>(_, _, k1). k1) (w_call (c_wasm C) m UNBOUNDED_FUEL k)
                        else Some k)))"

record trace_report =
  tr_result :: "int cli_result"
  tr_entries :: "trace_entry list"
  tr_marker :: "bytes option"

definition trace_diff :: "'h host_ops \<Rightarrow> bytes option \<Rightarrow> bytes set \<Rightarrow> 'h \<Rightarrow> int cli_result" where
  "trace_diff H baseline names_seen h =
     (case baseline of
        None \<Rightarrow> Inr 0
      | Some path \<Rightarrow>
          (case h_read_file H (components path) h of
             Inl e \<Rightarrow> Inl (CliIo e)
           | Inr t \<Rightarrow>
               if \<not> utf8_valid t then Inl (CliIo OtherKind)
               else if set (baseline_names t) - names_seen = {} then Inr 0 else Inr 1))"

definition trace_main ::
  "('m, 'h) cli_ops \<Rightarrow> ('m \<Rightarrow> 'h kernel \<Rightarrow> (nat option \<times> int \<times> args \<times> int) list) \<Rightarrow> bytes list \<Rightarrow> 'h \<Rightarrow> cells \<Rightarrow>
    (trace_report \<times> 'h \<times> cells) option" where
  "trace_main C calls args h c =
     (case parse_trace_argv args of
        Inl e \<Rightarrow> Some (\<lparr>tr_result = Inl e, tr_entries = [], tr_marker = None\<rparr>, h, c)
      | Inr (baseline, emit_marker, wasm_path, script_args) \<Rightarrow>
          map_option
            (\<lambda>(r, h1, c1). case r of
               Inl e \<Rightarrow> (\<lparr>tr_result = Inl e, tr_entries = [], tr_marker = None\<rparr>, h1, c1)
             | Inr (entries, marker) \<Rightarrow>
                 (\<lparr>tr_result = trace_diff (c_host C) baseline (set (map te_name entries)) h1, tr_entries = entries,
                   tr_marker = (if emit_marker then Some (escape_marker marker) else None)\<rparr>, h1, c1))
            (trace_guest C calls wasm_path h c))"

section \<open>Facts about names and text\<close>

lemma syscall_names_distinct: "distinct (map fst syscall_names)" "distinct (map snd syscall_names)"
  by (simp_all add: syscall_names_def)

lemma syscall_name_proper: "s \<in> snd ` set syscall_names \<Longrightarrow> s \<noteq> ''?''"
  by (auto simp: syscall_names_def)

lemma text_of_inj: "text_of s = text_of t \<longleftrightarrow> s = t"
proof -
  have "inj (\<lambda>c. of_nat (of_char c) :: u8)"
  proof (rule injI)
    fix c d :: char
    assume "(of_nat (of_char c) :: u8) = of_nat (of_char d)"
    then have "unat (of_nat (of_char c) :: u8) = unat (of_nat (of_char d) :: u8)" by simp
    then show "c = d" by (simp add: unat_of_nat take_bit_nat_def of_char_mod_256)
  qed
  then show ?thesis by (simp add: inj_map_eq_map comp_def)
qed

text \<open>A name other than \<open>?\<close> stands for one number.\<close>

lemma syscall_name_inj:
  assumes "syscall_name nr = syscall_name nr'" "syscall_name nr \<noteq> text_of ''?''"
  shows "nr = nr'"
proof -
  obtain s where s: "map_of syscall_names nr = Some s" using assms(2) by (auto simp: syscall_name_def split: option.splits)
  then have "s \<noteq> ''?''" by (intro syscall_name_proper) (force dest: map_of_SomeD)
  with s assms(1) have "map_of syscall_names nr' = Some s"
    by (auto simp: syscall_name_def text_of_inj split: option.splits)
  with s have "(nr, s) \<in> set syscall_names" "(nr', s) \<in> set syscall_names" by (auto dest: map_of_SomeD)
  moreover have "inj_on snd (set syscall_names)" using syscall_names_distinct(2) by (simp add: distinct_map)
  ultimately show ?thesis using inj_onD [of snd "set syscall_names" "(nr, s)" "(nr', s)"] by simp
qed

text \<open>The syscalls that have a name are those \<open>dispatch\<close> has an arm for; every other number is answered with \<open>-ENOSYS\<close>.\<close>

lemma named_numbers:
  assumes "nr < 2 ^ 32"
  shows "syscall_name (of_nat nr) \<noteq> text_of ''?'' \<longleftrightarrow> nr \<in> set (map fst (handler_table H G rf st) @ waiting_numbers)"
proof -
  let ?keys = "fst ` set syscall_names"
  have ne: "text_of s \<noteq> text_of ''?'' \<longleftrightarrow> s \<noteq> ''?''" for s by (simp only: text_of_inj)
  have "syscall_name (of_nat nr) \<noteq> text_of ''?'' \<longleftrightarrow> of_nat nr \<in> ?keys"
  proof (cases "map_of syscall_names (of_nat nr)")
    case None
    moreover from None have "of_nat nr \<notin> ?keys" by (simp only: map_of_eq_None_iff not_False_eq_True)
    ultimately show ?thesis by (simp add: syscall_name_def)
  next
    case (Some s)
    then have "(of_nat nr, s) \<in> set syscall_names" by (rule map_of_SomeD)
    then have "of_nat nr \<in> ?keys" "s \<noteq> ''?''" by (force, intro syscall_name_proper) force
    with Some ne [of s] show ?thesis by (simp only: syscall_name_def option.case simp_thms)
  qed
  also have "\<dots> \<longleftrightarrow> nr \<in> unat ` ?keys"
  proof -
    have "unat (of_nat nr :: u32) = nr" using assms by (simp add: unat_of_nat take_bit_nat_eq_self)
    then show ?thesis by (metis (no_types, lifting) imageE imageI word_unat_eq_iff)
  qed
  also have "unat ` ?keys = set (map fst (handler_table H G rf st) @ waiting_numbers)"
    unfolding handler_table_def syscall_names_def waiting_numbers_def by auto
  finally show ?thesis .
qed

lemma unnamed_enosys:
  assumes "nr < 2 ^ 32" "syscall_name (of_nat nr) = text_of ''?''"
  shows "handler_of H G rf st nr = Some (total_call enosys)"
proof -
  have "map_of (handler_table H G rf st) nr = None" "nr \<notin> set waiting_numbers"
    using named_numbers [OF assms(1), of H G rf st] assms(2) by (auto simp: map_of_eq_None_iff)
  then show ?thesis by (simp add: handler_of_def)
qed

lemma utf8_lossy_valid [simp]: "utf8_valid bs \<Longrightarrow> utf8_lossy bs = bs"
proof (induction bs rule: utf8_valid.induct)
  case (2 b bs)
  show ?case
    using "2.prems" "2.IH"
    by (subst utf8_lossy.simps) (simp del: utf8_tail2.simps utf8_lossy.simps split: list.split_asm if_split_asm)
qed simp

section \<open>Observation\<close>

definition entry_of :: "nat option \<times> int \<times> args \<times> int \<Rightarrow> trace_entry" where
  "entry_of e =
     (case e of (now, n, a, ret) \<Rightarrow>
        \<lparr>te_ts_ns = (case now of Some t \<Rightarrow> t | None \<Rightarrow> 0), te_nr = as_u32 n, te_name = syscall_name (as_u32 n), te_args = a, te_ret = ret\<rparr>)"

lemma observe_logs:
  "cl_observer c = Some TraceObserver \<Longrightarrow>
     observe e c = c\<lparr>cl_pending := None, cl_trace := cl_trace c @ [entry_of e]\<rparr>"
  by (cases e) (simp add: observe_def with_observer_def entry_of_def)

lemma observe_off: "cl_observer c = None \<Longrightarrow> observe e c = c"
  by (cases e) (simp add: observe_def with_observer_def)

lemma observe_all:
  "cl_observer c = Some TraceObserver \<Longrightarrow> cl_trace (fold observe es c) = cl_trace c @ map entry_of es"
  by (induction es arbitrary: c) (simp_all add: observe_logs)

text \<open>The import with its hooks returns what \<open>dispatch\<close> returns, and a call that returns is observed once.\<close>

lemma kernel_syscall_result: "fst (kernel_syscall d now n a c k) = d (as_u32 n) k a"
  by (simp add: kernel_syscall_def Let_def split: option.split)

lemma kernel_syscall_observed:
  "kernel_syscall d now n a c k = (Some (r, k1), c1) \<Longrightarrow> c1 = observe (now, n, a, r) c"
  by (auto simp: kernel_syscall_def observe_def Let_def split: option.splits)

text \<open>Any sequence of returning calls, with and without an observer.\<close>

inductive observed ::
  "(u32 \<Rightarrow> 'k \<Rightarrow> args \<Rightarrow> (int \<times> 'k) option) \<Rightarrow> cells \<Rightarrow> 'k \<Rightarrow> (nat option \<times> int \<times> args \<times> int) list \<Rightarrow> cells \<Rightarrow> 'k \<Rightarrow> bool"
  for d where
  ob_nil: "observed d c k [] c k"
| ob_call: "kernel_syscall d now n a c k = (Some (r, k1), c1) \<Longrightarrow> observed d c1 k1 tr c2 k2 \<Longrightarrow>
    observed d c k ((now, n, a, r) # tr) c2 k2"

inductive_cases observed_cons: "observed d c k (e # tr) c' k'"

lemma observed_cells: "observed d c k tr c' k' \<Longrightarrow> c' = fold observe tr c"
  by (induction rule: observed.induct) (auto dest: kernel_syscall_observed)

lemma observed_transparent:
  "observed d c k tr c' k' \<Longrightarrow> observed d c0 k tr (fold observe tr c0) k'"
proof (induction arbitrary: c0 rule: observed.induct)
  case (ob_call now n a c k r k1 c1 tr c2 k2)
  have "kernel_syscall d now n a c0 k = (Some (r, k1), observe (now, n, a, r) c0)"
    using ob_call.hyps(1) kernel_syscall_result [of d now n a c k] kernel_syscall_result [of d now n a c0 k]
    by (metis fst_conv kernel_syscall_observed prod.collapse)
  with ob_call.IH show ?case by (auto intro: observed.ob_call)
qed (simp add: observed.ob_nil)

text \<open>The observer of an earlier run stays installed when the module cannot be read.\<close>

lemma trace_leaves_observer:
  assumes "engine_ready C" "read_module C wasm h = Inl e"
  shows "trace_guest C calls wasm h c = Some (Inl e, h, c\<lparr>cl_observer := Some TraceObserver\<rparr>)"
  using assms by (simp add: trace_guest_def install_observer_def Let_def)

lemma trace_guest_entries:
  assumes "engine_ready C" "read_module C wasm h = Inr (bs, m)"
    "instantiate (c_wasm C) m (kernel_new (c_host C) (c_env C) [] [] h) = (Some (), k)"
    "trace_guest C calls wasm h c = Some (r, h1, c1)"
  shows "\<exists>marker. r = Inr (cl_trace c @ map entry_of (calls m (kernel_new (c_host C) (c_env C) [] [] h)), marker) \<and>
    cl_observer c1 = cl_observer c"
  using assms by (auto simp: trace_guest_def install_observer_def observe_all Let_def split: if_splits)

lemma trace_main_guest:
  assumes "parse_trace_argv args = Inr (base, emit, wasm, gargs)" "trace_main C calls args h c = Some (rep, h1, c1)"
  shows "\<exists>r. trace_guest C calls wasm h c = Some (r, h1, c1)"
proof -
  obtain r h2 c2 where g: "trace_guest C calls wasm h c = Some (r, h2, c2)" using assms by (auto simp: trace_main_def)
  with assms have "h2 = h1 \<and> c2 = c1" by (cases r) (auto simp: trace_main_def)
  with g show ?thesis by blast
qed

text \<open>
  C37: The conformance gate.  On a fresh thread \<open>trace <wasm> --diff <baseline>\<close>, once the guest was loaded and returned, reports
  one entry per call the guest made, in order, and exits with 0 exactly when every name of the baseline (its lines, trimmed,
  without blank lines and comments) is the name of a call the guest made, and with 1 otherwise.
\<close>
theorem trace_diff_exact:
  assumes "parse_trace_argv args = Inr (Some base, emit, wasm, gargs)" "cl_trace c = []"
    and "trace_main C calls args h c = Some (rep, h1, c1)"
    and "engine_ready C" "read_module C wasm h = Inr (bs, m)"
    and "instantiate (c_wasm C) m (kernel_new (c_host C) (c_env C) [] [] h) = (Some (), k)"
    and "made = calls m (kernel_new (c_host C) (c_env C) [] [] h)"
    and "h_read_file (c_host C) (components base) h1 = Inr t" "utf8_valid t"
  shows "tr_entries rep = map entry_of made \<and> cl_observer c1 = cl_observer c \<and>
    tr_result rep = Inr (if \<forall>l \<in> set (baseline_names t). \<exists>(now, n, a, r) \<in> set made. syscall_name (as_u32 n) = l then 0 else 1)"
proof -
  obtain r where g: "trace_guest C calls wasm h c = Some (r, h1, c1)"
    using trace_main_guest [OF assms(1,3)] by auto
  from trace_guest_entries [OF assms(4-6) g] obtain marker where
    r: "r = Inr (map entry_of made, marker)" and o: "cl_observer c1 = cl_observer c" by (auto simp: assms(2,7))
  have rep: "rep = \<lparr>tr_result = trace_diff (c_host C) (Some base) (set (map te_name (map entry_of made))) h1,
    tr_entries = map entry_of made, tr_marker = (if emit then Some (escape_marker marker) else None)\<rparr>"
    using assms(1,3) g r by (auto simp: trace_main_def image_image)
  have "set (baseline_names t) - set (map te_name (map entry_of made)) = {} \<longleftrightarrow>
    (\<forall>l \<in> set (baseline_names t). \<exists>(now, n, a, r) \<in> set made. syscall_name (as_u32 n) = l)"
    by (force simp: entry_of_def)
  with rep o assms(8,9) show ?thesis by (simp add: trace_diff_def)
qed

lemma kernel_new_host: "k_host (kernel_new H e args env h) = h"
  by (simp add: kernel_new_def kernel_new_with_preopen_def kernel_new_inner_def with_buffered_stdio_def make_pipe_def Let_def
      split: sum.split)

text \<open>A guest that calls \<open>write\<close> once, traced against a baseline with a comment and an indented \<open>write\<close>.\<close>

definition demo_baseline :: bytes where
  "demo_baseline = [0x23, 0x78, 0x0A, 0x20, 0x77, 0x72, 0x69, 0x74, 0x65, 0x0D, 0x0A]"

definition demo_trace_fs :: memfs where
  "demo_trace_fs = mfs_put [RootDir, Normal [0x62]] (Some demo_baseline) demo_module_fs"

lemma demo_baseline_names: "baseline_names demo_baseline = [text_of ''write'']"
  by code_simp

lemma demo_traced:
  "components [0x2F, 0x62] = [RootDir, Normal [0x62]]" "utf8_valid demo_baseline"
  "syscall_name 1 = text_of ''write''"
  by code_simp+

lemma demo_trace_read:
  "read_module demo_cli [0x2F, 0x77] demo_trace_fs = Inr ([0, 0x61, 0x73, 0x6D], ())"
  "h_read_file mem_host [RootDir, Normal [0x62]] demo_trace_fs = Inr demo_baseline"
  by (simp_all add: read_module_def demo_paths demo_trace_fs_def demo_module_fs_def mem_host_def mfs_put_def load_module_def demo_wasm_def)

lemma demo_ready: "engine_ready demo_cli"
  by (simp add: demo_wasm_def engine_ready_def)

lemma demo_trace_guest:
  "\<exists>es mk c1. trace_guest demo_cli calls [0x2F, 0x77] demo_trace_fs c = Some (Inr (es, mk), demo_trace_fs, c1)"
  by (simp add: trace_guest_def demo_ready install_observer_def demo_trace_read Let_def attach_memory_def kernel_new_host)
     (simp add: demo_wasm_def has_start_def kernel_new_host)

theorem trace_diff_exact_witness:
  "\<exists>rep h1 c1. trace_main demo_cli (\<lambda>_ _. [(Some 5, 1, Args 1 4096 8 0 0 0, 8)])
      [text_of ''--diff'', [0x2F, 0x62], [0x2F, 0x77]] demo_trace_fs \<lparr>cl_observer = None, cl_trace = [], cl_pending = None\<rparr> =
        Some (rep, h1, c1) \<and>
      tr_entries rep = [entry_of (Some 5, 1, Args 1 4096 8 0 0 0, 8)] \<and> tr_result rep = Inr 0"
proof -
  let ?c = "\<lparr>cl_observer = None, cl_trace = [], cl_pending = None\<rparr>" and ?calls = "\<lambda>_ _. [(Some 5, 1, Args 1 4096 8 0 0 0, 8)]"
  let ?args = "[text_of ''--diff'', [0x2F, 0x62], [0x2F, 0x77]]"
  have p: "parse_trace_argv ?args = Inr (Some [0x2F, 0x62], True, [0x2F, 0x77], [])"
    by (simp add: parse_trace_argv_def guest_args_of_def)
  obtain rep c1 where m: "trace_main demo_cli ?calls ?args demo_trace_fs ?c = Some (rep, demo_trace_fs, c1)"
    using demo_trace_guest [of ?calls ?c] unfolding trace_main_def p by auto
  show ?thesis
    using trace_diff_exact [OF p _ m demo_ready demo_trace_read(1) _ refl] m
    by (auto simp: demo_trace_read demo_traced demo_baseline_names as_u32_def)
qed

end
