(* ===== verification/Cli_Text.thy ===== *)
theory Cli_Text
  imports Cli_Args
begin

text \<open>
  What the command line prints: the help and version texts of \<^verbatim>\<open>cli/usage.rs\<close>, the \<open>Display\<close> of \<open>CliError\<close> (\<^verbatim>\<open>cli/error.rs\<close>) and
  \<open>SnapshotError\<close> (\<^verbatim>\<open>snapshot.rs\<close>), and the lines \<open>run_main_from\<close> (\<^verbatim>\<open>cli/mod.rs\<close>) writes to the terminal.
\<close>

section \<open>Numbers and hashes\<close>

text \<open>\<open>{n}\<close> of an unsigned number and \<open>{byte:02x}\<close> of a byte.\<close>

fun decimal :: "nat \<Rightarrow> bytes" where
  "decimal n = (if n < 10 then [of_nat (48 + n)] else decimal (n div 10) @ [of_nat (48 + n mod 10)])"

declare decimal.simps [simp del]

definition hex_digit :: "nat \<Rightarrow> u8" where
  "hex_digit d = of_nat (if d < 10 then 48 + d else 87 + d)"

definition hex_byte :: "u8 \<Rightarrow> bytes" where
  "hex_byte b = [hex_digit (unat b div 16), hex_digit (unat b mod 16)]"

definition hex_lower32 :: "bytes \<Rightarrow> bytes" where
  "hex_lower32 bs = concat (map hex_byte bs)"

section \<open>Errors as text\<close>

text \<open>
  Parts of the messages that the model's errors do not carry: the \<open>Display\<close> of an I/O error and the context it is wrapped with, the
  texts of the codec and of wasmtime, and the messages of the argument, benchmark and budget errors.
\<close>

record details =
  de_io :: "io_kind \<Rightarrow> bytes"
  de_context :: "io_kind \<Rightarrow> bytes"
  de_postcard :: bytes
  de_wasmtime :: bytes
  de_args :: bytes
  de_bench :: bytes
  de_metered :: bytes

fun snapshot_error_fmt :: "details \<Rightarrow> snapshot_error \<Rightarrow> bytes" where
  "snapshot_error_fmt D (FormatVersionMismatch found supported) =
     text_of ''snapshot format_version='' @ decimal (unat found) @ text_of '' does not match supported '' @ decimal (unat supported)"
| "snapshot_error_fmt D (ModuleHashMismatch snap_hash wasm_hash) =
     text_of ''snapshot module hash mismatch: snap='' @ hex_lower32 snap_hash @ text_of '' wasm='' @ hex_lower32 wasm_hash @
     text_of ''; refusing to apply''"
| "snapshot_error_fmt D (IoError e) =
     text_of ''io error during snapshot ('' @ de_context D e @ text_of ''): '' @ de_io D e"
| "snapshot_error_fmt D (MissingPath p) = text_of ''missing path on restore: '' @ p"
| "snapshot_error_fmt D (Unsupported s) = text_of ''unsupported snapshot case: '' @ text_of s"
| "snapshot_error_fmt D AcceptedStreamOnListener = text_of ''accepted stream on listener''"
| "snapshot_error_fmt D AbstractUnixNamespace = text_of ''abstract unix namespace''"
| "snapshot_error_fmt D UnknownResource = text_of ''unknown resource variant''"
| "snapshot_error_fmt D Postcard = text_of ''postcard error: '' @ de_postcard D"
| "snapshot_error_fmt D (Invalid s) = text_of ''invalid snapshot: '' @ text_of s"

fun snapshot_error_source :: "snapshot_error \<Rightarrow> io_kind option" where
  "snapshot_error_source (IoError e) = Some e"
| "snapshot_error_source _ = None"

fun cli_error_fmt :: "details \<Rightarrow> cli_error \<Rightarrow> bytes" where
  "cli_error_fmt D CliArgs = text_of ''cli: '' @ de_args D"
| "cli_error_fmt D MissingSubcommand = text_of ''cli: no subcommand given; try `edge-cli --help`''"
| "cli_error_fmt D (UnknownSubcommand s) =
     text_of ''cli: unknown subcommand `'' @ s @ text_of ''`; try `edge-cli --help`''"
| "cli_error_fmt D (CliSnapshot e) = text_of ''snapshot: '' @ snapshot_error_fmt D e"
| "cli_error_fmt D CliWasmtime = text_of ''wasmtime: '' @ de_wasmtime D"
| "cli_error_fmt D (CliIo e) = text_of ''io: '' @ de_io D e"
| "cli_error_fmt D CliBench = text_of ''bench: '' @ de_bench D"
| "cli_error_fmt D CliMetered = text_of ''metered: '' @ de_metered D"

fun cli_error_source :: "cli_error \<Rightarrow> (snapshot_error + io_kind) option" where
  "cli_error_source (CliSnapshot e) = Some (Inl e)"
| "cli_error_source (CliIo e) = Some (Inr e)"
| "cli_error_source _ = None"

section \<open>Help\<close>

definition USAGE_TOP :: bytes where
  "USAGE_TOP = text_of ''edge-cli <SUBCOMMAND> [args...]''"

text \<open>The lines of \<open>HELP_BODY\<close>.\<close>

definition HELP_BODY :: "bytes list" where
  "HELP_BODY = map (\<lambda>s. text_of s)
    [''SUBCOMMANDS:'',
     ''  run <wasm> [--] [args...]              (wired)  Execute a wasm guest one-shot.'',
     ''  freeze <wasm> --out <path>             (pending D3.5)  Snapshot a live kernel.'',
     ''  serve <snap> [--port <p>]              (pending D3.5)  Restore + serve from a snapshot.'',
     ''  bench <wasm> --iters <n>               (pending D3.7)  Measure cold-start latency.'',
     ''  trace <wasm> [--diff <baseline>] [--no-marker]  (wired)  JSON-line syscall tracer.'',
     '''',
     ''FLAGS:'',
     ''  --help, -h                             Print this help to stderr.'',
     ''  --version, -V                          Print the version to stderr.'',
     '''',
     ''EXIT CODES:'',
     ''  0    success'',
     ''  1    runtime error (snapshot, wasmtime, io)'',
     ''  2    usage error (unknown subcommand, bad flags)'']"

text \<open>The three printers: the exit code and the lines on the standard error.\<close>

definition print_help_and_return :: "int \<Rightarrow> int \<times> bytes list" where
  "print_help_and_return code = (code, [USAGE_TOP, []] @ HELP_BODY)"

definition print_unknown_and_return :: "bytes \<Rightarrow> int \<Rightarrow> int \<times> bytes list" where
  "print_unknown_and_return name code =
     (code, [text_of ''edge-cli: unknown subcommand `'' @ name @ text_of ''`'', USAGE_TOP,
             text_of ''(run `edge-cli --help` for the full subcommand list)''])"

definition print_version_and_return :: "bytes \<Rightarrow> int \<times> bytes list" where
  "print_version_and_return version = (0, [text_of ''edge-cli '' @ version])"

section \<open>The dispatcher\<close>

text \<open>The arms of the final \<open>match\<close>.\<close>

fun main_error_lines :: "details \<Rightarrow> int cli_result \<Rightarrow> bytes list" where
  "main_error_lines D (Inr code) = []"
| "main_error_lines D (Inl CliArgs) = [text_of ''edge-cli: '' @ de_args D]"
| "main_error_lines D (Inl (CliSnapshot e)) = [text_of ''edge-cli: snapshot error: '' @ snapshot_error_fmt D e]"
| "main_error_lines D (Inl CliWasmtime) = [text_of ''edge-cli: wasmtime error: '' @ de_wasmtime D]"
| "main_error_lines D (Inl (CliIo e)) = [text_of ''edge-cli: io error: '' @ de_io D e]"
| "main_error_lines D (Inl CliBench) = [text_of ''edge-cli: bench: '' @ de_bench D]"
| "main_error_lines D (Inl CliMetered) = [text_of ''edge-cli: cpu budget exceeded: '' @ de_metered D]"
| "main_error_lines D (Inl MissingSubcommand) = []"
| "main_error_lines D (Inl (UnknownSubcommand s)) = []"

text \<open>
  \<open>run_main_from\<close>: the exit code, the lines on the standard error and the state.  \<open>runtime\<close> is the error text of a tokio runtime
  that could not be built, \<open>body\<close> the subcommands, with what they change as state; \<open>None\<close> is a subcommand that never ends.
\<close>

definition run_main_from ::
  "details \<Rightarrow> bytes \<Rightarrow> bytes option \<Rightarrow> (subcommand \<Rightarrow> bytes list \<Rightarrow> 's \<Rightarrow> (int cli_result \<times> 's) option) \<Rightarrow> bytes list \<Rightarrow> 's \<Rightarrow>
    ((int \<times> bytes list) \<times> 's) option" where
  "run_main_from D version runtime body args s =
     (case args of
        [] \<Rightarrow> Some (print_help_and_return 2, s)
      | first # rest \<Rightarrow>
          if first = text_of ''--help'' \<or> first = text_of ''-h'' then Some (print_help_and_return 0, s)
          else if first = text_of ''--version'' \<or> first = text_of ''-V'' then Some (print_version_and_return version, s)
          else case subcommand_from_str first of
            Inl _ \<Rightarrow> Some (print_unknown_and_return first 2, s)
          | Inr sub \<Rightarrow>
              (case runtime of
                 Some e \<Rightarrow> Some ((1, [text_of ''edge-cli: tokio runtime build failed: '' @ e]), s)
               | None \<Rightarrow> map_option (\<lambda>(res, s1). ((exit_code_of res, main_error_lines D res), s1)) (body sub rest s)))"

section \<open>What the texts tell\<close>

text \<open>A printed number parses back.\<close>

lemma unat_digit: "d < 10 \<Longrightarrow> unat (48 + word_of_nat d :: u8) = 48 + d"
proof -
  assume "d < 10"
  then have "unat (of_nat (48 + d) :: u8) = 48 + d" by (subst unat_of_nat) simp
  then show ?thesis by simp
qed

lemma parse_digits_decimal: "n < bound \<Longrightarrow> parse_digits bound 0 (decimal n @ cs) = parse_digits bound n cs"
proof (induction n arbitrary: cs rule: decimal.induct)
  case (1 n)
  have d: "(0x30 :: u8) \<le> of_nat (48 + d) \<and> of_nat (48 + d) \<le> (0x39 :: u8) \<and> unat (of_nat (48 + d) :: u8) - 48 = d" if "d < 10" for d
    using that by (simp add: word_le_nat_alt unat_digit)
  show ?case
  proof (cases "n < 10")
    case True
    then show ?thesis using d [OF True] "1.prems" by (simp add: decimal.simps [of n])
  next
    case False
    have q: "n div 10 < bound" using "1.prems" div_le_dividend [of n 10] by linarith
    have "n div 10 * 10 + n mod 10 = n" by simp
    with False "1.IH" [OF False q] d [of "n mod 10"] "1.prems" show ?thesis
      by (simp add: decimal.simps [of n] Let_def)
  qed
qed

lemma decimal_head: "\<exists>c cs. decimal n = c # cs \<and> c \<noteq> 0x2B"
proof (induction n rule: decimal.induct)
  case (1 n)
  show ?case
  proof (cases "n < 10")
    case True
    have "(48 + word_of_nat n :: u8) \<noteq> 0x2B"
    proof
      assume "(48 + word_of_nat n :: u8) = 0x2B"
      with unat_digit [OF True] have "48 + n = unat (0x2B :: u8)" by simp
      then show False by simp
    qed
    with True show ?thesis by (simp add: decimal.simps [of n])
  next
    case False
    with "1.IH" show ?thesis by (auto simp: decimal.simps [of n])
  qed
qed

lemma parse_decimal: "n < bound \<Longrightarrow> parse_uint bound (decimal n) = Some n"
  using decimal_head [of n] parse_digits_decimal [of n bound "[]"] by (auto simp: parse_uint_def)

text \<open>A printed hash can be read back, so the message of a refused snapshot names both hashes.\<close>

definition unhex_digit :: "u8 \<Rightarrow> nat" where
  "unhex_digit c = (if unat c < 58 then unat c - 48 else unat c - 87)"

fun unhex :: "bytes \<Rightarrow> bytes" where
  "unhex (a # b # cs) = of_nat (16 * unhex_digit a + unhex_digit b) # unhex cs"
| "unhex _ = []"

lemma unhex_hex_digit: "d < 16 \<Longrightarrow> unhex_digit (hex_digit d) = d"
  by (auto simp: unhex_digit_def hex_digit_def unat_of_nat)

lemma unhex_hex: "unhex (hex_lower32 bs) = bs"
proof (induction bs)
  case (Cons b bs)
  have "unat b < 256" using unsigned_less [of b] by simp
  then have "unat b div 16 < 16" by (simp add: less_mult_imp_div_less)
  with Cons show ?case
    by (simp add: hex_lower32_def hex_byte_def unhex_hex_digit)
qed (simp add: hex_lower32_def)

lemma length_hex: "length (hex_lower32 bs) = 2 * length bs"
  by (induction bs) (simp_all add: hex_lower32_def hex_byte_def)

lemma hash_mismatch_text:
  assumes "length a = 32" "length c = 32"
    and "snapshot_error_fmt D (ModuleHashMismatch a b) = snapshot_error_fmt D (ModuleHashMismatch c d)"
  shows "a = c \<and> b = d"
proof -
  have "hex_lower32 a = hex_lower32 c" "hex_lower32 b = hex_lower32 d"
    using assms by (simp_all add: length_hex)
  then show ?thesis by (metis unhex_hex)
qed

text \<open>An error of a subcommand is never silent, unless it is one that only the dispatcher makes.\<close>

lemma errors_explained: "main_error_lines D (Inl e) = [] \<longleftrightarrow> e = MissingSubcommand \<or> (\<exists>s. e = UnknownSubcommand s)"
  by (cases e) simp_all

text \<open>The help names every subcommand but \<open>migrate\<close>.\<close>

definition listed :: "string \<Rightarrow> bool" where
  "listed name \<longleftrightarrow> list_ex (\<lambda>l. prefix (text_of (''  '' @ name @ '' '')) l) HELP_BODY"

lemma help_omits_migrate:
  "listed ''run'' \<and> listed ''freeze'' \<and> listed ''serve'' \<and> listed ''bench'' \<and> listed ''trace'' \<and> \<not> listed ''migrate'' \<and>
    subcommand_from_str (text_of ''migrate'') = Inr Migrate"
  by code_simp

end
