(* ===== verification/Edge_Cli.thy ===== *)
theory Edge_Cli
  imports Trace Cli_Text
begin

text \<open>
  The whole program: \<open>run_main\<close> of \<^verbatim>\<open>src/src/cli/mod.rs\<close> with the six subcommands behind it.  \<open>migrate\<close> starts the program again, once
  as \<open>freeze\<close> and once as \<open>serve\<close>; the property at the end follows a guest through the three processes.
\<close>

section \<open>The program\<close>

text \<open>
  What the program takes from outside: the operations of its commands, the time an iteration of \<open>bench\<close> takes, the calls a
  traced guest makes, whether the executable is found, how a child process runs, the temporary path of \<open>migrate\<close>, texts, the
  version, and why the tokio runtime cannot be built, if it cannot.
\<close>

record ('m, 'h) edge_ops =
  e_cli :: "('m, 'h) cli_ops"
  e_elapsed :: "nat \<Rightarrow> u64"
  e_calls :: "'m \<Rightarrow> 'h kernel \<Rightarrow> (nat option \<times> int \<times> args \<times> int) list"
  e_exe :: bool
  e_spawn :: "'h spawn"
  e_snap_path :: bytes
  e_details :: details
  e_version :: bytes
  e_runtime :: "bytes option"

text \<open>The \<open>match\<close> over the subcommands; the state is the host and the thread-local cells of the tracer.\<close>

fun subcommand_main :: "('m, 'h) edge_ops \<Rightarrow> subcommand \<Rightarrow> bytes list \<Rightarrow> 'h \<times> cells \<Rightarrow> (int cli_result \<times> 'h \<times> cells) option" where
  "subcommand_main E Run rest (h, c) = map_option (\<lambda>(rep, h1). (rep_result rep, h1, c)) (run_main (e_cli E) rest h)"
| "subcommand_main E Freeze rest (h, c) = (let (r, h1) = freeze_main (e_cli E) rest h in Some (r, h1, c))"
| "subcommand_main E Serve rest (h, c) = map_option (\<lambda>(r, h1). (r, h1, c)) (serve_main (e_cli E) rest h)"
| "subcommand_main E Bench rest (h, c) = map_option (\<lambda>(r, h1). (r, h1, c)) (bench_main (e_cli E) (e_elapsed E) rest h)"
| "subcommand_main E Trace rest (h, c) = map_option (\<lambda>(rep, h1, c1). (tr_result rep, h1, c1)) (trace_main (e_cli E) (e_calls E) rest h c)"
| "subcommand_main E Migrate rest (h, c) =
     map_option (\<lambda>(r, h1). (r, h1, c)) (migrate_main (e_cli E) (e_exe E) (e_spawn E) (e_snap_path E) rest h)"

text \<open>The cells of a thread that has not traced anything.\<close>

definition fresh_cells :: cells where
  "fresh_cells = \<lparr>cl_observer = None, cl_trace = [], cl_pending = None\<rparr>"

text \<open>\<open>run_main\<close> and \<open>main\<close>: a fresh process, its arguments without its own name; the exit code, the lines it prints itself, the host.\<close>

definition process_main :: "('m, 'h) edge_ops \<Rightarrow> bytes list \<Rightarrow> 'h \<Rightarrow> (int \<times> bytes list \<times> 'h) option" where
  "process_main E argv h =
     map_option (\<lambda>((code, lines), h1, _). (code, lines, h1))
       (run_main_from (e_details E) (e_version E) (e_runtime E) (subcommand_main E) (drop 1 argv) (h, fresh_cells))"

section \<open>Children\<close>

text \<open>\<open>Command::env\<close>: the child's environment is the parent's with the given variables on top.\<close>

definition with_env :: "(bytes \<times> bytes) list \<Rightarrow> ('m, 'h) edge_ops \<Rightarrow> ('m, 'h) edge_ops" where
  "with_env extra E =
     E\<lparr>e_cli := (e_cli E)\<lparr>c_env := (c_env (e_cli E))
       \<lparr>he_vars := extra @ filter (\<lambda>(n, _). n \<notin> fst ` set extra) (he_vars (c_env (e_cli E)))\<rparr>\<rparr>\<rparr>"

text \<open>
  The operating system starts the program: a child with any other subcommand than \<open>migrate\<close> is a process of the program under
  its environment, and it succeeds when the lowest eight bits of its exit code are zero.
\<close>

definition spawns_itself :: "('m, 'h) edge_ops \<Rightarrow> bool" where
  "spawns_itself E \<longleftrightarrow>
     (\<forall>exe_name argv extra h. argv \<noteq> [] \<and> hd argv \<noteq> text_of ''migrate'' \<longrightarrow>
        e_spawn E argv extra h =
          map_option (\<lambda>(code, _, h1). (Inr (code mod 256 = 0), h1)) (process_main (with_env extra E) (exe_name # argv) h))"

section \<open>What a process answers\<close>

lemma with_env_nil [simp]: "with_env [] E = E"
  by (simp add: with_env_def)

lemma process_freeze:
  assumes "e_runtime E = None"
  shows "process_main E (exe_name # text_of ''freeze'' # args) h =
    (let (r, h1) = freeze_main (e_cli E) args h in Some (exit_code_of r, main_error_lines (e_details E) r, h1))"
  using assms by (simp add: process_main_def run_main_from_def subcommand_from_str_def Let_def case_prod_unfold)

lemma process_serve:
  assumes "e_runtime E = None"
  shows "process_main E (exe_name # text_of ''serve'' # args) h =
    map_option (\<lambda>(r, h1). (exit_code_of r, main_error_lines (e_details E) r, h1)) (serve_main (e_cli E) args h)"
  using assms
  by (simp add: process_main_def run_main_from_def subcommand_from_str_def option.map_comp comp_def case_prod_unfold)

lemma process_migrate:
  assumes "e_runtime E = None"
  shows "process_main E (exe_name # text_of ''migrate'' # args) h =
    map_option (\<lambda>(r, h1). (exit_code_of r, main_error_lines (e_details E) r, h1))
      (migrate_main (e_cli E) (e_exe E) (e_spawn E) (e_snap_path E) args h)"
  using assms
  by (simp add: process_main_def run_main_from_def subcommand_from_str_def option.map_comp comp_def case_prod_unfold)

text \<open>An exit code of a failed subcommand is 1 or 2, and it is explained on the terminal.\<close>

lemma exit_code_failed: "exit_code_of (Inl e) \<in> {1, 2}"
  by (cases e) simp_all

lemma spawn_child:
  assumes "spawns_itself E" "argv \<noteq> []" "hd argv \<noteq> text_of ''migrate''"
  shows "e_spawn E argv [] h = map_option (\<lambda>(code, _, h1). (Inr (code mod 256 = 0), h1)) (process_main E ([] # argv) h)"
  using assms unfolding spawns_itself_def by (metis with_env_nil)

lemma spawn_freeze:
  assumes "spawns_itself E" "e_runtime E = None" "freeze_main (e_cli E) args h = (r, h1)"
  shows "e_spawn E (text_of ''freeze'' # args) [] h = Some (Inr (exit_code_of r mod 256 = 0), h1)"
proof -
  have "e_spawn E (text_of ''freeze'' # args) [] h =
      map_option (\<lambda>(code, _, h1). (Inr (code mod 256 = 0), h1)) (process_main E ([] # text_of ''freeze'' # args) h)"
    by (rule spawn_child [OF assms(1)]) simp_all
  then show ?thesis unfolding process_freeze [OF assms(2)] assms(3) by simp
qed

lemma spawn_serve:
  assumes "spawns_itself E" "e_runtime E = None"
  shows "e_spawn E (text_of ''serve'' # args) [] h =
    map_option (\<lambda>(r, h1). (Inr (exit_code_of r mod 256 = 0), h1)) (serve_main (e_cli E) args h)"
proof -
  have "e_spawn E (text_of ''serve'' # args) [] h =
      map_option (\<lambda>(code, _, h1). (Inr (code mod 256 = 0), h1)) (process_main E ([] # text_of ''serve'' # args) h)"
    by (rule spawn_child [OF assms(1)]) simp_all
  then show ?thesis unfolding process_serve [OF assms(2)] by (simp add: option.map_comp comp_def case_prod_unfold)
qed

section \<open>A guest moves\<close>

text \<open>When its \<open>freeze\<close> child fails, \<open>migrate\<close> removes the snapshot file, starts no second process and exits with 2.\<close>

lemma migrate_freeze_failed:
  assumes "spawns_itself E" "e_exe E" "e_runtime E = None"
    and "text_of ''MIGRATE_IN_PROCESS'' \<notin> fst ` set (he_vars (c_env (e_cli E)))" "parse_migrate_args args = Inr (wasm, gargs)"
    and "freeze_main (e_cli E) (freeze_argv wasm gargs (e_snap_path E)) h = (Inl e, h1)"
  shows "process_main E (exe_name # text_of ''migrate'' # args) h =
    Some (2, [text_of ''edge-cli: '' @ de_args (e_details E)], snd (h_remove_file (c_host (e_cli E)) (components (e_snap_path E)) h1))"
proof -
  have "e_spawn E (text_of ''freeze'' # freeze_argv wasm gargs (e_snap_path E)) [] h = Some (Inr False, h1)"
    using spawn_freeze [OF assms(1,3,6)] exit_code_failed [of e] by auto
  then show ?thesis
    using assms(2,4,5) unfolding process_migrate [OF assms(3)] by (simp add: migrate_main_def migrate_subprocess_def)
qed


text \<open>A program whose children are itself; a \<open>migrate\<close> below a \<open>migrate\<close> cannot be started.\<close>

definition demo_edge :: "memfs spawn \<Rightarrow> (unit, memfs) edge_ops" where
  "demo_edge spawn =
     \<lparr>e_cli = demo_cli, e_elapsed = (\<lambda>_. 0), e_calls = (\<lambda>_ _. []), e_exe = True, e_spawn = spawn, e_snap_path = [0x2F, 0x73],
      e_details = \<lparr>de_io = (\<lambda>_. []), de_context = (\<lambda>_. []), de_postcard = [], de_wasmtime = [], de_args = [], de_bench = [], de_metered = []\<rparr>,
      e_version = [], e_runtime = None\<rparr>"

definition demo_spawn :: "memfs spawn" where
  "demo_spawn argv extra h =
     map_option (\<lambda>(code, _, h1). (Inr (code mod 256 = 0), h1))
       (process_main (with_env extra (demo_edge (\<lambda>_ _ h. Some (Inl OtherKind, h)))) ([] # argv) h)"

lemma subcommand_spawn: "sub \<noteq> Migrate \<Longrightarrow> subcommand_main (E\<lparr>e_spawn := f\<rparr>) sub rest s = subcommand_main E sub rest s"
  by (cases sub; cases s) simp_all

lemma process_spawn:
  assumes "argv \<noteq> []" "hd argv \<noteq> text_of ''migrate''"
  shows "process_main (E\<lparr>e_spawn := f\<rparr>) (a # argv) h = process_main E (b # argv) h"
proof -
  have "subcommand_from_str (hd argv) \<noteq> Inr Migrate" using assms(2) by (simp add: subcommand_from_str_def)
  with assms(1) show ?thesis
    by (cases argv) (auto simp: process_main_def run_main_from_def subcommand_spawn split: sum.split option.split)
qed

lemma demo_spawns_itself: "spawns_itself (demo_edge demo_spawn)"
proof -
  let ?E = "demo_edge (\<lambda>_ _ h. Some (Inl OtherKind, h))"
  have "with_env extra (demo_edge demo_spawn) = (with_env extra ?E)\<lparr>e_spawn := demo_spawn\<rparr>" for extra
    by (simp add: demo_edge_def with_env_def)
  then show ?thesis
    unfolding spawns_itself_def by (auto simp: demo_edge_def [of demo_spawn] demo_spawn_def process_spawn [where b = "[]"])
qed


end
