(* ===== verification/Fd_Adapters.thy ===== *)
theory Fd_Adapters
  imports Sys_Rw
begin

text \<open>
  The parts of \<^verbatim>\<open>src/src/fd.rs\<close> that the host side uses: pipes as asynchronous readers and writers, and the conversions of
  socket addresses.  The adapters are the same byte queues the syscalls work on.
\<close>

section \<open>Pipes as asynchronous streams\<close>

datatype 'a polled = PollReady 'a | PollPending

text \<open>\<open>poll_read\<close> into a buffer with room for \<open>n\<close> bytes: the bytes put there.  A reader that has to wait wakes itself at once.\<close>

definition poll_read :: "nat \<Rightarrow> pipe \<Rightarrow> bytes polled \<times> pipe" where
  "poll_read room q =
     (if p_closed q \<and> p_buf q = [] then (PollReady [], q)
      else if p_buf q = [] then (PollPending, q)
      else let n = min room (length (p_buf q)) in (PollReady (take n (p_buf q)), q\<lparr>p_buf := drop n (p_buf q)\<rparr>))"

definition poll_write :: "bytes \<Rightarrow> pipe \<Rightarrow> nat polled \<times> pipe" where
  "poll_write src q = (PollReady (length src), q\<lparr>p_buf := p_buf q @ src\<rparr>)"

definition poll_flush :: "pipe \<Rightarrow> unit polled \<times> pipe" where
  "poll_flush q = (PollReady (), q)"

definition poll_shutdown :: "pipe \<Rightarrow> unit polled \<times> pipe" where
  "poll_shutdown q = (PollReady (), q\<lparr>p_closed := True\<rparr>)"

text \<open>What a reader has after one poll.\<close>

definition poll_pull :: "nat \<Rightarrow> pipe \<Rightarrow> bytes \<times> pipe" where
  "poll_pull room q = (case poll_read room q of (PollReady bs, q1) \<Rightarrow> (bs, q1) | (PollPending, q1) \<Rightarrow> ([], q1))"

interpretation adapter_queue: byte_queue p_buf "\<lambda>bs q. snd (poll_write bs q)" poll_pull
  by unfold_locales
    (auto simp: poll_write_def poll_pull_def poll_read_def Let_def min.commute split: if_splits)

text \<open>A poll takes the bytes a \<open>read\<close> syscall of that size would take.\<close>

lemma poll_pull_is_pipe_pull: "poll_pull room q = pipe_pull room q"
  by (cases q) (auto simp: poll_pull_def poll_read_def pipe_pull_def Let_def min_def)

text \<open>Through any sequence of writes and reads the bytes come out in order.\<close>

lemma adapters_fifo:
  "queue_run (\<lambda>bs q. snd (poll_write bs q)) poll_pull q ops = (outs, q') \<Longrightarrow> outs @ p_buf q' = p_buf q @ pushed ops"
  by (rule adapter_queue.fifo)

text \<open>
  A reader with room sees the end of the stream exactly when the pipe is closed and drained, and it waits exactly when the
  pipe is open and empty.
\<close>

lemma poll_read_end: "0 < room \<Longrightarrow> fst (poll_read room q) = PollReady [] \<longleftrightarrow> p_closed q \<and> p_buf q = []"
  by (auto simp: poll_read_def Let_def)

lemma poll_read_waits: "fst (poll_read room q) = PollPending \<longleftrightarrow> \<not> p_closed q \<and> p_buf q = []"
  by (auto simp: poll_read_def Let_def)

text \<open>\<open>poll_write\<close> does not look at the flag: what is written after a shutdown is still delivered, and only then the end.\<close>

lemma write_after_shutdown:
  assumes "p_buf q = []" "src \<noteq> []"
  shows "poll_read (length src) (snd (poll_write src (snd (poll_shutdown q)))) = (PollReady src, snd (poll_shutdown q))"
  using assms by (cases q) (simp add: poll_read_def poll_write_def poll_shutdown_def)

section \<open>Socket addresses\<close>

fun as_v4 :: "sock_addr \<Rightarrow> (bytes \<times> u16) option" where
  "as_v4 (V4 port ip) = Some (ip, port)"
| "as_v4 (V6 port ip) = None"
| "as_v4 (Unix path) = None"

fun as_v6 :: "sock_addr \<Rightarrow> (bytes \<times> u16) option" where
  "as_v6 (V6 port ip) = Some (ip, port)"
| "as_v6 (V4 port ip) = None"
| "as_v6 (Unix path) = None"

fun as_std :: "sock_addr \<Rightarrow> (ip_addr \<times> u16) option" where
  "as_std (V4 port ip) = Some (Ip4 ip, port)"
| "as_std (V6 port ip) = Some (Ip6 ip, port)"
| "as_std (Unix path) = None"

text \<open>The three agree, and no address of the internet families is lost.\<close>

lemma as_std_families:
  "as_std s = (case as_v4 s of Some (ip, port) \<Rightarrow> Some (Ip4 ip, port) | None \<Rightarrow> map_option (map_prod Ip6 id) (as_v6 s))"
  by (cases s) simp_all

lemma as_std_inj: "as_std s = Some x \<Longrightarrow> as_std s' = Some x \<Longrightarrow> s = s'"
  by (cases s; cases s') auto

end
