(* ===== verification/Fd_Refine.thy ===== *)
theory Fd_Refine
  imports Sys_Fd
begin

text \<open>
  An abstract specification of the descriptor calls \<open>close\<close>, \<open>dup\<close>, \<open>dup2\<close>, \<open>dup3\<close> and the descriptor commands of \<open>fcntl\<close>, over a map
  from open descriptors to resources and the set of close-on-exec descriptors; neither \<open>next_fd\<close> nor anything else of the kernel
  appears in it.  The handlers of \<open>Sys_Fd\<close> implement it exactly, errors and searches that never end included.
\<close>

section \<open>Specification\<close>

record desc =
  open_fds :: "u32 \<rightharpoonup> resource"
  on_exec :: "u32 set"

text \<open>The arguments of the calls, as the guest passes them.\<close>

datatype fd_call =
  DClose int | DDup int | DDup2 int int | DDup3 int int int | DGetFd int int | DSetFd int int | DDupFd bool int int

text \<open>The open descriptor an argument names, and its resource when it can be shared.\<close>

definition named :: "desc \<Rightarrow> int \<Rightarrow> (u32 \<times> resource) option" where
  "named d a = (case u32_try_from a of None \<Rightarrow> None | Some fd \<Rightarrow> map_option (\<lambda>r. (fd, r)) (open_fds d fd))"

fun shareable :: "resource \<Rightarrow> bool" where
  "shareable (REpoll _) = False"
| "shareable (REventFd _) = False"
| "shareable _ = True"

definition lowest_free :: "desc \<Rightarrow> u32 \<Rightarrow> u32 \<Rightarrow> bool" where
  "lowest_free d lo n \<longleftrightarrow> lo \<le> n \<and> open_fds d n = None \<and> (\<forall>j. lo \<le> j \<and> j < n \<longrightarrow> open_fds d j \<noteq> None)"

definition bound_to :: "desc \<Rightarrow> u32 \<Rightarrow> resource \<Rightarrow> bool \<Rightarrow> desc" where
  "bound_to d n r ce =
     \<lparr>open_fds = (open_fds d)(n \<mapsto> r), on_exec = (if ce then insert n (on_exec d) else on_exec d - {n})\<rparr>"

text \<open>The descriptor goes to the lowest free number from \<open>lo\<close> on, or to a given one.\<close>

definition shared_from :: "desc \<Rightarrow> int \<Rightarrow> (u32 \<Rightarrow> u32) \<Rightarrow> bool \<Rightarrow> int \<times> desc \<Rightarrow> bool" where
  "shared_from d a lo ce out =
     (case named d a of
        Some (fd, r) \<Rightarrow>
          if shareable r then \<exists>n. lowest_free d (lo fd) n \<and> out = (uint n, bound_to d n r ce) else out = (- EBADF, d)
      | None \<Rightarrow> out = (- EBADF, d))"

definition shared_at :: "desc \<Rightarrow> int \<Rightarrow> u32 \<Rightarrow> bool \<Rightarrow> int \<times> desc \<Rightarrow> bool" where
  "shared_at d a n ce out =
     (case named d a of
        Some (fd, r) \<Rightarrow> out = (if shareable r then (uint n, bound_to d n r ce) else (- EBADF, d))
      | None \<Rightarrow> out = (- EBADF, d))"

fun fd_spec :: "fd_call \<Rightarrow> desc \<Rightarrow> int \<times> desc \<Rightarrow> bool" where
  "fd_spec (DClose a) d out =
     (out = (case named d a of
               Some (fd, r) \<Rightarrow> (0, \<lparr>open_fds = (open_fds d)(fd := None), on_exec = on_exec d - {fd}\<rparr>)
             | None \<Rightarrow> (- EBADF, d)))"
| "fd_spec (DDup a) d out = shared_from d a (\<lambda>fd. fd + 1) False out"
| "fd_spec (DDup2 a b) d out =
     (case u32_try_from b of
        None \<Rightarrow> out = (- EBADF, d)
      | Some n \<Rightarrow>
          if u32_try_from a = Some n then out = (if open_fds d n = None then - EBADF else uint n, d)
          else shared_at d a n False out)"
| "fd_spec (DDup3 a b fl) d out =
     (case (u32_try_from a, u32_try_from b) of
        (Some old, Some n) \<Rightarrow>
          if as_i32 fl AND NOT O_CLOEXEC \<noteq> 0 \<or> old = n then out = (- EINVAL, d)
          else shared_at d a n (as_i32 fl AND O_CLOEXEC \<noteq> 0) out
      | _ \<Rightarrow> out = (- EBADF, d))"
| "fd_spec (DGetFd a arg) d out =
     (out = (case u32_try_from a of None \<Rightarrow> - EBADF | Some fd \<Rightarrow> if fd \<in> on_exec d then 1 else 0, d))"
| "fd_spec (DSetFd a arg) d out =
     (out = (case u32_try_from a of
               None \<Rightarrow> (- EBADF, d)
             | Some fd \<Rightarrow> (0, d\<lparr>on_exec := if as_i32 arg AND 1 \<noteq> 0 then insert fd (on_exec d) else on_exec d - {fd}\<rparr>)))"
| "fd_spec (DDupFd ce a arg) d out =
     (case u32_try_from a of
        None \<Rightarrow> out = (- EBADF, d)
      | Some _ \<Rightarrow> if as_i32 arg < 0 then out = (- EINVAL, d) else shared_from d a (\<lambda>_. as_u32 arg) ce out)"

fun spec_runs :: "fd_call list \<Rightarrow> desc \<Rightarrow> int list \<Rightarrow> desc \<Rightarrow> bool" where
  "spec_runs [] d rs d' = (rs = [] \<and> d' = d)"
| "spec_runs (c # cs) d rs d' = (\<exists>r rs' d1. fd_spec c d (r, d1) \<and> spec_runs cs d1 rs' d' \<and> rs = r # rs')"

section \<open>The handlers\<close>

fun fd_exec :: "fd_call \<Rightarrow> 'h kernel \<Rightarrow> (int \<times> 'h kernel) option" where
  "fd_exec (DClose a) k = Some (sys_close k (Args a 0 0 0 0 0))"
| "fd_exec (DDup a) k = sys_dup k (Args a 0 0 0 0 0)"
| "fd_exec (DDup2 a b) k = sys_dup2 k (Args a b 0 0 0 0)"
| "fd_exec (DDup3 a b fl) k = sys_dup3 k (Args a b fl 0 0 0)"
| "fd_exec (DGetFd a arg) k = sys_fcntl k (Args a F_GETFD arg 0 0 0)"
| "fd_exec (DSetFd a arg) k = sys_fcntl k (Args a F_SETFD arg 0 0 0)"
| "fd_exec (DDupFd ce a arg) k = sys_fcntl k (Args a (if ce then F_DUPFD_CLOEXEC else F_DUPFD) arg 0 0 0)"

fun fd_runs :: "fd_call list \<Rightarrow> 'h kernel \<Rightarrow> (int list \<times> 'h kernel) option" where
  "fd_runs [] k = Some ([], k)"
| "fd_runs (c # cs) k =
     (case fd_exec c k of
        None \<Rightarrow> None
      | Some (r, k1) \<Rightarrow> map_option (\<lambda>(rs, k2). (r # rs, k2)) (fd_runs cs k1))"

definition desc_of :: "'h kernel \<Rightarrow> desc" where
  "desc_of k = \<lparr>open_fds = table (k_fds k), on_exec = cloexec (k_fds k)\<rparr>"

section \<open>Refinement\<close>

text \<open>One call does what the specification allows, and nothing else.\<close>

definition implements :: "(int \<times> 'h kernel) option \<Rightarrow> (int \<times> desc \<Rightarrow> bool) \<Rightarrow> bool" where
  "implements f S \<longleftrightarrow> (\<forall>out. S out \<longleftrightarrow> map_option (map_prod id desc_of) f = Some out)"

lemma implements_Some: "implements (Some (r, k)) (\<lambda>out. out = (r, desc_of k))"
  by (auto simp: implements_def)

lemma implements_cong: "(\<And>out. S out = T out) \<Longrightarrow> implements f S = implements f T"
  by (simp add: implements_def)

lemmas implements_spec = fd_spec.simps [THEN implements_cong]

lemma find_free_lowest: "find_free (open_fds d) lo = Some n \<longleftrightarrow> lowest_free d lo n"
proof
  assume "find_free (open_fds d) lo = Some n"
  from find_free_Some [OF this] show "lowest_free d lo n" by (simp add: lowest_free_def)
next
  assume l: "lowest_free d lo n"
  then obtain m where m: "find_free (open_fds d) lo = Some m"
    using find_free_None [of "open_fds d" lo] by (auto simp: lowest_free_def)
  from find_free_Some [OF m] l have "\<not> m < n" "\<not> n < m" by (auto simp: lowest_free_def)
  with m show "find_free (open_fds d) lo = Some n" by simp
qed

lemma clone_shareable: "clone_resource r = (if shareable r then Inr r else Inl (- EBADF))"
  by (cases r) simp_all

lemma cloned_source:
  "u32_try_from a = Some fd \<Longrightarrow> res_bind (fd_get (k_fds k) fd) clone_resource =
    (case named (desc_of k) a of Some (_, r) \<Rightarrow> if shareable r then Inr r else Inl (- EBADF) | None \<Rightarrow> Inl (- EBADF))"
  by (cases "table (k_fds k) fd") (simp_all add: named_def desc_of_def fd_get_def clone_shareable)

lemma desc_insert_at_least:
  "map_option (map_prod id desc_of)
     (map_option (\<lambda>(n, t). (uint n, k\<lparr>k_fds := fd_set_cloexec t n ce\<rparr>)) (fd_insert_at_least (k_fds k) lo r)) =
   map_option (\<lambda>n. (uint n, bound_to (desc_of k) n r ce)) (find_free (open_fds (desc_of k)) lo)"
  by (cases "find_free (table (k_fds k)) lo")
     (simp_all add: fd_insert_at_least_def desc_of_def bound_to_def fd_set_cloexec_def)

lemma implements_search:
  "implements (map_option (\<lambda>(n, t). (uint n, k\<lparr>k_fds := fd_set_cloexec t n ce\<rparr>)) (fd_insert_at_least (k_fds k) lo r))
    (\<lambda>out. \<exists>n. lowest_free (desc_of k) lo n \<and> out = (uint n, bound_to (desc_of k) n r ce))"
  unfolding implements_def desc_insert_at_least find_free_lowest [symmetric] by (auto simp: map_option_case split: option.split)

lemma implements_dup:
  assumes "u32_try_from a = Some fd"
  shows "implements (internal_dup k fd None ce) (shared_from (desc_of k) a (\<lambda>fd. fd + 1) ce)"
proof (cases "named (desc_of k) a")
  case None
  then show ?thesis
    using implements_Some [of "- EBADF" k] by (simp add: internal_dup_def cloned_source [OF assms] shared_from_def [abs_def])
next
  case (Some x)
  obtain r where x: "x = (fd, r)" using Some assms by (auto simp: named_def)
  show ?thesis
    using implements_Some [of "- EBADF" k] implements_search [where k = k and ce = ce and lo = "fd + 1" and r = r]
    by (cases "shareable r") (simp_all add: internal_dup_def cloned_source [OF assms] shared_from_def [abs_def] Some x)
qed

lemma implements_dup_at:
  assumes "u32_try_from a = Some fd" "fd \<noteq> n"
  shows "implements (internal_dup k fd (Some n) ce) (shared_at (desc_of k) a n ce)"
proof -
  have b: "desc_of (k\<lparr>k_fds := fd_set_cloexec (t\<lparr>next_fd := nx, table := (table (k_fds k))(n \<mapsto> r)\<rparr>) n ce\<rparr>) = bound_to (desc_of k) n r ce"
    if "t = snd (fd_close (k_fds k) n)" for t nx r
    unfolding that by (auto simp: desc_of_def bound_to_def fd_set_cloexec_def fd_close_def)
  show ?thesis
  proof (cases "named (desc_of k) a")
    case None
    then show ?thesis
      using implements_Some [of "- EBADF" k] by (simp add: internal_dup_def cloned_source [OF assms(1)] shared_at_def [abs_def])
  next
    case (Some x)
    obtain r where x: "x = (fd, r)" using Some assms by (auto simp: named_def)
    show ?thesis
      using implements_Some [of "- EBADF" k] b [OF refl, where r = r]
      by (cases "shareable r")
         (simp_all add: internal_dup_def cloned_source [OF assms(1)] shared_at_def [abs_def] Some x fd_insert_at_def fd_close_table Let_def implements_def
           eq_commute)
  qed
qed

lemma implements_close: "implements (fd_exec (DClose a) k) (fd_spec (DClose a) (desc_of k))"
  by (auto simp: implements_def named_def desc_of_def fd_close_def split: option.split)

lemma implements_getfd: "implements (fd_exec (DGetFd a arg) k) (fd_spec (DGetFd a arg) (desc_of k))"
  by (auto simp: implements_def desc_of_def fcntl_cmds as_i32_def fd_get_cloexec_def Let_def k_write_def split: option.split sum.split)

lemma implements_setfd: "implements (fd_exec (DSetFd a arg) k) (fd_spec (DSetFd a arg) (desc_of k))"
  by (auto simp: implements_def desc_of_def fcntl_cmds as_i32_def [of 2] fd_set_cloexec_def Let_def split: option.split)

lemma implements_dupfd: "implements (fd_exec (DDupFd ce a arg) k) (fd_spec (DDupFd ce a arg) (desc_of k))"
proof (cases "u32_try_from a")
  case None
  then show ?thesis using implements_Some [of "- EBADF" k] by (simp add: implements_spec)
next
  case (Some fd)
  have e: "fd_exec (DDupFd ce a arg) k =
     (if as_i32 arg < 0 then Some (- EINVAL, k)
      else case res_bind (fd_get (k_fds k) fd) clone_resource of
             Inl e \<Rightarrow> Some (e, k)
           | Inr r \<Rightarrow> map_option (\<lambda>(n, t). (uint n, k\<lparr>k_fds := fd_set_cloexec t n ce\<rparr>)) (fd_insert_at_least (k_fds k) (as_u32 arg) r))"
    using Some by (cases ce) (simp_all add: fcntl_cmds Let_def as_i32_def [of 0] as_i32_def [of 1030] cong: sum.case_cong)
  show ?thesis
  proof (cases "named (desc_of k) a")
    case None
    then show ?thesis
      using implements_Some [of "- EBADF" k] implements_Some [of "- EINVAL" k]
      unfolding e by (simp add: implements_spec Some cloned_source [OF Some] shared_from_def)
  next
    case (Some x)
    obtain r where x: "x = (fd, r)" using Some \<open>u32_try_from a = Some fd\<close> by (auto simp: named_def)
    show ?thesis
      using implements_Some [of "- EBADF" k] implements_Some [of "- EINVAL" k]
        implements_search [where k = k and ce = ce and lo = "as_u32 arg" and r = r]
      unfolding e by (simp add: implements_spec \<open>u32_try_from a = Some fd\<close> cloned_source [OF \<open>u32_try_from a = Some fd\<close>] shared_from_def Some x)
  qed
qed

lemma implements_dup23:
  "implements (fd_exec (DDup2 a b) k) (fd_spec (DDup2 a b) (desc_of k))"
  "implements (fd_exec (DDup3 a b fl) k) (fd_spec (DDup3 a b fl) (desc_of k))"
proof -
  note bad = implements_Some [of "- EBADF" k] implements_Some [of "- EINVAL" k]
  note at = implements_dup_at [of a _ _ k]
  have same: "implements (Some (case fd_get (k_fds k) n of Inr _ \<Rightarrow> (uint n, k) | Inl e \<Rightarrow> (e, k)))
     (\<lambda>out. out = (if open_fds (desc_of k) n = None then - EBADF else uint n, desc_of k))" for n
    using bad(1) implements_Some [of "uint n" k] by (cases "table (k_fds k) n") (simp_all add: fd_get_def desc_of_def)
  show "implements (fd_exec (DDup2 a b) k) (fd_spec (DDup2 a b) (desc_of k))"
    using bad at same
    by (cases "u32_try_from a"; cases "u32_try_from b") (auto simp: implements_spec shared_at_def [of _ a, abs_def] named_def)
  show "implements (fd_exec (DDup3 a b fl) k) (fd_spec (DDup3 a b fl) (desc_of k))"
    using bad at by (cases "u32_try_from a"; cases "u32_try_from b") (auto simp: implements_spec Let_def)
qed

lemma fd_exec_implements: "implements (fd_exec c k) (fd_spec c (desc_of k))"
proof (cases c)
  case (DDup a)
  then show ?thesis
    using implements_Some [of "- EBADF" k] implements_dup [of a _ k False]
    by (cases "u32_try_from a") (simp_all add: implements_spec shared_from_def [abs_def] named_def)
qed (simp_all only: implements_close implements_getfd implements_setfd implements_dupfd implements_dup23)

text \<open>
  C32: The descriptor calls implement their specification exactly: a sequence of \<open>close\<close>, \<open>dup\<close>, \<open>dup2\<close>, \<open>dup3\<close> and \<open>fcntl\<close> calls returns
  the results \<open>rs\<close> and leaves the descriptors \<open>d\<close> if and only if the abstract map of descriptors allows it.  In particular a sequence
  does not return exactly when some call finds no free descriptor, and neither \<open>next_fd\<close> nor any other part of the kernel
  plays a role.
\<close>
theorem descriptor_calls_refine:
  "(\<exists>k'. fd_runs cs k = Some (rs, k') \<and> desc_of k' = d) \<longleftrightarrow> spec_runs cs (desc_of k) rs d"
proof (induction cs arbitrary: k rs)
  case (Cons c cs)
  have one: "fd_spec c (desc_of k) (r, d1) \<longleftrightarrow> (\<exists>k1. fd_exec c k = Some (r, k1) \<and> desc_of k1 = d1)" for r d1
    using fd_exec_implements [of c k] by (auto simp: implements_def)
  show ?case
  proof (cases "fd_exec c k")
    case None
    then show ?thesis by (simp add: one)
  next
    case (Some x)
    obtain r k1 where x: "x = (r, k1)" by (cases x)
    have "fd_runs (c # cs) k = map_option (\<lambda>(rs, k2). (r # rs, k2)) (fd_runs cs k1)" by (simp add: Some x)
    then have "(\<exists>k'. fd_runs (c # cs) k = Some (rs, k') \<and> desc_of k' = d) \<longleftrightarrow>
        (\<exists>rs'. rs = r # rs' \<and> (\<exists>k'. fd_runs cs k1 = Some (rs', k') \<and> desc_of k' = d))" by auto
    also have "\<dots> \<longleftrightarrow> spec_runs (c # cs) (desc_of k) rs d" unfolding Cons.IH by (auto simp: one Some x)
    finally show ?thesis .
  qed
qed auto

section \<open>What the specification does not promise\<close>

text \<open>
  \<open>F_SETFD\<close> succeeds on a number that is not open, and the flag stays: the descriptor that gets the number next is close-on-exec,
  although \<open>pipe2\<close> was not asked for it.
\<close>

lemma setfd_on_closed_leaks:
  assumes "table (k_fds k) n = None" "next_fd (k_fds k) = n" "guest_slice_mut (k_memory k) p 8 = Inr (b, l)"
  shows "\<exists>k1 k2. sys_fcntl k (Args (uint n) F_SETFD 1 0 0 0) = Some (0, k1) \<and> sys_pipe2 k1 (Args p 0 0 0 0 0) = (0, k2) \<and>
    table (k_fds k2) n \<noteq> None \<and> n \<in> cloexec (k_fds k2)"
  using assms
  by (simp add: fcntl_cmds as_i32_def fd_set_cloexec_def make_pipe_def fd_insert_def k_write_def Let_def guest_slice_mut_def)

text \<open>
  \<open>next_fd\<close> is one more than the highest descriptor ever chosen and wraps with it: after \<open>dup2\<close> to the highest number the next pipe
  takes the descriptors 0 and 1, whatever is open there.
\<close>

lemma dup2_highest_overwrites:
  assumes "table (k_fds k) 1 = Some r" "shareable r" "guest_slice_mut (k_memory k) p 8 = Inr (b, l)"
  shows "\<exists>k1 k2. sys_dup2 k (Args 1 4294967295 0 0 0 0) = Some (4294967295, k1) \<and> sys_pipe2 k1 (Args p 0 0 0 0 0) = (0, k2) \<and>
    table (k_fds k2) 0 = Some (RPipeRead (length (k_pipes k))) \<and> table (k_fds k2) 1 = Some (RPipeWrite (length (k_pipes k)))"
proof -
  have u: "u32_try_from 1 = Some 1" "u32_try_from 4294967295 = Some 4294967295" "uint (4294967295 :: u32) = 4294967295"
    "as_i32 0 = 0" "as_u32 0 = 0"
    by (simp_all add: u32_try_from_def as_i32_def as_u32_def)
  have g: "res_bind (fd_get (k_fds k) 1) clone_resource = Inr r" using assms by (simp add: res_bind_Inr clone_shareable)
  have m: "x \<le> (4294967295 :: u32)" for x using uint_lt2p [of x] by (simp add: word_le_def)
  show ?thesis
    using assms(3)
    by (simp add: u m internal_dup_def g fd_insert_at_def fd_close_table fd_set_cloexec_def make_pipe_def fd_insert_def
        k_write_def Let_def guest_slice_mut_def)
qed

end
