(* ===== verification/Abi.thy ===== *)
theory Abi
  imports Dispatch
begin

text \<open>
  The answers of the syscalls.  The guest's C library takes a negative result for a negated errno; the lemmas show, handler by
  handler, that whatever is negative is the negation of a constant of \<^verbatim>\<open>src/src/errno.rs\<close>; \<open>Abi_Runs\<close> draws the conclusion for
  whole runs.
\<close>

section \<open>Answers\<close>

text \<open>
  The constants of \<^verbatim>\<open>errno.rs\<close> that the sources use; its five others (\<open>EBUSY\<close>, \<open>EMFILE\<close>, \<open>EFBIG\<close>, \<open>ENOSPC\<close>, \<open>EROFS\<close>) are declared and never used.
\<close>

definition ERRNOS :: "int list" where
  "ERRNOS =
    [EPERM, ENOENT, ESRCH, EINTR, EIO, EBADF, ECHILD, EAGAIN, ENOMEM, EACCES, EFAULT, EEXIST, ENOTDIR, EISDIR, EINVAL, ENOTTY,
     ESPIPE, EPIPE, ERANGE, ENAMETOOLONG, ENOSYS, ENOTEMPTY, ELOOP, EDESTADDRREQ, EPROTONOSUPPORT, EOPNOTSUPP, EAFNOSUPPORT,
     EADDRINUSE, EADDRNOTAVAIL, EISCONN, ENOTCONN, ETIMEDOUT, ECONNREFUSED]"

definition errno_ret :: "int \<Rightarrow> bool" where
  "errno_ret r \<longleftrightarrow> - r \<in> set ERRNOS"

definition answer :: "int \<Rightarrow> bool" where
  "answer r \<longleftrightarrow> 0 \<le> r \<or> errno_ret r"

definition fails_ok :: "'a res \<Rightarrow> bool" where
  "fails_ok r \<longleftrightarrow> (\<forall>e. r = Inl e \<longrightarrow> errno_ret e)"

definition answers :: "int \<times> 'k \<Rightarrow> bool" where
  "answers x \<longleftrightarrow> answer (fst x)"

named_theorems abi

lemma errno_rets [abi, simp]:
  "errno_ret (- EPERM)" "errno_ret (- ENOENT)" "errno_ret (- ESRCH)" "errno_ret (- EIO)" "errno_ret (- EBADF)" "errno_ret (- ECHILD)"
  "errno_ret (- EAGAIN)" "errno_ret (- ENOMEM)" "errno_ret (- EACCES)" "errno_ret (- EFAULT)" "errno_ret (- EEXIST)"
  "errno_ret (- ENOTDIR)" "errno_ret (- EISDIR)" "errno_ret (- EINVAL)" "errno_ret (- ENOTTY)" "errno_ret (- ESPIPE)"
  "errno_ret (- EPIPE)" "errno_ret (- ERANGE)" "errno_ret (- ENAMETOOLONG)" "errno_ret (- ENOSYS)" "errno_ret (- ENOTEMPTY)"
  "errno_ret (- ELOOP)" "errno_ret (- EDESTADDRREQ)" "errno_ret (- EPROTONOSUPPORT)" "errno_ret (- EOPNOTSUPP)"
  "errno_ret (- EAFNOSUPPORT)" "errno_ret (- ENOTCONN)" "errno_ret (- EADDRINUSE)" "errno_ret (- EADDRNOTAVAIL)" "errno_ret (- EISCONN)"
  "errno_ret (- ETIMEDOUT)" "errno_ret (- ECONNREFUSED)"
  by (simp_all add: errno_ret_def ERRNOS_def)

lemma answers_errno: "errno_ret e \<Longrightarrow> answers (e, k)"
  by (simp add: answers_def answer_def)

lemmas answers_errnos [abi] = errno_rets [THEN answers_errno]

lemma answers_nonneg: "0 \<le> r \<Longrightarrow> answers (r, k)"
  by (simp add: answers_def answer_def)

lemma answers_values [abi]: "answers (0, k)" "answers (1, k)" "answers (8, k)" "answers (int n, k)" "answers (uint w, k)"
  by (simp_all add: answers_def answer_def)

lemma errno_io [abi]: "errno_ret (- io_to_errno e)" "errno_ret (vfs_io_to_errno e)"
  by (cases e; simp add: io_to_errno_def vfs_io_to_errno_def)+

lemmas answers_io [abi] = errno_io [THEN answers_errno]

lemma fails_values [abi]: "fails_ok (Inr x)" "errno_ret e \<Longrightarrow> fails_ok (Inl e)"
  by (simp_all add: fails_ok_def)

lemma fails_bind [abi]: "fails_ok r \<Longrightarrow> (\<And>x. r = Inr x \<Longrightarrow> fails_ok (f x)) \<Longrightarrow> fails_ok (res_bind r f)"
  by (cases r) (auto simp: fails_ok_def res_bind_def)

lemma fails_ok_or [abi]: "errno_ret e \<Longrightarrow> fails_ok (ok_or x e)"
  by (cases x) (simp_all add: fails_ok_def ok_or_def)

lemma answers_try [abi]: "fails_ok r \<Longrightarrow> (\<And>x. r = Inr x \<Longrightarrow> answers (f x)) \<Longrightarrow> answers (try_ret r k f)"
  by (cases r) (auto simp: fails_ok_def intro: answers_errno)

lemma answers_host [abi]: "answers (host_ret k r)"
  by (auto simp: host_ret_def intro!: abi split: prod.split sum.split)

lemma answers_if [abi]: "(b \<Longrightarrow> answers x) \<Longrightarrow> (\<not> b \<Longrightarrow> answers y) \<Longrightarrow> answers (if b then x else y)"
  by simp

lemma fails_if [abi]: "(b \<Longrightarrow> fails_ok x) \<Longrightarrow> (\<not> b \<Longrightarrow> fails_ok y) \<Longrightarrow> fails_ok (if b then x else y)"
  by simp

section \<open>Helpers\<close>

lemma fails_memory [abi]: "fails_ok (kernel_memory m)"
  by (auto simp: kernel_memory_def intro!: abi split: option.split memory_kind.split)

lemma fails_range [abi]: "fails_ok (guest_range m p n)"
  by (auto simp: guest_range_def Let_def intro!: abi)

lemma fails_slices [abi]:
  "fails_ok (guest_slice m p n)" "fails_ok (guest_slice_mut m p n)" "fails_ok (guest_slice_mut_via b p n)" "fails_ok (via_memory k p n)"
  by (auto simp: guest_slice_def guest_slice_mut_def guest_slice_mut_via_def via_memory_def Let_def intro!: abi split: prod.split)

lemma fails_str [abi]: "fails_ok (guest_str m p n)"
  by (auto simp: guest_str_def intro!: abi)

lemma fails_get [abi]: "fails_ok (fd_get t fd)" "fails_ok (clone_resource r)" "fails_ok (require_u64_buf n)" "fails_ok (fst (eventfd_read e))"
  by (auto simp: fd_get_def require_u64_buf_def eventfd_read_def Let_def intro!: abi) (cases r; auto intro!: abi)

lemma fails_normalize_loop [abi]: "fails_ok (normalize_loop acc cs)"
  by (induction acc cs rule: normalize_loop.induct) (auto intro!: abi split: option.split)

lemma fails_resolve_path [abi]: "fails_ok (resolve_path v d p)"
  by (auto simp: resolve_path_def normalize_def Let_def intro!: abi)

lemma fails_resolve [abi]: "fails_ok (sys_resolve k d p)"
  by (auto simp: sys_resolve_def resolve_via_dirfd_def Let_def intro!: abi split: sum.split resource.split option.split)

lemma fails_vfs [abi]:
  "fails_ok (vfs_stat H p h)" "fails_ok (readdir_all H p h)" "fails_ok (open_options_of fl)"
  by (auto simp: vfs_stat_def readdir_all_def open_options_of_def Let_def intro!: abi split: sum.split)

lemma fails_vfs_open [abi]: "fails_ok (fst (vfs_open H p fl h))"
  by (auto simp: vfs_open_def intro!: abi split: sum.split prod.split)
     (use fails_vfs(3) in \<open>auto simp: fails_ok_def\<close>)

lemma fails_vfs_dirs [abi]: "fails_ok (fst (vfs_chdir H v p h))" "fails_ok (fst (vfs_chroot H v p h))"
  by (auto simp: vfs_chdir_def vfs_chroot_def intro!: abi split: sum.split)

lemma fails_sock_ref [abi]: "fails_ok (sock_ref k fd)" "fails_ok (opt_range k p n)" "fails_ok (socket_kind_of f t)"
  using fails_get(1) [of "k_fds k" fd]
  by (auto simp: sock_ref_def opt_range_def socket_kind_of_def fails_ok_def [of "Inl _"] intro!: abi split: sum.split resource.split)

lemma answers_str [abi]: "(\<And>s. answers (f s)) \<Longrightarrow> answers (str_arg k p f)"
  by (auto simp: str_arg_def intro!: abi)

lemma answers_path [abi]: "(\<And>p. answers (f p)) \<Longrightarrow> answers (path_arg k d p f)"
  by (auto simp: path_arg_def intro!: abi)

lemma answers_two_paths [abi]: "(\<And>p q. answers (f p q)) \<Longrightarrow> answers (two_path_args k d p d' p' f)"
  by (auto simp: two_path_args_def intro!: abi)

lemma answers_write_stat [abi]: "answers (write_stat k s p)"
  by (auto simp: write_stat_def stat_write_to_guest_def Let_def intro!: abi split: sum.split prod.split)
     (use fails_slices(2) in \<open>auto simp: fails_ok_def intro: answers_errno\<close>)

lemma answers_vfs_ret [abi]: "fails_ok (fst r) \<Longrightarrow> answers (vfs_ret k r)"
  by (auto simp: vfs_ret_def fails_ok_def intro!: abi intro: answers_errno split: sum.split prod.split)

lemma fails_clone_handle [abi]: "fails_ok (fst (clone_handle H k fd))"
  using fails_get(1) [of "k_fds k" fd]
  by (auto simp: clone_handle_def fails_ok_def [of "Inl _"] intro!: abi split: sum.split prod.split resource.split)

section \<open>Paths\<close>

lemma answers_fstat [abi]: "answers (sys_fstat H k a)"
  by (cases a) (auto intro!: abi split: option.split)

lemma fails_results:
  "vfs_open H p fl h = (r, h') \<Longrightarrow> fails_ok r" "clone_handle H k fd = (f, k') \<Longrightarrow> fails_ok f" "eventfd_read e = (v, e') \<Longrightarrow> fails_ok v"
  using fails_vfs_open [of H p fl h] fails_clone_handle [of H k fd] fails_get(4) [of e] by auto

lemma errno_results:
  "fd_get t fd = Inl e \<Longrightarrow> errno_ret e" "sock_ref k fd = Inl e \<Longrightarrow> errno_ret e" "guest_slice m p n = Inl e \<Longrightarrow> errno_ret e"
  "guest_slice_mut m p n = Inl e \<Longrightarrow> errno_ret e"
  using fails_get(1) [of t fd] fails_sock_ref(1) [of k fd] fails_slices(1,2) [of m p n] by (auto simp: fails_ok_def)

lemma answers_openat [abi]: "answers (sys_openat H k a)"
  by (cases a) (auto simp: Let_def intro!: abi elim: fails_results split: prod.split)

lemma answers_newfstatat [abi]: "answers (sys_newfstatat H k a)"
  by (cases a) (auto intro!: abi simp del: sys_fstat.simps)

lemma fails_statx_stat [abi]: "fails_ok (statx_stat H k d fl p)"
  by (auto simp: statx_stat_def intro!: abi elim: errno_results split: option.split sum.split resource.split)

lemma answers_statx [abi]: "answers (sys_statx H k a)"
  by (cases a) (auto simp: Let_def intro!: abi split: prod.split)

lemma answers_path_calls [abi]:
  "answers (sys_open H k a)" "answers (sys_stat H k a)" "answers (sys_lstat H k a)" "answers (sys_mkdir H k a)" "answers (sys_mkdirat H k a)"
  "answers (sys_rmdir H k a)" "answers (sys_unlink H k a)" "answers (sys_unlinkat H k a)"
  "answers (sys_symlinkat H k a)" "answers (sys_symlink H k a)" "answers (sys_linkat H k a)" "answers (sys_link H k a)"
  "answers (sys_fchmodat H k a)" "answers (sys_chmod H k a)" "answers (sys_chdir H k a)" "answers (sys_chroot H k a)"
  by (cases a; auto intro!: abi simp del: sys_openat.simps sys_newfstatat.simps)+

lemma answers_renameat [abi]: "answers (sys_renameat H k a)"
  by (cases a) (auto simp: Let_def intro!: abi)

lemma answers_truncate [abi]: "answers (sys_truncate H k a)"
  by (cases a) (auto intro!: abi split: prod.split sum.split)

lemma answers_readlinkat [abi]: "answers (sys_readlinkat H k a)"
  by (cases a) (auto intro!: abi split: prod.split sum.split option.split)

lemma answers_faccessat2 [abi]: "answers (sys_faccessat2 H k a)"
  by (cases a) (auto simp: access_check_def Let_def intro!: abi split: sum.split)

lemma answers_path_wrappers [abi]:
  "answers (sys_rename H k a)" "answers (sys_renameat2 H k a)" "answers (sys_readlink H k a)" "answers (sys_faccessat H k a)"
  by (cases a; auto simp: sys_renameat2_def sys_faccessat_def intro!: abi simp del: sys_renameat.simps sys_readlinkat.simps sys_faccessat2.simps)+

lemma answers_utimensat: "sys_utimensat H k a = Some x \<Longrightarrow> answers x"
  using fails_str [of "k_memory k"] fails_resolve [of k] fails_slices(1) [of "k_memory k"]
  by (cases a) (auto simp: utimens_times_def fails_ok_def Let_def intro!: abi intro: answers_errno split: sum.splits prod.splits if_splits option.splits)

section \<open>Reading and writing\<close>

lemma answers_read_finish [abi]: "answers (read_finish k p n t eof)"
  by (auto simp: read_finish_def intro!: abi split: prod.split)

lemma answers_read_kinds [abi]:
  "answers (read_pipe k q p n)" "answers (read_file H k r p n)" "answers (read_eventfd k fd e p m)"
  by (auto simp: read_pipe_def read_file_def read_eventfd_def Let_def intro!: abi elim: fails_results split: prod.split option.split)

lemma answers_write_kinds [abi]:
  "answers (write_pipe k q bs)" "answers (write_file H k r bs)" "answers (write_eventfd k fd e bs m)"
  by (auto simp: write_pipe_def write_file_def write_eventfd_def Let_def intro!: abi split: prod.split sum.split)

lemma answers_read:
  assumes "\<And>k a. answers (rf k a)"
  shows "answers (sys_read H rf k a)"
  by (cases a) (auto intro!: abi assms split: option.split resource.split)

lemma answers_write:
  assumes "\<And>k a. answers (st k a)"
  shows "answers (sys_write H st k a)"
  by (cases a) (auto intro!: abi assms split: option.split resource.split)

lemma answers_iov_loop:
  assumes "\<And>k a. answers (f k a)" "0 \<le> acc"
  shows "answers (iov_loop f fd es acc k)"
  using assms(2)
proof (induction es arbitrary: acc k)
  case (Cons e es)
  obtain base len where e: "e = (base, len)" by (cases e)
  obtain r k1 where r: "f k (Args fd base len 0 0 0) = (r, k1)" by (cases "f k (Args fd base len 0 0 0)")
  have "answer r" using assms(1) [of k "Args fd base len 0 0 0"] by (simp add: r answers_def)
  with Cons show ?case by (auto simp: e r answers_def answer_def)
qed (simp add: answers_nonneg)

lemma answers_iov: "(\<And>k a. answers (f k a)) \<Longrightarrow> answers (iov_call f k fd p n)"
  by (auto simp: iov_call_def intro!: abi answers_iov_loop split: option.split)

lemma answers_vectored:
  "(\<And>k a. answers (rf k a)) \<Longrightarrow> answers (sys_readv H rf k a)" "(\<And>k a. answers (st k a)) \<Longrightarrow> answers (sys_writev H st k a)"
  by (cases a; auto intro!: answers_iov answers_read answers_write simp del: sys_read.simps sys_write.simps)+

text \<open>A host that reports file positions as Linux does, below \<open>2 ^ 63\<close>.\<close>

definition seeks_ok :: "'h host_ops \<Rightarrow> bool" where
  "seeks_ok H \<longleftrightarrow> (\<forall>f w h p h'. hf_seek H f w h = (Inr p, h') \<longrightarrow> unat p < 2 ^ 63)"

lemma seek_answer:
  assumes "seeks_ok H" "hf_seek H f w h = (Inr p, h')"
  shows "answers (as_i64 p, k)"
proof -
  have "unat p < 2 ^ 63" using assms unfolding seeks_ok_def by blast
  then have "uint p < 2 ^ 63" by (simp only: unat_eq_nat_uint nat_less_iff uint_ge_0) simp
  then have "signed_take_bit 63 (uint p) = uint p" using uint_ge_0 [of p] by (intro signed_take_bit_int_eq_self) linarith+
  then have "as_i64 p = uint p" unfolding as_i64_def sint_uint by simp
  then show ?thesis by (simp add: answers_values)
qed

lemma answers_seek:
  assumes "seeks_ok H"
  shows "answers (case hf_seek H f w h of (Inr p, h') \<Rightarrow> (as_i64 p, g p h') | (Inl e, h') \<Rightarrow> (- EINVAL, g' h'))"
  using seek_answer [OF assms] by (auto intro!: abi split: prod.split sum.split)

lemma answers_lseek:
  assumes "seeks_ok H"
  shows "answers (sys_lseek H k a)"
proof (cases a)
  case (Args a0 off whence x y z)
  show ?thesis
    unfolding Args sys_lseek.simps Let_def
    by (cases "u32_try_from a0"; simp only: option.case; intro abi; simp only: resource.case split: resource.split)
       (intro conjI allI impI abi answers_seek [OF assms])+
qed

lemma answers_getdents64 [abi]: "answers (sys_getdents64 H k a)"
  by (cases a) (auto simp: Let_def intro!: abi simp del: length_slice split: option.split resource.split sum.split prod.split)

lemma answers_getcwd [abi]: "answers (sys_getcwd k a)"
  by (cases a) (auto simp: Let_def intro!: abi split: option.split prod.split)

lemma answers_handle_calls [abi]: "answers (sys_ftruncate H k a)" "answers (sys_fchmod H k a)"
  by (cases a; auto simp: Let_def intro!: abi elim: fails_results split: option.split prod.split sum.split)+

section \<open>Descriptors, memory, events\<close>

lemma answers_close [abi]: "answers (sys_close k a)"
  by (cases a) (auto simp: fd_close_def intro!: abi split: option.split)

lemma answers_pipes [abi]: "answers (sys_pipe2 k a)" "answers (sys_pipe k a)"
  by (cases a; auto simp: Let_def intro!: abi split: prod.split)+

lemma getfl_nonneg: "0 \<le> getfl k r"
  by (auto simp: getfl_def Let_def O_RDONLY_def O_WRONLY_def O_RDWR_def O_NONBLOCK_def split: resource.split)

lemma answers_internal_dup: "internal_dup k fd t c = Some x \<Longrightarrow> answers x"
  using fails_bind [OF fails_get(1) fails_get(2), of "k_fds k" fd]
  by (auto simp: internal_dup_def fails_ok_def fd_insert_at_def Let_def intro!: abi intro: answers_errno
      split: sum.splits option.splits prod.splits if_splits)

lemma answers_dups: "sys_dup k a = Some x \<Longrightarrow> answers x" "sys_dup2 k a = Some x \<Longrightarrow> answers x" "sys_dup3 k a = Some x \<Longrightarrow> answers x"
  by (cases a; auto simp: Let_def intro!: abi intro: answers_errno answers_internal_dup errno_results(1)
      split: option.splits if_splits sum.splits)+

lemmas answers_getfl = getfl_nonneg [THEN answers_nonneg]

lemma answers_fcntl: "sys_fcntl k a = Some x \<Longrightarrow> answers x"
proof (cases a)
  case (Args a0 a1 a2 a3 a4 a5)
  assume "sys_fcntl k a = Some x"
  then show ?thesis
    using fails_bind [OF fails_get(1) fails_get(2), of "k_fds k"] unfolding Args
    by (auto simp: fails_ok_def Let_def intro!: abi answers_getfl intro: answers_errno errno_results(1)
        split: option.splits if_splits sum.splits)
qed

lemma mm_mmap_errno: "mm_mmap la m n p fl fd off = (MmapErr e, la') \<Longrightarrow> errno_ret e"
  by (auto simp: mm_mmap_def Let_def split: if_splits option.splits prod.splits)

lemma answers_mmap [abi]: "answers (sys_mmap G k a)"
  by (cases a) (auto simp: Let_def intro!: abi answers_errno elim: mm_mmap_errno split: option.split prod.split mmap_result.split)

lemma answers_memory_calls [abi]:
  "answers (sys_munmap k a)" "answers (sys_mprotect k a)" "answers (sys_madvise k a)" "answers (sys_brk k a)" "answers (sys_mremap k a)"
  by (cases a; auto simp: sys_mprotect_def sys_madvise_def sys_brk_def mm_munmap_def grow_in_place_def Let_def intro!: abi
      split: option.split prod.split)+

lemma answers_events [abi]:
  "answers (sys_eventfd2 k a)" "answers (sys_eventfd k a)" "answers (sys_epoll_create1 k a)" "answers (sys_ioctl k a)"
  by (cases a; auto simp: sys_eventfd_def sys_epoll_create1_def Let_def intro!: abi split: prod.split resource.split)+

lemma answers_epoll_ctl [abi]: "answers (sys_epoll_ctl k a)"
  by (cases a) (auto simp: Let_def intro!: abi intro: answers_errno errno_results(1) split: option.split sum.split resource.split)

section \<open>Processes, signals, time, sockets\<close>

text \<open>The ids the kernel hands out have not wrapped around.\<close>

definition ids_ok :: "'h kernel \<Rightarrow> bool" where
  "ids_ok k \<longleftrightarrow> 0 \<le> k_tid k \<and> 0 \<le> k_tgid k \<and> 0 \<le> ps_next_pid (k_process k) \<and> (\<forall>p \<in> child_pids k. 0 \<le> p)"

lemma answers_ids:
  assumes "ids_ok k"
  shows "answers (sys_getpid k a)" "answers (sys_gettid k a)" "answers (sys_set_tid_address k a)" "answers (sys_fork k a)"
  using assms by (auto simp: ids_ok_def sys_getpid_def sys_gettid_def sys_set_tid_address_def sys_fork_def alloc_pid_def Let_def
      intro: answers_nonneg)

lemma answers_clone:
  assumes "ids_ok k"
  shows "answers (sys_clone k a)"
proof (cases a)
  case (Args a0 a1 a2 a3 a4 a5)
  have "answers (ps_next_pid (k_process k), k')" for k' :: "'a kernel" using assms by (simp add: ids_ok_def answers_nonneg)
  then show ?thesis
    unfolding Args by (auto simp: alloc_pid_def Let_def intro!: abi split: prod.split)
qed

lemma answers_process [abi]:
  "answers (sys_exit k a)" "answers (sys_exit_group k a)" "answers (sys_set_robust_list k a)" "answers (sys_sched_yield k a)"
  "answers (sys_prctl k a)" "answers (sys_kill k a)" "answers (sys_tgkill k a)"
  "answers (sys_getuid k a)" "answers (sys_geteuid k a)" "answers (sys_getgid k a)" "answers (sys_getegid k a)" "answers (sys_getppid k a)"
  "answers (sys_uname k a)" "answers (sys_prlimit64 k a)" "answers (sys_getrlimit k a)" "answers (sys_setsid k a)" "answers (sys_getsid k a)"
  "answers (sys_getgroups k a)" "answers (enosys k a)"
  by (cases a; auto simp: sys_set_robust_list_def sys_sched_yield_def sys_getuid_def sys_geteuid_def sys_getgid_def sys_getegid_def
      sys_getppid_def sys_setsid_def sys_getsid_def enosys_def to_ret_def UID_def Let_def intro!: abi intro: answers_nonneg split: prod.split)+

lemma answers_sched_getaffinity [abi]: "answers (sys_sched_getaffinity k a)"
  by (cases a) (auto simp: Let_def intro!: abi intro: answers_nonneg split: prod.split)

lemma answers_signals [abi]:
  "answers (sys_rt_sigaction k a)" "answers (sys_rt_sigprocmask k a)" "answers (sys_sigaltstack k a)" "answers (sys_rt_sigreturn k a)"
  by (cases a; auto simp: sys_rt_sigreturn_def Let_def intro!: abi split: prod.split)+

lemma answers_times [abi]: "answers (sys_clock_getres k a)" "answers (sys_sysinfo k a)" "answers (sys_times k a)"
  by (cases a; auto simp: put_pair_def Let_def intro!: abi split: prod.split)+

lemma answers_sockets [abi]:
  "answers (sys_socket k a)" "answers (sys_listen k a)" "answers (sys_setsockopt k a)" "answers (sys_getsockopt k a)"
  by (cases a; auto simp: Let_def intro!: abi split: prod.split option.split sum.split)+

lemma answers_send_resume [abi]: "answers (send_resume k p r)"
  by (auto simp: send_resume_def Let_def intro!: abi split: sum.split)

lemma answers_recv_resume [abi]: "answers (recv_resume k p r)"
  by (auto simp: recv_resume_def Let_def intro!: abi split: sum.split)

lemma answer_take_for_read: "take_for_read k fd u = (Inl e, k1) \<Longrightarrow> answers (e, k2)"
  by (auto simp: take_for_read_def Let_def intro!: abi intro: answers_errno errno_results split: sum.splits option.splits if_splits)

lemma answer_take_for_write: "take_for_write k fd u = (Inl e, k1) \<Longrightarrow> answers (e, k2)"
  by (auto simp: take_for_write_def Let_def intro!: abi intro: answers_errno errno_results split: sum.splits option.splits if_splits)

lemma answers_sendto: "sys_sendto k a = (Ret r, k1) \<Longrightarrow> answers (r, k2)"
  by (cases a) (auto simp: Let_def intro!: abi intro: answers_errno errno_results answer_take_for_write
      split: option.splits sum.splits if_splits prod.splits)

lemma answers_recvfrom: "sys_recvfrom k a = (Ret r, k1) \<Longrightarrow> answers (r, k2)"
proof (cases a)
  case (Args a0 p n fl ap lp)
  let ?R = "\<lambda>u. res_bind (guest_slice_mut (k_memory k) p n) (\<lambda>_.
     if u then Inr () else res_bind (opt_range k ap 16) (\<lambda>_. opt_range k lp 4))"
  have "fails_ok (?R u)" for u by (intro abi)
  then have R: "?R u = Inl e \<Longrightarrow> errno_ret e" for u e by (simp add: fails_ok_def)
  assume "sys_recvfrom k a = (Ret r, k1)"
  then show ?thesis
    unfolding Args sys_recvfrom.simps Let_def
    by (auto intro!: abi intro: answers_errno errno_results answer_take_for_read R [of True, simplified] R [of False, simplified]
        split: option.splits sum.splits if_splits prod.splits)
qed

lemma answers_await: "answers (recvfrom_await rans k a)" "answers (sendto_await sans k a)"
  by (auto simp: recvfrom_await_def sendto_await_def intro!: abi intro: answers_recvfrom answers_sendto
      simp del: sys_recvfrom.simps sys_sendto.simps split: prod.split outcome.split)

section \<open>The table\<close>

definition ok_on :: "'h kernel \<Rightarrow> ('h kernel \<Rightarrow> args \<Rightarrow> (int \<times> 'h kernel) option) \<Rightarrow> bool" where
  "ok_on k f \<longleftrightarrow> (\<forall>a x. f k a = Some x \<longrightarrow> answers x)"

lemma ok_on_total: "(\<And>a. answers (f k a)) \<Longrightarrow> ok_on k (total_call f)"
  by (auto simp: ok_on_def total_call_def)

lemma handler_table_answers:
  assumes "seeks_ok H" "ids_ok k"
  shows "list_all (\<lambda>(nr, f). ok_on k f) (handler_table H G (recvfrom_await rans) (sendto_await sans))"
proof -
  have opt: "ok_on k sys_fcntl" "ok_on k sys_dup" "ok_on k sys_dup2" "ok_on k sys_dup3" "ok_on k (sys_utimensat H)"
    unfolding ok_on_def by (blast intro: answers_fcntl answers_dups answers_utimensat)+
  show ?thesis
    unfolding handler_table_def list.pred_inject split_conv
    by (intro conjI TrueI list.pred_inject(1) opt ok_on_total answers_read answers_write answers_vectored answers_await
        answers_lseek [OF assms(1)] answers_ids [OF assms(2)] answers_clone [OF assms(2)] abi)
qed

lemma syscall_answers:
  assumes "handler_of H G (recvfrom_await rans) (sendto_await sans) nr = Some f" "f k a = Some (r, k')" "seeks_ok H" "ids_ok k"
  shows "0 \<le> r \<or> - r \<in> set ERRNOS"
proof -
  have "(nr, f) \<in> set (handler_table H G (recvfrom_await rans) (sendto_await sans)) \<or> f = total_call enosys"
    using assms(1) by (auto simp: handler_of_def dest: map_of_SomeD split: option.splits if_splits)
  moreover have "ok_on k (total_call enosys)" by (intro ok_on_total abi)
  ultimately have "ok_on k f"
    using handler_table_answers [OF assms(3,4), of G rans sans] by (auto simp: list_all_iff)
  with assms(2) show ?thesis unfolding ok_on_def answers_def answer_def errno_ret_def by fastforce
qed

lemma mem_host_seeks: "seeks_ok mem_host"
proof -
  have "unat (word_of_int q :: u64) < 2 ^ 63" if "0 \<le> q" "q < 2 ^ 63" for q :: int
  proof -
    have "uint (word_of_int q :: u64) = q" using that by (simp add: unsigned_of_int take_bit_int_eq_self)
    then show ?thesis using that by (simp add: unat_eq_nat_uint nat_less_iff)
  qed
  then show ?thesis
    by (auto simp: seeks_ok_def mem_host_def mfs_seek_def Let_def split: sum.splits prod.splits if_splits)
qed

end
