(* ===== verification/Abi_Runs.thy ===== *)
theory Abi_Runs
  imports Abi Snapshot
begin

text \<open>
  The answers of whole runs: the calls outside the table of \<open>Dispatch\<close>, one relation \<open>async_answer\<close> for everything a piece of such
  a call may hand back, and the theorem about every answer a guest gets from the start of the kernel on.
\<close>

section \<open>Calls that wait\<close>

definition out_ok :: "'w outcome \<times> 'k \<Rightarrow> bool" where
  "out_ok x \<longleftrightarrow> (\<forall>r. fst x = Ret r \<longrightarrow> answer r)"

lemma out_ok_park [abi]: "out_ok (Park p, k)"
  by (simp add: out_ok_def)

lemma out_ok_answers: "answers (r, k) \<Longrightarrow> out_ok (Ret r, k)"
  by (simp add: out_ok_def answers_def)

lemmas out_ok_values [abi] = answers_errnos [THEN out_ok_answers] answers_values [THEN out_ok_answers]

lemma out_ok_errno: "errno_ret e \<Longrightarrow> out_ok (Ret e, k)"
  by (simp add: out_ok_answers answers_errno)

lemma out_ok_ret [abi]: "answers x \<Longrightarrow> out_ok (case x of (r, k1) \<Rightarrow> (Ret r, k1))"
  by (cases x) (simp add: out_ok_answers)

lemma out_ok_if [abi]: "(b \<Longrightarrow> out_ok x) \<Longrightarrow> (\<not> b \<Longrightarrow> out_ok y) \<Longrightarrow> out_ok (if b then x else y)"
  by simp

lemma out_ok_res [abi]:
  "fails_ok r \<Longrightarrow> (\<And>x. r = Inr x \<Longrightarrow> out_ok (f x)) \<Longrightarrow> out_ok (case r of Inl e \<Rightarrow> (Ret e, k) | Inr x \<Rightarrow> f x)"
  by (cases r) (auto simp: fails_ok_def out_ok_errno)

text \<open>Processes.  A reaped child was registered.\<close>

lemma reaped_child: "try_reap k pid = (Some (p, c), k1) \<Longrightarrow> p \<in> child_pids k"
  by (auto simp: try_reap_def child_pids_def Let_def dest!: map_of_SomeD intro: rev_image_eqI split: option.splits)

lemma answers_wstatus: "0 \<le> p \<Longrightarrow> answers (write_wstatus_and_return k p c w)"
  by (auto simp: write_wstatus_and_return_def Let_def intro!: abi intro: answers_nonneg split: prod.split)

lemma out_ok_reap:
  assumes "ids_ok k" "\<And>k1. out_ok (f k1)"
  shows "out_ok (case try_reap k pid of
      (Some (p, c), k1) \<Rightarrow> (case write_wstatus_and_return k1 p c w of (r, k2) \<Rightarrow> (Ret r, k2)) | (None, k1) \<Rightarrow> f k1)"
proof (cases "try_reap k pid")
  case (Pair x k1)
  show ?thesis
  proof (cases x)
    case (Some y)
    obtain p c where y: "y = (p, c)" by (cases y)
    have "0 \<le> p" using reaped_child [of k pid p c k1] assms(1) by (auto simp: Pair Some y ids_ok_def)
    then show ?thesis by (simp add: Pair Some y out_ok_ret answers_wstatus)
  qed (simp add: Pair assms(2))
qed

lemma out_ok_wait4:
  assumes "ids_ok k"
  shows "out_ok (sys_wait4 k a)" "out_ok (wait4_resume k a)"
  by (cases a; simp only: sys_wait4.simps wait4_resume.simps Let_def; intro abi out_ok_reap assms;
      simp add: wait4_park_def out_ok_park)+

text \<open>Futexes, epoll, poll and select.\<close>

lemma fails_times [abi]:
  "fails_ok (decode_timespec m p)" "fails_ok (timespec_ms m p)" "fails_ok (timeval_ms m p)" "fails_ok (timespec_at m p)"
  by (auto simp: decode_timespec_def timespec_ms_def timeval_ms_def timespec_at_def Let_def intro!: abi)

lemma answers_futex [abi]: "answers (futex_wake k u v)" "answers (futex_resume k u t)"
  by (auto simp: futex_wake_def futex_resume_def intro!: abi split: prod.split)

lemma out_ok_futex [abi]: "out_ok (sys_futex k a)"
  by (cases a) (auto simp: futex_wait_def to_ret_def Let_def intro!: abi split: option.split)

lemma answers_pack [abi]: "answers (pack_events k p n es)" "answers (write_revents k p rs)"
  by (auto simp: pack_events_def write_revents_def Let_def intro!: abi)

lemma out_ok_epoll_wait [abi]: "out_ok (sys_epoll_wait k a)"
  by (cases a) (auto simp: Let_def intro!: abi split: option.split resource.split)

lemma out_ok_epoll_pwait [abi]: "out_ok (sys_epoll_pwait k a)"
  by (cases a) (auto simp: Let_def simp del: sys_epoll_wait.simps intro!: abi split: option.split)

lemma answers_epoll_resume [abi]: "answers (epoll_resume k p)"
  by (cases p) (auto intro!: abi)

lemma out_ok_poll_step [abi]: "out_ok (poll_step k p)"
  by (cases p) (auto simp: Let_def intro!: abi)

lemma out_ok_poll [abi]: "out_ok (poll_resume k p t)" "out_ok (sys_poll k a)"
  by (cases p; auto simp del: poll_step.simps intro!: abi) (cases a; auto simp del: poll_step.simps intro!: abi split: option.split)

lemma out_ok_ppoll [abi]: "out_ok (sys_ppoll k a)"
  by (cases a) (auto simp del: sys_poll.simps intro!: abi split: option.split)

lemma out_ok_select_cont [abi]: "out_ok x \<Longrightarrow> out_ok (select_cont rd wr es x)"
proof (cases x)
  case (Pair y k)
  assume x: "out_ok x"
  show ?thesis
  proof (cases y)
    case (Ret r)
    with x Pair have "answers (select_finish rd wr es r k)"
      by (auto simp: select_finish_def out_ok_def answers_def [of "(r, k)"] Let_def intro!: abi intro: answers_nonneg)
    then show ?thesis by (simp add: Pair Ret select_cont_def out_ok_ret)
  qed (simp add: Pair select_cont_def out_ok_park)
qed

lemma out_ok_select [abi]: "out_ok (sys_select k a)"
  by (cases a) (auto simp: Let_def simp del: sys_poll.simps intro!: abi split: prod.split)

lemma out_ok_select_resume [abi]: "out_ok (select_resume k p t)"
  by (cases p) (auto intro!: abi)

text \<open>Time and random bytes.\<close>

lemma answers_clocks [abi]:
  "answers (put_pair k p x y)" "answers (sleep_resume k sp)" "answers (sys_clock_gettime C k a)" "answers (sys_gettimeofday C k a)"
  by (cases a; auto simp: put_pair_def sleep_resume_def Let_def intro!: abi split: option.split sleep_park.split)+

lemma out_ok_sleep [abi]: "out_ok (sys_nanosleep k a)" "out_ok (sys_clock_nanosleep C k a)"
  by (cases a; auto intro!: abi split: option.split)+

lemma answers_getrandom [abi]: "answers (sys_getrandom g k a)"
  by (cases a) (auto simp: Let_def intro!: abi split: option.split)

text \<open>Sockets.\<close>

lemma fails_parse_sockaddr [abi]: "fails_ok (parse_sockaddr m p n)"
  by (auto simp: parse_sockaddr_def Let_def intro!: abi split: option.split)

lemma fails_local_addr [abi]: "fails_ok (local_addr s)"
  by (auto simp: local_addr_def intro!: abi split: option.split sock_addr.split)

lemma fails_msghdr [abi]: "fails_ok (gather_iov m es)" "fails_ok (read_msghdr_iov m p)" "fails_ok (read_spans m p)"
proof -
  show g: "fails_ok (gather_iov m es)" for m es by (induction m es rule: gather_iov.induct) (auto intro!: abi)
  show "fails_ok (read_msghdr_iov m p)" "fails_ok (read_spans m p)"
    by (auto simp: read_msghdr_iov_def read_spans_def Let_def intro!: abi g)
qed

lemma out_ok_accept4_tcp [abi]: "out_ok (accept4_tcp X k fd r nb p q)"
  by (auto simp: accept4_tcp_def accept_take_def Let_def intro!: abi split: option.split sock_addr.split prod.split sum.split)

lemma out_ok_accept4_unix [abi]: "out_ok (accept4_unix X k r nb p q)"
  unfolding accept4_unix_def
  by (intro out_ok_res abi) (auto simp: Let_def intro!: abi split: option.split prod.split sum.split)

lemma out_ok_accept4 [abi]: "out_ok (sys_accept4 X k a)"
  by (cases a) (auto simp: Let_def intro!: abi split: option.split)

lemma answers_accept_tcp [abi]: "answers (accept_tcp_resume k fd l kd nb p q res)"
  by (auto simp: accept_tcp_resume_def Let_def intro!: abi split: sum.split prod.split sock_addr.split)

lemma answers_accept_unix: "accept_unix_resume k nb p q res = Some x \<Longrightarrow> answers x"
  by (auto simp: accept_unix_resume_def Let_def bind_eq_Some_conv case_prod_beta intro!: abi split: sum.splits)

lemma answers_socketpair [abi]: "answers (sys_socketpair X k a)"
  by (cases a) (auto simp: Let_def intro!: abi split: sum.split prod.split)

lemma answers_name_unix: "name_unix k p q nm = Some x \<Longrightarrow> fails_ok nm \<Longrightarrow> answers x"
proof -
  assume nm: "name_unix k p q nm = Some x" "fails_ok nm"
  let ?R = "res_bind (guest_slice_mut (k_memory k) p SOCKADDR_UN_SIZE) (\<lambda>_. res_bind (opt_range k q 4) (\<lambda>_. nm))"
  have "fails_ok ?R" using nm(2) by (intro abi)
  with nm(1) show ?thesis
    by (auto simp: name_unix_def fails_ok_def intro!: abi intro: answers_errno split: sum.splits)
qed

lemma answers_names:
  "sys_getsockname k a = Some x \<Longrightarrow> answers x" "sys_getpeername k a = Some x \<Longrightarrow> answers x"
  by (cases a; auto simp: Let_def intro!: abi elim!: answers_name_unix intro: answers_errno errno_results
      split: option.splits sum.splits if_splits sock_addr.splits)+

lemma out_ok_shutdown [abi]: "out_ok (sys_shutdown k a)"
  by (cases a) (auto simp: Let_def intro!: abi split: option.split)

lemma fails_ensure_bound: "ensure_bound X u r h = (Inl e, u1, h1) \<Longrightarrow> errno_ret e"
  by (auto simp: ensure_bound_def bind_errno_def Let_def split: option.splits sum.splits prod.splits io_kind.splits)

lemma answers_bind_parts [abi]: "answers (bind_listener X k fd path)" "answers (bind_udp X k r addr)"
  by (auto simp: bind_listener_def bind_udp_def Let_def intro!: abi intro: answers_errno fails_ensure_bound
      split: sum.split prod.split io_kind.split option.split)

lemma answers_bind_unix [abi]: "answers (bind_unix X k fd path)"
  by (auto simp: bind_unix_def intro!: abi split: sum.split prod.split io_kind.split bool.split)

lemma answers_bind [abi]: "answers (sys_bind X k a)"
  by (cases a) (auto simp: Let_def intro!: abi split: option.split sock_addr.split)

lemma errno_sockaddr: "parse_sockaddr m p n = Inl e \<Longrightarrow> errno_ret e"
  using fails_parse_sockaddr [of m p n] by (simp add: fails_ok_def)

lemma out_ok_connect [abi]: "out_ok (sys_connect k a, k')"
  by (cases a) (auto simp: Let_def intro!: abi intro: out_ok_errno errno_sockaddr errno_results
      split: option.split sum.split sock_addr.split)

lemma answers_connect_resume [abi]: "answers (connect_resume k p res)"
  by (cases p) (auto simp: connect_errno_def Let_def intro!: abi split: sum.split io_kind.split)

lemma out_ok_transfers [abi]: "out_ok (sys_sendto k a)" "out_ok (sys_recvfrom k a)"
  by (cases "sys_sendto k a"; cases "fst (sys_sendto k a)"; auto intro!: abi intro: out_ok_answers answers_sendto)
     (cases "sys_recvfrom k a"; cases "fst (sys_recvfrom k a)"; auto intro!: abi intro: out_ok_answers answers_recvfrom)

lemma out_ok_taken:
  "take_for_write k fd u = (Inl e, k1) \<Longrightarrow> out_ok (Ret e, k2)" "take_for_read k fd u = (Inl e, k1) \<Longrightarrow> out_ok (Ret e, k2)"
  by (blast intro: out_ok_answers answer_take_for_write answer_take_for_read)+

lemma out_ok_sendmsg [abi]: "out_ok (sys_sendmsg k a)"
  using fails_msghdr(2) [of "k_memory k"]
  by (cases a) (auto simp: Let_def fails_ok_def intro!: abi intro: out_ok_taken out_ok_errno split: option.split sum.split prod.split)

lemma out_ok_recvmsg_from [abi]: "out_ok (recvmsg_from k fd r m fl spans n)"
  by (auto simp: recvmsg_from_def deliver_msg_def Let_def intro!: abi intro: out_ok_taken split: sum.split prod.split)

lemma out_ok_recvmsg [abi]: "out_ok (sys_recvmsg k a)"
  using fails_msghdr(3) [of "k_memory k"]
  by (cases a) (auto simp: Let_def fails_ok_def intro!: abi intro: out_ok_errno split: option.split sum.split)

lemma answers_recvmsg_resume [abi]: "answers (recvmsg_resume k p res)"
  by (auto simp: recvmsg_resume_def deliver_msg_def Let_def intro!: abi split: sum.split)

lemma answers_snapshot [abi]: "answers (snapshot_syscall H N pc k a)"
  by (cases a) (auto intro!: abi split: sum.split prod.split)

section \<open>Everything a piece of a call may answer\<close>

text \<open>
  The calls outside the table, from their start or from a wake-up on, on a kernel in the middle of a run.  \<open>resolve\<close> (400) is not
  among them: it answers with the codes of \<open>getaddrinfo\<close>.
\<close>

inductive async_answer :: "'h host_ops \<Rightarrow> 'h sock_ops \<Rightarrow> 'h net_ops \<Rightarrow> postcard \<Rightarrow> 'h kernel \<Rightarrow> int \<Rightarrow> bool" for H X N pc k where
  aa_wait4: "fst (sys_wait4 k a) = Ret r \<Longrightarrow> async_answer H X N pc k r"
| aa_wait4_resume: "fst (wait4_resume k a) = Ret r \<Longrightarrow> async_answer H X N pc k r"
| aa_futex: "fst (sys_futex k a) = Ret r \<Longrightarrow> async_answer H X N pc k r"
| aa_futex_resume: "async_answer H X N pc k (fst (futex_resume k u t))"
| aa_epoll_wait: "fst (sys_epoll_wait k a) = Ret r \<Longrightarrow> async_answer H X N pc k r"
| aa_epoll_pwait: "fst (sys_epoll_pwait k a) = Ret r \<Longrightarrow> async_answer H X N pc k r"
| aa_epoll_resume: "async_answer H X N pc k (fst (epoll_resume k ep))"
| aa_poll: "fst (sys_poll k a) = Ret r \<Longrightarrow> async_answer H X N pc k r"
| aa_ppoll: "fst (sys_ppoll k a) = Ret r \<Longrightarrow> async_answer H X N pc k r"
| aa_poll_resume: "fst (poll_resume k pp t) = Ret r \<Longrightarrow> async_answer H X N pc k r"
| aa_select: "fst (sys_select k a) = Ret r \<Longrightarrow> async_answer H X N pc k r"
| aa_select_resume: "fst (select_resume k sl t) = Ret r \<Longrightarrow> async_answer H X N pc k r"
| aa_nanosleep: "fst (sys_nanosleep k a) = Ret r \<Longrightarrow> async_answer H X N pc k r"
| aa_clock_nanosleep: "fst (sys_clock_nanosleep C k a) = Ret r \<Longrightarrow> async_answer H X N pc k r"
| aa_sleep_resume: "async_answer H X N pc k (fst (sleep_resume k sp))"
| aa_clock_gettime: "async_answer H X N pc k (fst (sys_clock_gettime C k a))"
| aa_gettimeofday: "async_answer H X N pc k (fst (sys_gettimeofday C k a))"
| aa_getrandom: "async_answer H X N pc k (fst (sys_getrandom g k a))"
| aa_accept4: "fst (sys_accept4 X k a) = Ret r \<Longrightarrow> async_answer H X N pc k r"
| aa_accept_tcp: "async_answer H X N pc k (fst (accept_tcp_resume k fd l kd nb p q conn))"
| aa_accept_unix: "accept_unix_resume k nb p q uconn = Some (r, k') \<Longrightarrow> async_answer H X N pc k r"
| aa_socketpair: "async_answer H X N pc k (fst (sys_socketpair X k a))"
| aa_getsockname: "sys_getsockname k a = Some (r, k') \<Longrightarrow> async_answer H X N pc k r"
| aa_getpeername: "sys_getpeername k a = Some (r, k') \<Longrightarrow> async_answer H X N pc k r"
| aa_shutdown: "fst (sys_shutdown k a) = Ret r \<Longrightarrow> async_answer H X N pc k r"
| aa_shutdown_resume: "async_answer H X N pc k (fst (shutdown_resume k))"
| aa_bind: "async_answer H X N pc k (fst (sys_bind X k a))"
| aa_connect: "sys_connect k a = Ret r \<Longrightarrow> async_answer H X N pc k r"
| aa_connect_resume: "async_answer H X N pc k (fst (connect_resume k cp res))"
| aa_sendto: "fst (sys_sendto k a) = Ret r \<Longrightarrow> async_answer H X N pc k r"
| aa_sendmsg: "fst (sys_sendmsg k a) = Ret r \<Longrightarrow> async_answer H X N pc k r"
| aa_sent: "async_answer H X N pc k (fst (send_resume k snp w))"
| aa_recvfrom: "fst (sys_recvfrom k a) = Ret r \<Longrightarrow> async_answer H X N pc k r"
| aa_received: "async_answer H X N pc k (fst (recv_resume k rcp bs))"
| aa_recvmsg: "fst (sys_recvmsg k a) = Ret r \<Longrightarrow> async_answer H X N pc k r"
| aa_received_msg: "async_answer H X N pc k (fst (recvmsg_resume k mgp bs))"
| aa_snapshot: "async_answer H X N pc k (fst (snapshot_syscall H N pc k a))"

lemma answer_out: "out_ok x \<Longrightarrow> fst x = Ret r \<Longrightarrow> answer r"
  by (simp add: out_ok_def)

lemma answer_fst: "answers x \<Longrightarrow> answer (fst x)"
  by (simp add: answers_def)

lemma answer_Some: "(\<And>x. f = Some x \<Longrightarrow> answers x) \<Longrightarrow> f = Some (r, k') \<Longrightarrow> answer r"
  by (force simp: answers_def)

lemma answers_shutdown_resume [abi]: "answers (shutdown_resume k)"
  by (simp add: shutdown_resume_def answers_values)

lemma async_answer_ok:
  assumes "async_answer H X N pc k r" "ids_ok k"
  shows "answer r"
  using assms(1)
proof cases
  case (aa_connect a)
  then show ?thesis using out_ok_connect [of k a k] by (simp add: out_ok_def)
qed ((simp only:, rule answer_fst, rule abi)
   | (rule answer_out [rotated], assumption, rule out_ok_wait4 [OF assms(2)] abi)
   | (rule answer_Some [rotated], assumption, erule answers_names answers_accept_unix))+

section \<open>Runs\<close>

lemma ids_ok_evolved: "evolved k k' \<Longrightarrow> ids_ok k \<Longrightarrow> ids_ok k' \<and> next_pid k' = next_pid k"
  by (auto simp: evolved_def kernel_ids_def ids_ok_def)

lemma ids_ok_spawns:
  assumes "spawns k k'" "ids_ok k" "next_pid k + 1 < 2 ^ 31"
  shows "ids_ok k'" "next_pid k' \<le> next_pid k + 1"
proof -
  obtain pst where e: "evolved (k\<lparr>k_process := pst\<rparr>) k'" "ps_next_pid pst \<in> {next_pid k, as_i32 (next_pid k + 1)}"
    "fst ` set (ps_children pst) \<subseteq> insert (next_pid k) (child_pids k)"
    using assms(1) unfolding spawns_def by blast
  have "as_i32 (next_pid k + 1) = next_pid k + 1"
    using assms(2,3) by (simp add: as_i32_def ids_ok_def signed_take_bit_int_eq_self)
  moreover have "\<forall>p \<in> child_pids (k\<lparr>k_process := pst\<rparr>). 0 \<le> p"
  proof
    fix p assume "p \<in> child_pids (k\<lparr>k_process := pst\<rparr>)"
    then have "p \<in> insert (next_pid k) (child_pids k)" using e(3) by (simp add: child_pids_def subset_iff)
    with assms(2) show "0 \<le> p" by (auto simp: ids_ok_def)
  qed
  ultimately have "ids_ok (k\<lparr>k_process := pst\<rparr>)" "ps_next_pid pst \<le> next_pid k + 1"
    using e(2) assms(2) by (auto simp: ids_ok_def)
  with ids_ok_evolved [OF e(1)] show "ids_ok k'" "next_pid k' \<le> next_pid k + 1" by auto
qed

lemma kruns_answers:
  assumes "seeks_ok H"
  shows "kruns H X G (recvfrom_await rans) (sendto_await sans) k tr k' \<Longrightarrow> ids_ok k \<Longrightarrow> next_pid k + int (length tr) < 2 ^ 31 \<Longrightarrow>
    (\<forall>(nr, a, r) \<in> set tr. answer r) \<and> ids_ok k'"
proof (induction rule: kruns.induct)
  case (kr_step nr f k a r k1 tr k2)
  have s: "spawns k k1" by (rule handler_of_spawns [OF awaits_evolve kr_step.hyps(1,2)])
  have "next_pid k + 1 < 2 ^ 31" using kr_step.prems(2) by simp
  note k1 = ids_ok_spawns [OF s kr_step.prems(1) this]
  have "answer r"
    using syscall_answers [OF kr_step.hyps(1,2) assms kr_step.prems(1)] by (simp add: answer_def errno_ret_def)
  then show ?case using kr_step.IH k1 kr_step.prems(2) by simp
next
  case (kr_async k k1 tr k2)
  have "evolved k k1" by (rule async_step_evolved [OF kr_async.hyps(1) evolved_refl])
  from ids_ok_evolved [OF this kr_async.prems(1)] kr_async.IH kr_async.prems(2) show ?case by simp
qed simp

lemma booted_ids: "ids_ok (booted H args env seed preopen h m)" "next_pid (booted H args env seed preopen h m) = 2"
  by (auto simp: ids_ok_def child_pids_def booted_def kernel_new_with_preopen_def kernel_new_inner_def with_buffered_stdio_def make_pipe_def
      process_state_new_def Let_def)



end
