(* ===== verification/Resolver_Backend.thy ===== *)
theory Resolver_Backend
  imports Resolver
begin

text \<open>
  The backend of \<open>resolve\<close> (\<open>ResolverBackend\<close> of \<^verbatim>\<open>src/src/sys/resolver.rs\<close>) and a whole call over it.  The locale \<open>counted_backend\<close>
  states what a backend that counts its lookups promises; \<open>StubResolver\<close> is one.  A name is looked up once as long as its
  cache entry is fresh.
\<close>

section \<open>A whole call\<close>

text \<open>\<open>lookup_ip\<close>: how long the answer takes in milliseconds, the addresses or an error, and the backend afterwards.\<close>

type_synonym 'b lookup_ip = "'b \<Rightarrow> bytes \<Rightarrow> u64 \<times> ip_addr list option \<times> 'b"

text \<open>
  Steps 5 to 9 of \<open>resolve\<close>: the cache at time \<open>now\<close>; on a miss the backend under \<open>tokio::time::timeout\<close>, and the rest of the call at
  time \<open>later\<close>.
\<close>

definition awaited :: "u64 \<Rightarrow> u64 \<Rightarrow> ip_addr list option \<Rightarrow> lookup_result" where
  "awaited timeout_ms took found =
     (if timeout_ms < took then LookupTimeout else case found of None \<Rightarrow> LookupFailed | Some addrs \<Rightarrow> LookupOk addrs)"

definition resolve_await ::
  "'b lookup_ip \<Rightarrow> nat \<Rightarrow> nat \<Rightarrow> 'h kernel \<Rightarrow> 'b \<Rightarrow> args \<Rightarrow> int \<times> 'h kernel \<times> 'b" where
  "resolve_await lookup now later k b a =
     (case sys_resolve_name now k a of
        (Ret r, k1) \<Rightarrow> (r, k1, b)
      | (Park rq, k1) \<Rightarrow>
          let (took, found, b1) = lookup b (rq_node rq);
              (r, k2) = resolve_resume later k1 rq (awaited (rv_timeout_ms (k_resolver k1)) took found)
          in (r, k2, b1))"

section \<open>The stub\<close>

record stub_resolver =
  sr_addrs :: "ip_addr list"
  sr_sleep_ms :: u64
  sr_lookups :: u64

definition stub_new :: "ip_addr list \<Rightarrow> stub_resolver" where
  "stub_new addrs = \<lparr>sr_addrs = addrs, sr_sleep_ms = 0, sr_lookups = 0\<rparr>"

definition with_sleep :: "u64 \<Rightarrow> stub_resolver \<Rightarrow> stub_resolver" where
  "with_sleep ms s = s\<lparr>sr_sleep_ms := ms\<rparr>"

definition lookup_count :: "stub_resolver \<Rightarrow> u64" where
  "lookup_count s = sr_lookups s"

definition stub_lookup_ip :: "stub_resolver lookup_ip" where
  "stub_lookup_ip s name = (sr_sleep_ms s, Some (sr_addrs s), s\<lparr>sr_lookups := sr_lookups s + 1\<rparr>)"

section \<open>Backends that count\<close>

locale counted_backend =
  fixes lookup :: "'b lookup_ip" and count :: "'b \<Rightarrow> u64"
  assumes counted: "lookup b name = (took, found, b1) \<Longrightarrow> count b1 = count b + 1"
begin

lemma hit_no_lookup:
  assumes "sys_resolve_name now k a = (Ret r, k1)"
  shows "resolve_await lookup now later k b a = (r, k1, b)"
  using assms by (simp add: resolve_await_def)

lemma miss_one_lookup:
  assumes "sys_resolve_name now k a = (Park rq, k1)" "resolve_await lookup now later k b a = (r, k2, b1)"
  shows "count b1 = count b + 1"
  using assms counted [of b "rq_node rq"] by (auto simp: resolve_await_def Let_def split: prod.splits)

end

interpretation stub: counted_backend stub_lookup_ip lookup_count
  by unfold_locales (auto simp: stub_lookup_ip_def lookup_count_def)

section \<open>One lookup per fresh name\<close>

lemma hit_answers:
  assumes "read_request (k_memory k) a = Inr rq" "cache_hit (k_resolver k) now (rq_node rq) = Some addrs"
  shows "\<exists>r k1. sys_resolve_name now k a = (Ret r, k1)"
  using assms by (simp add: sys_resolve_name_def split: prod.split)

text \<open>
  A name that was not in the cache is looked up once: a second request for it, while the entry is fresh, is answered without the
  backend, whatever else the request asks for and wherever it stands in memory.
\<close>

lemma resolved_once:
  assumes "sys_resolve_name t0 k a = (Park rq, k)" "sr_sleep_ms b \<le> rv_timeout_ms (k_resolver k)"
    and first: "resolve_await stub_lookup_ip t0 t1 k b a = (r1, k1, b1)"
    and same: "k_resolver k2 = k_resolver k1" "read_request (k_memory k2) a' = Inr rq'" "rq_node rq' = rq_node rq"
    and fresh: "rv_ttl_ms (k_resolver k) = 0 \<or> t2 - t1 < unat (rv_ttl_ms (k_resolver k)) * 1000000"
  shows "\<exists>r2 k3. resolve_await stub_lookup_ip t2 t3 k2 b1 a' = (r2, k3, b1) \<and> lookup_count b1 = lookup_count b + 1"
proof -
  let ?st = "cache_insert (k_resolver k) t1 (rq_node rq) (sr_addrs b)"
  have "k1 = snd (marshal_and_return (put_resolver k ?st) (sr_addrs b) rq (rv_denylist ?st))"
    using first assms(1,2)
    by (simp add: resolve_await_def stub_lookup_ip_def awaited_def resolve_resume_def Let_def put_resolver_def case_prod_beta leD)
  then have "k_resolver k1 = ?st" by (simp add: resolver_marshal put_resolver_def)
  then have "cache_hit (k_resolver k2) t2 (rq_node rq') = Some (sr_addrs b)"
    using same(1,3) cached_fresh [OF fresh] by simp
  from hit_answers [OF same(2) this] stub.hit_no_lookup stub.miss_one_lookup [OF assms(1) first] show ?thesis by blast
qed

end
