(* ===== verification/Spec2Isabelle.thy ===== *)
theory Spec2Isabelle
  imports Edge_Cli Fd_Adapters Fd_Refine Abi_Runs Resolver_Backend
begin

text \<open>
  Verification of edge-libos, a library operating system that runs WebAssembly guests compiled for Linux.  The guest
  imports one function, \<open>kernel.syscall(n, a1..a6)\<close>; \<^verbatim>\<open>src/src/dispatch.rs\<close> looks the number up and calls a handler
  of \<^verbatim>\<open>src/src/sys\<close> on the shared \<open>Kernel\<close> of \<^verbatim>\<open>src/src/kernel.rs\<close>.  A handler reads its arguments from the guest's
  linear memory (\<^verbatim>\<open>mem.rs\<close>), looks descriptors up in the descriptor table (\<^verbatim>\<open>fd.rs\<close>), routes paths through the
  preopen directory (\<^verbatim>\<open>vfs.rs\<close>, \<^verbatim>\<open>sys/path.rs\<close>), takes memory from the allocator (\<^verbatim>\<open>mm\<close>), asks the host for files,
  sockets and clocks, and returns an \<open>i64\<close>: a result, or a negated errno.  \<^verbatim>\<open>snapshot.rs\<close> turns a kernel with its
  memory into a file and back.  The command line (\<^verbatim>\<open>cli\<close>) runs, freezes, restores, measures, traces and migrates guests.

  \<^bold>\<open>How the model reads.\<close>  The kernel is the record \<open>kernel\<close> (\<open>Kernel_State\<close>), over an abstract host state \<open>'h\<close>.
  What the code shares through \<open>Arc\<close> is an index into a list of the kernel (open files, pipes, sockets), so that \<open>dup\<close> copies
  the index and aliasing is explicit; these lists only grow, where Rust drops an object with its last descriptor, so an entry that
  no descriptor refers to any more stands for a dropped object.  Event counters and epoll sets, which the code owns
  without sharing (\<open>dup\<close> refuses them), are part of the descriptor's resource itself (\<open>REventFd\<close>, \<open>REpoll\<close>).  A handler is a function from the kernel and six \<open>int\<close>
  arguments to the result and the new kernel.  \<open>Result<T, i64>\<close> is a sum with the error on the left.  Where a handler
  may not return, the result is an option: \<open>None\<close> is an endless search (\<open>dup\<close>, \<open>fcntl\<close>), a panic
  (\<open>utimensat\<close>) or, on the command line, a guest that never stops, and the properties say when it is \<open>Some\<close>.  A handler that awaits is cut at the await: it
  returns \<open>Ret\<close> with its result or \<open>Park\<close> with what it carries over the sleep, and a second function, called
  \<open>..._resume\<close>, is the code from there on, told what the outside answered.  Interleavings of several fibers are
  \<open>inductive\<close> step relations over these pieces.  Machine integers keep their width (\<open>u8\<close> to \<open>u64\<close> are words that wrap as
  in the release build; an \<open>i64\<close> is an \<open>int\<close> with its conversions written out; a \<open>usize\<close> is a \<open>nat\<close> that is tested
  against \<open>2 ^ 64\<close> where the code can overflow).  No definition uses fuel.

  \<^bold>\<open>Parameters.\<close>  \<open>std::fs\<close> is the record \<open>host_ops\<close> (\<open>Host\<close>); \<open>std::net\<close> and the socket options are \<open>net_ops\<close> and
  \<open>sock_ops\<close> (\<open>Net_Host\<close>); wasmtime's \<open>Memory::grow\<close> is the argument \<open>G\<close>, and
  its engine, modules and calls of a guest are the record \<open>wasm_ops\<close> (\<open>Wasm_Host\<close>); the postcard codec, SHA-256, the DNS
  backend, the host's clocks and the bytes of the random generator are arguments of the definitions that use them.
  \<open>Mem_Host\<close> is an in-memory file system on which the witnesses evaluate; it stands for no code.

  \<^bold>\<open>Theories, in the order of their dependencies.\<close>
  \<^item> \<open>Prelude\<close>, \<open>Errno\<close>: integer conversions, little-endian codecs, slices, \<open>errno.rs\<close>.
  \<^item> \<open>Block_Alloc\<close>, \<open>Arena\<close>, \<open>Linear_Allocator\<close> (\<^verbatim>\<open>mm/arena.rs\<close>, \<^verbatim>\<open>mm/mod.rs\<close>): best-fit arenas with coalescing and
    the allocator over them.  The locale \<open>block_allocator\<close> states the contract (a new block overlaps no live one, freeing
    keeps the invariant), both levels interpret it, and any run of \<open>mmap\<close> and \<open>munmap\<close> keeps live blocks disjoint and inside
    arenas and memory.
  \<^item> \<open>Guest_Mem\<close> (\<^verbatim>\<open>mem.rs\<close>): every slice is inside an owned linear memory or an error (\<open>-EINVAL\<close> on a shared one); writes are framed.
  \<^item> \<open>Paths\<close>, \<open>Vfs\<close>, \<open>Stat_Layout\<close>, \<open>Host\<close> (\<^verbatim>\<open>vfs.rs\<close>): path resolution stays below the root and equals a reference
    stack walk; \<open>stat\<close>, \<open>statx\<close> and directory records decode to what was encoded.
  \<^item> \<open>Fd_Table\<close> (\<^verbatim>\<open>fd.rs\<close>): the locale \<open>handle_table\<close> with its interpretation; when the search for a descriptor ends.
  \<^item> \<open>Kernel_State\<close> (\<^verbatim>\<open>kernel.rs\<close>, \<^verbatim>\<open>sys/path.rs\<close>) and the handlers on it: \<open>Eventfd\<close>, \<open>Sys_Fd\<close>, \<open>Sys_Memory\<close>, \<open>Sys_Rw\<close>,
    \<open>Sys_Path\<close> (\<^verbatim>\<open>sys/eventfd.rs\<close>, \<^verbatim>\<open>sys/memory.rs\<close>, \<^verbatim>\<open>sys/file.rs\<close>).  Pipes interpret the locale \<open>byte_queue\<close>: what is read
    and what is still stored is what was written, in order.
  \<^item> \<open>Sys_Process\<close>, \<open>Sys_Signal\<close>, \<open>Futex\<close> (\<^verbatim>\<open>sys/process.rs\<close>, \<^verbatim>\<open>sys/identity.rs\<close>, \<^verbatim>\<open>sys/signal.rs\<close>, \<^verbatim>\<open>sys/futex.rs\<close>):
    process ids are never reused, \<open>wait4\<close> reaps exactly the exited child, also when it slept while other calls ran, a wake never reports
    more fibers than sleep, but may miss one (a woken waiter is counted off twice).
  \<^item> \<open>Sys_Epoll\<close>, \<open>Sys_Poll\<close> (\<^verbatim>\<open>sys/epoll.rs\<close>, \<^verbatim>\<open>sys/poll.rs\<close>): registration refines an abstract interest map; what the
    waits report is the readiness of the watched descriptors.
  \<^item> \<open>Sys_Time\<close>, \<open>Sys_Misc\<close>, \<open>Resolver\<close> (\<^verbatim>\<open>sys/time.rs\<close>, \<^verbatim>\<open>sys/ioctl.rs\<close>, \<^verbatim>\<open>sys/random.rs\<close>, \<^verbatim>\<open>meter.rs\<close>,
    \<^verbatim>\<open>sys/resolver.rs\<close>): monotone clocks, the bounded name cache, results that decode to the addresses found.
  \<^item> \<open>Net_Host\<close>, \<open>Sys_Socket\<close>, \<open>Sys_Sendrecv\<close> (\<^verbatim>\<open>sys/socket.rs\<close>, \<^verbatim>\<open>sys/udp.rs\<close>): addresses survive \<open>bind\<close> and
    \<open>getsockname\<close>; a transfer takes the stream out of its socket and puts it back (locale \<open>transfer_call\<close>, interpreted
    by all four transfer calls), so no two fibers ever hold one stream.
  \<^item> \<open>Snapshot_Memory\<close>, \<open>Snapshot\<close> (\<^verbatim>\<open>snapshot.rs\<close>, \<^verbatim>\<open>snapshot/io.rs\<close>): a restored kernel without sockets has the same snapshot exactly when
    the host opens its files again; pages that were not all zero come back when the memory can grow; sharing between
    descriptors is lost.
  \<^item> \<open>Fd_Refine\<close>: an abstract map of descriptors and close-on-exec flags is implemented exactly by any sequence of \<open>close\<close>, \<open>dup\<close>,
    \<open>dup2\<close>, \<open>dup3\<close> and \<open>fcntl\<close> calls; two lemmas at its end show where the map differs from Linux.
  \<^item> \<open>Abi\<close>, \<open>Abi_Runs\<close>: the answer of every handler of the table, and of every piece of a waiting call, in a whole run from a started
    kernel is not negative or the negation of an errno constant.
  \<^item> \<open>Resolver_Backend\<close> (\<^verbatim>\<open>sys/resolver.rs\<close>): a whole \<open>resolve\<close> call over a backend; the locale \<open>counted_backend\<close>, interpreted by the
    stub resolver of the repository, gives that a name is looked up once while its cache entry is fresh.
  \<^item> \<open>Fd_Adapters\<close> (\<^verbatim>\<open>fd.rs\<close>): pipes as asynchronous readers and writers, a second interpretation of \<open>byte_queue\<close>.
  \<^item> \<open>Evolution\<close>, \<open>Async_Calls\<close>, \<open>Confinement\<close>, \<open>Dispatch\<close> (\<^verbatim>\<open>dispatch.rs\<close>): the dispatch table and its runs.  \<open>Evolution\<close> has,
    handler by handler, what no syscall undoes: files keep their paths, objects stay, descriptors refer to known objects.
    It gives confinement: any sequence of syscalls, interleaved with any pieces of the waiting ones (\<open>kruns\<close>), reaches the host's
    files only below the preopen directory.  \<open>bind\<close> and \<open>connect\<close> on Unix sockets and \<open>snapshot\<close> hand guest paths to the host
    unresolved; they are not part of these runs, and the findings of the development name them.  With them (\<open>kreach\<close>) the root, the
    working directory and the paths of open files still stay below the root the kernel started with.
  \<^item> \<open>Wasm_Host\<close> (\<^verbatim>\<open>kernel.rs\<close>, \<^verbatim>\<open>host.rs\<close>, \<^verbatim>\<open>meter.rs\<close>, \<^verbatim>\<open>sys/process.rs\<close>): constructors of kernels, listeners passed by the parent
    process, loading and calling modules, and a forked child on its own thread, which the parent's \<open>wait4\<close> always gets to see.
  \<^item> \<open>Cli_Args\<close>, \<open>Cli\<close>, \<open>Trace\<close> (\<^verbatim>\<open>cli\<close>, the observers of \<^verbatim>\<open>dispatch.rs\<close>): argument loops (locale \<open>argv_loop\<close>, interpreted by five
    subcommands), exit codes, and the subcommands themselves.  What \<open>freeze\<close> writes, \<open>serve\<close> restores; the command lines
    \<open>migrate\<close> builds are read back; observing a call changes nothing, and the exit code of \<open>trace --diff\<close> tells whether
    every syscall of the baseline was made.
  \<^item> \<open>Cli_Text\<close> (\<^verbatim>\<open>cli/usage.rs\<close>, \<^verbatim>\<open>cli/error.rs\<close>, \<^verbatim>\<open>cli/mod.rs\<close>, \<^verbatim>\<open>snapshot.rs\<close>): help and version, the \<open>Display\<close> of the two error types
    and the dispatcher with what it prints.  No error of a subcommand is silent, and the numbers and hashes in the messages can be
    read back.
  \<^item> \<open>Edge_Cli\<close> (\<^verbatim>\<open>cli/mod.rs\<close>, \<^verbatim>\<open>cli/migrate.rs\<close>, \<^verbatim>\<open>bin/edge_cli.rs\<close>): the whole program as a process.  \<open>migrate\<close> starts the program twice,
    and a guest that \<open>freeze\<close> could save is running again in the \<open>serve\<close> child, with its kernel and memory.

  \<^bold>\<open>Bounds.\<close>  The theorems about \<open>mmap\<close> assume linear memory strictly below \<open>2 ^ 32\<close> bytes; 32-bit WebAssembly allows exactly
  \<open>2 ^ 32\<close>, and there the allocator's high-water mark wraps and the next arena lies at address 0 (\<open>high_water_wraps\<close>).  \<open>Memory::grow\<close> is
  assumed to append zeroed pages when it succeeds, never to succeed.
  A descriptor search that wraps past \<open>2 ^ 32 - 1\<close> is modelled as such; \<open>fdt_room\<close> excludes it where a fresh descriptor is promised.

  \<^bold>\<open>Not modelled.\<close>  The configuration of the wasmtime engine (\<open>build_engine\<close>), the reports \<open>bench\<close>, \<open>serve\<close> and \<open>migrate\<close> print while they
  work, serde's encoding of the snapshot records (\<^verbatim>\<open>snapshot/endian.rs\<close>; the codec is the parameter \<open>postcard\<close>), the DNS client
  (\<open>TokioResolverBackend\<close> only calls hickory), and \<^verbatim>\<open>lib.rs\<close>, which only re-exports.  The texts of host errors inside messages
  are the parameter \<open>details\<close>.  The
  notifications a sleeping fiber waits on belong to tokio: the model says after which events a sleep may end, not that the
  scheduler runs the fiber.  The commands take the guest's run as one step of \<open>wasm_ops\<close>; which syscalls a run makes enters
  \<open>trace\<close> as the parameter \<open>calls\<close>.
\<close>

end
